(* ===== verification/JS_Prelude.thy ===== *)
theory JS_Prelude
  imports Main "HOL-Library.Multiset" "HOL-Library.Sublist" "HOL-Library.Code_Target_Nat"
begin

text \<open>
  The part of the JavaScript language and library that every component of the web console uses:
  strings, arrays used as lists or as ordered sets, and stable sorting.

  A JavaScript string is a sequence of 16-bit code units; it is modelled as a list of code units
  (\<open>jstring\<close>), and \<open>lit\<close> turns an ASCII literal into one, so that \<open>lit ''abc''\<close> is
  \<open>[97, 98, 99]\<close>. Non-ASCII literals of the source are written by their code units.

  The lemmas on \<open>trim\<close>, \<open>split\<close>, \<open>join\<close>, \<open>uniq\<close> and decimal printing are collected in
  \<open>jstr\<close>; \<open>js_sort\<close> is \<^verbatim>\<open>Array.prototype.sort\<close> (stable), and the locale \<open>comparator\<close> states
  what a comparison function has to promise for its result to be sorted.
\<close>

named_theorems jstr \<open>rewrite rules for the JavaScript string and array operations\<close>

type_synonym jstring = "nat list"

abbreviation lit :: "string \<Rightarrow> jstring" where
  "lit \<equiv> map of_char"

section \<open>Characters\<close>

text \<open>WhiteSpace and LineTerminator of ECMAScript: what \<^verbatim>\<open>trim\<close> removes and \<^verbatim>\<open>\s\<close> matches.\<close>

definition is_ws :: "nat \<Rightarrow> bool" where
  "is_ws c \<longleftrightarrow> (9 \<le> c \<and> c \<le> 13) \<or> c = 32 \<or> c = 160 \<or> c = 5760 \<or> (8192 \<le> c \<and> c \<le> 8202)
     \<or> c = 8232 \<or> c = 8233 \<or> c = 8239 \<or> c = 8287 \<or> c = 12288 \<or> c = 65279"

definition is_digit :: "nat \<Rightarrow> bool" where
  "is_digit c \<longleftrightarrow> 48 \<le> c \<and> c \<le> 57"

definition is_word :: "nat \<Rightarrow> bool" where
  "is_word c \<longleftrightarrow> (48 \<le> c \<and> c \<le> 57) \<or> (65 \<le> c \<and> c \<le> 90) \<or> c = 95 \<or> (97 \<le> c \<and> c \<le> 122)"

lemma is_digit_not_ws: "is_digit c \<Longrightarrow> \<not> is_ws c"
  by (auto simp: is_digit_def is_ws_def)

section \<open>Trimming\<close>

definition trim :: "jstring \<Rightarrow> jstring" where
  "trim s = rev (dropWhile is_ws (rev (dropWhile is_ws s)))"

definition trimmed :: "jstring \<Rightarrow> bool" where
  "trimmed s \<longleftrightarrow> s = [] \<or> (\<not> is_ws (hd s) \<and> \<not> is_ws (last s))"

lemma trim_Nil [simp, jstr]: "trim [] = []"
  by (simp add: trim_def)

lemma dropWhile_hd_id: "xs = [] \<or> \<not> P (hd xs) \<Longrightarrow> dropWhile P xs = xs"
  by (cases xs) auto

lemma trim_trimmed [jstr]: "trimmed s \<Longrightarrow> trim s = s"
  by (auto simp: trim_def trimmed_def dropWhile_hd_id hd_rev)

lemma dropWhile_last: "dropWhile P xs \<noteq> [] \<Longrightarrow> last (dropWhile P xs) = last xs"
  by (induction xs) auto

lemma trimmed_trim [simp, jstr]: "trimmed (trim s)"
proof (cases "trim s = []")
  case True
  then show ?thesis by (simp add: trimmed_def)
next
  case False
  let ?d = "dropWhile is_ws s" and ?r = "dropWhile is_ws (rev (dropWhile is_ws s))"
  from False have r: "?r \<noteq> []" by (simp add: trim_def)
  then have d: "?d \<noteq> []" by (metis dropWhile.simps(1) rev.simps(1))
  have "\<not> is_ws (last (trim s))"
    using r hd_dropWhile [OF r] by (simp add: trim_def last_rev)
  moreover have "hd (trim s) = last ?r"
    using r by (simp add: trim_def hd_rev)
  moreover have "last ?r = hd ?d"
    using dropWhile_last [OF r] d by (simp add: last_rev)
  moreover have "\<not> is_ws (hd ?d)"
    using hd_dropWhile [OF d] .
  ultimately show ?thesis by (simp add: trimmed_def)
qed

lemma trim_idem [simp, jstr]: "trim (trim s) = trim s"
  by (simp add: trim_trimmed)

lemma trimmed_no_ws: "(\<And>c. c \<in> set s \<Longrightarrow> \<not> is_ws c) \<Longrightarrow> trimmed s"
  by (auto simp: trimmed_def)

lemma trim_no_ws [jstr]: "(\<And>c. c \<in> set s \<Longrightarrow> \<not> is_ws c) \<Longrightarrow> trim s = s"
  by (rule trim_trimmed) (rule trimmed_no_ws)

lemma set_trim: "set (trim s) \<subseteq> set s"
  unfolding trim_def by (metis set_dropWhileD set_rev subset_iff)

lemma trim_eq_Nil_iff: "trim s = [] \<longleftrightarrow> (\<forall>c \<in> set s. is_ws c)"
proof
  assume "trim s = []"
  then have "dropWhile is_ws (rev (dropWhile is_ws s)) = []"
    by (simp add: trim_def)
  then have "\<forall>c \<in> set (dropWhile is_ws s). is_ws c"
    by (metis dropWhile_eq_Nil_conv set_rev)
  then show "\<forall>c \<in> set s. is_ws c"
    by (metis dropWhile_eq_Nil_conv hd_dropWhile list.set_sel(1))
next
  assume "\<forall>c \<in> set s. is_ws c"
  then have d: "dropWhile is_ws s = []" by (metis dropWhile_eq_Nil_conv)
  show "trim s = []" unfolding trim_def d by simp
qed

section \<open>Searching, slicing, splitting and joining\<close>

definition starts_with :: "jstring \<Rightarrow> jstring \<Rightarrow> bool" where
  "starts_with s p \<longleftrightarrow> take (length p) s = p"

definition ends_with :: "jstring \<Rightarrow> jstring \<Rightarrow> bool" where
  "ends_with s p \<longleftrightarrow> length p \<le> length s \<and> drop (length s - length p) s = p"

text \<open>\<open>find_sub p s\<close> is \<^verbatim>\<open>s.indexOf(p)\<close>, with \<^verbatim>\<open>-1\<close> as \<open>None\<close>.\<close>

fun find_sub :: "jstring \<Rightarrow> jstring \<Rightarrow> nat option" where
  "find_sub p s =
     (if starts_with s p then Some 0
      else case s of [] \<Rightarrow> None | _ # t \<Rightarrow> map_option Suc (find_sub p t))"

declare find_sub.simps [simp del]

definition includes_str :: "jstring \<Rightarrow> jstring \<Rightarrow> bool" where
  "includes_str s p \<longleftrightarrow> find_sub p s \<noteq> None"

lemma starts_with_append [simp, jstr]: "starts_with (p @ s) p"
  by (simp add: starts_with_def)

lemma starts_with_iff: "starts_with s p \<longleftrightarrow> (\<exists>r. s = p @ r)"
  by (metis append_take_drop_id starts_with_def append_eq_conv_conj)

lemma find_sub_Some:
  "find_sub p s = Some n \<Longrightarrow> s = take n s @ p @ drop (n + length p) s \<and> n + length p \<le> length s"
proof (induction s arbitrary: n)
  case Nil
  then show ?case by (simp add: find_sub.simps [of p "[]"] starts_with_iff split: if_splits)
next
  case (Cons c t)
  show ?case
  proof (cases "starts_with (c # t) p")
    case True
    then obtain r where r: "c # t = p @ r" by (auto simp: starts_with_iff)
    from True Cons.prems have "n = 0" by (simp add: find_sub.simps [of p "c # t"])
    then show ?thesis by (simp add: r)
  next
    case False
    then obtain m where m: "find_sub p t = Some m" and n: "n = Suc m"
      using Cons.prems by (auto simp: find_sub.simps [of p "c # t"])
    from Cons.IH [OF m] n show ?thesis by simp
  qed
qed

lemma find_sub_append_ex: "\<exists>n \<le> length x. find_sub p (x @ p @ y) = Some n"
proof (induction x)
  case Nil
  then show ?case by (simp add: find_sub.simps [of p "p @ y"])
next
  case (Cons c x)
  then show ?case by (auto simp: find_sub.simps [of p "c # x @ p @ y"])
qed

lemma includes_str_iff: "includes_str s p \<longleftrightarrow> (\<exists>x y. s = x @ p @ y)"
  using find_sub_Some find_sub_append_ex unfolding includes_str_def
  by (metis option.distinct(1) option.exhaust)

lemma includes_str_mid [simp]: "includes_str (x @ p @ y) p"
  by (auto simp: includes_str_iff)

text \<open>
  A pattern whose first character does not occur again in it cannot overlap itself, so its first
  occurrence in \<open>x @ p @ y\<close> is the one after \<open>x\<close> when \<open>x\<close> has none.
\<close>

lemma starts_with_overlap:
  assumes "p \<noteq> []" and "hd p \<notin> set (tl p)" and "x \<noteq> []" and "starts_with (x @ p @ y) p"
  shows "includes_str x p"
proof (cases "length p \<le> length x")
  case True
  with assms(4) have "take (length p) x = p" by (simp add: starts_with_def)
  then have "x = [] @ p @ drop (length p) x" by (metis append_Nil append_take_drop_id)
  then show ?thesis using includes_str_iff by blast
next
  case False
  then have len: "length x < length p" by simp
  from assms(4) have "take (length p) (x @ p @ y) = p" by (simp add: starts_with_def)
  then have "p ! length x = (x @ p @ y) ! length x" using len by (metis nth_take)
  then have "p ! length x = hd p" using assms(1) by (simp add: nth_append hd_conv_nth)
  moreover have "p ! length x = tl p ! (length x - 1)"
    using len assms(3) by (cases p) (auto simp: nth_Cons split: nat.split)
  moreover have "length x - 1 < length (tl p)" using len assms(3) by (cases x) auto
  ultimately show ?thesis using assms(2) by (metis nth_mem)
qed

lemma find_sub_first:
  assumes "p \<noteq> []" and "hd p \<notin> set (tl p)" and "\<not> includes_str x p"
  shows "find_sub p (x @ p @ y) = Some (length x)"
  using assms(3)
proof (induction x)
  case Nil
  then show ?case by (simp add: find_sub.simps [of p "p @ y"])
next
  case (Cons c x)
  have "\<not> starts_with ((c # x) @ p @ y) p"
    using starts_with_overlap [OF assms(1,2), of "c # x" y] Cons.prems by blast
  moreover have "\<not> includes_str x p"
    using Cons.prems by (metis append_Cons includes_str_iff)
  ultimately show ?case
    using Cons.IH by (simp add: find_sub.simps [of p "c # x @ p @ y"])
qed

text \<open>\<^verbatim>\<open>s.split(d)\<close> for a one-character separator, and \<^verbatim>\<open>xs.join(sep)\<close>.\<close>

fun split1 :: "nat \<Rightarrow> jstring \<Rightarrow> jstring list" where
  "split1 d [] = [[]]"
| "split1 d (c # cs) =
     (if c = d then [] # split1 d cs
      else (case split1 d cs of [] \<Rightarrow> [[c]] | w # ws \<Rightarrow> (c # w) # ws))"

fun join :: "jstring \<Rightarrow> jstring list \<Rightarrow> jstring" where
  "join sep [] = []"
| "join sep [x] = x"
| "join sep (x # y # ys) = x @ sep @ join sep (y # ys)"

lemma split1_not_Nil [simp]: "split1 d s \<noteq> []"
  by (induction s) (auto split: list.splits)

lemma split1_no_sep [jstr]: "d \<notin> set s \<Longrightarrow> split1 d s = [s]"
  by (induction s) auto

lemma split1_append_sep [jstr]: "d \<notin> set x \<Longrightarrow> split1 d (x @ d # s) = x # split1 d s"
  by (induction x) auto

lemma join_split1 [jstr]: "join [d] (split1 d s) = s"
proof (induction s)
  case Nil
  then show ?case by simp
next
  case (Cons c s)
  then show ?case
    by (cases "split1 d s"; cases "tl (split1 d s)") (auto simp: neq_Nil_conv)
qed

lemma split1_join [jstr]:
  "xs \<noteq> [] \<Longrightarrow> \<forall>x \<in> set xs. d \<notin> set x \<Longrightarrow> split1 d (join [d] xs) = xs"
  by (induction "[d]" xs rule: join.induct) (auto simp: split1_no_sep split1_append_sep)

lemma split1_part_no_sep: "x \<in> set (split1 d s) \<Longrightarrow> d \<notin> set x"
  by (induction s arbitrary: x) (auto split: if_splits list.splits)

lemma split1_part_subset: "x \<in> set (split1 d s) \<Longrightarrow> set x \<subseteq> set s"
  by (induction s arbitrary: x) (fastforce split: if_splits list.splits)+

lemma join_eq_Nil: "\<forall>x \<in> set xs. x \<noteq> [] \<Longrightarrow> join sep xs = [] \<longleftrightarrow> xs = []"
  by (induction sep xs rule: join.induct) auto

lemma join_append:
  "xs \<noteq> [] \<Longrightarrow> ys \<noteq> [] \<Longrightarrow> join sep (xs @ ys) = join sep xs @ sep @ join sep ys"
proof (induction sep xs rule: join.induct)
  case (2 sep x)
  then show ?case by (cases ys) auto
qed auto

lemma set_join: "set (join sep xs) \<subseteq> set sep \<union> (\<Union>x \<in> set xs. set x)"
  by (induction sep xs rule: join.induct) auto

text \<open>\<^verbatim>\<open>s.split(d).map(x => x.trim()).filter(Boolean)\<close>, which many components use on lists.\<close>

definition split_trim :: "nat \<Rightarrow> jstring \<Rightarrow> jstring list" where
  "split_trim d s = filter (\<lambda>w. w \<noteq> []) (map trim (split1 d s))"

lemma split_trim_Nil [simp, jstr]: "split_trim d [] = []"
  by (simp add: split_trim_def)

lemma split_trim_parts:
  "w \<in> set (split_trim d s) \<Longrightarrow> w \<noteq> [] \<and> trimmed w \<and> d \<notin> set w"
  using split1_part_no_sep [of _ d s] set_trim by (fastforce simp: split_trim_def)

lemma filter_id: "\<forall>x \<in> set xs. P x \<Longrightarrow> filter P xs = xs"
  by (induction xs) auto

lemma split_trim_join [jstr]:
  assumes "\<forall>w \<in> set ws. w \<noteq> [] \<and> trimmed w \<and> d \<notin> set w"
  shows "split_trim d (join [d] ws) = ws"
proof (cases "ws = []")
  case True
  then show ?thesis by simp
next
  case False
  from assms have "map trim ws = ws" by (induction ws) (auto simp: trim_trimmed)
  then show ?thesis
    using assms False by (simp add: split_trim_def split1_join filter_id)
qed

text \<open>
  The interface of a separated list: how one token is printed and read back. Its client is the
  list itself, printed with \<^verbatim>\<open>join\<close> and read with \<^verbatim>\<open>split\<close>, \<^verbatim>\<open>trim\<close> and \<^verbatim>\<open>filter\<close>.
\<close>

locale list_codec =
  fixes sep :: nat
    and pr :: "'a \<Rightarrow> jstring"
    and rd :: "jstring \<Rightarrow> 'a option"
    and ok :: "'a \<Rightarrow> bool"
  assumes pr_token: "ok x \<Longrightarrow> pr x \<noteq> [] \<and> trimmed (pr x) \<and> sep \<notin> set (pr x)"
    and rd_pr: "ok x \<Longrightarrow> rd (pr x) = Some x"
begin

lemma split_trim_print: "\<forall>x \<in> set xs. ok x \<Longrightarrow> split_trim sep (join [sep] (map pr xs)) = map pr xs"
  by (rule split_trim_join) (use pr_token in auto)

lemma read_print_list:
  "\<forall>x \<in> set xs. ok x \<Longrightarrow> map rd (split_trim sep (join [sep] (map pr xs))) = map Some xs"
  by (simp add: split_trim_print rd_pr)

lemma print_inj:
  "\<forall>x \<in> set xs. ok x \<Longrightarrow> \<forall>y \<in> set ys. ok y \<Longrightarrow>
   join [sep] (map pr xs) = join [sep] (map pr ys) \<Longrightarrow> xs = ys"
  by (metis list.inj_map_strong option.inject read_print_list)

end

section \<open>Ordered sets: \<^verbatim>\<open>Array.from(new Set(xs))\<close>\<close>

fun uniq :: "'a list \<Rightarrow> 'a list" where
  "uniq [] = []"
| "uniq (x # xs) = x # filter (\<lambda>y. y \<noteq> x) (uniq xs)"

lemma set_uniq [simp, jstr]: "set (uniq xs) = set xs"
  by (induction xs) auto

lemma distinct_uniq [simp, jstr]: "distinct (uniq xs)"
  by (induction xs) auto

lemma uniq_distinct [jstr]: "distinct xs \<Longrightarrow> uniq xs = xs"
  by (induction xs) (auto intro: filter_id)

lemma uniq_idem [simp, jstr]: "uniq (uniq xs) = uniq xs"
  by (simp add: uniq_distinct)

lemma uniq_eq_Nil [simp, jstr]: "uniq xs = [] \<longleftrightarrow> xs = []"
  by (cases xs) auto

lemma length_uniq: "length (uniq xs) \<le> length xs"
  by (induction xs) (auto intro: le_trans [OF length_filter_le])

lemma uniq_filter: "uniq (filter P xs) = filter P (uniq xs)"
  by (induction xs) (auto simp: conj_commute intro: filter_cong)

lemma uniq_append: "uniq (xs @ ys) = uniq xs @ filter (\<lambda>y. y \<notin> set xs) (uniq ys)"
  by (induction xs) (auto simp: conj_commute intro: filter_cong)

section \<open>Stable sorting: \<^verbatim>\<open>xs.sort(cmp)\<close>\<close>

text \<open>
  \<^verbatim>\<open>Array.prototype.sort\<close> is stable; its result is fixed by the comparison function when that
  function is consistent, which is what the locale \<open>comparator\<close> asks of it.
\<close>

fun insort_cmp :: "('a \<Rightarrow> 'a \<Rightarrow> int) \<Rightarrow> 'a \<Rightarrow> 'a list \<Rightarrow> 'a list" where
  "insort_cmp cmp x [] = [x]"
| "insort_cmp cmp x (y # ys) = (if cmp x y \<le> 0 then x # y # ys else y # insort_cmp cmp x ys)"

definition js_sort :: "('a \<Rightarrow> 'a \<Rightarrow> int) \<Rightarrow> 'a list \<Rightarrow> 'a list" where
  "js_sort cmp xs = foldr (insort_cmp cmp) xs []"

lemma mset_insort_cmp [simp]: "mset (insort_cmp cmp x xs) = add_mset x (mset xs)"
  by (induction xs) auto

lemma js_sort_Nil [simp]: "js_sort cmp [] = []"
  and js_sort_Cons [simp]: "js_sort cmp (x # xs) = insort_cmp cmp x (js_sort cmp xs)"
  by (simp_all add: js_sort_def)

lemma mset_js_sort [simp, jstr]: "mset (js_sort cmp xs) = mset xs"
  by (induction xs) auto

lemma set_js_sort [simp, jstr]: "set (js_sort cmp xs) = set xs"
  using mset_js_sort by (rule mset_eq_setD)

lemma length_js_sort [simp, jstr]: "length (js_sort cmp xs) = length xs"
  using mset_js_sort by (rule mset_eq_length)

lemma set_insort_cmp [simp]: "set (insort_cmp cmp x xs) = insert x (set xs)"
  by (induction xs) auto

locale comparator =
  fixes cmp :: "'a \<Rightarrow> 'a \<Rightarrow> int"
  assumes cmp_swap: "sgn (cmp y x) = - sgn (cmp x y)"
    and cmp_trans: "cmp x y \<le> 0 \<Longrightarrow> cmp y z \<le> 0 \<Longrightarrow> cmp x z \<le> 0"
begin

lemma cmp_total: "\<not> cmp x y \<le> 0 \<Longrightarrow> cmp y x \<le> 0"
  using cmp_swap [of x y] by (simp add: sgn_if split: if_splits)

lemma cmp_refl: "cmp x x = 0"
  using cmp_swap [of x x] by (simp add: sgn_if split: if_splits)

lemma cmp_zero_sym: "cmp x y = 0 \<Longrightarrow> cmp y x = 0"
  using cmp_swap [of x y] by (simp add: sgn_if split: if_splits)

lemma cmp_zero_le: "cmp x y = 0 \<longleftrightarrow> cmp x y \<le> 0 \<and> cmp y x \<le> 0"
  using cmp_swap [of x y] by (auto simp: sgn_if split: if_splits)

lemma sorted_insort:
  "sorted_wrt (\<lambda>a b. cmp a b \<le> 0) xs \<Longrightarrow> sorted_wrt (\<lambda>a b. cmp a b \<le> 0) (insort_cmp cmp x xs)"
proof (induction xs)
  case Nil
  then show ?case by simp
next
  case (Cons y ys)
  show ?case
  proof (cases "cmp x y \<le> 0")
    case True
    with Cons.prems show ?thesis by (auto intro: cmp_trans)
  next
    case False
    with Cons show ?thesis by (auto dest: cmp_total)
  qed
qed

lemma sorted_sort: "sorted_wrt (\<lambda>a b. cmp a b \<le> 0) (js_sort cmp xs)"
  by (induction xs) (auto intro: sorted_insort)

text \<open>Elements that compare equal keep their relative order.\<close>

lemma insort_stable:
  "sorted_wrt (\<lambda>a b. cmp a b \<le> 0) xs \<Longrightarrow>
   filter (\<lambda>y. cmp k y = 0) (insort_cmp cmp x xs) =
     (if cmp k x = 0 then x # filter (\<lambda>y. cmp k y = 0) xs else filter (\<lambda>y. cmp k y = 0) xs)"
proof (induction xs)
  case Nil
  then show ?case by simp
next
  case (Cons y ys)
  have "\<not> cmp x y \<le> 0 \<Longrightarrow> cmp k x = 0 \<Longrightarrow> cmp k y \<noteq> 0"
    by (metis cmp_trans cmp_zero_le)
  with Cons show ?case by auto
qed

lemma sort_stable: "filter (\<lambda>y. cmp k y = 0) (js_sort cmp xs) = filter (\<lambda>y. cmp k y = 0) xs"
  by (induction xs) (simp_all add: insort_stable [OF sorted_sort])

lemma insort_sorted_id:
  "(\<forall>y \<in> set ys. cmp x y \<le> 0) \<Longrightarrow> insort_cmp cmp x ys = x # ys"
  by (cases ys) auto

lemma sort_sorted_id: "sorted_wrt (\<lambda>a b. cmp a b \<le> 0) xs \<Longrightarrow> js_sort cmp xs = xs"
  by (induction xs) (auto simp: insort_sorted_id)

end

text \<open>\<^verbatim>\<open>xs.sort()\<close> compares strings by their code units.\<close>

fun str_cmp :: "jstring \<Rightarrow> jstring \<Rightarrow> int" where
  "str_cmp [] [] = 0"
| "str_cmp [] (_ # _) = - 1"
| "str_cmp (_ # _) [] = 1"
| "str_cmp (a # s) (b # t) = (if a < b then - 1 else if b < a then 1 else str_cmp s t)"

lemma str_cmp_swap: "str_cmp t s = - str_cmp s t"
  by (induction s t rule: str_cmp.induct) auto

lemma str_cmp_trans: "str_cmp s t \<le> 0 \<Longrightarrow> str_cmp t u \<le> 0 \<Longrightarrow> str_cmp s u \<le> 0"
proof (induction s arbitrary: t u)
  case Nil
  then show ?case by (cases u) simp_all
next
  case (Cons a s)
  from Cons.prems obtain b t' where t: "t = b # t'" by (cases t) simp_all
  from Cons.prems t obtain c u' where u: "u = c # u'" by (cases u) simp_all
  from Cons.prems have ab: "a < b \<or> a = b \<and> str_cmp s t' \<le> 0" by (simp add: t split: if_splits)
  from Cons.prems have bc: "b < c \<or> b = c \<and> str_cmp t' u' \<le> 0" by (simp add: t u split: if_splits)
  from ab bc have "a < c \<or> a = c \<and> str_cmp s u' \<le> 0" using Cons.IH [of t' u'] by auto
  then show ?case by (auto simp: u)
qed

lemma str_cmp_0: "str_cmp s t = 0 \<longleftrightarrow> s = t"
  by (induction s t rule: str_cmp.induct) auto

interpretation sc: comparator str_cmp
proof
  show "sgn (str_cmp y x) = - sgn (str_cmp x y)" for x y
    by (subst str_cmp_swap) (simp only: sgn_minus)
qed (rule str_cmp_trans)

section \<open>Decimal numerals\<close>

text \<open>\<open>nat_str\<close> and \<open>int_str\<close> print an integer in decimal, \<open>digits_val\<close> reads a digit string.\<close>

fun nat_str :: "nat \<Rightarrow> jstring" where
  "nat_str n = (if n < 10 then [48 + n] else nat_str (n div 10) @ [48 + n mod 10])"

declare nat_str.simps [simp del]

definition int_str :: "int \<Rightarrow> jstring" where
  "int_str i = (if i < 0 then 45 # nat_str (nat (- i)) else nat_str (nat i))"

definition digits_val :: "jstring \<Rightarrow> nat" where
  "digits_val s = foldl (\<lambda>a c. 10 * a + (c - 48)) 0 s"

lemma digits_val_snoc: "digits_val (s @ [c]) = 10 * digits_val s + (c - 48)"
  by (simp add: digits_val_def)

lemma digits_val_nat_str [simp, jstr]: "digits_val (nat_str n) = n"
proof (induction n rule: nat_str.induct)
  case (1 n)
  then show ?case
    by (cases "n < 10")
      (simp_all add: nat_str.simps [of n] digits_val_snoc, simp add: digits_val_def)
qed

lemma nat_str_not_Nil [simp, jstr]: "nat_str n \<noteq> []"
  by (subst nat_str.simps) simp

lemma nat_str_digits: "c \<in> set (nat_str n) \<Longrightarrow> is_digit c"
proof (induction n arbitrary: c rule: nat_str.induct)
  case (1 n)
  then show ?case
    by (cases "n < 10") (auto simp: nat_str.simps [of n] is_digit_def)
qed

lemma nat_str_inj [simp]: "nat_str m = nat_str n \<longleftrightarrow> m = n"
  by (metis digits_val_nat_str)

lemma trim_nat_str [simp, jstr]: "trim (nat_str n) = nat_str n"
  by (rule trim_no_ws) (auto dest: nat_str_digits is_digit_not_ws)

end
