(* ===== verification/Http_Status_Code_Rules.thy ===== *)
theory Http_Status_Code_Rules
  imports JS_Prelude
begin

text \<open>
  The rule language of automatic-disable and retry settings (\<^verbatim>\<open>lib/http-status-code-rules.ts\<close>):
  a comma separated list of HTTP status codes and ranges is parsed, validated, merged into
  disjoint ranges and printed back. A token is read after all white space in it is removed;
  codes are the natural numbers that \<^verbatim>\<open>Number.parseInt\<close> reads (a code above 599 is rejected
  whatever its size, so no rounding of large numbers can be observed).
\<close>

record status_code_range =
  r_start :: nat
  r_end :: nat

record parsed_rules =
  rules_ok :: bool
  ranges :: "status_code_range list"
  tokens :: "jstring list"
  normalized :: jstring
  invalidTokens :: "jstring list"

section \<open>Tokens\<close>

definition isNumber :: "jstring \<Rightarrow> bool" where
  "isNumber s \<longleftrightarrow> s \<noteq> [] \<and> list_all is_digit s"

definition isValidCode :: "nat \<Rightarrow> bool" where
  "isValidCode code \<longleftrightarrow> 100 \<le> code \<and> code \<le> 599"

text \<open>
  \<^verbatim>\<open>const [a, b] = cleaned.split('-')\<close> takes the first two parts and ignores the others.
\<close>

definition parseToken :: "jstring \<Rightarrow> status_code_range option" where
  "parseToken token =
     (let cleaned = filter (\<lambda>c. \<not> is_ws c) (trim token) in
      if cleaned = [] then None
      else if 45 \<in> set cleaned then
        (case split1 45 cleaned of
           a # b # _ \<Rightarrow>
             if \<not> isNumber a \<or> \<not> isNumber b then None
             else
               let s = digits_val a; e = digits_val b in
               if \<not> isValidCode s \<or> \<not> isValidCode e \<or> s > e then None
               else Some \<lparr>r_start = s, r_end = e\<rparr>
         | _ \<Rightarrow> None)
      else if \<not> isNumber cleaned then None
      else
        let code = digits_val cleaned in
        if \<not> isValidCode code then None else Some \<lparr>r_start = code, r_end = code\<rparr>)"

definition print_range :: "status_code_range \<Rightarrow> jstring" where
  "print_range r =
     (if r_start r = r_end r then nat_str (r_start r)
      else nat_str (r_start r) @ lit ''-'' @ nat_str (r_end r))"

section \<open>Merging\<close>

definition cmp_range :: "status_code_range \<Rightarrow> status_code_range \<Rightarrow> int" where
  "cmp_range a b =
     (if r_start a \<noteq> r_start b then int (r_start a) - int (r_start b)
      else int (r_end a) - int (r_end b))"

text \<open>
  One step of the \<^verbatim>\<open>reduce\<close>: the last merged range is extended in place (it is a copy, made
  when it was pushed), or a copy of the current range is pushed.
\<close>

definition merge_step :: "status_code_range list \<Rightarrow> status_code_range \<Rightarrow> status_code_range list" where
  "merge_step merged cur =
     (if merged = [] \<or> r_start cur > r_end (last merged) + 1 then merged @ [cur]
      else butlast merged @ [(last merged)\<lparr>r_end := max (r_end (last merged)) (r_end cur)\<rparr>])"

definition mergeRanges :: "status_code_range list \<Rightarrow> status_code_range list" where
  "mergeRanges rs = (if rs = [] then [] else foldl merge_step [] (js_sort cmp_range rs))"

section \<open>The parser\<close>

definition segments_of :: "jstring \<Rightarrow> jstring list" where
  "segments_of raw = split_trim 44 (map (\<lambda>c. if c = 0xFF0C then 44 else c) raw)"

text \<open>
  The argument is \<^verbatim>\<open>unknown\<close> in the source; strings, \<^verbatim>\<open>null\<close> and \<^verbatim>\<open>undefined\<close> (\<open>None\<close>) are covered.
\<close>

definition parseHttpStatusCodeRules :: "jstring option \<Rightarrow> parsed_rules" where
  "parseHttpStatusCodeRules input =
     (let raw = trim (case input of None \<Rightarrow> [] | Some s \<Rightarrow> s) in
      if raw = [] then
        \<lparr>rules_ok = True, ranges = [], tokens = [], normalized = [], invalidTokens = []\<rparr>
      else
        let segments = segments_of raw;
            rs = List.map_filter parseToken segments;
            bad = filter (\<lambda>s. parseToken s = None) segments in
        if bad \<noteq> [] then
          \<lparr>rules_ok = False, ranges = [], tokens = [], normalized = raw, invalidTokens = bad\<rparr>
        else
          let merged = mergeRanges rs;
              toks = map print_range merged in
          \<lparr>rules_ok = True, ranges = merged, tokens = toks, normalized = join (lit '','') toks,
           invalidTokens = []\<rparr>)"

section \<open>What a list of ranges means\<close>

definition codes :: "status_code_range list \<Rightarrow> nat set" where
  "codes rs = (\<Union>r \<in> set rs. {r_start r .. r_end r})"

definition wf_range :: "status_code_range \<Rightarrow> bool" where
  "wf_range r \<longleftrightarrow> 100 \<le> r_start r \<and> r_start r \<le> r_end r \<and> r_end r \<le> 599"

text \<open>Canonical: ascending, and no two neighbours overlap or touch.\<close>

definition canonical :: "status_code_range list \<Rightarrow> bool" where
  "canonical rs \<longleftrightarrow> sorted_wrt (\<lambda>a b. r_end a + 1 < r_start b) rs"

section \<open>Sorting the ranges\<close>

interpretation rc: comparator cmp_range
  by unfold_locales (auto simp: cmp_range_def sgn_if split: if_splits)

lemma sorted_start: "sorted_wrt (\<lambda>a b. r_start a \<le> r_start b) (js_sort cmp_range rs)"
  by (rule sorted_wrt_mono_rel [OF _ rc.sorted_sort]) (auto simp: cmp_range_def split: if_splits)

section \<open>The merging loop\<close>

lemma codes_append: "codes (xs @ ys) = codes xs \<union> codes ys"
  by (auto simp: codes_def)

lemma codes_snoc_eq: "xs \<noteq> [] \<Longrightarrow> codes xs = codes (butlast xs) \<union> {r_start (last xs) .. r_end (last xs)}"
  by (metis append_butlast_last_id codes_append codes_def UN_insert UN_empty list.set(1,2) Un_empty_right)

lemma codes_merge_step:
  assumes "merged \<noteq> [] \<Longrightarrow> r_start (last merged) \<le> r_start cur"
    and "\<forall>r \<in> set merged. r_start r \<le> r_end r" and "r_start cur \<le> r_end cur"
  shows "codes (merge_step merged cur) = codes merged \<union> {r_start cur .. r_end cur}"
proof (cases "merged = [] \<or> r_start cur > r_end (last merged) + 1")
  case True
  then show ?thesis by (auto simp: merge_step_def codes_append codes_def)
next
  case False
  let ?l = "last merged"
  from False assms(2) have "r_start ?l \<le> r_end ?l" by simp
  with False assms(1,3)
  have "{r_start ?l .. max (r_end ?l) (r_end cur)} = {r_start ?l .. r_end ?l} \<union> {r_start cur .. r_end cur}"
    by auto
  with False show ?thesis
    by (simp add: merge_step_def codes_append codes_snoc_eq [of merged]) (auto simp: codes_def)
qed

text \<open>The invariant of the loop, and that each step keeps it.\<close>

definition merge_inv :: "status_code_range list \<Rightarrow> bool" where
  "merge_inv merged \<longleftrightarrow> canonical merged \<and> (\<forall>r \<in> set merged. r_start r \<le> r_end r)"

lemma merge_step_inv:
  assumes inv: "merge_inv merged"
    and le: "merged \<noteq> [] \<Longrightarrow> r_start (last merged) \<le> r_start cur" and wf: "r_start cur \<le> r_end cur"
  shows "merge_inv (merge_step merged cur)" and "r_start (last (merge_step merged cur)) \<le> r_start cur"
proof -
  show "merge_inv (merge_step merged cur)"
  proof (cases merged rule: rev_cases)
    case Nil
    with wf show ?thesis by (simp add: merge_inv_def merge_step_def canonical_def)
  next
    case (snoc xs l)
    from inv snoc have xs: "\<forall>x \<in> set xs. r_end x + 1 < r_start l" "r_start l \<le> r_end l"
      by (auto simp: merge_inv_def canonical_def sorted_wrt_append)
    with inv snoc wf show ?thesis
      by (fastforce simp: merge_inv_def merge_step_def canonical_def sorted_wrt_append)
  qed
  show "r_start (last (merge_step merged cur)) \<le> r_start cur"
    using le by (auto simp: merge_step_def)
qed

lemma merge_loop:
  assumes "merge_inv merged" and "sorted_wrt (\<lambda>a b. r_start a \<le> r_start b) rs"
    and "merged \<noteq> [] \<Longrightarrow> \<forall>r \<in> set rs. r_start (last merged) \<le> r_start r"
    and "\<forall>r \<in> set rs. r_start r \<le> r_end r"
  shows "merge_inv (foldl merge_step merged rs) \<and> codes (foldl merge_step merged rs) = codes merged \<union> codes rs"
  using assms
proof (induction rs arbitrary: merged)
  case Nil
  then show ?case by (simp add: codes_def)
next
  case (Cons r rs)
  have le: "merged \<noteq> [] \<Longrightarrow> r_start (last merged) \<le> r_start r" and wf: "r_start r \<le> r_end r"
    using Cons.prems by auto
  note step = merge_step_inv [OF Cons.prems(1) le wf]
  have "\<forall>x \<in> set rs. r_start (last (merge_step merged r)) \<le> r_start x"
    using step(2) Cons.prems(2) by fastforce
  with Cons.IH [of "merge_step merged r"] step(1) Cons.prems(2,4)
  have "merge_inv (foldl merge_step (merge_step merged r) rs) \<and>
        codes (foldl merge_step (merge_step merged r) rs) = codes (merge_step merged r) \<union> codes rs"
    by simp
  moreover have "codes (merge_step merged r) = codes merged \<union> {r_start r .. r_end r}"
    using codes_merge_step [of merged r] le wf Cons.prems(1) by (simp add: merge_inv_def)
  ultimately show ?case by (auto simp: codes_def)
qed

lemma mergeRanges_inv:
  assumes "\<forall>r \<in> set rs. r_start r \<le> r_end r"
  shows "merge_inv (mergeRanges rs)" and "codes (mergeRanges rs) = codes rs"
  using merge_loop [of "[]" "js_sort cmp_range rs"] sorted_start [of rs] assms
  by (auto simp: mergeRanges_def merge_inv_def canonical_def codes_def)

lemma wf_of_codes:
  assumes "merge_inv rs" and "codes rs \<subseteq> {100 .. 599}" and "r \<in> set rs"
  shows "wf_range r"
proof -
  from assms(1,3) have "r_start r \<in> {r_start r .. r_end r}" "r_end r \<in> {r_start r .. r_end r}"
    by (auto simp: merge_inv_def)
  with assms(2,3) have "r_start r \<in> {100 .. 599}" "r_end r \<in> {100 .. 599}"
    unfolding codes_def by blast+
  with assms(1,3) show ?thesis by (auto simp: wf_range_def merge_inv_def)
qed

lemma codes_wf: "\<forall>r \<in> set rs. wf_range r \<Longrightarrow> codes rs \<subseteq> {100 .. 599}"
  by (fastforce simp: codes_def wf_range_def)

lemma mergeRanges_wf: "\<forall>r \<in> set rs. wf_range r \<Longrightarrow> \<forall>r \<in> set (mergeRanges rs). wf_range r"
proof -
  assume wf: "\<forall>r \<in> set rs. wf_range r"
  then have "\<forall>r \<in> set rs. r_start r \<le> r_end r" by (auto simp: wf_range_def)
  note m = mergeRanges_inv [OF this]
  from m(2) codes_wf [OF wf] have "codes (mergeRanges rs) \<subseteq> {100 .. 599}" by simp
  with wf_of_codes [OF m(1)] show ?thesis by blast
qed

text \<open>Merging ranges that are already merged changes nothing.\<close>

lemma canonical_sorted: "canonical rs \<Longrightarrow> \<forall>r \<in> set rs. r_start r \<le> r_end r \<Longrightarrow>
  sorted_wrt (\<lambda>a b. cmp_range a b \<le> 0) rs"
  unfolding canonical_def
  by (induction rs) (fastforce simp: cmp_range_def)+

lemma foldl_merge_canonical:
  "canonical (merged @ rs) \<Longrightarrow> foldl merge_step merged rs = merged @ rs"
proof (induction rs arbitrary: merged)
  case Nil
  then show ?case by simp
next
  case (Cons r rs)
  from Cons.prems have "merged = [] \<or> r_end (last merged) + 1 < r_start r"
    by (cases merged rule: rev_cases) (auto simp: canonical_def sorted_wrt_append)
  then have "merge_step merged r = merged @ [r]" by (auto simp: merge_step_def)
  with Cons show ?case by simp
qed

lemma mergeRanges_canonical_id:
  "canonical rs \<Longrightarrow> \<forall>r \<in> set rs. wf_range r \<Longrightarrow> mergeRanges rs = rs"
  using canonical_sorted [of rs] foldl_merge_canonical [of "[]" rs]
  by (auto simp: mergeRanges_def rc.sort_sorted_id wf_range_def)

section \<open>Reading a printed range\<close>

lemma isNumber_nat_str [simp]: "isNumber (nat_str n)"
  by (auto simp: isNumber_def list_all_iff dest: nat_str_digits)

lemma not_ws_nat_str: "c \<in> set (nat_str n) \<Longrightarrow> \<not> is_ws c"
  by (auto dest: nat_str_digits is_digit_not_ws)

lemma print_range_chars: "c \<in> set (print_range r) \<Longrightarrow> is_digit c \<or> c = 45"
  by (auto simp: print_range_def split: if_splits dest: nat_str_digits)

lemma print_range_no_ws: "c \<in> set (print_range r) \<Longrightarrow> \<not> is_ws c"
  by (drule print_range_chars) (auto simp: is_digit_def is_ws_def)

lemma dash_not_nat_str [simp]: "45 \<notin> set (nat_str n)"
  by (auto dest: nat_str_digits simp: is_digit_def)

lemma cleaned_print_range [simp]: "filter (\<lambda>c. \<not> is_ws c) (trim (print_range r)) = print_range r"
  by (simp add: trim_no_ws print_range_no_ws filter_id)

lemma parseToken_print_range: "wf_range r \<Longrightarrow> parseToken (print_range r) = Some r"
  unfolding parseToken_def Let_def cleaned_print_range
  by (cases r) (auto simp: print_range_def wf_range_def isValidCode_def split1_append_sep split1_no_sep)

lemma parseToken_wf: "parseToken t = Some r \<Longrightarrow> wf_range r"
  by (auto simp: parseToken_def Let_def wf_range_def isValidCode_def split: if_splits list.splits)

text \<open>A list of ranges, printed with commas and split again, is read back token by token.\<close>

interpretation rl: list_codec 44 print_range parseToken wf_range
proof
  fix r assume wf: "wf_range r"
  have "44 \<notin> set (print_range r)" by (auto dest: print_range_chars simp: is_digit_def)
  moreover have "print_range r \<noteq> []" by (simp add: print_range_def)
  ultimately show "print_range r \<noteq> [] \<and> trimmed (print_range r) \<and> 44 \<notin> set (print_range r)"
    by (simp add: trimmed_no_ws print_range_no_ws)
  show "parseToken (print_range r) = Some r" using wf by (rule parseToken_print_range)
qed

lemma map_filter_Some: "map f xs = map Some ys \<Longrightarrow> List.map_filter f xs = ys"
  by (induction xs arbitrary: ys) (auto simp: List.map_filter_simps)

lemma filter_None_Some: "map f xs = map Some ys \<Longrightarrow> filter (\<lambda>x. f x = None) xs = []"
  by (induction xs arbitrary: ys) auto

lemma segments_of_print:
  "\<forall>r \<in> set rs. wf_range r \<Longrightarrow>
   segments_of (join (lit '','') (map print_range rs)) = map print_range rs"
proof -
  assume wf: "\<forall>r \<in> set rs. wf_range r"
  have "\<And>c. c \<in> set (join [44] (map print_range rs)) \<Longrightarrow> c \<noteq> 0xFF0C"
    using set_join [of "[44]" "map print_range rs"]
    by (fastforce dest: print_range_chars simp: is_digit_def)
  then have "map (\<lambda>c. if c = 0xFF0C then 44 else c) (join [44] (map print_range rs)) =
    join [44] (map print_range rs)"
    by (simp add: map_idI)
  then show ?thesis
    using rl.split_trim_print [OF wf] by (simp add: segments_of_def)
qed

lemma trim_print_list:
  "\<forall>r \<in> set rs. wf_range r \<Longrightarrow>
   trim (join (lit '','') (map print_range rs)) = join (lit '','') (map print_range rs)"
proof (rule trim_no_ws)
  fix c assume "c \<in> set (join (lit '','') (map print_range rs))"
  then have "c = 44 \<or> (\<exists>r. c \<in> set (print_range r))"
    using set_join [of "[44]" "map print_range rs"] by auto
  then show "\<not> is_ws c" using print_range_no_ws by (auto simp: is_ws_def)
qed

lemma parse_printed:
  assumes "canonical rs" and wf: "\<forall>r \<in> set rs. wf_range r"
  shows "parseHttpStatusCodeRules (Some (join (lit '','') (map print_range rs))) =
    \<lparr>rules_ok = True, ranges = rs, tokens = map print_range rs,
     normalized = join (lit '','') (map print_range rs), invalidTokens = []\<rparr>"
proof (cases "rs = []")
  case True
  then show ?thesis by (simp add: parseHttpStatusCodeRules_def)
next
  case False
  have ne: "\<forall>t \<in> set (map print_range rs). t \<noteq> []" using wf rl.pr_token by auto
  from False have ne': "join (lit '','') (map print_range rs) \<noteq> []"
    using join_eq_Nil [OF ne] by simp
  have "map parseToken (map print_range rs) = map Some rs"
    using wf by (simp add: parseToken_print_range)
  note rd = map_filter_Some [OF this] filter_None_Some [OF this]
  show ?thesis
    unfolding parseHttpStatusCodeRules_def option.case trim_print_list [OF wf] Let_def
      segments_of_print [OF wf] rd mergeRanges_canonical_id [OF assms]
    using ne' by simp
qed

lemma map_filter_parse_wf: "r \<in> set (List.map_filter parseToken ss) \<Longrightarrow> wf_range r"
  by (auto simp: List.map_filter_def intro: parseToken_wf)

lemma parse_ranges_good:
  "canonical (ranges (parseHttpStatusCodeRules s)) \<and> (\<forall>r \<in> set (ranges (parseHttpStatusCodeRules s)). wf_range r)"
proof -
  let ?rs = "List.map_filter parseToken (segments_of (trim (case s of None \<Rightarrow> [] | Some x \<Rightarrow> x)))"
  have wf: "\<forall>r \<in> set ?rs. wf_range r" using map_filter_parse_wf by blast
  then have "\<forall>r \<in> set ?rs. r_start r \<le> r_end r" by (auto simp: wf_range_def)
  from mergeRanges_inv(1) [OF this] mergeRanges_wf [OF wf]
  show ?thesis
    by (simp add: parseHttpStatusCodeRules_def Let_def merge_inv_def canonical_def)
qed

lemma codes_map_filter:
  "codes (List.map_filter parseToken ss) = (\<Union>t \<in> set ss. case parseToken t of None \<Rightarrow> {} | Some r \<Rightarrow> codes [r])"
  by (induction ss) (auto simp: List.map_filter_simps codes_def split: option.splits)

lemma parse_codes:
  assumes "rules_ok (parseHttpStatusCodeRules (Some s))"
  shows "codes (ranges (parseHttpStatusCodeRules (Some s))) =
    (\<Union>t \<in> set (segments_of (trim s)). case parseToken t of None \<Rightarrow> {} | Some r \<Rightarrow> codes [r])"
proof -
  let ?rs = "List.map_filter parseToken (segments_of (trim s))"
  have "\<forall>r \<in> set ?rs. r_start r \<le> r_end r" using map_filter_parse_wf by (auto simp: wf_range_def)
  note eq = mergeRanges_inv(2) [OF this, unfolded codes_map_filter]
  show ?thesis
  proof (cases "trim s = []")
    case True
    then show ?thesis by (simp add: parseHttpStatusCodeRules_def segments_of_def codes_def)
  next
    case False
    with assms have "ranges (parseHttpStatusCodeRules (Some s)) = mergeRanges ?rs"
      by (auto simp: parseHttpStatusCodeRules_def Let_def split: if_splits)
    with eq show ?thesis by simp
  qed
qed

section \<open>Properties\<close>

text \<open>C3: Whatever the input, the ranges the parser returns are valid HTTP codes, ascending, and no
  two of them overlap or touch, so the list is the shortest one for its set of codes.\<close>

theorem status_rules_canonical:
  "canonical (ranges (parseHttpStatusCodeRules s)) \<and>
   (\<forall>r. r \<in> set (ranges (parseHttpStatusCodeRules s)) \<longrightarrow> wf_range r)"
  using parse_ranges_good by blast

theorem status_rules_canonical_witness:
  "ranges (parseHttpStatusCodeRules (Some (lit ''500-503, 404, 504''))) =
     [\<lparr>r_start = 404, r_end = 404\<rparr>, \<lparr>r_start = 500, r_end = 504\<rparr>] \<and>
   wf_range \<lparr>r_start = 500, r_end = 504\<rparr>"
proof -
  have e: "ranges (parseHttpStatusCodeRules (Some (lit ''500-503, 404, 504''))) =
     [\<lparr>r_start = 404, r_end = 404\<rparr>, \<lparr>r_start = 500, r_end = 504\<rparr>]"
    by code_simp
  with status_rules_canonical [of "Some (lit ''500-503, 404, 504'')"] show ?thesis by simp
qed

text \<open>C2: An accepted rule string means the union of its tokens: the merged ranges cover exactly the
  codes that the tokens cover, whatever their order and overlap.\<close>

theorem status_rules_meaning:
  assumes "rules_ok (parseHttpStatusCodeRules (Some s))"
  shows "codes (ranges (parseHttpStatusCodeRules (Some s))) =
    (\<Union>t \<in> set (segments_of (trim s)). case parseToken t of None \<Rightarrow> {} | Some r \<Rightarrow> {r_start r .. r_end r})"
  using parse_codes [OF assms] by (simp add: codes_def cong: option.case_cong)

theorem status_rules_meaning_witness:
  "codes (ranges (parseHttpStatusCodeRules (Some (lit ''500-503,404''))))
     = {500 .. 503} \<union> {404 .. 404}"
proof -
  have ok: "rules_ok (parseHttpStatusCodeRules (Some (lit ''500-503,404'')))" by code_simp
  have t: "set (segments_of (trim (lit ''500-503,404''))) = {lit ''500-503'', lit ''404''}"
    by code_simp
  have a: "parseToken (lit ''500-503'') = Some \<lparr>r_start = 500, r_end = 503\<rparr>"
    and b: "parseToken (lit ''404'') = Some \<lparr>r_start = 404, r_end = 404\<rparr>"
    by code_simp+
  show ?thesis
    unfolding status_rules_meaning [OF ok] t using a b by simp
qed

text \<open>C1: Printing is a fixed point of parsing: the normalized string of an accepted input is
  accepted, gives the same ranges and tokens, and is its own normalized form.\<close>

theorem status_rules_roundtrip:
  assumes "rules_ok (parseHttpStatusCodeRules s)"
  shows "parseHttpStatusCodeRules (Some (normalized (parseHttpStatusCodeRules s))) =
    parseHttpStatusCodeRules s"
proof -
  let ?p = "parseHttpStatusCodeRules s"
  have "tokens ?p = map print_range (ranges ?p)" "normalized ?p = join (lit '','') (tokens ?p)"
    "invalidTokens ?p = []"
    using assms by (auto simp: parseHttpStatusCodeRules_def Let_def split: if_splits)
  moreover have "parseHttpStatusCodeRules (Some (join (lit '','') (map print_range (ranges ?p)))) =
    \<lparr>rules_ok = True, ranges = ranges ?p, tokens = map print_range (ranges ?p),
     normalized = join (lit '','') (map print_range (ranges ?p)), invalidTokens = []\<rparr>"
    using parse_ranges_good by (intro parse_printed) blast+
  ultimately show ?thesis using assms by simp
qed

theorem status_rules_roundtrip_witness:
  "parseHttpStatusCodeRules (Some (lit ''404,500-504'')) =
   parseHttpStatusCodeRules (Some (lit '' 500-503 ,404, 504 ''))"
proof -
  have ok: "rules_ok (parseHttpStatusCodeRules (Some (lit '' 500-503 ,404, 504 '')))"
    and n: "normalized (parseHttpStatusCodeRules (Some (lit '' 500-503 ,404, 504 ''))) =
      lit ''404,500-504''"
    by code_simp+
  show ?thesis using status_rules_roundtrip [OF ok] unfolding n .
qed

text \<open>The input is rejected exactly when some token does not parse. Then no range is returned,
  the trimmed text is given back unchanged and every offending token, and no other, is reported.\<close>

lemma status_rules_errors:
  "rules_ok (parseHttpStatusCodeRules (Some s)) = list_all (\<lambda>t. parseToken t \<noteq> None) (segments_of (trim s)) \<and>
   invalidTokens (parseHttpStatusCodeRules (Some s)) = filter (\<lambda>t. parseToken t = None) (segments_of (trim s)) \<and>
   (rules_ok (parseHttpStatusCodeRules (Some s)) \<or>
    ranges (parseHttpStatusCodeRules (Some s)) = [] \<and> normalized (parseHttpStatusCodeRules (Some s)) = trim s)"
proof (cases "trim s = []")
  case True
  then show ?thesis by (simp add: parseHttpStatusCodeRules_def segments_of_def)
next
  case False
  then show ?thesis
    by (auto simp: parseHttpStatusCodeRules_def Let_def filter_empty_conv list_all_iff)
qed

text \<open>A token with more than one dash is accepted with its tail dropped:
  \<^verbatim>\<open>500-503-599\<close> is read as \<^verbatim>\<open>500-503\<close> instead of being reported as invalid.\<close>

lemma status_rules_extra_dash:
  assumes "isValidCode a" and "isValidCode b" and "a \<le> b"
  shows "parseToken (nat_str a @ lit ''-'' @ nat_str b @ lit ''-'' @ nat_str c) =
    Some \<lparr>r_start = a, r_end = b\<rparr>"
proof -
  let ?t = "nat_str a @ 45 # nat_str b @ 45 # nat_str c"
  have ws: "x \<in> set ?t \<Longrightarrow> \<not> is_ws x" for x
    using not_ws_nat_str by (auto simp: is_ws_def)
  then have "trim ?t = ?t" by (rule trim_no_ws)
  with ws have "filter (\<lambda>c. \<not> is_ws c) (trim ?t) = ?t"
    by (metis (no_types, lifting) filter_id)
  moreover have "split1 45 ?t = [nat_str a, nat_str b, nat_str c]"
    by (simp add: split1_append_sep split1_no_sep)
  ultimately show ?thesis using assms by (simp add: parseToken_def)
qed

lemma status_rules_extra_dash_witness:
  "parseToken (lit ''500-503-599'') = Some \<lparr>r_start = 500, r_end = 503\<rparr>"
proof -
  have h: "isValidCode 500" "isValidCode 503" "(500::nat) \<le> 503" by (simp_all add: isValidCode_def)
  have e: "nat_str 500 @ lit ''-'' @ nat_str 503 @ lit ''-'' @ nat_str 599 = lit ''500-503-599''"
    by code_simp
  show ?thesis using status_rules_extra_dash [OF h, of 599] unfolding e .
qed

end
