(* ===== verification/JS_Number.thy ===== *)
theory JS_Number
  imports JS_Prelude Complex_Main "HOL-Library.Log_Nat"
begin

text \<open>
  JavaScript numbers: IEEE 754 binary64. A finite number is the rational it stands for, and every
  arithmetic operation computes exactly and rounds to the nearest double, ties to even (\<open>dbl\<close>),
  so rounding, overflow to infinity and NaN are all visible. The one simplification: the two zeros
  are one value (\<^verbatim>\<open>-0\<close> can only be observed by dividing by it or by \<^verbatim>\<open>Object.is\<close>, which the modelled
  code does not do).

  The theory also has the conversions of the library: \<^verbatim>\<open>Number(s)\<close>, \<^verbatim>\<open>parseFloat\<close>,
  \<^verbatim>\<open>String(x)\<close>, \<^verbatim>\<open>toFixed\<close>, \<^verbatim>\<open>Math.floor\<close>, \<^verbatim>\<open>Math.round\<close>. Its lemmas say that integers up to
  $2^{53}$ are represented exactly and that printing and reading them is the identity.
\<close>

datatype jsnum = NaN | PInf | NInf | Fin rat

section \<open>Rounding to a double\<close>

definition round_even :: "rat \<Rightarrow> int" where
  "round_even x =
     (let f = \<lfloor>x\<rfloor>; d = x - of_int f in
      if d < 1/2 then f else if 1/2 < d then f + 1 else if even f then f else f + 1)"

text \<open>Powers of two and ten with an integer exponent, computed on integers.\<close>

definition ipow :: "int \<Rightarrow> int \<Rightarrow> rat" where
  "ipow b e = (if 0 \<le> e then of_int (b ^ nat e) else Fract 1 (b ^ nat (- e)))"

text \<open>The exponent of a positive rational: \<open>2 ^ ilog2 x \<le> x < 2 ^ (ilog2 x + 1)\<close>.\<close>

definition ilog2 :: "rat \<Rightarrow> int" where
  "ilog2 x =
     (let (a, b) = quotient_of x; e = bitlen a - bitlen b in
      if ipow 2 e \<le> x then e else e - 1)"

text \<open>
  The result is \<open>m * 2 ^ q\<close> with a 53-bit significand \<open>m\<close> and \<open>q\<close> at least \<open>- 1074\<close> (subnormal
  numbers); it overflows when it reaches \<open>2 ^ 1024\<close>.
\<close>

definition dbl :: "rat \<Rightarrow> jsnum" where
  "dbl x =
     (if x = 0 then Fin 0
      else
        let q = max (ilog2 \<bar>x\<bar> - 52) (- 1074);
            m = round_even (x * ipow 2 (- q)) in
        if 972 \<le> q \<or> q = 971 \<and> 2 ^ 53 \<le> \<bar>m\<bar> then (if 0 < x then PInf else NInf)
        else Fin (of_int m * ipow 2 q))"

lemma ipow_nonneg: "0 \<le> e \<Longrightarrow> ipow b e = of_int (b ^ nat e)"
  by (simp add: ipow_def)

lemma ipow_0 [simp]: "ipow b 0 = 1"
  by (simp add: ipow_def)

lemma ipow_inverse: "b \<noteq> 0 \<Longrightarrow> ipow b (- e) * ipow b e = 1"
  by (auto simp: ipow_def Fract_of_int_quotient)

lemma round_even_int [simp]: "round_even (of_int n) = n"
  by (simp add: round_even_def)

lemma bitlen_le: "0 < n \<Longrightarrow> n < 2 ^ k \<Longrightarrow> bitlen n \<le> int k"
  by (simp add: bitlen_le_iff_power)

lemma quotient_of_of_int [simp]: "quotient_of (of_int n) = (n, 1)"
  by (simp add: of_int_rat quotient_of_Fract)

lemma ilog2_int_le:
  assumes "0 < n" and "n < 2 ^ 53"
  shows "ilog2 (of_int n) \<le> 52"
proof -
  have "bitlen n \<le> 53" using bitlen_le [OF assms(1), of 53] assms(2) by simp
  moreover have "bitlen 1 = 1" by code_simp
  ultimately show ?thesis by (simp add: ilog2_def Let_def)
qed

text \<open>Integers of absolute value below $2^{53}$ are doubles.\<close>

lemma dbl_int [simp]:
  assumes "\<bar>n\<bar> < 2 ^ 53"
  shows "dbl (of_int n) = Fin (of_int n)"
proof (cases "n = 0")
  case True
  then show ?thesis by (simp add: dbl_def)
next
  case False
  define q where "q = max (ilog2 \<bar>of_int n\<bar> - 52) (- 1074)"
  have "ilog2 \<bar>of_int n\<bar> \<le> 52"
    using ilog2_int_le [of "\<bar>n\<bar>"] False assms by simp
  then have q: "q \<le> 0" by (simp add: q_def)
  then have "of_int n * ipow 2 (- q) = of_int (n * 2 ^ nat (- q))"
    by (simp add: ipow_nonneg)
  then have "round_even (of_int n * ipow 2 (- q)) = n * 2 ^ nat (- q)"
    by (metis round_even_int)
  moreover have "of_int (n * 2 ^ nat (- q)) * ipow 2 q = (of_int n :: rat)"
    using ipow_inverse [of 2 q] q by (simp add: ipow_nonneg mult.assoc)
  ultimately show ?thesis
    using False q by (simp add: dbl_def Let_def flip: q_def)
qed

lemma dbl_0 [simp]: "dbl 0 = Fin 0"
  by (simp add: dbl_def)

lemma dbl_of_nat [simp]: "n < 2 ^ 53 \<Longrightarrow> dbl (of_nat n) = Fin (of_nat n)"
  using dbl_int [of "int n"] by simp

section \<open>Arithmetic and comparison\<close>

fun jneg :: "jsnum \<Rightarrow> jsnum" where
  "jneg NaN = NaN"
| "jneg PInf = NInf"
| "jneg NInf = PInf"
| "jneg (Fin x) = Fin (- x)"

fun jadd :: "jsnum \<Rightarrow> jsnum \<Rightarrow> jsnum" where
  "jadd (Fin x) (Fin y) = dbl (x + y)"
| "jadd NaN _ = NaN"
| "jadd _ NaN = NaN"
| "jadd PInf NInf = NaN"
| "jadd NInf PInf = NaN"
| "jadd PInf _ = PInf"
| "jadd _ PInf = PInf"
| "jadd NInf _ = NInf"
| "jadd _ NInf = NInf"

definition jsub :: "jsnum \<Rightarrow> jsnum \<Rightarrow> jsnum" where
  "jsub a b = jadd a (jneg b)"

definition jsign :: "jsnum \<Rightarrow> int" where
  "jsign a = (case a of NaN \<Rightarrow> 0 | PInf \<Rightarrow> 1 | NInf \<Rightarrow> - 1 | Fin x \<Rightarrow> if x < 0 then - 1 else if x = 0 then 0 else 1)"

definition jinf :: "int \<Rightarrow> jsnum" where
  "jinf s = (if s = 0 then NaN else if 0 < s then PInf else NInf)"

fun jmul :: "jsnum \<Rightarrow> jsnum \<Rightarrow> jsnum" where
  "jmul (Fin x) (Fin y) = dbl (x * y)"
| "jmul NaN _ = NaN"
| "jmul _ NaN = NaN"
| "jmul a b = jinf (jsign a * jsign b)"

fun jdiv :: "jsnum \<Rightarrow> jsnum \<Rightarrow> jsnum" where
  "jdiv (Fin x) (Fin y) = (if y = 0 then jinf (jsign (Fin x)) else dbl (x / y))"
| "jdiv NaN _ = NaN"
| "jdiv _ NaN = NaN"
| "jdiv (Fin _) _ = Fin 0"
| "jdiv a (Fin y) = jinf (jsign a * (if y < 0 then - 1 else 1))"
| "jdiv _ _ = NaN"

fun jlt :: "jsnum \<Rightarrow> jsnum \<Rightarrow> bool" where
  "jlt (Fin x) (Fin y) = (x < y)"
| "jlt NaN _ = False"
| "jlt _ NaN = False"
| "jlt NInf NInf = False"
| "jlt NInf _ = True"
| "jlt _ NInf = False"
| "jlt PInf _ = False"
| "jlt _ PInf = True"

fun jeq :: "jsnum \<Rightarrow> jsnum \<Rightarrow> bool" where
  "jeq NaN _ = False"
| "jeq a b = (a = b)"

definition jle :: "jsnum \<Rightarrow> jsnum \<Rightarrow> bool" where
  "jle a b \<longleftrightarrow> jlt a b \<or> jeq a b"

definition jtruthy :: "jsnum \<Rightarrow> bool" where
  "jtruthy a \<longleftrightarrow> a \<noteq> NaN \<and> a \<noteq> Fin 0"

definition is_finite :: "jsnum \<Rightarrow> bool" where
  "is_finite a \<longleftrightarrow> (case a of Fin _ \<Rightarrow> True | _ \<Rightarrow> False)"

definition is_integer :: "jsnum \<Rightarrow> bool" where
  "is_integer a \<longleftrightarrow> (case a of Fin x \<Rightarrow> x = of_int \<lfloor>x\<rfloor> | _ \<Rightarrow> False)"

definition jabs :: "jsnum \<Rightarrow> jsnum" where
  "jabs a = (case a of Fin x \<Rightarrow> Fin \<bar>x\<bar> | NInf \<Rightarrow> PInf | b \<Rightarrow> b)"

definition jfloor :: "jsnum \<Rightarrow> jsnum" where
  "jfloor a = (case a of Fin x \<Rightarrow> Fin (of_int \<lfloor>x\<rfloor>) | b \<Rightarrow> b)"

text \<open>\<^verbatim>\<open>Math.round\<close>: the nearest integer, ties towards plus infinity.\<close>

definition jround :: "jsnum \<Rightarrow> jsnum" where
  "jround a = (case a of Fin x \<Rightarrow> Fin (of_int \<lfloor>x + 1/2\<rfloor>) | b \<Rightarrow> b)"

abbreviation jint :: "int \<Rightarrow> jsnum" where
  "jint n \<equiv> Fin (of_int n)"

lemma jadd_int [simp]: "\<bar>m + n\<bar> < 2 ^ 53 \<Longrightarrow> jadd (jint m) (jint n) = jint (m + n)"
  using dbl_int [of "m + n"] by simp

lemma jmul_int [simp]: "\<bar>m * n\<bar> < 2 ^ 53 \<Longrightarrow> jmul (jint m) (jint n) = jint (m * n)"
  using dbl_int [of "m * n"] by simp

lemma jlt_irrefl [simp]: "\<not> jlt a a"
  by (cases a) auto

lemma jlt_trans: "jlt a b \<Longrightarrow> jlt b c \<Longrightarrow> jlt a c"
  by (cases a; cases b; cases c) auto

lemma jlt_linear: "a \<noteq> NaN \<Longrightarrow> b \<noteq> NaN \<Longrightarrow> \<not> jlt a b \<Longrightarrow> jle b a"
  by (cases a; cases b) (auto simp: jle_def)

lemma jeq_refl [simp]: "jeq a a \<longleftrightarrow> a \<noteq> NaN"
  by (cases a) auto

lemma jle_trans: "jle a b \<Longrightarrow> jle b c \<Longrightarrow> jle a c"
  by (cases a; cases b; cases c) (auto simp: jle_def)

lemma jle_refl [simp]: "jle a a \<longleftrightarrow> a \<noteq> NaN"
  by (cases a) (auto simp: jle_def)

lemma jround_int: "jround (jint n) = jint n"
proof -
  have "\<lfloor>of_int n + 1/2 :: rat\<rfloor> = n" by (rule floor_unique) auto
  then show ?thesis by (simp add: jround_def)
qed

section \<open>Reading numbers\<close>

text \<open>
  The longest prefix that is an unsigned decimal literal, its exact value and what follows it.
\<close>

definition parse_exp :: "jstring \<Rightarrow> int \<times> jstring" where
  "parse_exp s =
     (case s of
        [] \<Rightarrow> (0, s)
      | c # t \<Rightarrow>
          if c = 101 \<or> c = 69 then
            let (neg, u) = (case t of [] \<Rightarrow> (False, t)
                            | d # v \<Rightarrow> if d = 43 then (False, v) else if d = 45 then (True, v) else (False, t));
                ds = takeWhile is_digit u in
            if ds = [] then (0, s)
            else ((if neg then - 1 else 1) * int (digits_val ds), dropWhile is_digit u)
          else (0, s))"

definition parse_udec :: "jstring \<Rightarrow> (rat \<times> jstring) option" where
  "parse_udec s =
     (let ip = takeWhile is_digit s; r1 = dropWhile is_digit s;
          (fp, r2) =
            (case r1 of [] \<Rightarrow> ([], r1)
             | c # t \<Rightarrow> if c = 46 \<and> (ip \<noteq> [] \<or> takeWhile is_digit t \<noteq> [])
                       then (takeWhile is_digit t, dropWhile is_digit t) else ([], r1)) in
      if ip = [] \<and> fp = [] then None
      else
        let (ex, r3) = parse_exp r2 in
        Some (of_nat (digits_val (ip @ fp)) / 10 ^ length fp * ipow 10 ex, r3))"

definition hex_digit :: "nat \<Rightarrow> nat option" where
  "hex_digit c =
     (if is_digit c then Some (c - 48)
      else if 97 \<le> c \<and> c \<le> 102 then Some (c - 87)
      else if 65 \<le> c \<and> c \<le> 70 then Some (c - 55)
      else None)"

definition radix_val :: "nat \<Rightarrow> jstring \<Rightarrow> nat option" where
  "radix_val b ds =
     (if ds \<noteq> [] \<and> list_all (\<lambda>c. case hex_digit c of None \<Rightarrow> False | Some d \<Rightarrow> d < b) ds
      then Some (foldl (\<lambda>a c. b * a + the (hex_digit c)) 0 ds) else None)"

definition parse_signed :: "jstring \<Rightarrow> (jsnum \<times> jstring) option" where
  "parse_signed s =
     (let (neg, t) = (case s of [] \<Rightarrow> (False, s)
                      | c # u \<Rightarrow> if c = 43 then (False, u) else if c = 45 then (True, u) else (False, s)) in
      if starts_with t (lit ''Infinity'') then Some (if neg then NInf else PInf, drop 8 t)
      else map_option (\<lambda>(x, r). (dbl (if neg then - x else x), r)) (parse_udec t))"

definition js_Number :: "jstring \<Rightarrow> jsnum" where
  "js_Number s =
     (let t = trim s; p = map (\<lambda>c. if 65 \<le> c \<and> c \<le> 90 then c + 32 else c) (take 2 t) in
      if t = [] then Fin 0
      else if p = lit ''0x'' then (case radix_val 16 (drop 2 t) of None \<Rightarrow> NaN | Some n \<Rightarrow> dbl (of_nat n))
      else if p = lit ''0o'' then (case radix_val 8 (drop 2 t) of None \<Rightarrow> NaN | Some n \<Rightarrow> dbl (of_nat n))
      else if p = lit ''0b'' then (case radix_val 2 (drop 2 t) of None \<Rightarrow> NaN | Some n \<Rightarrow> dbl (of_nat n))
      else (case parse_signed t of Some (x, []) \<Rightarrow> x | _ \<Rightarrow> NaN))"

definition parseFloat :: "jstring \<Rightarrow> jsnum" where
  "parseFloat s = (case parse_signed (dropWhile is_ws s) of Some (x, _) \<Rightarrow> x | None \<Rightarrow> NaN)"

section \<open>Printing numbers\<close>

text \<open>
  \<open>shortest x\<close> is the digit string \<open>s\<close> with the fewest digits, and the exponent \<open>n\<close>, such that
  \<open>0.s * 10 ^ n\<close> rounds to the double \<open>x\<close>: \<^verbatim>\<open>Number::toString\<close> of ECMAScript. Seventeen digits
  are always enough for a double.
\<close>

fun leading_zeros :: "nat \<Rightarrow> rat \<Rightarrow> nat" where
  "leading_zeros 0 x = 0"
| "leading_zeros (Suc f) x = (if 1 \<le> x * 10 then 0 else Suc (leading_zeros f (x * 10)))"

definition dec_exp :: "rat \<Rightarrow> int" where
  "dec_exp x = (if 1 \<le> x then int (length (nat_str (nat \<lfloor>x\<rfloor>))) else - int (leading_zeros 400 x))"

definition good_digits :: "nat \<Rightarrow> int \<Rightarrow> rat \<Rightarrow> nat \<Rightarrow> bool" where
  "good_digits k n x s \<longleftrightarrow>
     10 ^ (k - 1) \<le> s \<and> s < 10 ^ k \<and> dbl (of_nat s * ipow 10 (n - int k)) = Fin x"

definition digits_dist :: "nat \<Rightarrow> int \<Rightarrow> rat \<Rightarrow> nat \<Rightarrow> rat" where
  "digits_dist k n x s = \<bar>of_nat s * ipow 10 (n - int k) - x\<bar>"

text \<open>The digit strings of \<open>k\<close> digits next to \<open>x\<close>, the closer one first.\<close>

definition digits_of_len :: "nat \<Rightarrow> int \<Rightarrow> rat \<Rightarrow> nat list" where
  "digits_of_len k n x =
     (let lo = nat \<lfloor>x * ipow 10 (int k - n)\<rfloor>; dl = digits_dist k n x lo; dh = digits_dist k n x (lo + 1) in
      filter (good_digits k n x) (if dl < dh \<or> dl = dh \<and> even lo then [lo, lo + 1] else [lo + 1, lo]))"

fun shortest_from :: "nat \<Rightarrow> nat \<Rightarrow> int \<Rightarrow> rat \<Rightarrow> nat" where
  "shortest_from 0 k n x = nat \<lfloor>x * ipow 10 (int k - n)\<rfloor>"
| "shortest_from (Suc f) k n x =
     (case digits_of_len k n x of s # _ \<Rightarrow> s | [] \<Rightarrow> shortest_from f (k + 1) n x)"

definition digits_str :: "jstring \<Rightarrow> int \<Rightarrow> jstring" where
  "digits_str ds n =
     (let k = int (length ds); e = n - 1 in
      if k \<le> n \<and> n \<le> 21 then ds @ replicate (nat (n - k)) 48
      else if 0 < n \<and> n \<le> 21 then take (nat n) ds @ lit ''.'' @ drop (nat n) ds
      else if - 6 < n \<and> n \<le> 0 then lit ''0.'' @ replicate (nat (- n)) 48 @ ds
      else take 1 ds @ (if k = 1 then [] else lit ''.'' @ drop 1 ds) @ lit ''e'' @
        (if 0 \<le> e then lit ''+'' else lit ''-'') @ nat_str (nat \<bar>e\<bar>))"

definition pos_str :: "rat \<Rightarrow> jstring" where
  "pos_str x =
     (if x = of_int \<lfloor>x\<rfloor> \<and> x < 2 ^ 53 then nat_str (nat \<lfloor>x\<rfloor>)
      else let n = dec_exp x in digits_str (nat_str (shortest_from 17 1 n x)) n)"

definition num_str :: "jsnum \<Rightarrow> jstring" where
  "num_str a =
     (case a of NaN \<Rightarrow> lit ''NaN'' | PInf \<Rightarrow> lit ''Infinity'' | NInf \<Rightarrow> lit ''-Infinity''
      | Fin x \<Rightarrow> if x < 0 then lit ''-'' @ pos_str (- x) else pos_str x)"

text \<open>\<^verbatim>\<open>x.toFixed(d)\<close>: the nearest decimal with \<open>d\<close> digits, the larger one of two.\<close>

definition pad_left :: "nat \<Rightarrow> jstring \<Rightarrow> jstring" where
  "pad_left n s = replicate (n - length s) 48 @ s"

definition fixed_pos :: "nat \<Rightarrow> rat \<Rightarrow> jstring" where
  "fixed_pos d x =
     (let n = nat \<lfloor>x * 10 ^ d + 1/2\<rfloor>; m = pad_left (d + 1) (nat_str n) in
      if d = 0 then nat_str n else take (length m - d) m @ lit ''.'' @ drop (length m - d) m)"

definition toFixed :: "nat \<Rightarrow> jsnum \<Rightarrow> jstring" where
  "toFixed d a =
     (case a of Fin x \<Rightarrow>
        if 10 ^ 21 \<le> \<bar>x\<bar> then num_str a
        else if x < 0 then lit ''-'' @ fixed_pos d (- x) else fixed_pos d x
      | _ \<Rightarrow> num_str a)"

section \<open>Printing and reading integers\<close>

lemma num_str_nat: "n < 2 ^ 53 \<Longrightarrow> num_str (Fin (of_nat n)) = nat_str n"
proof -
  assume "n < 2 ^ 53"
  then have "(of_nat n :: rat) < 2 ^ 53"
    by (metis of_nat_less_iff of_nat_numeral of_nat_power)
  then show ?thesis by (simp add: num_str_def pos_str_def)
qed

lemma takeWhile_nat_str [simp]: "takeWhile is_digit (nat_str n) = nat_str n"
  and dropWhile_nat_str [simp]: "dropWhile is_digit (nat_str n) = []"
  using nat_str_digits by (auto simp: takeWhile_eq_all_conv dropWhile_eq_Nil_conv)

lemma parse_udec_nat_str: "parse_udec (nat_str n) = Some (of_nat n, [])"
  by (simp add: parse_udec_def parse_exp_def)

lemma nat_str_hd: "\<exists>c t. nat_str n = c # t \<and> is_digit c"
  by (metis list.exhaust list.set_intros(1) nat_str_digits nat_str_not_Nil)

lemma parse_signed_nat_str: "parse_signed (nat_str n) = Some (dbl (of_nat n), [])"
proof -
  obtain c t where ct: "nat_str n = c # t" "is_digit c" using nat_str_hd by blast
  then have c: "c \<noteq> 43" "c \<noteq> 45" "c \<noteq> 73" by (auto simp: is_digit_def)
  then have "\<not> starts_with (nat_str n) (lit ''Infinity'')"
    by (simp add: ct starts_with_def)
  with c ct parse_udec_nat_str [of n] show ?thesis
    by (simp add: parse_signed_def)
qed

lemma nat_str_prefix_digits: "c \<in> set (take 2 (nat_str n)) \<Longrightarrow> is_digit c"
  by (meson in_set_takeD nat_str_digits)

lemma js_Number_nat_str: "js_Number (nat_str n) = dbl (of_nat n)"
proof -
  let ?f = "\<lambda>c. if 65 \<le> c \<and> c \<le> 90 then c + 32 else (c :: nat)"
  have "map ?f (take 2 (nat_str n)) = take 2 (nat_str n)"
    by (intro map_idI) (auto simp: is_digit_def dest!: nat_str_prefix_digits)
  moreover have "x \<in> {120, 111, 98} \<Longrightarrow> x \<notin> set (take 2 (nat_str n))" for x
    using nat_str_prefix_digits [of x n] by (auto simp: is_digit_def)
  then have "take 2 (nat_str n) \<noteq> lit ''0x''" "take 2 (nat_str n) \<noteq> lit ''0o''"
    "take 2 (nat_str n) \<noteq> lit ''0b''"
    by (force dest: arg_cong [where f = set])+
  ultimately show ?thesis
    by (simp add: js_Number_def Let_def parse_signed_nat_str)
qed

lemma js_Number_num_str_nat: "n < 2 ^ 53 \<Longrightarrow> js_Number (num_str (Fin (of_nat n))) = Fin (of_nat n)"
  by (simp add: num_str_nat js_Number_nat_str)

end
