(* ===== verification/JS_Json.thy ===== *)
theory JS_Json
  imports JS_Number
begin

text \<open>
  JavaScript values as far as the console handles untyped data: what \<^verbatim>\<open>JSON.parse\<close> returns, what
  \<^verbatim>\<open>JSON.stringify\<close> prints, truthiness, \<^verbatim>\<open>String(v)\<close>, and objects with their property order
  (integer-like keys first, ascending, then the others in insertion order).

  The parser runs on fuel, two units per input character, which the lemma \<open>json_roundtrip\<close> shows
  to be enough for every printed value; the locale \<open>text_codec\<close> is the interface the stores use.
\<close>

datatype jval =
    JUndef
  | JNull
  | JBool bool
  | JNum jsnum
  | JStr jstring
  | JArr "jval list"
  | JObj "(jstring \<times> jval) list"

section \<open>Objects\<close>

text \<open>An array index: the decimal form of an integer below $2^{32} - 1$.\<close>

definition index_key :: "jstring \<Rightarrow> nat option" where
  "index_key k =
     (if k \<noteq> [] \<and> list_all is_digit k \<and> nat_str (digits_val k) = k \<and> digits_val k < 4294967295
      then Some (digits_val k) else None)"

fun insert_index :: "nat \<Rightarrow> jstring \<times> 'v \<Rightarrow> (jstring \<times> 'v) list \<Rightarrow> (jstring \<times> 'v) list" where
  "insert_index i kv [] = [kv]"
| "insert_index i kv (e # es) =
     (case index_key (fst e) of
        Some j \<Rightarrow> if i < j then kv # e # es else e # insert_index i kv es
      | None \<Rightarrow> kv # e # es)"

definition obj_get :: "jstring \<Rightarrow> (jstring \<times> jval) list \<Rightarrow> jval" where
  "obj_get k ps = (case map_of ps k of None \<Rightarrow> JUndef | Some v \<Rightarrow> v)"

definition obj_put :: "jstring \<Rightarrow> 'v \<Rightarrow> (jstring \<times> 'v) list \<Rightarrow> (jstring \<times> 'v) list" where
  "obj_put k v ps =
     (if map_of ps k \<noteq> None then map (\<lambda>(k', v'). if k' = k then (k', v) else (k', v')) ps
      else case index_key k of None \<Rightarrow> ps @ [(k, v)] | Some i \<Rightarrow> insert_index i (k, v) ps)"

definition obj_del :: "jstring \<Rightarrow> (jstring \<times> 'v) list \<Rightarrow> (jstring \<times> 'v) list" where
  "obj_del k ps = filter (\<lambda>(k', _). k' \<noteq> k) ps"

definition obj_has :: "jstring \<Rightarrow> (jstring \<times> 'v) list \<Rightarrow> bool" where
  "obj_has k ps \<longleftrightarrow> map_of ps k \<noteq> None"

text \<open>The object a literal or a parser builds, property after property.\<close>

definition obj_build :: "(jstring \<times> 'v) list \<Rightarrow> (jstring \<times> 'v) list \<Rightarrow> (jstring \<times> 'v) list" where
  "obj_build acc kvs = foldl (\<lambda>ps (k, v). obj_put k v ps) acc kvs"

lemma map_of_insert_index: "k \<notin> fst ` set ps \<Longrightarrow> map_of (insert_index i (k, v) ps) = (map_of ps)(k \<mapsto> v)"
  by (induction ps) (auto split: option.splits simp: fun_eq_iff)

lemma map_of_replace:
  "map_of (map (\<lambda>(k', v'). if k' = k then (k', v) else (k', v')) ps) k'' =
   (if k'' = k then map_option (\<lambda>_. v) (map_of ps k) else map_of ps k'')"
  by (induction ps) auto

lemma map_of_obj_put [simp]: "map_of (obj_put k v ps) = (map_of ps)(k \<mapsto> v)"
proof (cases "map_of ps k")
  case mo: None
  then have nk: "k \<notin> fst ` set ps" by (simp add: map_of_eq_None_iff)
  show ?thesis
  proof (cases "index_key k")
    case None
    with mo show ?thesis
      by (auto simp: obj_put_def fun_eq_iff map_add_def split: option.splits)
  next
    case (Some i)
    with nk mo show ?thesis
      by (simp add: obj_put_def map_of_insert_index)
  qed
next
  case (Some w)
  then show ?thesis by (auto simp: obj_put_def fun_eq_iff map_of_replace)
qed

lemma obj_get_put [simp]: "obj_get k (obj_put k' v ps) = (if k = k' then v else obj_get k ps)"
  by (simp add: obj_get_def)

lemma map_of_obj_del [simp]: "map_of (obj_del k ps) k' = (if k' = k then None else map_of ps k')"
  by (induction ps) (auto simp: obj_del_def)

lemma obj_get_del [simp]: "obj_get k (obj_del k' ps) = (if k = k' then JUndef else obj_get k ps)"
  by (simp add: obj_get_def)

lemma obj_has_put [simp]: "obj_has k (obj_put k' v ps) \<longleftrightarrow> k = k' \<or> obj_has k ps"
  by (auto simp: obj_has_def)

lemma obj_has_del [simp]: "obj_has k (obj_del k' ps) \<longleftrightarrow> k \<noteq> k' \<and> obj_has k ps"
  by (auto simp: obj_has_def)

section \<open>Truthiness and conversion to a string\<close>

fun truthy :: "jval \<Rightarrow> bool" where
  "truthy JUndef = False"
| "truthy JNull = False"
| "truthy (JBool b) = b"
| "truthy (JNum x) = jtruthy x"
| "truthy (JStr s) = (s \<noteq> [])"
| "truthy (JArr _) = True"
| "truthy (JObj _) = True"

fun str_of :: "jval \<Rightarrow> jstring" where
  "str_of JUndef = lit ''undefined''"
| "str_of JNull = lit ''null''"
| "str_of (JBool b) = (if b then lit ''true'' else lit ''false'')"
| "str_of (JNum x) = num_str x"
| "str_of (JStr s) = s"
| "str_of (JArr vs) = join (lit '','') (map (\<lambda>v. if v = JUndef \<or> v = JNull then [] else str_of v) vs)"
| "str_of (JObj _) = lit ''[object Object]''"

text \<open>\<^verbatim>\<open>Number(v)\<close>.\<close>

definition num_of :: "jval \<Rightarrow> jsnum" where
  "num_of v =
     (case v of JUndef \<Rightarrow> NaN | JNull \<Rightarrow> Fin 0 | JBool b \<Rightarrow> Fin (if b then 1 else 0)
      | JNum x \<Rightarrow> x | JObj _ \<Rightarrow> NaN | _ \<Rightarrow> js_Number (str_of v))"

text \<open>\<^verbatim>\<open>typeof v === 'object' && v !== null && !Array.isArray(v)\<close>, with the object's properties.\<close>

definition as_object :: "jval \<Rightarrow> (jstring \<times> jval) list option" where
  "as_object v = (case v of JObj ps \<Rightarrow> Some ps | _ \<Rightarrow> None)"

text \<open>\<^verbatim>\<open>Array.isArray(v)\<close>\<close>

definition is_array :: "jval \<Rightarrow> bool" where
  "is_array v \<longleftrightarrow> (case v of JArr _ \<Rightarrow> True | _ \<Rightarrow> False)"

text \<open>Property access on a value that is neither \<^verbatim>\<open>null\<close> nor \<^verbatim>\<open>undefined\<close>, and the operators
  \<^verbatim>\<open>a || b\<close> and \<^verbatim>\<open>a ?? b\<close>.\<close>

definition nullish :: "jval \<Rightarrow> bool" where
  "nullish v \<longleftrightarrow> v = JUndef \<or> v = JNull"

definition jprop :: "jstring \<Rightarrow> jval \<Rightarrow> jval" where
  "jprop k v = (case v of JObj ps \<Rightarrow> obj_get k ps | _ \<Rightarrow> JUndef)"

definition jor :: "jval \<Rightarrow> jval \<Rightarrow> jval" where
  "jor a b = (if truthy a then a else b)"

definition jcoalesce :: "jval \<Rightarrow> jval \<Rightarrow> jval" where
  "jcoalesce a b = (if nullish a then b else a)"

definition is_string :: "jval \<Rightarrow> bool" where
  "is_string v \<longleftrightarrow> (case v of JStr _ \<Rightarrow> True | _ \<Rightarrow> False)"

text \<open>Objects the code reads and rewrites by name.\<close>

type_synonym obj = "(jstring \<times> jval) list"

abbreviation get :: "obj \<Rightarrow> string \<Rightarrow> jval" where
  "get ob k \<equiv> obj_get (lit k) ob"

definition obj_lit :: "(string \<times> jval) list \<Rightarrow> obj" where
  "obj_lit kvs = obj_build [] (map (\<lambda>(k, v). (lit k, v)) kvs)"

abbreviation jstr_lit :: "string \<Rightarrow> jval" where
  "jstr_lit s \<equiv> JStr (lit s)"

lemma map_of_obj_build: "distinct (map fst kvs) \<Longrightarrow> map_of (obj_build acc kvs) = map_of acc ++ map_of kvs"
proof (induction kvs arbitrary: acc)
  case (Cons kv kvs)
  obtain k v where kv: "kv = (k, v)" by force
  with Cons have "map_of (obj_build (obj_put k v acc) kvs) = map_of (obj_put k v acc) ++ map_of kvs" by simp
  moreover have "map_of kvs k = None" using Cons.prems by (simp add: kv map_of_eq_None_iff)
  ultimately show ?case by (auto simp: obj_build_def kv fun_eq_iff map_add_def split: option.splits)
qed (simp add: obj_build_def)

lemma lit_inj: "lit a = lit b \<longleftrightarrow> a = b"
  by (simp add: inj_map_eq_map inj_def)

lemma get_obj_lit:
  assumes "distinct (map fst kvs)"
  shows "get (obj_lit kvs) k = (case map_of kvs k of None \<Rightarrow> JUndef | Some v \<Rightarrow> v)"
proof -
  have "map_of (map (\<lambda>(k, v). (lit k, v)) kvs) (lit k) = map_of kvs k"
    by (induction kvs) (auto simp: lit_inj)
  moreover have "distinct (map fst (map (\<lambda>(k, v). (lit k, v)) kvs))"
    using assms by (induction kvs) (auto simp: lit_inj image_iff)
  ultimately show ?thesis by (simp add: obj_lit_def obj_get_def map_of_obj_build)
qed

lemma has_obj_build: "obj_has k (obj_build acc kvs) \<longleftrightarrow> obj_has k acc \<or> k \<in> fst ` set kvs"
  by (induction kvs arbitrary: acc) (auto simp: obj_build_def)

lemma get_obj_build_absent: "k \<notin> fst ` set kvs \<Longrightarrow> obj_get k (obj_build acc kvs) = obj_get k acc"
  by (induction kvs arbitrary: acc) (auto simp: obj_build_def)

lemma set_insert_index: "set (insert_index i kv ps) = insert kv (set ps)"
  by (induction ps) (auto split: option.splits)

lemma distinct_insert_index:
  "distinct (map fst ps) \<Longrightarrow> fst kv \<notin> fst ` set ps \<Longrightarrow> distinct (map fst (insert_index i kv ps))"
  by (induction ps) (auto simp: set_insert_index split: option.splits)

lemma keys_replace: "map fst (map (\<lambda>(k', v'). if k' = k then (k', v) else (k', v')) ps) = map fst ps"
  by (induction ps) auto

lemma distinct_obj_put: "distinct (map fst ps) \<Longrightarrow> distinct (map fst (obj_put k v ps))"
proof (cases "map_of ps k")
  case None
  then have "k \<notin> fst ` set ps" by (simp add: map_of_eq_None_iff)
  then show "distinct (map fst ps) \<Longrightarrow> ?thesis"
    by (cases "index_key k") (simp_all add: obj_put_def None distinct_insert_index)
next
  case (Some w)
  then have "map fst (obj_put k v ps) = map fst ps" using keys_replace [of k v ps] by (simp only: obj_put_def) simp
  then show "distinct (map fst ps) \<Longrightarrow> ?thesis" by simp
qed

lemma distinct_obj_build: "distinct (map fst acc) \<Longrightarrow> distinct (map fst (obj_build acc kvs))"
  by (induction kvs arbitrary: acc) (auto simp: obj_build_def distinct_obj_put)

lemma distinct_obj_lit: "distinct (map fst (obj_lit kvs))"
  by (simp add: obj_lit_def distinct_obj_build)

section \<open>Printing: \<^verbatim>\<open>JSON.stringify\<close>\<close>

definition hexd :: "nat \<Rightarrow> nat" where
  "hexd d = (if d < 10 then 48 + d else 87 + d)"

definition uesc :: "nat \<Rightarrow> jstring" where
  "uesc c = [92, 117, hexd (c div 4096), hexd (c div 256 mod 16), hexd (c div 16 mod 16), hexd (c mod 16)]"

definition is_high :: "nat \<Rightarrow> bool" where
  "is_high c \<longleftrightarrow> 55296 \<le> c \<and> c \<le> 56319"

definition is_low :: "nat \<Rightarrow> bool" where
  "is_low c \<longleftrightarrow> 56320 \<le> c \<and> c \<le> 57343"

definition esc_char :: "nat \<Rightarrow> jstring" where
  "esc_char c =
     (if c = 34 then [92, 34] else if c = 92 then [92, 92]
      else if c = 8 then [92, 98] else if c = 12 then [92, 102] else if c = 10 then [92, 110]
      else if c = 13 then [92, 114] else if c = 9 then [92, 116]
      else if c < 32 \<or> is_high c \<or> is_low c then uesc c
      else [c])"

fun quote_body :: "jstring \<Rightarrow> jstring" where
  "quote_body [] = []"
| "quote_body [c] = esc_char c"
| "quote_body (c # d # s) =
     (if is_high c \<and> is_low d then c # d # quote_body s else esc_char c @ quote_body (d # s))"

definition json_quote :: "jstring \<Rightarrow> jstring" where
  "json_quote s = 34 # quote_body s @ [34]"

text \<open>\<open>json_text\<close> is the text of a value inside an array, where \<^verbatim>\<open>undefined\<close> prints as \<^verbatim>\<open>null\<close>.\<close>

fun json_text :: "jval \<Rightarrow> jstring" where
  "json_text JUndef = lit ''null''"
| "json_text JNull = lit ''null''"
| "json_text (JBool b) = (if b then lit ''true'' else lit ''false'')"
| "json_text (JNum x) = (if is_finite x then num_str x else lit ''null'')"
| "json_text (JStr s) = json_quote s"
| "json_text (JArr vs) = lit ''['' @ join (lit '','') (map json_text vs) @ lit '']''"
| "json_text (JObj kvs) =
     lit ''{'' @ join (lit '','')
       (concat (map (\<lambda>kv. if snd kv = JUndef then [] else [json_quote (fst kv) @ lit '':'' @ json_text (snd kv)]) kvs))
     @ lit ''}''"

definition json_stringify :: "jval \<Rightarrow> jstring option" where
  "json_stringify v = (if v = JUndef then None else Some (json_text v))"

text \<open>
  The same with line breaks: \<open>nl d\<close> is what stands before an element or property at depth \<open>d\<close> and \<open>sep\<close>
  what follows a colon. \<open>json_pretty\<close> is \<^verbatim>\<open>JSON.stringify(v, null, 2)\<close>.
\<close>

fun json_fmt :: "(nat \<Rightarrow> jstring) \<Rightarrow> jstring \<Rightarrow> nat \<Rightarrow> jval \<Rightarrow> jstring" where
  "json_fmt nl sep d (JArr vs) =
     (if vs = [] then [91, 93]
      else 91 # nl (Suc d) @ join (44 # nl (Suc d)) (map (json_fmt nl sep (Suc d)) vs) @ nl d @ [93])"
| "json_fmt nl sep d (JObj kvs) =
     (let ps = concat (map (\<lambda>kv. if snd kv = JUndef then []
            else [json_quote (fst kv) @ 58 # sep @ json_fmt nl sep (Suc d) (snd kv)]) kvs) in
      if ps = [] then [123, 125] else 123 # nl (Suc d) @ join (44 # nl (Suc d)) ps @ nl d @ [125])"
| "json_fmt nl sep d v = json_text v"

definition line_at :: "nat \<Rightarrow> jstring" where
  "line_at d = 10 # replicate (2 * d) 32"

definition json_pretty :: "jval \<Rightarrow> jstring" where
  "json_pretty v = json_fmt line_at [32] 0 v"

section \<open>Parsing: \<^verbatim>\<open>JSON.parse\<close>\<close>

definition is_json_ws :: "nat \<Rightarrow> bool" where
  "is_json_ws c \<longleftrightarrow> c = 32 \<or> c = 9 \<or> c = 10 \<or> c = 13"

abbreviation skip :: "jstring \<Rightarrow> jstring" where
  "skip \<equiv> dropWhile is_json_ws"

definition unesc :: "nat \<Rightarrow> nat option" where
  "unesc e =
     (if e = 34 then Some 34 else if e = 92 then Some 92 else if e = 47 then Some 47
      else if e = 98 then Some 8 else if e = 102 then Some 12 else if e = 110 then Some 10
      else if e = 114 then Some 13 else if e = 116 then Some 9 else None)"

definition hex4 :: "jstring \<Rightarrow> (nat \<times> jstring) option" where
  "hex4 s =
     (if length s < 4 then None
      else map_option (\<lambda>n. (n, drop 4 s)) (radix_val 16 (take 4 s)))"

lemma hex4_length: "hex4 s = Some (n, r) \<Longrightarrow> length r < length s"
  by (auto simp: hex4_def split: if_splits)

text \<open>The rest of a string literal after its opening quote.\<close>

function (sequential) pstr :: "jstring \<Rightarrow> (jstring \<times> jstring) option" where
  "pstr [] = None"
| "pstr (c # s) =
     (if c = 34 then Some ([], s)
      else if c = 92 then
        (case s of [] \<Rightarrow> None
         | e # t \<Rightarrow>
             if e = 117 then
               (case hex4 t of None \<Rightarrow> None | Some (n, u) \<Rightarrow> map_option (apfst ((#) n)) (pstr u))
             else (case unesc e of None \<Rightarrow> None | Some x \<Rightarrow> map_option (apfst ((#) x)) (pstr t)))
      else if c < 32 then None
      else map_option (apfst ((#) c)) (pstr s))"
  by pat_completeness auto
termination
  by (relation "measure length") (auto dest!: hex4_length)

definition pnum :: "jstring \<Rightarrow> (jval \<times> jstring) option" where
  "pnum s =
     (let (neg, t) = (case s of [] \<Rightarrow> (False, s) | c # u \<Rightarrow> if c = 45 then (True, u) else (False, s));
          ip = takeWhile is_digit t; r1 = dropWhile is_digit t in
      if ip = [] \<or> (hd ip = 48 \<and> 1 < length ip) then None
      else if r1 \<noteq> [] \<and> hd r1 = 46 \<and> takeWhile is_digit (tl r1) = [] then None
      else
        case parse_udec t of None \<Rightarrow> None
        | Some (x, r) \<Rightarrow>
            if r \<noteq> [] \<and> (hd r = 101 \<or> hd r = 69) then None
            else Some (JNum (dbl (if neg then - x else x)), r))"

fun pval :: "nat \<Rightarrow> jstring \<Rightarrow> (jval \<times> jstring) option"
  and parr :: "nat \<Rightarrow> jstring \<Rightarrow> (jval list \<times> jstring) option"
  and pobj :: "nat \<Rightarrow> (jstring \<times> jval) list \<Rightarrow> jstring \<Rightarrow> ((jstring \<times> jval) list \<times> jstring) option"
where
  "pval 0 s = None"
| "pval (Suc f) s =
     (case skip s of
        [] \<Rightarrow> None
      | c # t \<Rightarrow>
          if c = 123 then
            (if skip t \<noteq> [] \<and> hd (skip t) = 125 then Some (JObj [], tl (skip t))
             else map_option (apfst JObj) (pobj f [] t))
          else if c = 91 then
            (if skip t \<noteq> [] \<and> hd (skip t) = 93 then Some (JArr [], tl (skip t))
             else map_option (apfst JArr) (parr f t))
          else if c = 34 then map_option (apfst JStr) (pstr t)
          else if starts_with (c # t) (lit ''true'') then Some (JBool True, drop 4 (c # t))
          else if starts_with (c # t) (lit ''false'') then Some (JBool False, drop 5 (c # t))
          else if starts_with (c # t) (lit ''null'') then Some (JNull, drop 4 (c # t))
          else pnum (c # t))"
| "parr 0 s = None"
| "parr (Suc f) s =
     (case pval f s of
        None \<Rightarrow> None
      | Some (v, r) \<Rightarrow>
          (case skip r of
             [] \<Rightarrow> None
           | c # u \<Rightarrow>
               if c = 93 then Some ([v], u)
               else if c = 44 then map_option (apfst ((#) v)) (parr f u)
               else None))"
| "pobj 0 acc s = None"
| "pobj (Suc f) acc s =
     (case skip s of
        [] \<Rightarrow> None
      | c # t \<Rightarrow>
          if c \<noteq> 34 then None
          else
            (case pstr t of
               None \<Rightarrow> None
             | Some (k, r) \<Rightarrow>
                 (case skip r of
                    [] \<Rightarrow> None
                  | d # u \<Rightarrow>
                      if d \<noteq> 58 then None
                      else
                        (case pval f u of
                           None \<Rightarrow> None
                         | Some (v, r2) \<Rightarrow>
                             (case skip r2 of
                                [] \<Rightarrow> None
                              | e # w \<Rightarrow>
                                  if e = 125 then Some (obj_put k v acc, w)
                                  else if e = 44 then pobj f (obj_put k v acc) w
                                  else None)))))"

text \<open>\<^verbatim>\<open>JSON.parse(s)\<close>: \<open>None\<close> is the thrown \<^verbatim>\<open>SyntaxError\<close>.\<close>

definition json_parse :: "jstring \<Rightarrow> jval option" where
  "json_parse s =
     (case pval (2 * length s + 2) s of
        None \<Rightarrow> None
      | Some (v, r) \<Rightarrow> if skip r = [] then Some v else None)"

section \<open>Reading back what was printed\<close>

text \<open>
  The values whose text determines them: no \<^verbatim>\<open>undefined\<close>, strings of 16-bit code units, objects in
  property order, and numbers that the number parser reads back from their text, among them the
  integers below $2^{53}$.
\<close>

definition unit_str :: "jstring \<Rightarrow> bool" where
  "unit_str s \<longleftrightarrow> list_all (\<lambda>c. c < 65536) s"

definition json_num :: "jsnum \<Rightarrow> bool" where
  "json_num a \<longleftrightarrow> is_finite a \<and> pnum (num_str a) = Some (JNum a, [])"

fun json_ok :: "jval \<Rightarrow> bool" where
  "json_ok JUndef = False"
| "json_ok JNull = True"
| "json_ok (JBool b) = True"
| "json_ok (JNum x) = json_num x"
| "json_ok (JStr s) = unit_str s"
| "json_ok (JArr vs) = list_all json_ok vs"
| "json_ok (JObj kvs) =
     (list_all (\<lambda>kv. unit_str (fst kv) \<and> json_ok (snd kv)) kvs \<and> obj_build [] kvs = kvs)"

lemma hex_digit_hexd [simp]: "d < 16 \<Longrightarrow> hex_digit (hexd d) = Some d"
  by (auto simp: hex_digit_def hexd_def is_digit_def)

lemma hex4_uesc:
  assumes "c < 65536"
  shows "hex4 (hexd (c div 4096) # hexd (c div 256 mod 16) # hexd (c div 16 mod 16) # hexd (c mod 16) # r) = Some (c, r)"
proof -
  have "c div 4096 < 16" using assms by (simp add: less_mult_imp_div_less)
  moreover have "16 * (16 * (16 * (c div 4096) + c div 256 mod 16) + c div 16 mod 16) + c mod 16 = c"
  proof -
    have "c div 4096 = c div 256 div 16" "c div 256 = c div 16 div 16"
      by (simp_all flip: div_mult2_eq)
    then show ?thesis by (simp only: mult_div_mod_eq)
  qed
  ultimately show ?thesis by (simp add: hex4_def radix_val_def)
qed

lemma pstr_uesc: "c < 65536 \<Longrightarrow> pstr (uesc c @ r) = map_option (apfst ((#) c)) (pstr r)"
  by (simp add: uesc_def hex4_uesc)

lemma pstr_esc_char: "c < 65536 \<Longrightarrow> pstr (esc_char c @ r) = map_option (apfst ((#) c)) (pstr r)"
  by (auto simp: esc_char_def unesc_def pstr_uesc)

lemma pstr_quote_body: "unit_str s \<Longrightarrow> pstr (quote_body s @ 34 # r) = Some (s, r)"
  by (induction s rule: quote_body.induct)
    (auto simp: unit_str_def pstr_esc_char is_high_def is_low_def)

text \<open>What may follow a value: nothing, a comma, a closing bracket or white space.\<close>

definition delim :: "jstring \<Rightarrow> bool" where
  "delim r \<longleftrightarrow> r = [] \<or> hd r \<in> {44, 93, 125} \<or> is_json_ws (hd r)"

lemma delim_hd: "delim (c # r) \<Longrightarrow> \<not> is_digit c \<and> c \<noteq> 46 \<and> c \<noteq> 101 \<and> c \<noteq> 69 \<and> c \<noteq> 43 \<and> c \<noteq> 45"
  by (auto simp: delim_def is_digit_def is_json_ws_def)

lemma digits_delim:
  assumes "delim r"
  shows "takeWhile is_digit (s @ r) = takeWhile is_digit s" "dropWhile is_digit (s @ r) = dropWhile is_digit s @ r"
  using assms by (induction s) (cases r; auto dest: delim_hd)+

text \<open>A number that is read to the end of the text is also read in front of a delimiter.\<close>

lemma parse_exp_delim: "parse_exp s = (e, []) \<Longrightarrow> delim r \<Longrightarrow> parse_exp (s @ r) = (e, r)"
  using delim_hd [of "hd r" "tl r"]
  by (cases r) (auto simp: parse_exp_def Let_def digits_delim dest: delim_hd split: list.splits if_splits)

lemma parse_udec_delim: "parse_udec s = Some (x, []) \<Longrightarrow> delim r \<Longrightarrow> parse_udec (s @ r) = Some (x, r)"
proof -
  assume p: "parse_udec s = Some (x, [])" and r: "delim r"
  define ip r1 where "ip = takeWhile is_digit s" and "r1 = dropWhile is_digit s"
  obtain fp r2 where f: "(case r1 of [] \<Rightarrow> ([], r1)
             | c # t \<Rightarrow> if c = 46 \<and> (ip \<noteq> [] \<or> takeWhile is_digit t \<noteq> [])
                       then (takeWhile is_digit t, dropWhile is_digit t) else ([], r1)) = (fp, r2)" by fastforce
  obtain ex r3 where e: "parse_exp r2 = (ex, r3)" by fastforce
  note q = p [unfolded parse_udec_def Let_def, folded ip_def r1_def, unfolded f prod.case e]
  then have ne: "\<not> (ip = [] \<and> fp = [])" by (auto split: if_splits)
  with q have x: "x = of_nat (digits_val (ip @ fp)) / 10 ^ length fp * ipow 10 ex" and r3: "r3 = []" by auto
  have "(case r1 @ r of [] \<Rightarrow> ([], r1 @ r)
             | c # t \<Rightarrow> if c = 46 \<and> (ip \<noteq> [] \<or> takeWhile is_digit t \<noteq> [])
                       then (takeWhile is_digit t, dropWhile is_digit t) else ([], r1 @ r)) = (fp, r2 @ r)"
    using f r by (cases r1; cases r) (auto simp: digits_delim dest: delim_hd split: if_splits)
  moreover have "parse_exp (r2 @ r) = (ex, r)" using parse_exp_delim [OF _ r] e r3 by simp
  ultimately show ?thesis
    unfolding parse_udec_def Let_def digits_delim [OF r] ip_def [symmetric] r1_def [symmetric] using ne x by simp
qed

lemma parse_udec_hd: "parse_udec s \<noteq> None \<Longrightarrow> s \<noteq> []"
  by (auto simp: parse_udec_def)

lemma pnum_cases:
  "pnum s = Some (v, w) \<longleftrightarrow>
   (let neg = (s \<noteq> [] \<and> hd s = 45); t = (if neg then tl s else s); ip = takeWhile is_digit t; r1 = dropWhile is_digit t in
    ip \<noteq> [] \<and> \<not> (hd ip = 48 \<and> 1 < length ip) \<and> \<not> (r1 \<noteq> [] \<and> hd r1 = 46 \<and> takeWhile is_digit (tl r1) = []) \<and>
    (\<exists>x. parse_udec t = Some (x, w) \<and> \<not> (w \<noteq> [] \<and> (hd w = 101 \<or> hd w = 69)) \<and> v = JNum (dbl (if neg then - x else x))))"
  by (cases s) (auto simp: pnum_def Let_def split: option.splits prod.splits if_splits)

lemma pnum_delim:
  assumes "pnum s = Some (v, [])" and "delim r"
  shows "pnum (s @ r) = Some (v, r)"
proof -
  define neg t where "neg = (s \<noteq> [] \<and> hd s = 45)" and "t = (if neg then tl s else s)"
  note p = assms(1) [unfolded pnum_cases Let_def, folded neg_def, folded t_def]
  then obtain x where x: "parse_udec t = Some (x, [])" "v = JNum (dbl (if neg then - x else x))" by blast
  have "s \<noteq> []" "t \<noteq> []" using p neg_def t_def parse_udec_hd [of t] x by auto
  then have s: "(s @ r \<noteq> [] \<and> hd (s @ r) = 45) = neg" "(if neg then tl (s @ r) else s @ r) = t @ r"
    by (auto simp: neg_def t_def)
  have dot: "\<not> (D @ r \<noteq> [] \<and> hd (D @ r) = 46 \<and> takeWhile is_digit (tl (D @ r)) = [])"
    if "\<not> (D \<noteq> [] \<and> hd D = 46 \<and> takeWhile is_digit (tl D) = [])" for D
    using that assms(2) delim_hd [of "hd r" "tl r"] by (cases D; cases r) (auto simp: digits_delim)
  have "\<not> (r \<noteq> [] \<and> (hd r = 101 \<or> hd r = 69))" using delim_hd [of "hd r" "tl r"] assms(2) by (cases r) auto
  then show ?thesis
    unfolding pnum_cases Let_def s digits_delim [OF assms(2)]
    using p x parse_udec_delim [OF x(1) assms(2)] dot [of "dropWhile is_digit t"] by blast
qed

lemma pnum_hd:
  assumes "pnum s = Some (v, w)"
  obtains c t where "s = c # t" and "c = 45 \<or> is_digit c"
proof (cases s)
  case Nil
  with assms show ?thesis by (simp add: pnum_cases)
next
  case (Cons c t)
  moreover have "c = 45 \<or> is_digit c" using assms unfolding Cons pnum_cases by (auto simp: Let_def split: if_splits)
  ultimately show ?thesis by (rule that)
qed

lemma nat_str_leading_zero: "hd (nat_str n) = 48 \<Longrightarrow> n = 0"
proof (induction n rule: nat_str.induct)
  case (1 n)
  then show ?case
    by (cases "n < 10") (auto simp: nat_str.simps [of n])
qed

lemma nat_str_0: "nat_str 0 = [48]"
  by (simp add: nat_str.simps)

lemma nat_str_no_leading: "\<not> (hd (nat_str n) = 48 \<and> 1 < length (nat_str n))"
  using nat_str_leading_zero [of n] by (auto simp: nat_str_0)

lemma pnum_nat_str: "pnum (nat_str n) = Some (JNum (dbl (of_nat n)), [])"
proof -
  obtain c t where ct: "nat_str n = c # t" "is_digit c" using nat_str_hd by blast
  then have "hd (nat_str n) \<noteq> 45" by (auto simp: is_digit_def)
  then show ?thesis unfolding pnum_cases Let_def using nat_str_no_leading [of n] by (simp add: parse_udec_nat_str)
qed

lemma json_num_nat: "n < 2 ^ 53 \<Longrightarrow> json_num (Fin (of_nat n))"
  by (simp add: json_num_def is_finite_def num_str_nat pnum_nat_str)

lemma json_num_0 [simp]: "json_num (Fin 0)"
  using json_num_nat [of 0] by simp

text \<open>Leading white space is skipped.\<close>

lemma skip_ws: "list_all is_json_ws w \<Longrightarrow> skip (w @ s) = skip s"
  by (induction w) auto

lemma pval_ws: "list_all is_json_ws w \<Longrightarrow> pval f (w @ s) = pval f s"
  and pobj_ws: "list_all is_json_ws w \<Longrightarrow> pobj f acc (w @ s) = pobj f acc s"
  by (cases f; simp add: skip_ws)+

lemma parr_ws: "list_all is_json_ws w \<Longrightarrow> parr f (w @ s) = parr f s"
  by (cases f) (simp_all add: pval_ws)

text \<open>\<open>reads v tx\<close>: the parser reads the value \<open>v\<close> from the text \<open>tx\<close>, with fuel twice its length.\<close>

definition reads :: "jval \<Rightarrow> jstring \<Rightarrow> bool" where
  "reads v tx \<longleftrightarrow> (\<forall>f r. 2 * length tx \<le> f \<longrightarrow> delim r \<longrightarrow> pval f (tx @ r) = Some (v, r))"

lemma readsD: "reads v tx \<Longrightarrow> 2 * length tx \<le> f \<Longrightarrow> delim r \<Longrightarrow> pval f (tx @ r) = Some (v, r)"
  by (simp add: reads_def)

lemma reads_leaf:
  assumes "\<And>g r. delim r \<Longrightarrow> pval (Suc g) (tx @ r) = Some (v, r)" and "tx \<noteq> []"
  shows "reads v tx"
  unfolding reads_def
proof (intro allI impI)
  fix f r assume "2 * length tx \<le> f" and "delim r"
  moreover from this assms(2) obtain g where "f = Suc g" by (cases f) auto
  ultimately show "pval f (tx @ r) = Some (v, r)" using assms(1) by simp
qed

lemma reads_num:
  assumes "json_num x"
  shows "reads (JNum x) (num_str x)"
proof (rule reads_leaf)
  have p: "pnum (num_str x) = Some (JNum x, [])" using assms by (simp add: json_num_def)
  then obtain c t where ct: "num_str x = c # t" "c = 45 \<or> is_digit c" by (rule pnum_hd)
  then show "num_str x \<noteq> []" by simp
  fix g r assume "delim r"
  then have "pnum (c # t @ r) = Some (JNum x, r)" using pnum_delim [OF p] ct(1) by simp
  moreover have "\<not> starts_with (c # t @ r) (lit ''true'')" "\<not> starts_with (c # t @ r) (lit ''false'')"
    "\<not> starts_with (c # t @ r) (lit ''null'')" "c \<noteq> 123" "c \<noteq> 91" "c \<noteq> 34" "\<not> is_json_ws c"
    using ct(2) by (auto simp: starts_with_def is_digit_def is_json_ws_def)
  ultimately show "pval (Suc g) (num_str x @ r) = Some (JNum x, r)" unfolding ct(1) by simp
qed

section \<open>Printed values are read back, whatever the layout\<close>

locale json_layout =
  fixes nl :: "nat \<Rightarrow> jstring" and sep :: jstring
  assumes nl_ws: "list_all is_json_ws (nl d)" and sep_ws: "list_all is_json_ws sep"
begin

abbreviation fmt :: "nat \<Rightarrow> jval \<Rightarrow> jstring" where
  "fmt \<equiv> json_fmt nl sep"

abbreviation pfmt :: "nat \<Rightarrow> jstring \<times> jval \<Rightarrow> jstring" where
  "pfmt d kv \<equiv> json_quote (fst kv) @ 58 # sep @ fmt d (snd kv)"

text \<open>The first character of a printed value is not white space and not a closing bracket.\<close>

lemma fmt_hd: "json_ok v \<Longrightarrow> \<exists>c t. fmt d v = c # t \<and> \<not> is_json_ws c \<and> c \<noteq> 93 \<and> c \<noteq> 125"
proof (cases v)
  case (JNum x)
  moreover assume "json_ok v"
  ultimately have x: "is_finite x" and p: "pnum (num_str x) = Some (JNum x, [])" by (auto simp: json_num_def)
  from p obtain c t where "num_str x = c # t" "c = 45 \<or> is_digit c" by (rule pnum_hd)
  with x JNum show ?thesis by (auto simp: is_digit_def is_json_ws_def)
qed (auto simp: is_json_ws_def json_quote_def Let_def)

lemma delim_ws: "delim (nl d @ c # r) \<longleftrightarrow> nl d \<noteq> [] \<or> delim (c # r)"
  using nl_ws [of d] by (cases "nl d") (auto simp: delim_def)

lemma parr_text:
  assumes "vs \<noteq> []" and "\<forall>v \<in> set vs. reads v (fmt d v)"
    and "2 * length (join (44 # nl d) (map (fmt d) vs)) + 3 \<le> f"
  shows "parr f (join (44 # nl d) (map (fmt d) vs) @ nl e @ 93 # r) = Some (vs, r)"
  using assms
proof (induction vs arbitrary: f rule: list_nonempty_induct)
  case (single v)
  then obtain g where f: "f = Suc g" by (cases f) auto
  have "pval g (fmt d v @ nl e @ 93 # r) = Some (v, nl e @ 93 # r)"
    using single f by (intro readsD) (auto simp: delim_ws, auto simp: delim_def)
  then show ?case by (simp add: f skip_ws [OF nl_ws] is_json_ws_def)
next
  case (cons v vs)
  then obtain g where f: "f = Suc g" by (cases f) auto
  obtain w ws where vs: "vs = w # ws" using cons.hyps by (cases vs) auto
  let ?J = "join (44 # nl d) (map (fmt d) vs)"
  have J: "join (44 # nl d) (map (fmt d) (v # vs)) = fmt d v @ 44 # nl d @ ?J" by (simp add: vs)
  have "pval g (fmt d v @ 44 # nl d @ ?J @ nl e @ 93 # r) = Some (v, 44 # nl d @ ?J @ nl e @ 93 # r)"
    using cons.prems f unfolding J by (intro readsD) (auto simp: delim_def)
  moreover have "parr g (?J @ nl e @ 93 # r) = Some (vs, r)"
    using cons.IH cons.prems f unfolding J by simp
  ultimately show ?case unfolding J by (simp add: f is_json_ws_def parr_ws [OF nl_ws])
qed

lemma pobj_prop:
  assumes "unit_str k" and "reads v (fmt d v)" and "2 * length (fmt d v) \<le> f"
    and "c = 44 \<and> w = [] \<or> c = 125 \<and> w = nl e"
  shows "pobj (Suc f) acc (pfmt d (k, v) @ w @ c # r) =
    (if c = 125 then Some (obj_put k v acc, r) else pobj f (obj_put k v acc) r)"
proof -
  have w: "list_all is_json_ws w" "delim (w @ c # r)" using assms(4) nl_ws by (auto simp: delim_ws) (auto simp: delim_def)
  then have "pval f (fmt d v @ w @ c # r) = Some (v, w @ c # r)"
    using assms by (intro readsD) auto
  then have "pval f (sep @ fmt d v @ w @ c # r) = Some (v, w @ c # r)" by (simp add: pval_ws [OF sep_ws])
  moreover have "pstr (quote_body k @ 34 # 58 # sep @ fmt d v @ w @ c # r) = Some (k, 58 # sep @ fmt d v @ w @ c # r)"
    using assms(1) by (rule pstr_quote_body)
  ultimately show ?thesis
    using assms(4) w(1) by (auto simp: json_quote_def is_json_ws_def skip_ws)
qed

lemma pobj_text:
  assumes "kvs \<noteq> []" and "\<forall>kv \<in> set kvs. unit_str (fst kv) \<and> reads (snd kv) (fmt d (snd kv))"
    and "2 * length (join (44 # nl d) (map (pfmt d) kvs)) + 3 \<le> f"
  shows "pobj f acc (join (44 # nl d) (map (pfmt d) kvs) @ nl e @ 125 # r) = Some (obj_build acc kvs, r)"
  using assms
proof (induction kvs arbitrary: f acc rule: list_nonempty_induct)
  case (single kv)
  then obtain g where f: "f = Suc g" by (cases f) auto
  show ?case
    using pobj_prop [of "fst kv" "snd kv" d g 125 "nl e" e acc r] single f
    by (simp add: obj_build_def case_prod_beta)
next
  case (cons kv kvs)
  then obtain g where f: "f = Suc g" by (cases f) auto
  obtain w ws where vs: "kvs = w # ws" using cons.hyps by (cases kvs) auto
  let ?J = "join (44 # nl d) (map (pfmt d) kvs)"
  have J: "join (44 # nl d) (map (pfmt d) (kv # kvs)) = pfmt d kv @ 44 # nl d @ ?J" by (simp add: vs)
  have "pobj g (obj_put (fst kv) (snd kv) acc) (?J @ nl e @ 125 # r) =
    Some (obj_build (obj_put (fst kv) (snd kv) acc) kvs, r)"
    using cons.prems f unfolding J by (intro cons.IH) auto
  then show ?case
    using pobj_prop [of "fst kv" "snd kv" d g 44 "[]" e acc "nl d @ ?J @ nl e @ 125 # r"] cons.prems f unfolding J
    by (simp add: obj_build_def case_prod_beta pobj_ws [OF nl_ws])
qed

lemma bracket_ws:
  assumes "\<not> is_json_ws c" and "c \<noteq> x"
  shows "\<not> (skip (nl d @ c # s) \<noteq> [] \<and> hd (skip (nl d @ c # s)) = x)"
  using assms by (simp add: skip_ws [OF nl_ws])

lemma reads_arr:
  assumes ok: "json_ok (JArr vs)" and IH: "\<forall>v \<in> set vs. reads v (fmt (Suc d) v)"
  shows "reads (JArr vs) (fmt d (JArr vs))"
  unfolding reads_def
proof (intro allI impI)
  fix f r assume f: "2 * length (fmt d (JArr vs)) \<le> f"
  then obtain g where g: "f = Suc g" by (cases f) (auto split: if_splits)
  show "pval f (fmt d (JArr vs) @ r) = Some (JArr vs, r)"
  proof (cases "vs = []")
    case True
    then show ?thesis by (simp add: g is_json_ws_def)
  next
    case False
    let ?J = "join (44 # nl (Suc d)) (map (fmt (Suc d)) vs)"
    obtain w ws where vs: "vs = w # ws" using False by (cases vs) auto
    with ok obtain c t where c: "fmt (Suc d) w = c # t" "\<not> is_json_ws c" "c \<noteq> 93" using fmt_hd [of w "Suc d"] by auto
    have "\<exists>y. ?J = c # y" using c(1) by (cases ws) (simp_all add: vs)
    then obtain y where y: "?J = c # y" ..
    have "parr g (?J @ nl d @ 93 # r) = Some (vs, r)"
      using False IH f g by (intro parr_text) auto
    then have "parr g (nl (Suc d) @ ?J @ nl d @ 93 # r) = Some (vs, r)" by (simp add: parr_ws [OF nl_ws])
    then show ?thesis using False bracket_ws [OF c(2,3), of "Suc d" "y @ nl d @ 93 # r"] unfolding y
      by (simp add: g y is_json_ws_def)
  qed
qed

lemma props_text:
  "\<forall>kv \<in> set kvs. json_ok (snd kv) \<Longrightarrow>
   concat (map (\<lambda>kv. if snd kv = JUndef then [] else [pfmt d kv]) kvs) = map (pfmt d) kvs"
  by (induction kvs) auto

lemma reads_obj:
  assumes ok: "json_ok (JObj kvs)" and IH: "\<forall>kv \<in> set kvs. reads (snd kv) (fmt (Suc d) (snd kv))"
  shows "reads (JObj kvs) (fmt d (JObj kvs))"
  unfolding reads_def
proof (intro allI impI)
  let ?J = "join (44 # nl (Suc d)) (map (pfmt (Suc d)) kvs)"
  from ok have oks: "\<forall>kv \<in> set kvs. unit_str (fst kv) \<and> json_ok (snd kv)"
    and build: "obj_build [] kvs = kvs"
    by (auto simp: list_all_iff)
  have tx: "fmt d (JObj kvs) = (if kvs = [] then [123, 125] else 123 # nl (Suc d) @ ?J @ nl d @ [125])"
    using props_text [of kvs "Suc d"] oks by (simp add: Let_def)
  fix f r assume f: "2 * length (fmt d (JObj kvs)) \<le> f"
  then obtain g where g: "f = Suc g" unfolding tx by (cases f) (auto split: if_splits)
  show "pval f (fmt d (JObj kvs) @ r) = Some (JObj kvs, r)"
  proof (cases "kvs = []")
    case True
    then show ?thesis by (simp add: g is_json_ws_def)
  next
    case False
    obtain w ws where kvs: "kvs = w # ws" using False by (cases kvs) auto
    have "\<exists>y. ?J = 34 # y" by (cases ws) (auto simp: kvs json_quote_def)
    then obtain y where y: "?J = 34 # y" ..
    have "pobj g [] (?J @ nl d @ 125 # r) = Some (obj_build [] kvs, r)"
      using False oks IH f g unfolding tx by (intro pobj_text) (auto split: if_splits)
    then have "pobj g [] (nl (Suc d) @ ?J @ nl d @ 125 # r) = Some (kvs, r)" by (simp add: pobj_ws [OF nl_ws] build)
    then show ?thesis unfolding tx using False bracket_ws [of 34 125 "Suc d" "y @ nl d @ 125 # r"] unfolding y
      by (simp add: g y is_json_ws_def)
  qed
qed

lemma reads_fmt: "json_ok v \<Longrightarrow> reads v (fmt d v)"
proof (induction v arbitrary: d)
  case JNull
  show ?case by (rule reads_leaf) (auto simp: starts_with_def is_json_ws_def)
next
  case (JBool b)
  show ?case by (rule reads_leaf) (auto simp: starts_with_def is_json_ws_def)
next
  case (JNum x)
  then show ?case using reads_num [of x] by (simp add: json_num_def)
next
  case (JStr s)
  then show ?case
    by (intro reads_leaf) (auto simp: json_quote_def is_json_ws_def pstr_quote_body)
next
  case (JArr vs)
  then show ?case by (intro reads_arr) (auto simp: list_all_iff)
next
  case (JObj kvs)
  have "reads (snd kv) (fmt (Suc d) (snd kv))" if "kv \<in> set kvs" for kv
  proof (rule JObj.IH)
    show "kv \<in> set kvs" by fact
    show "snd kv \<in> Basic_BNFs.snds kv" by (simp add: snds.simps)
    show "json_ok (snd kv)" using JObj.prems that by (auto simp: list_all_iff)
  qed
  with JObj.prems show ?case by (intro reads_obj) auto
qed simp

text \<open>Parsing the printed text gives the value back, and the fuel of the parser is enough for it.\<close>

lemma parse_fmt: "json_ok v \<Longrightarrow> json_parse (fmt d v) = Some v"
proof -
  assume "json_ok v"
  then have "pval (2 * length (fmt d v) + 2) (fmt d v @ []) = Some (v, [])"
    using reads_fmt by (intro readsD) (auto simp: delim_def)
  then show ?thesis by (simp add: json_parse_def)
qed

lemma fmt_not_Nil: "json_ok v \<Longrightarrow> fmt d v \<noteq> []"
  using fmt_hd [of v d] by auto

end

interpretation compact: json_layout "\<lambda>_. []" "[]"
  by unfold_locales simp_all

interpretation pretty: json_layout line_at "[32]"
  by unfold_locales (simp_all add: line_at_def is_json_ws_def list_all_iff)

lemma json_text_fmt: "json_text v = json_fmt (\<lambda>_. []) [] d v"
proof (induction v arbitrary: d)
  case (JArr vs)
  then have m: "map json_text vs = map (json_fmt (\<lambda>_. []) [] (Suc d)) vs" by simp
  show ?case unfolding json_text.simps json_fmt.simps m by simp
next
  case (JObj kvs)
  have m: "map (\<lambda>kv. if snd kv = JUndef then [] else [json_quote (fst kv) @ lit '':'' @ json_text (snd kv)]) kvs =
      map (\<lambda>kv. if snd kv = JUndef then [] else [json_quote (fst kv) @ 58 # [] @ json_fmt (\<lambda>_. []) [] (Suc d) (snd kv)]) kvs"
    using JObj.IH by (auto simp: snds.simps)
  have "lit ''{'' @ join (lit '','') ps @ lit ''}'' = (if ps = [] then [123, 125] else 123 # [] @ join (44 # []) ps @ [] @ [125])" for ps
    by (cases ps) simp_all
  then show ?case unfolding json_text.simps json_fmt.simps m Let_def by (rule trans) (rule refl)
qed simp_all

lemma json_roundtrip:
  assumes "json_ok v"
  shows "json_stringify v = Some (json_text v)" and "json_parse (json_text v) = Some v"
proof -
  show "json_stringify v = Some (json_text v)" using assms by (auto simp: json_stringify_def)
  show "json_parse (json_text v) = Some v" using compact.parse_fmt [OF assms] json_text_fmt by simp
qed

lemma json_text_not_Nil [simp]: "json_ok v \<Longrightarrow> json_text v \<noteq> []"
  using compact.fmt_not_Nil [of v 0] json_text_fmt [of v 0] by simp

text \<open>Objects built property after property from printable values are printable.\<close>

lemma obj_put_map:
  "obj_put k (f k v) (map (\<lambda>(k, v). (k, f k v)) ps) = map (\<lambda>(k, v). (k, f k v)) (obj_put k v ps)"
proof -
  have m: "map_of (map (\<lambda>(k, v). (k, f k v)) ps) k = map_option (f k) (map_of ps k)" by (induction ps) auto
  have "insert_index i (k, f k v) (map (\<lambda>(k, v). (k, f k v)) ps) = map (\<lambda>(k, v). (k, f k v)) (insert_index i (k, v) ps)" for i
    by (induction ps) (auto split: option.splits)
  then show ?thesis by (auto simp: obj_put_def m case_prod_beta split: option.splits)
qed

lemma obj_build_map:
  "obj_build (map (\<lambda>(k, v). (k, f k v)) acc) (map (\<lambda>(k, v). (k, f k v)) kvs) = map (\<lambda>(k, v). (k, f k v)) (obj_build acc kvs)"
  by (induction kvs arbitrary: acc) (auto simp: obj_build_def obj_put_map)

lemma obj_build_put:
  assumes "obj_build [] ps = ps" and "index_key k = None"
  shows "obj_build [] (obj_put k v ps) = obj_put k v ps"
proof (cases "map_of ps k")
  case None
  then show ?thesis using assms by (simp add: obj_put_def) (simp add: obj_build_def obj_put_def)
next
  case (Some w)
  let ?f = "\<lambda>k' v'. if k' = k then v else v'"
  have "obj_put k v ps = map (\<lambda>(k, v). (k, ?f k v)) ps" using Some by (auto simp: obj_put_def)
  then show ?thesis using obj_build_map [of ?f "[]" ps] assms(1) by simp
qed

lemma set_obj_put: "set (obj_put k v ps) \<subseteq> insert (k, v) (set ps)"
  by (auto simp: obj_put_def set_insert_index split: option.splits if_splits)

definition key_ok :: "jstring \<Rightarrow> bool" where
  "key_ok k \<longleftrightarrow> index_key k = None \<and> unit_str k"

lemma json_ok_put: "json_ok (JObj ps) \<Longrightarrow> key_ok k \<Longrightarrow> json_ok v \<Longrightarrow> json_ok (JObj (obj_put k v ps))"
  using set_obj_put [of k v ps] by (auto simp: list_all_iff obj_build_put key_ok_def)

lemma json_ok_Nil [simp]: "json_ok (JObj [])"
  by (simp add: obj_build_def)

lemma json_ok_build:
  "json_ok (JObj acc) \<Longrightarrow> list_all (\<lambda>(k, v). key_ok k \<and> json_ok v) kvs \<Longrightarrow> json_ok (JObj (obj_build acc kvs))"
proof (induction kvs arbitrary: acc)
  case (Cons kv kvs)
  then show ?case by (cases kv) (simp add: obj_build_def json_ok_put del: json_ok.simps)
qed (simp add: obj_build_def)

lemma json_ok_lit: "list_all (\<lambda>(k, v). key_ok (lit k) \<and> json_ok v) kvs \<Longrightarrow> json_ok (JObj (obj_lit kvs))"
  unfolding obj_lit_def by (rule json_ok_build [OF json_ok_Nil]) (auto simp: list_all_iff)

text \<open>
  The interface a store relies on: a value is written as text and read back. Everything the stores
  keep in \<^verbatim>\<open>localStorage\<close> goes through it.
\<close>

locale text_codec =
  fixes enc :: "'a \<Rightarrow> jstring"
    and dec :: "jstring \<Rightarrow> 'a option"
    and ok :: "'a \<Rightarrow> bool"
  assumes dec_enc: "ok x \<Longrightarrow> dec (enc x) = Some x"
    and enc_not_Nil: "ok x \<Longrightarrow> enc x \<noteq> []"
begin

lemma enc_inj: "ok x \<Longrightarrow> ok y \<Longrightarrow> enc x = enc y \<Longrightarrow> x = y"
  by (metis dec_enc option.inject)

text \<open>A key-value store whose values are encoded: reading a key after writing it.\<close>

lemma read_write: "ok x \<Longrightarrow> Option.bind ((m(k \<mapsto> enc x)) k) dec = Some x"
  by (simp add: dec_enc)

lemma read_other: "k \<noteq> k' \<Longrightarrow> Option.bind ((m(k' \<mapsto> enc x)) k) dec = Option.bind (m k) dec"
  by simp

end

interpretation json: text_codec json_text json_parse json_ok
  by unfold_locales (auto simp: json_roundtrip)

interpretation json_pp: text_codec json_pretty json_parse json_ok
  by unfold_locales (auto simp: json_pretty_def pretty.parse_fmt pretty.fmt_not_Nil)

end
