(* ===== verification/Playground_Messages.thy ===== *)
theory Playground_Messages
  imports JS_Json
begin

text \<open>
  The messages of the playground chat (\<^verbatim>\<open>features/playground/lib/message-utils.ts\<close> and
  \<^verbatim>\<open>payload-builder.ts\<close>): the message type, the creators, the splitting of \<^verbatim>\<open><think>\<close> blocks from
  the visible text, the updates a running stream applies to the last assistant message, the
  clean-up of stored messages, and the request payload. Identifiers come from the package
  \<^verbatim>\<open>nanoid\<close>, so the creators take them as arguments.
\<close>

datatype role = RUser | RAssistant | RSystem

datatype mstatus = Loading | Streaming | Complete | Failed

record version =
  v_id :: "jstring option"
  v_content :: jstring

record reasoning =
  r_content :: jstring
  r_duration :: jsnum

text \<open>
  Optional fields are options; \<open>errorCode\<close> distinguishes absent, \<^verbatim>\<open>null\<close> (\<open>Some None\<close>) and a string.
\<close>

record message =
  m_key :: jstring
  m_from :: role
  m_versions :: "version list"
  m_sources :: "(jstring \<times> jstring) list option"
  m_reasoning :: "reasoning option"
  isReasoningStreaming :: "bool option"
  isReasoningComplete :: "bool option"
  isContentComplete :: "bool option"
  m_status :: "mstatus option"
  errorCode :: "jstring option option"

definition API_REQUEST_ERROR :: jstring where
  "API_REQUEST_ERROR = lit ''Request error occurred''"

definition PARSE_ERROR :: jstring where
  "PARSE_ERROR = lit ''Error parsing response data''"

definition STREAM_START_ERROR :: jstring where
  "STREAM_START_ERROR = lit ''Error establishing connection''"

definition CONNECTION_CLOSED :: jstring where
  "CONNECTION_CLOSED = lit ''Connection closed''"

definition INTERRUPTED :: jstring where
  "INTERRUPTED = lit ''Generation was interrupted''"

section \<open>Creating messages and reading their content\<close>

definition createMessageVersion :: "jstring \<Rightarrow> jstring \<Rightarrow> version" where
  "createMessageVersion nid content = \<lparr>v_id = Some nid, v_content = content\<rparr>"

definition getCurrentVersion :: "message \<Rightarrow> version" where
  "getCurrentVersion m =
     (case m_versions m of v # _ \<Rightarrow> v | [] \<Rightarrow> \<lparr>v_id = Some (lit ''default''), v_content = []\<rparr>)"

definition updateCurrentVersionContent :: "message \<Rightarrow> jstring \<Rightarrow> message" where
  "updateCurrentVersionContent m content =
     m\<lparr>m_versions := [(getCurrentVersion m)\<lparr>v_content := content\<rparr>]\<rparr>"

definition createUserMessage :: "jstring \<Rightarrow> jstring \<Rightarrow> jstring \<Rightarrow> message" where
  "createUserMessage kid vid content =
     \<lparr>m_key = kid, m_from = RUser, m_versions = [createMessageVersion vid content],
      m_sources = None, m_reasoning = None, isReasoningStreaming = None, isReasoningComplete = None,
      isContentComplete = None, m_status = None, errorCode = None\<rparr>"

definition createLoadingAssistantMessage :: "jstring \<Rightarrow> jstring \<Rightarrow> message" where
  "createLoadingAssistantMessage kid vid =
     \<lparr>m_key = kid, m_from = RAssistant, m_versions = [createMessageVersion vid []],
      m_sources = None, m_reasoning = None, isReasoningStreaming = Some False,
      isReasoningComplete = Some False, isContentComplete = Some False, m_status = Some Loading,
      errorCode = None\<rparr>"

datatype content_part = TextPart jstring | ImagePart jstring

datatype message_content = PlainText jstring | Parts "content_part list"

definition buildMessageContent :: "jstring \<Rightarrow> jstring list \<Rightarrow> message_content" where
  "buildMessageContent txt imageUrls =
     (let validImages = filter (\<lambda>url. trim url \<noteq> []) imageUrls in
      if validImages = [] then PlainText txt
      else Parts (TextPart txt # map (\<lambda>url. ImagePart (trim url)) validImages))"

fun getTextContent :: "message_content \<Rightarrow> jstring" where
  "getTextContent (PlainText s) = s"
| "getTextContent (Parts ps) =
     (case List.find (\<lambda>p. case p of TextPart _ \<Rightarrow> True | ImagePart _ \<Rightarrow> False) ps of
        Some (TextPart s) \<Rightarrow> s
      | _ \<Rightarrow> [])"

definition isValidMessage :: "message \<Rightarrow> bool" where
  "isValidMessage m \<longleftrightarrow>
     (case m_versions m of
        [] \<Rightarrow> False
      | v # _ \<Rightarrow> \<not> (m_from m = RAssistant \<and> trim (v_content v) = []))"

definition formatMessageForAPI :: "message \<Rightarrow> role \<times> jstring" where
  "formatMessageForAPI m = (m_from m, v_content (getCurrentVersion m))"

section \<open>Thinking blocks\<close>

definition open_tag :: jstring where
  "open_tag = lit ''<think>''"

definition close_tag :: jstring where
  "close_tag = lit ''</think>''"

text \<open>
  The loop of \<^verbatim>\<open>parseThinkTags\<close> on the text that follows \<^verbatim>\<open>currentPos\<close>; the lists are the visible
  parts, the reasoning parts, and whether a block was left open.
\<close>

function think_loop :: "jstring \<Rightarrow> jstring list \<Rightarrow> jstring list \<Rightarrow> jstring list \<times> jstring list \<times> bool" where
  "think_loop rest vis rea =
     (case find_sub open_tag rest of
        None \<Rightarrow> (if rest \<noteq> [] then vis @ [rest] else vis, rea, False)
      | Some i \<Rightarrow>
          let vis' = (if 0 < i then vis @ [take i rest] else vis);
              after = drop (i + 7) rest in
          (case find_sub close_tag after of
             None \<Rightarrow> (vis', rea @ [after], True)
           | Some j \<Rightarrow> think_loop (drop (j + 8) after) vis' (rea @ [take j after])))"
  by pat_completeness auto
termination
proof (relation "measure (\<lambda>(rest, _, _). length rest)", goal_cases)
  case 1
  then show ?case by simp
next
  case (2 rest vis rea i vis' after j)
  from 2(1) have "i + length open_tag \<le> length rest" using find_sub_Some by blast
  then show ?case using 2(3) by (simp add: open_tag_def)
qed

declare think_loop.simps [simp del]

record think_result =
  visibleContent :: jstring
  t_reasoning :: jstring
  hasUnclosedTag :: bool

definition parseThinkTags :: "jstring \<Rightarrow> think_result" where
  "parseThinkTags content =
     (if \<not> includes_str content open_tag then
        \<lparr>visibleContent = content, t_reasoning = [], hasUnclosedTag = False\<rparr>
      else
        let (vis, rea, unclosed) = think_loop content [] [] in
        \<lparr>visibleContent = trim (join [] vis), t_reasoning = trim (join [10, 10] rea),
         hasUnclosedTag = unclosed\<rparr>)"

section \<open>Updating the last assistant message\<close>

definition updateLastAssistantMessage :: "message list \<Rightarrow> (message \<Rightarrow> message) \<Rightarrow> message list" where
  "updateLastAssistantMessage ms updater =
     (if ms = [] then ms
      else if m_from (last ms) \<noteq> RAssistant then ms
      else butlast ms @ [updater (last ms)])"

definition updateAssistantMessageWithError ::
    "message list \<Rightarrow> jstring \<Rightarrow> jstring option \<Rightarrow> message list" where
  "updateAssistantMessageWithError ms errorMessage code =
     updateLastAssistantMessage ms (\<lambda>m.
       (updateCurrentVersionContent m (API_REQUEST_ERROR @ lit '': '' @ errorMessage))
         \<lparr>m_status := Some Failed, isReasoningStreaming := Some False,
          errorCode := Some (case code of Some (c # cs) \<Rightarrow> Some (c # cs) | _ \<Rightarrow> None)\<rparr>)"

text \<open>The chunk is optional in the source; an empty chunk is falsy and leaves the content alone.\<close>

definition processStreamingContent :: "message \<Rightarrow> jstring option \<Rightarrow> message" where
  "processStreamingContent m contentChunk =
     (let cur = v_content (getCurrentVersion m);
          fullContent = (case contentChunk of None \<Rightarrow> cur | Some ch \<Rightarrow> cur @ ch);
          p = parseThinkTags fullContent;
          finalReasoning =
            (if t_reasoning p \<noteq> [] then Some \<lparr>r_content = t_reasoning p, r_duration = Fin 0\<rparr>
             else m_reasoning m) in
      (updateCurrentVersionContent m fullContent)
        \<lparr>m_reasoning := finalReasoning, isReasoningStreaming := Some (hasUnclosedTag p)\<rparr>)"

text \<open>
  The first non-empty text among the API's reasoning, the reasoning already streamed and the
  extracted blocks.
\<close>

definition first_nonempty :: "jstring list \<Rightarrow> jstring" where
  "first_nonempty xs = (case filter (\<lambda>x. x \<noteq> []) xs of x # _ \<Rightarrow> x | [] \<Rightarrow> [])"

definition finalizeMessage :: "message \<Rightarrow> jstring option \<Rightarrow> message" where
  "finalizeMessage m apiReasoningContent =
     (let p = parseThinkTags (v_content (getCurrentVersion m));
          finalReasoning = first_nonempty
            [case apiReasoningContent of None \<Rightarrow> [] | Some s \<Rightarrow> s,
             case m_reasoning m of None \<Rightarrow> [] | Some r \<Rightarrow> r_content r,
             t_reasoning p] in
      (updateCurrentVersionContent m (visibleContent p))
        \<lparr>m_reasoning :=
           (if finalReasoning \<noteq> []
            then Some \<lparr>r_content = finalReasoning,
              r_duration = (case m_reasoning m of None \<Rightarrow> Fin 0
                            | Some r \<Rightarrow> if jtruthy (r_duration r) then r_duration r else Fin 0)\<rparr>
            else None),
         isReasoningStreaming := Some False\<rparr>)"

section \<open>Stored messages\<close>

definition stuck :: "message \<Rightarrow> bool" where
  "stuck m \<longleftrightarrow> m_from m = RAssistant \<and> (m_status m = Some Loading \<or> m_status m = Some Streaming)"

text \<open>The loop from the end of the list: the index of the last stuck message.\<close>

fun last_stuck :: "nat \<Rightarrow> message list \<Rightarrow> nat option" where
  "last_stuck 0 ms = None"
| "last_stuck (Suc i) ms = (if stuck (ms ! i) then Some i else last_stuck i ms)"

definition sanitizeMessagesOnLoad :: "message list \<Rightarrow> message list" where
  "sanitizeMessagesOnLoad ms =
     (case last_stuck (length ms) ms of
        None \<Rightarrow> ms
      | Some i \<Rightarrow>
          let finalized = finalizeMessage (ms ! i) None;
              hasContent = (case m_versions finalized of [] \<Rightarrow> False | v # _ \<Rightarrow> trim (v_content v) \<noteq> []);
              hasReasoning = (case m_reasoning finalized of None \<Rightarrow> False | Some r \<Rightarrow> trim (r_content r) \<noteq> []);
              sanitized =
                (if hasContent \<or> hasReasoning
                 then finalized\<lparr>m_status := Some Complete, isReasoningStreaming := Some False\<rparr>
                 else (updateCurrentVersionContent finalized (API_REQUEST_ERROR @ lit '': '' @ INTERRUPTED))
                   \<lparr>m_status := Some Failed, isReasoningStreaming := Some False\<rparr>) in
          ms[i := sanitized])"

section \<open>The request payload\<close>

record playground_config =
  c_model :: jstring
  c_group :: jstring
  temperature :: jsnum
  top_p :: jsnum
  max_tokens :: jsnum
  frequency_penalty :: jsnum
  presence_penalty :: jsnum
  seed :: "jsnum option"
  c_stream :: bool

record parameter_enabled =
  en_temperature :: bool
  en_top_p :: bool
  en_max_tokens :: bool
  en_frequency_penalty :: bool
  en_presence_penalty :: bool
  en_seed :: bool

record chat_request =
  q_model :: jstring
  q_group :: jstring
  q_messages :: "(role \<times> jstring) list"
  q_stream :: bool
  q_params :: "(jstring \<times> jsnum) list"

definition DEFAULT_CONFIG :: playground_config where
  "DEFAULT_CONFIG =
     \<lparr>c_model = lit ''gpt-4o'', c_group = lit ''default'', temperature = dbl (7/10), top_p = Fin 1,
      max_tokens = Fin 4096, frequency_penalty = Fin 0, presence_penalty = Fin 0, seed = None,
      c_stream = True\<rparr>"

definition DEFAULT_PARAMETER_ENABLED :: parameter_enabled where
  "DEFAULT_PARAMETER_ENABLED =
     \<lparr>en_temperature = True, en_top_p = True, en_max_tokens = False, en_frequency_penalty = True,
      en_presence_penalty = True, en_seed = False\<rparr>"

text \<open>The optional parameters of the request, in the order of \<^verbatim>\<open>parameterKeys\<close>.\<close>

definition parameter_values :: "playground_config \<Rightarrow> parameter_enabled \<Rightarrow> (jstring \<times> bool \<times> jsnum option) list" where
  "parameter_values c e =
     [(lit ''temperature'', en_temperature e, Some (temperature c)),
      (lit ''top_p'', en_top_p e, Some (top_p c)),
      (lit ''max_tokens'', en_max_tokens e, Some (max_tokens c)),
      (lit ''frequency_penalty'', en_frequency_penalty e, Some (frequency_penalty c)),
      (lit ''presence_penalty'', en_presence_penalty e, Some (presence_penalty c)),
      (lit ''seed'', en_seed e, seed c)]"

definition buildChatCompletionPayload ::
    "message list \<Rightarrow> playground_config \<Rightarrow> parameter_enabled \<Rightarrow> chat_request" where
  "buildChatCompletionPayload ms c e =
     \<lparr>q_model = c_model c, q_group = c_group c,
      q_messages = map formatMessageForAPI (filter isValidMessage ms), q_stream = c_stream c,
      q_params = List.map_filter (\<lambda>(k, en, v). if en then map_option (Pair k) v else None)
        (parameter_values c e)\<rparr>"

section \<open>Splitting a text with blocks\<close>

text \<open>A text made of visible parts and closed blocks, in order, with a last visible part.\<close>

fun render :: "(jstring \<times> jstring) list \<Rightarrow> jstring \<Rightarrow> jstring" where
  "render [] w = w"
| "render ((v, t) # ps) w = v @ open_tag @ t @ close_tag @ render ps w"

definition no_open_tag :: "jstring \<Rightarrow> bool" where
  "no_open_tag v \<longleftrightarrow> \<not> includes_str v open_tag"

definition unclosed :: "jstring \<Rightarrow> bool" where
  "unclosed t \<longleftrightarrow> \<not> includes_str t close_tag"

definition block_ok :: "jstring \<times> jstring \<Rightarrow> bool" where
  "block_ok p \<longleftrightarrow> no_open_tag (fst p) \<and> unclosed (snd p)"

lemma find_open: "no_open_tag v \<Longrightarrow> find_sub open_tag (v @ open_tag @ r) = Some (length v)"
  unfolding no_open_tag_def by (rule find_sub_first) (auto simp: open_tag_def)

lemma find_close: "unclosed t \<Longrightarrow> find_sub close_tag (t @ close_tag @ r) = Some (length t)"
  unfolding unclosed_def by (rule find_sub_first) (auto simp: close_tag_def)

lemma find_open_None: "no_open_tag v \<longleftrightarrow> find_sub open_tag v = None"
  and find_close_None: "unclosed v \<longleftrightarrow> find_sub close_tag v = None"
  by (auto simp: no_open_tag_def unclosed_def includes_str_def)

lemma tag_lengths [simp]: "length open_tag = 7" "length close_tag = 8"
  by (simp_all add: open_tag_def close_tag_def)

definition nonempty :: "jstring list \<Rightarrow> jstring list" where
  "nonempty xs = filter (\<lambda>x. x \<noteq> []) xs"

lemma think_loop_block:
  assumes "no_open_tag v" and "unclosed t"
  shows "think_loop (v @ open_tag @ t @ close_tag @ r) vis rea = think_loop r (vis @ nonempty [v]) (rea @ [t])"
  by (subst think_loop.simps)
    (use find_open [OF assms(1)] find_close [OF assms(2)] in \<open>auto simp: nonempty_def\<close>)

lemma think_loop_open:
  assumes "no_open_tag v" and "unclosed t"
  shows "think_loop (v @ open_tag @ t) vis rea = (vis @ nonempty [v], rea @ [t], True)"
  by (subst think_loop.simps)
    (use find_open [OF assms(1)] assms(2) find_close_None in \<open>auto simp: nonempty_def\<close>)

lemma think_loop_plain: "no_open_tag w \<Longrightarrow> think_loop w vis rea = (vis @ nonempty [w], rea, False)"
  by (subst think_loop.simps) (simp add: find_open_None nonempty_def)

lemma think_loop_render:
  assumes "\<forall>p \<in> set ps. block_ok p"
  shows "think_loop (render ps r) vis rea =
    think_loop r (vis @ nonempty (map fst ps)) (rea @ map snd ps)"
  using assms
proof (induction ps arbitrary: vis rea)
  case Nil
  then show ?case by (simp add: nonempty_def)
next
  case (Cons p ps)
  then show ?case
    by (cases p) (auto simp: think_loop_block block_ok_def nonempty_def)
qed

lemma join_Nil: "join [] xs = concat xs"
  by (induction "[] :: jstring" xs rule: join.induct) auto

lemma concat_nonempty: "concat (nonempty xs) = concat xs"
  by (induction xs) (auto simp: nonempty_def)

lemma includes_open_render: "ps \<noteq> [] \<Longrightarrow> includes_str (render ps w) open_tag"
  by (cases ps) auto

lemma parse_closed:
  assumes "\<forall>p \<in> set ps. block_ok p" and "no_open_tag w" and "ps \<noteq> []"
  shows "parseThinkTags (render ps w) =
    \<lparr>visibleContent = trim (concat (map fst ps) @ w), t_reasoning = trim (join [10, 10] (map snd ps)),
     hasUnclosedTag = False\<rparr>"
proof -
  have "think_loop (render ps w) [] [] = (nonempty (map fst ps) @ nonempty [w], map snd ps, False)"
    using assms by (simp add: think_loop_render think_loop_plain)
  moreover have "join [] (nonempty (map fst ps) @ nonempty [w]) = concat (map fst ps) @ w"
    using concat_nonempty [of "[w]"] by (simp add: join_Nil concat_nonempty)
  ultimately show ?thesis
    using includes_open_render [OF assms(3)] by (simp add: parseThinkTags_def)
qed

lemma parse_unclosed:
  assumes "\<forall>p \<in> set ps. block_ok p" and "no_open_tag w" and "unclosed t"
  shows "parseThinkTags (render ps (w @ open_tag @ t)) =
    \<lparr>visibleContent = trim (concat (map fst ps) @ w),
     t_reasoning = trim (join [10, 10] (map snd ps @ [t])), hasUnclosedTag = True\<rparr>"
proof -
  have "think_loop (render ps (w @ open_tag @ t)) [] [] =
    (nonempty (map fst ps) @ nonempty [w], map snd ps @ [t], True)"
    using assms by (simp add: think_loop_render think_loop_open)
  moreover have "join [] (nonempty (map fst ps) @ nonempty [w]) = concat (map fst ps) @ w"
    using concat_nonempty [of "[w]"] by (simp add: join_Nil concat_nonempty)
  moreover have "includes_str (render ps (w @ open_tag @ t)) open_tag"
    by (cases ps) auto
  ultimately show ?thesis by (simp add: parseThinkTags_def)
qed

section \<open>Streaming chunks\<close>

lemma getCurrentVersion_update [simp]:
  "getCurrentVersion (updateCurrentVersionContent m c) = (getCurrentVersion m)\<lparr>v_content := c\<rparr>"
  by (simp add: getCurrentVersion_def updateCurrentVersionContent_def)

lemma getCurrentVersion_fields [simp]:
  "getCurrentVersion (m\<lparr>m_reasoning := r\<rparr>) = getCurrentVersion m"
  "getCurrentVersion (m\<lparr>isReasoningStreaming := b\<rparr>) = getCurrentVersion m"
  "getCurrentVersion (m\<lparr>m_status := st\<rparr>) = getCurrentVersion m"
  "getCurrentVersion (m\<lparr>errorCode := e\<rparr>) = getCurrentVersion m"
  by (simp_all add: getCurrentVersion_def)

lemma update_from [simp]: "m_from (updateCurrentVersionContent m c) = m_from m"
  and update_key [simp]: "m_key (updateCurrentVersionContent m c) = m_key m"
  and update_status [simp]: "m_status (updateCurrentVersionContent m c) = m_status m"
  by (simp_all add: updateCurrentVersionContent_def)

lemma process_content [simp]:
  "v_content (getCurrentVersion (processStreamingContent m (Some ch))) = v_content (getCurrentVersion m) @ ch"
  by (simp add: processStreamingContent_def Let_def)

lemma process_frame [simp]:
  "m_from (processStreamingContent m c) = m_from m" "m_key (processStreamingContent m c) = m_key m"
  "m_status (processStreamingContent m c) = m_status m"
  by (simp_all add: processStreamingContent_def Let_def)

lemma finalize_frame [simp]:
  "m_from (finalizeMessage m r) = m_from m" "m_key (finalizeMessage m r) = m_key m"
  "m_status (finalizeMessage m r) = m_status m"
  by (simp_all add: finalizeMessage_def Let_def)

lemma finalize_content [simp]:
  "v_content (getCurrentVersion (finalizeMessage m r)) =
   visibleContent (parseThinkTags (v_content (getCurrentVersion m)))"
  by (simp add: finalizeMessage_def Let_def)

definition stream_chunks :: "message \<Rightarrow> jstring list \<Rightarrow> message" where
  "stream_chunks m chunks = foldl (\<lambda>m ch. processStreamingContent m (Some ch)) m chunks"

lemma stream_chunks_content:
  "v_content (getCurrentVersion (stream_chunks m chunks)) = v_content (getCurrentVersion m) @ concat chunks"
  by (induction chunks arbitrary: m) (simp_all add: stream_chunks_def)

section \<open>Cleaning up stored messages\<close>

lemma last_stuck_Some:
  "last_stuck n ms = Some i \<Longrightarrow> i < n \<and> stuck (ms ! i) \<and> (\<forall>k. i < k \<and> k < n \<longrightarrow> \<not> stuck (ms ! k))"
  by (induction n) (auto simp: less_Suc_eq split: if_splits)

lemma last_stuck_None: "last_stuck n ms = None \<longleftrightarrow> (\<forall>i < n. \<not> stuck (ms ! i))"
  by (induction n) (auto simp: less_Suc_eq)

lemma filter_update_False:
  "i < length xs \<Longrightarrow> P (xs ! i) \<Longrightarrow> \<not> P y \<Longrightarrow> Suc (length (filter P (xs[i := y]))) = length (filter P xs)"
  by (induction xs arbitrary: i) (auto simp: nth_Cons split: nat.splits)

lemma sanitize_form:
  assumes "last_stuck (length ms) ms = Some i"
  obtains m where "sanitizeMessagesOnLoad ms = ms[i := m]" and "\<not> stuck m"
    and "m_key m = m_key (ms ! i)" and "m_from m = m_from (ms ! i)"
  using assms by (simp add: sanitizeMessagesOnLoad_def Let_def stuck_def that split: if_splits)

section \<open>Properties\<close>

text \<open>A text of closed thinking blocks is taken apart exactly: the visible text is the
  concatenation of the parts outside the blocks, the reasoning is the blocks joined by blank lines,
  both trimmed, and no block is reported open.\<close>

lemma think_tags_closed:
  assumes "list_all block_ok ps" and "no_open_tag w" and "ps \<noteq> []"
  shows "parseThinkTags (render ps w) =
    \<lparr>visibleContent = trim (concat (map fst ps) @ w), t_reasoning = trim (join [10, 10] (map snd ps)),
     hasUnclosedTag = False\<rparr>"
  using assms by (intro parse_closed) (auto simp: list_all_iff)

lemma think_tags_closed_witness:
  "parseThinkTags (lit ''a<think>b</think>c'') =
    \<lparr>visibleContent = lit ''ac'', t_reasoning = lit ''b'', hasUnclosedTag = False\<rparr>"
proof -
  have h: "list_all block_ok [(lit ''a'', lit ''b'')]" "no_open_tag (lit ''c'')" by code_simp+
  have t: "render [(lit ''a'', lit ''b'')] (lit ''c'') = lit ''a<think>b</think>c''" by code_simp
  have r: "trim (concat (map fst [(lit ''a'', lit ''b'')]) @ lit ''c'') = lit ''ac''"
    "trim (join [10, 10] (map snd [(lit ''a'', lit ''b'')])) = lit ''b''" by code_simp+
  show ?thesis using think_tags_closed [OF h] unfolding t r by simp
qed

text \<open>A text whose last block is still open: the open block is the last part of the reasoning,
  nothing of it is visible, and the block is reported as unclosed.\<close>

lemma think_tags_unclosed:
  assumes "list_all block_ok ps" and "no_open_tag w" and "unclosed t"
  shows "parseThinkTags (render ps (w @ open_tag @ t)) =
    \<lparr>visibleContent = trim (concat (map fst ps) @ w),
     t_reasoning = trim (join [10, 10] (map snd ps @ [t])), hasUnclosedTag = True\<rparr>"
  using assms by (intro parse_unclosed) (auto simp: list_all_iff)

lemma think_tags_unclosed_witness:
  "hasUnclosedTag (parseThinkTags (lit ''hi<think>wh''))"
proof -
  have h: "list_all block_ok []" "no_open_tag (lit ''hi'')" "unclosed (lit ''wh'')" by code_simp+
  have t: "render [] (lit ''hi'' @ open_tag @ lit ''wh'') = lit ''hi<think>wh''" by code_simp
  show ?thesis using think_tags_unclosed [OF h] unfolding t by simp
qed

text \<open>C8: The text shown when a stream ends does not depend on how the stream was cut into chunks:
  it is the visible part of the whole text received.\<close>

theorem stream_chunking_visible:
  "v_content (getCurrentVersion (finalizeMessage (stream_chunks m chunks) r)) =
   visibleContent (parseThinkTags (v_content (getCurrentVersion m) @ concat chunks))"
  by (simp add: stream_chunks_content)

text \<open>The reasoning does depend on the cut: when the closing tag of an empty block arrives in
  two chunks, the fragment \<^verbatim>\<open></\<close> is kept as the reasoning of the finished message, although the
  same text in one chunk gives no reasoning at all.\<close>

lemma stream_chunking_stale_reasoning:
  "m_reasoning (finalizeMessage (stream_chunks (createLoadingAssistantMessage k v)
      [lit ''<think></'', lit ''think>hi'']) None) = Some \<lparr>r_content = lit ''</'', r_duration = Fin 0\<rparr> \<and>
   m_reasoning (finalizeMessage (stream_chunks (createLoadingAssistantMessage k v)
      [lit ''<think></think>hi'']) None) = None"
proof -
  have p1: "parseThinkTags (lit ''<think></'') =
      \<lparr>visibleContent = [], t_reasoning = lit ''</'', hasUnclosedTag = True\<rparr>"
    and p2: "parseThinkTags (lit ''<think></think>hi'') =
      \<lparr>visibleContent = lit ''hi'', t_reasoning = [], hasUnclosedTag = False\<rparr>"
    by code_simp+
  have j: "lit ''<think></'' @ lit ''think>hi'' = lit ''<think></think>hi''" by simp
  show ?thesis
    using p1 p2 j
    by (simp add: stream_chunks_def processStreamingContent_def finalizeMessage_def Let_def
        createLoadingAssistantMessage_def createMessageVersion_def getCurrentVersion_def
        updateCurrentVersionContent_def first_nonempty_def jtruthy_def)
qed

text \<open>Loading stored messages repairs exactly the last message that was left loading or
  streaming: the number of such messages drops by one, no other message changes, and the repaired
  message keeps its key and sender.\<close>

lemma sanitize_repairs_one:
  assumes "i < length ms" and "stuck (ms ! i)"
  shows "\<exists>j m. j < length ms \<and> stuck (ms ! j) \<and> (\<forall>k. j < k \<and> k < length ms \<longrightarrow> \<not> stuck (ms ! k)) \<and>
    sanitizeMessagesOnLoad ms = ms[j := m] \<and> \<not> stuck m \<and> m_key m = m_key (ms ! j) \<and>
    m_from m = m_from (ms ! j) \<and>
    Suc (length (filter stuck (sanitizeMessagesOnLoad ms))) = length (filter stuck ms)"
proof -
  from assms have "last_stuck (length ms) ms \<noteq> None" by (auto simp: last_stuck_None)
  then obtain j where j: "last_stuck (length ms) ms = Some j" by blast
  note b = last_stuck_Some [OF j]
  obtain m where m: "sanitizeMessagesOnLoad ms = ms[j := m]" "\<not> stuck m" "m_key m = m_key (ms ! j)"
    "m_from m = m_from (ms ! j)" using sanitize_form [OF j] .
  moreover have "Suc (length (filter stuck (ms[j := m]))) = length (filter stuck ms)"
    using b m(2) by (intro filter_update_False) auto
  ultimately show ?thesis using b by auto
qed

lemma sanitize_repairs_one_witness:
  "\<not> stuck (sanitizeMessagesOnLoad [createLoadingAssistantMessage (lit ''k'') (lit ''v'')] ! 0)"
proof -
  let ?ms = "[createLoadingAssistantMessage (lit ''k'') (lit ''v'')]"
  have h: "0 < length ?ms" "stuck (?ms ! 0)"
    by (simp_all add: stuck_def createLoadingAssistantMessage_def)
  from sanitize_repairs_one [OF h] show ?thesis by auto
qed

text \<open>The request payload holds exactly the valid messages, in order, each with its sender and
  current text; an assistant message without text is never sent, and an optional parameter is sent
  exactly when it is enabled and has a value.\<close>

lemma payload_contents:
  "q_messages (buildChatCompletionPayload ms c e) =
     map (\<lambda>m. (m_from m, v_content (getCurrentVersion m))) (filter isValidMessage ms) \<and>
   (RAssistant, s) \<notin> set (q_messages (buildChatCompletionPayload ms c e)) \<inter> {(r, s). trim s = []} \<and>
   map_of (q_params (buildChatCompletionPayload ms c e)) (lit ''seed'') = (if en_seed e then seed c else None) \<and>
   map_of (q_params (buildChatCompletionPayload ms c e)) (lit ''max_tokens'') =
     (if en_max_tokens e then Some (max_tokens c) else None)"
proof (intro conjI)
  show "q_messages (buildChatCompletionPayload ms c e) =
     map (\<lambda>m. (m_from m, v_content (getCurrentVersion m))) (filter isValidMessage ms)"
    by (simp add: buildChatCompletionPayload_def formatMessageForAPI_def)
  show "(RAssistant, s) \<notin> set (q_messages (buildChatCompletionPayload ms c e)) \<inter> {(r, s). trim s = []}"
    by (auto simp: buildChatCompletionPayload_def formatMessageForAPI_def isValidMessage_def
        getCurrentVersion_def split: list.splits)
  show "map_of (q_params (buildChatCompletionPayload ms c e)) (lit ''seed'') = (if en_seed e then seed c else None)"
    by (simp add: buildChatCompletionPayload_def parameter_values_def List.map_filter_simps split: option.splits)
  show "map_of (q_params (buildChatCompletionPayload ms c e)) (lit ''max_tokens'') =
     (if en_max_tokens e then Some (max_tokens c) else None)"
    by (simp add: buildChatCompletionPayload_def parameter_values_def List.map_filter_simps split: option.splits)
qed

end
