(* ===== verification/Playground_Session.thy ===== *)
theory Playground_Session
  imports Playground_Messages
begin

text \<open>
  A playground chat session with streaming on: the handlers of \<^verbatim>\<open>hooks/use-chat-handler.ts\<close> and
  \<^verbatim>\<open>hooks/use-stream-request.ts\<close> and the user actions of \<^verbatim>\<open>playground/index.tsx\<close>, over one state:
  the messages, the current event source (\<^verbatim>\<open>sseSourceRef\<close>), the completion flag
  (\<^verbatim>\<open>isStreamCompleteRef\<close>), the message being edited (\<^verbatim>\<open>editingMessageKey\<close>) and the error notices shown.

  The transport is the package \<^verbatim>\<open>sse.js\<close>. What is used of it: a source delivers events, in any
  order and with any data, from the moment it is started until it is closed, and none after.
  \<open>chat_step\<close> has one rule per event and per user action. While there is a current source (\<^verbatim>\<open>isGenerating\<close>) the input
  field refuses to send and the actions of the messages are guarded, but the suggestions below the input
  (\<^verbatim>\<open>playground-input.tsx\<close>) and the buttons that save an edit already open (\<^verbatim>\<open>playground-chat.tsx\<close>) are not.
\<close>

record chat =
  msgs :: "message list"
  sseSource :: "nat option"
  streamComplete :: bool
  opened :: "nat list"
  next_source :: nat
  editing :: "jstring option"
  toasts :: "jstring list"

datatype update_kind = ReasoningChunk | ContentChunk

section \<open>Handlers of the chat hook\<close>

definition stream_updater :: "update_kind \<Rightarrow> jstring \<Rightarrow> message \<Rightarrow> message" where
  "stream_updater ty chunk m =
     (if m_status m = Some Failed then m
      else if ty = ReasoningChunk then
        m\<lparr>m_reasoning := Some \<lparr>r_content = (case m_reasoning m of None \<Rightarrow> [] | Some r \<Rightarrow> r_content r) @ chunk,
                               r_duration = Fin 0\<rparr>,
          isReasoningStreaming := Some True, m_status := Some Streaming\<rparr>
      else (processStreamingContent m (Some chunk))\<lparr>m_status := Some Streaming\<rparr>)"

definition handleStreamUpdate :: "update_kind \<Rightarrow> jstring \<Rightarrow> chat \<Rightarrow> chat" where
  "handleStreamUpdate ty chunk c = c\<lparr>msgs := updateLastAssistantMessage (msgs c) (stream_updater ty chunk)\<rparr>"

definition complete_updater :: "message \<Rightarrow> message" where
  "complete_updater m =
     (if m_status m = Some Complete \<or> m_status m = Some Failed then m
      else (finalizeMessage m None)\<lparr>m_status := Some Complete\<rparr>)"

definition handleStreamComplete :: "chat \<Rightarrow> chat" where
  "handleStreamComplete c = c\<lparr>msgs := updateLastAssistantMessage (msgs c) complete_updater\<rparr>"

definition handleStreamError :: "jstring \<Rightarrow> jstring option \<Rightarrow> chat \<Rightarrow> chat" where
  "handleStreamError err code c =
     c\<lparr>toasts := toasts c @ [err], msgs := updateAssistantMessageWithError (msgs c) err code\<rparr>"

section \<open>The event source\<close>

definition closeSource :: "nat \<Rightarrow> chat \<Rightarrow> chat" where
  "closeSource i c = c\<lparr>opened := removeAll i (opened c), sseSource := None\<rparr>"

definition handleError :: "nat \<Rightarrow> jstring \<Rightarrow> jstring option \<Rightarrow> chat \<Rightarrow> chat" where
  "handleError i errorMessage code c =
     (if \<not> streamComplete c then closeSource i (handleStreamError errorMessage code c) else c)"

definition first_of :: "jval \<Rightarrow> jval" where
  "first_of v =
     (case v of JArr (x # _) \<Rightarrow> x | JObj ps \<Rightarrow> obj_get (lit ''0'') ps | JStr (ch # _) \<Rightarrow> JStr [ch] | _ \<Rightarrow> JUndef)"

text \<open>\<^verbatim>\<open>chunk.choices?.[0]?.delta\<close>\<close>

definition chunk_delta :: "jval \<Rightarrow> jval option" where
  "chunk_delta chunk =
     (if nullish chunk then None
      else
        let ch = jprop (lit ''choices'') chunk in
        if nullish ch then Some JUndef
        else if nullish (first_of ch) then Some JUndef
        else Some (jprop (lit ''delta'') (first_of ch)))"

definition onMessageEvent :: "nat \<Rightarrow> jstring \<Rightarrow> chat \<Rightarrow> chat" where
  "onMessageEvent i data c =
     (if data = lit ''[DONE]'' then handleStreamComplete (closeSource i (c\<lparr>streamComplete := True\<rparr>))
      else
        case Option.bind (json_parse data) chunk_delta of
          None \<Rightarrow> handleError i PARSE_ERROR None c
        | Some delta \<Rightarrow>
            if truthy delta then
              let rc = jprop (lit ''reasoning_content'') delta; ct = jprop (lit ''content'') delta;
                  c1 = (if truthy rc then handleStreamUpdate ReasoningChunk (str_of rc) c else c) in
              if truthy ct then handleStreamUpdate ContentChunk (str_of ct) c1 else c1
            else c)"

definition error_details :: "jstring option \<Rightarrow> jstring \<times> jstring option" where
  "error_details data =
     (case data of
        Some (d # ds) \<Rightarrow>
          (case json_parse (d # ds) of
             Some parsed \<Rightarrow>
               let er = jprop (lit ''error'') parsed in
               if truthy er then
                 (if truthy (jprop (lit ''message'') er) then str_of (jprop (lit ''message'') er) else d # ds,
                  if truthy (jprop (lit ''code'') er) then Some (str_of (jprop (lit ''code'') er)) else None)
               else (d # ds, None)
           | None \<Rightarrow> (d # ds, None))
      | _ \<Rightarrow> (API_REQUEST_ERROR, None))"

text \<open>\<open>rs\<close> is \<^verbatim>\<open>source.readyState\<close>; 2 is the closed state, which the handler ignores.\<close>

definition onErrorEvent :: "nat \<Rightarrow> nat \<Rightarrow> jstring option \<Rightarrow> chat \<Rightarrow> chat" where
  "onErrorEvent i rs data c =
     (if rs \<noteq> 2 then (let (errorMessage, code) = error_details data in handleError i errorMessage code c)
      else c)"

definition onReadyStateChange :: "nat \<Rightarrow> nat option \<Rightarrow> nat option \<Rightarrow> chat \<Rightarrow> chat" where
  "onReadyStateChange i rs status c =
     (case (rs, status) of
        (Some r, Some st) \<Rightarrow>
          if 2 \<le> r \<and> st \<noteq> 200
          then handleError i (lit ''HTTP '' @ nat_str st @ lit '': '' @ CONNECTION_CLOSED) None c
          else c
      | _ \<Rightarrow> c)"

text \<open>
  \<open>started\<close> says whether \<^verbatim>\<open>source.stream()\<close> returned; when it throws, the error is reported and no
  event will come.
\<close>

definition sendStreamRequest :: "bool \<Rightarrow> chat \<Rightarrow> chat" where
  "sendStreamRequest started c =
     (let i = next_source c; c1 = c\<lparr>next_source := i + 1, sseSource := Some i, streamComplete := False\<rparr> in
      if started then c1\<lparr>opened := opened c1 @ [i]\<rparr>
      else (handleStreamError STREAM_START_ERROR None c1)\<lparr>sseSource := None\<rparr>)"

definition stopStream :: "chat \<Rightarrow> chat" where
  "stopStream c =
     (case sseSource c of
        None \<Rightarrow> c
      | Some i \<Rightarrow> c\<lparr>opened := removeAll i (opened c), sseSource := None\<rparr>)"

definition stop_updater :: "message \<Rightarrow> message" where
  "stop_updater m =
     (if m_status m = Some Loading \<or> m_status m = Some Streaming
      then (finalizeMessage m None)\<lparr>m_status := Some Complete\<rparr> else m)"

definition stopGeneration :: "chat \<Rightarrow> chat" where
  "stopGeneration c =
     (let c1 = stopStream c in c1\<lparr>msgs := updateLastAssistantMessage (msgs c1) stop_updater\<rparr>)"

section \<open>Requests without streaming\<close>

text \<open>
  The continuation of \<^verbatim>\<open>sendNonStreamingChat\<close>: the first choice of the response (its content and its
  reasoning), if there is one, or the error the call threw.
\<close>

definition nonstream_updater :: "jstring option \<Rightarrow> jstring option \<Rightarrow> message \<Rightarrow> message" where
  "nonstream_updater content apiReasoning m =
     (finalizeMessage
        (m\<lparr>m_versions :=
           [\<lparr>v_id = (case m_versions m of v # _ \<Rightarrow> v_id v | [] \<Rightarrow> None),
             v_content = (case content of None \<Rightarrow> [] | Some s \<Rightarrow> s)\<rparr>]\<rparr>) apiReasoning)
       \<lparr>m_status := Some Complete\<rparr>"

datatype ns_result =
    NsChoice "jstring option" "jstring option"
  | NsNoChoice
  | NsError "jstring option" "jstring option" "jstring option"

fun nonStreamingResult :: "ns_result \<Rightarrow> chat \<Rightarrow> chat" where
  "nonStreamingResult NsNoChoice c = c"
| "nonStreamingResult (NsChoice content reasoning) c =
     c\<lparr>msgs := updateLastAssistantMessage (msgs c) (nonstream_updater content reasoning)\<rparr>"
| "nonStreamingResult (NsError dataMessage errMessage code) c =
     handleStreamError
       (first_nonempty [case dataMessage of None \<Rightarrow> [] | Some s \<Rightarrow> s,
          case errMessage of None \<Rightarrow> [] | Some s \<Rightarrow> s, API_REQUEST_ERROR])
       (case code of Some (x # xs) \<Rightarrow> Some (x # xs) | _ \<Rightarrow> None) c"

section \<open>User actions\<close>

definition handleSendMessage :: "jstring list \<Rightarrow> jstring \<Rightarrow> bool \<Rightarrow> chat \<Rightarrow> chat" where
  "handleSendMessage nids utext started c =
     sendStreamRequest started
       (c\<lparr>msgs := msgs c @ [createUserMessage (nids ! 0) (nids ! 1) utext,
                           createLoadingAssistantMessage (nids ! 2) (nids ! 3)]\<rparr>)"

text \<open>The index of the first message with a key: \<^verbatim>\<open>findIndex\<close>.\<close>

fun index_of_key :: "jstring \<Rightarrow> message list \<Rightarrow> nat option" where
  "index_of_key k [] = None"
| "index_of_key k (m # ms) = (if m_key m = k then Some 0 else map_option Suc (index_of_key k ms))"

definition handleRegenerateMessage :: "jstring list \<Rightarrow> jstring \<Rightarrow> bool \<Rightarrow> chat \<Rightarrow> chat" where
  "handleRegenerateMessage nids k started c =
     (case index_of_key k (msgs c) of
        None \<Rightarrow> c
      | Some i \<Rightarrow>
          sendStreamRequest started
            (c\<lparr>msgs := take i (msgs c) @ [createLoadingAssistantMessage (nids ! 0) (nids ! 1)]\<rparr>))"

definition edit_message :: "jstring \<Rightarrow> jstring \<Rightarrow> message \<Rightarrow> message" where
  "edit_message k newContent m =
     (if m_key m = k
      then m\<lparr>m_versions := [\<lparr>v_id = (case m_versions m of v # _ \<Rightarrow> v_id v | [] \<Rightarrow> None),
                             v_content = newContent\<rparr>]\<rparr>
      else m)"

definition handleEditMessage :: "jstring \<Rightarrow> chat \<Rightarrow> chat" where
  "handleEditMessage k c = c\<lparr>editing := Some k\<rparr>"

definition cancel_edit :: "chat \<Rightarrow> chat" where
  "cancel_edit c = c\<lparr>editing := None\<rparr>"

definition applyEdit :: "jstring list \<Rightarrow> jstring \<Rightarrow> bool \<Rightarrow> bool \<Rightarrow> chat \<Rightarrow> chat" where
  "applyEdit nids newContent submit started c =
     (case Option.bind (editing c) (\<lambda>k. map_option (\<lambda>i. (k, i)) (index_of_key k (msgs c))) of
        None \<Rightarrow> c
      | Some (k, i) \<Rightarrow>
          let updated = map (edit_message k newContent) (msgs c); c1 = c\<lparr>editing := None\<rparr> in
          if \<not> submit \<or> m_from (updated ! i) \<noteq> RUser then c1\<lparr>msgs := updated\<rparr>
          else sendStreamRequest started
            (c1\<lparr>msgs := take (i + 1) updated @ [createLoadingAssistantMessage (nids ! 0) (nids ! 1)]\<rparr>))"

definition handleDeleteMessage :: "jstring \<Rightarrow> chat \<Rightarrow> chat" where
  "handleDeleteMessage k c = c\<lparr>msgs := filter (\<lambda>m. m_key m \<noteq> k) (msgs c)\<rparr>"

section \<open>Steps of a streaming session\<close>

definition suggestions :: "jstring list" where
  "suggestions = map lit [''Analyze data'', ''Surprise me'', ''Summarize text'', ''Code'', ''Get advice'', ''More'']"

text \<open>When the field with an edited text can be saved: \<^verbatim>\<open>!isEmpty && isChanged\<close>, and sent again, which only user messages offer.\<close>

definition can_save :: "jstring \<Rightarrow> bool \<Rightarrow> chat \<Rightarrow> bool" where
  "can_save newContent submit c \<longleftrightarrow>
     trim newContent \<noteq> [] \<and>
     list_ex (\<lambda>m. editing c = Some (m_key m) \<and> newContent \<noteq> v_content (getCurrentVersion m) \<and> (submit \<longrightarrow> m_from m = RUser)) (msgs c)"

inductive chat_step :: "chat \<Rightarrow> chat \<Rightarrow> bool" where
  message: "i \<in> set (opened c) \<Longrightarrow> chat_step c (onMessageEvent i data c)"
| error: "i \<in> set (opened c) \<Longrightarrow> chat_step c (onErrorEvent i rs err c)"
| ready: "i \<in> set (opened c) \<Longrightarrow> chat_step c (onReadyStateChange i rso status c)"
| stop: "chat_step c (stopGeneration c)"
| send: "sseSource c = None \<Longrightarrow> trim utext \<noteq> [] \<Longrightarrow> chat_step c (handleSendMessage nids utext started c)"
| suggest: "utext \<in> set suggestions \<Longrightarrow> chat_step c (handleSendMessage nids utext started c)"
| regenerate: "sseSource c = None \<Longrightarrow> chat_step c (handleRegenerateMessage nids k started c)"
| edit: "sseSource c = None \<Longrightarrow> chat_step c (handleEditMessage k c)"
| cancel: "chat_step c (cancel_edit c)"
| save: "can_save utext submit c \<Longrightarrow> chat_step c (applyEdit nids utext submit started c)"
| delete: "sseSource c = None \<Longrightarrow> chat_step c (handleDeleteMessage k c)"

definition init_chat :: "message list \<Rightarrow> chat" where
  "init_chat ms =
     \<lparr>msgs = ms, sseSource = None, streamComplete = False, opened = [], next_source = 0, editing = None, toasts = []\<rparr>"

inductive chat_reach :: "message list \<Rightarrow> chat \<Rightarrow> bool" for ms where
  init: "chat_reach ms (init_chat ms)"
| step: "chat_reach ms c \<Longrightarrow> chat_step c c' \<Longrightarrow> chat_reach ms c'"

text \<open>The sessions in which no request is sent while there is a current source: no suggestion is clicked and no edit is
  submitted then (every request takes the number of a new source). All other steps are unrestricted.\<close>

inductive calm_reach :: "message list \<Rightarrow> chat \<Rightarrow> bool" for ms where
  init: "calm_reach ms (init_chat ms)"
| step: "calm_reach ms c \<Longrightarrow> chat_step c c' \<Longrightarrow> (sseSource c \<noteq> None \<Longrightarrow> next_source c' = next_source c) \<Longrightarrow> calm_reach ms c'"

lemma calm_reachable: "calm_reach ms c \<Longrightarrow> chat_reach ms c"
  by (induction rule: calm_reach.induct) (auto intro: chat_reach.intros)

section \<open>The interface of an update of the last message\<close>

text \<open>
  Every handler changes the messages through \<open>updateLastAssistantMessage\<close> with an updater that
  keeps the key and the sender; this is all the list-level lemmas need.
\<close>

locale last_updater =
  fixes upd :: "message \<Rightarrow> message"
  assumes keeps_key: "m_key (upd m) = m_key m"
    and keeps_from: "m_from (upd m) = m_from m"
begin

lemma keys: "map m_key (updateLastAssistantMessage ms upd) = map m_key ms"
  by (cases ms rule: rev_cases) (auto simp: updateLastAssistantMessage_def keeps_key)

lemma froms: "map m_from (updateLastAssistantMessage ms upd) = map m_from ms"
  by (cases ms rule: rev_cases) (auto simp: updateLastAssistantMessage_def keeps_from)

lemma others: "butlast (updateLastAssistantMessage ms upd) = butlast ms"
  by (auto simp: updateLastAssistantMessage_def)

lemma eq_Nil: "updateLastAssistantMessage ms upd = [] \<longleftrightarrow> ms = []"
  by (auto simp: updateLastAssistantMessage_def)

lemma last_from: "ms \<noteq> [] \<Longrightarrow> m_from (last (updateLastAssistantMessage ms upd)) = m_from (last ms)"
  by (auto simp: updateLastAssistantMessage_def keeps_from)

end

interpretation su: last_updater "stream_updater ty chunk" for ty chunk
  by unfold_locales (auto simp: stream_updater_def)

interpretation cu: last_updater complete_updater
  by unfold_locales (auto simp: complete_updater_def)

interpretation tu: last_updater stop_updater
  by unfold_locales (auto simp: stop_updater_def)

interpretation nu: last_updater "nonstream_updater content apiReasoning" for content apiReasoning
  by unfold_locales (auto simp: nonstream_updater_def)

definition error_updater :: "jstring \<Rightarrow> jstring option \<Rightarrow> message \<Rightarrow> message" where
  "error_updater err code m =
     (updateCurrentVersionContent m (API_REQUEST_ERROR @ lit '': '' @ err))
       \<lparr>m_status := Some Failed, isReasoningStreaming := Some False,
        errorCode := Some (case code of Some (c # cs) \<Rightarrow> Some (c # cs) | _ \<Rightarrow> None)\<rparr>"

lemma error_update_eq:
  "updateAssistantMessageWithError ms err code = updateLastAssistantMessage ms (error_updater err code)"
  by (simp add: updateAssistantMessageWithError_def error_updater_def [abs_def])

interpretation eu: last_updater "error_updater err code" for err code
  by unfold_locales (auto simp: error_updater_def)

section \<open>The session invariant\<close>

text \<open>
  The open sources are exactly the current one; without one no message is loading or streaming, and
  with one only the last message, which is the assistant's, may be.
\<close>

definition session_inv :: "chat \<Rightarrow> bool" where
  "session_inv c \<longleftrightarrow>
     (case sseSource c of
        None \<Rightarrow> opened c = [] \<and> list_all (\<lambda>m. \<not> stuck m) (msgs c)
      | Some i \<Rightarrow> opened c = [i] \<and> msgs c \<noteq> [] \<and> m_from (last (msgs c)) = RAssistant \<and>
          list_all (\<lambda>m. \<not> stuck m) (butlast (msgs c)))"

lemma not_stuck_updaters [simp]:
  "\<not> stuck (complete_updater m)" "\<not> stuck (stop_updater m)" "\<not> stuck (error_updater err code m)"
  by (auto simp: stuck_def complete_updater_def stop_updater_def error_updater_def)

lemma not_stuck_loading [simp]: "\<not> stuck (createUserMessage k v s)"
  by (simp add: stuck_def createUserMessage_def)

context last_updater
begin

lemma inv_update:
  "session_inv c \<Longrightarrow> sseSource c = Some i \<Longrightarrow> session_inv (c\<lparr>msgs := updateLastAssistantMessage (msgs c) upd\<rparr>)"
  by (auto simp: session_inv_def eq_Nil last_from others)

lemma all_updated:
  assumes "\<And>m. \<not> stuck (upd m)" and "list_all (\<lambda>m. \<not> stuck m) (butlast ms)"
    and "ms = [] \<or> m_from (last ms) = RAssistant \<or> \<not> stuck (last ms)"
  shows "list_all (\<lambda>m. \<not> stuck m) (updateLastAssistantMessage ms upd)"
  using assms by (cases ms rule: rev_cases) (auto simp: updateLastAssistantMessage_def)

lemma inv_close:
  assumes "\<And>m. \<not> stuck (upd m)" and "session_inv c" and "sseSource c = Some i"
  shows "session_inv (c\<lparr>msgs := updateLastAssistantMessage (msgs c) upd, opened := removeAll i (opened c),
    sseSource := None\<rparr>)"
  using assms all_updated [of "msgs c"] by (auto simp: session_inv_def)

end

lemma session_inv_frame [simp]:
  "session_inv (c\<lparr>toasts := t\<rparr>) = session_inv c"
  "session_inv (c\<lparr>streamComplete := b\<rparr>) = session_inv c"
  "session_inv (c\<lparr>next_source := n\<rparr>) = session_inv c"
  "session_inv (c\<lparr>editing := e\<rparr>) = session_inv c"
  by (simp_all add: session_inv_def split: option.splits)

lemma opened_current: "session_inv c \<Longrightarrow> i \<in> set (opened c) \<Longrightarrow> sseSource c = Some i"
  by (auto simp: session_inv_def split: option.splits)

lemma inv_handleError:
  assumes "session_inv c" and "sseSource c = Some i"
  shows "session_inv (handleError i err code c)"
proof (cases "streamComplete c")
  case True
  with assms show ?thesis by (simp add: handleError_def)
next
  case False
  have "session_inv (c\<lparr>msgs := updateLastAssistantMessage (msgs c) (error_updater err code),
    opened := removeAll i (opened c), sseSource := None, toasts := toasts c @ [err]\<rparr>)"
    using eu.inv_close [OF not_stuck_updaters(3) assms] by simp
  with False show ?thesis
    by (simp add: handleError_def closeSource_def handleStreamError_def error_update_eq session_inv_def)
qed

lemma inv_handleStreamUpdate:
  "session_inv c \<Longrightarrow> sseSource c = Some i \<Longrightarrow> session_inv (handleStreamUpdate ty ch c)"
  by (simp add: handleStreamUpdate_def su.inv_update)

lemma source_handleStreamUpdate [simp]: "sseSource (handleStreamUpdate ty ch c) = sseSource c"
  by (simp add: handleStreamUpdate_def)

lemma inv_message:
  assumes "session_inv c" and src: "sseSource c = Some i"
  shows "session_inv (onMessageEvent i data c)"
proof (cases "data = lit ''[DONE]''")
  case True
  have "session_inv (c\<lparr>msgs := updateLastAssistantMessage (msgs c) complete_updater,
    opened := removeAll i (opened c), sseSource := None, streamComplete := True\<rparr>)"
    using cu.inv_close [OF not_stuck_updaters(1) assms] by simp
  with True show ?thesis
    by (simp add: onMessageEvent_def handleStreamComplete_def closeSource_def session_inv_def)
next
  case False
  then show ?thesis
    using assms
    by (auto simp: onMessageEvent_def Let_def inv_handleError inv_handleStreamUpdate split: option.splits)
qed

lemma inv_stop: "session_inv c \<Longrightarrow> session_inv (stopGeneration c)"
proof (cases "sseSource c")
  case None
  assume inv: "session_inv c"
  with None have all: "list_all (\<lambda>m. \<not> stuck m) (msgs c)" by (simp add: session_inv_def)
  then have "list_all (\<lambda>m. \<not> stuck m) (updateLastAssistantMessage (msgs c) stop_updater)"
    by (intro tu.all_updated) (auto simp: list_all_iff dest: in_set_butlastD)
  with inv None show ?thesis
    by (simp add: session_inv_def stopGeneration_def stopStream_def)
next
  case (Some i)
  assume "session_inv c"
  from tu.inv_close [OF not_stuck_updaters(2) this Some] Some show ?thesis
    by (simp add: stopGeneration_def stopStream_def session_inv_def)
qed

text \<open>A request is sent on a list that ends in a fresh assistant message.\<close>

lemma inv_send:
  assumes "opened c = []" and "msgs c = xs @ [createLoadingAssistantMessage k v]"
    and "list_all (\<lambda>m. \<not> stuck m) xs"
  shows "session_inv (sendStreamRequest started c)"
proof (cases started)
  case True
  with assms show ?thesis
    by (simp add: sendStreamRequest_def session_inv_def createLoadingAssistantMessage_def Let_def)
next
  case False
  have "list_all (\<lambda>m. \<not> stuck m) (updateLastAssistantMessage (msgs c) (error_updater STREAM_START_ERROR None))"
    using assms by (intro eu.all_updated) (auto simp: createLoadingAssistantMessage_def)
  with False assms(1) show ?thesis
    by (simp add: sendStreamRequest_def session_inv_def handleStreamError_def error_update_eq Let_def)
qed

lemma stuck_edit [simp]: "stuck (edit_message k s m) = stuck m"
  by (simp add: edit_message_def stuck_def)

lemma list_all_take: "list_all P xs \<Longrightarrow> list_all P (take n xs)"
  by (auto simp: list_all_iff dest: in_set_takeD)

lemma idle_inv: "session_inv c \<Longrightarrow> sseSource c = None \<Longrightarrow> opened c = [] \<and> list_all (\<lambda>m. \<not> stuck m) (msgs c)"
  by (simp add: session_inv_def)

lemma next_sendStreamRequest [simp]: "next_source (sendStreamRequest started c) = next_source c + 1"
  by (simp add: sendStreamRequest_def handleStreamError_def Let_def)

lemma inv_edited:
  assumes "session_inv c"
  shows "session_inv (c\<lparr>editing := None, msgs := map (edit_message k utext) (msgs c)\<rparr>)"
proof -
  have "m_from (edit_message k utext m) = m_from m" for m by (simp add: edit_message_def)
  then have "msgs c \<noteq> [] \<Longrightarrow> m_from (last (map (edit_message k utext) (msgs c))) = m_from (last (msgs c))" by (simp add: last_map)
  then show ?thesis using assms by (auto simp: session_inv_def list_all_iff map_butlast [symmetric] split: option.splits)
qed

lemma inv_save:
  assumes "session_inv c" and calm: "sseSource c \<noteq> None \<Longrightarrow> next_source (applyEdit nids utext submit started c) = next_source c"
  shows "session_inv (applyEdit nids utext submit started c)"
proof (cases "Option.bind (editing c) (\<lambda>k. map_option (\<lambda>i. (k, i)) (index_of_key k (msgs c)))")
  case None
  with assms(1) show ?thesis by (simp add: applyEdit_def)
next
  case (Some ki)
  obtain k i where ki: "ki = (k, i)" by force
  let ?updated = "map (edit_message k utext) (msgs c)"
  show ?thesis
  proof (cases "\<not> submit \<or> m_from (?updated ! i) \<noteq> RUser")
    case True
    then have "applyEdit nids utext submit started c = c\<lparr>editing := None, msgs := ?updated\<rparr>"
      by (simp only: applyEdit_def Some ki option.case prod.case Let_def if_True)
    then show ?thesis using inv_edited [OF assms(1)] by simp
  next
    case False
    then have a: "applyEdit nids utext submit started c = sendStreamRequest started
        (c\<lparr>editing := None, msgs := take (i + 1) ?updated @ [createLoadingAssistantMessage (nids ! 0) (nids ! 1)]\<rparr>)"
      by (simp only: applyEdit_def Some ki option.case prod.case Let_def if_False)
    have "sseSource c = None" using calm unfolding a by (cases "sseSource c") simp_all
    note h = idle_inv [OF assms(1) this]
    have "list_all (\<lambda>m. \<not> stuck m) ?updated" using h by (simp add: list_all_iff)
    from list_all_take [OF this, of "i + 1"] show ?thesis
      unfolding a by (intro inv_send [where xs = "take (i + 1) ?updated"]) (use h in simp_all)
  qed
qed

lemma inv_sent:
  assumes "session_inv c" and "sseSource c = None"
  shows "session_inv (handleSendMessage nids utext started c)"
  unfolding handleSendMessage_def
  by (rule inv_send [where xs = "msgs c @ [createUserMessage (nids ! 0) (nids ! 1) utext]"]) (use idle_inv [OF assms] in auto)

lemma chat_step_inv:
  "chat_step c c' \<Longrightarrow> (sseSource c \<noteq> None \<Longrightarrow> next_source c' = next_source c) \<Longrightarrow> session_inv c \<Longrightarrow> session_inv c'"
proof (induction rule: chat_step.induct)
  case (message i c data)
  then show ?case by (simp add: inv_message opened_current)
next
  case (error i c rs err)
  then show ?case
    by (auto simp: onErrorEvent_def inv_handleError opened_current split: prod.splits)
next
  case (ready i c rso status)
  then show ?case
    by (auto simp: onReadyStateChange_def inv_handleError opened_current split: option.splits)
next
  case (stop c)
  then show ?case by (simp add: inv_stop)
next
  case (send c utext nids started)
  then show ?case by (simp add: inv_sent)
next
  case (suggest utext c nids started)
  then have "sseSource c = None" by (cases "sseSource c") (simp_all add: handleSendMessage_def)
  with suggest show ?case by (simp add: inv_sent)
next
  case (regenerate c nids k started)
  note h = idle_inv [OF regenerate(3,1)]
  show ?case
  proof (cases "index_of_key k (msgs c)")
    case None
    with regenerate show ?thesis by (simp add: handleRegenerateMessage_def)
  next
    case (Some i)
    then show ?thesis unfolding handleRegenerateMessage_def
      by (simp, intro inv_send [where xs = "take i (msgs c)"]) (use h in \<open>auto intro: list_all_take\<close>)
  qed
next
  case (save utext submit c nids started)
  then show ?case by (intro inv_save) simp_all
next
  case (delete c k)
  with idle_inv [OF delete(3,1)] show ?case
    by (auto simp: handleDeleteMessage_def session_inv_def list_all_iff)
qed (simp_all add: handleEditMessage_def cancel_edit_def)

lemma calm_reach_inv: "calm_reach ms c \<Longrightarrow> list_all (\<lambda>m. \<not> stuck m) ms \<Longrightarrow> session_inv c"
proof (induction rule: calm_reach.induct)
  case init
  then show ?case by (simp add: session_inv_def init_chat_def)
next
  case (step c c')
  then show ?case using chat_step_inv by blast
qed

section \<open>Properties\<close>

text \<open>C4: As long as no request is sent while a stream runs (no suggestion clicked, no edit submitted), whatever the server
  sends and whatever else the user does, at most one source is open and it is the current one, and no message is left loading
  or streaming once no stream is running.\<close>

theorem session_never_stuck:
  assumes "calm_reach ms c" and "list_all (\<lambda>m. \<not> stuck m) ms"
  shows "opened c = (case sseSource c of None \<Rightarrow> [] | Some i \<Rightarrow> [i]) \<and>
    (sseSource c \<noteq> None \<or> list_all (\<lambda>m. \<not> stuck m) (msgs c))"
  using calm_reach_inv [OF assms] by (auto simp: session_inv_def split: option.splits)

theorem session_never_stuck_witness:
  "sseSource (stopGeneration (handleSendMessage (map (\<lambda>n. [n]) [1, 2, 3, 4]) (lit ''hi'') True (init_chat []))) = None \<and>
   list_all (\<lambda>m. \<not> stuck m)
     (msgs (stopGeneration (handleSendMessage (map (\<lambda>n. [n]) [1, 2, 3, 4]) (lit ''hi'') True (init_chat []))))"
proof -
  let ?sent = "handleSendMessage (map (\<lambda>n. [n]) [1, 2, 3, 4]) (lit ''hi'') True (init_chat [])"
  let ?c = "stopGeneration ?sent"
  have t: "trim (lit ''hi'') \<noteq> []" by code_simp
  have r0: "calm_reach [] ?sent"
    by (rule calm_reach.step [OF calm_reach.init chat_step.send]) (use t in \<open>simp_all add: init_chat_def\<close>)
  have st: "chat_step ?sent ?c" by (rule chat_step.stop)
  have "next_source ?c = next_source ?sent" by (simp add: stopGeneration_def stopStream_def Let_def split: option.split)
  from calm_reach.step [OF r0 st this] have r: "calm_reach [] ?c" .
  have n: "sseSource ?c = None"
    by (simp add: stopGeneration_def stopStream_def handleSendMessage_def sendStreamRequest_def init_chat_def Let_def)
  with session_never_stuck [OF r] show ?thesis by auto
qed

text \<open>An event of the stream touches the last message only: every other message is unchanged, and
  the keys and senders of all messages stay the same, in order.\<close>

lemma stream_event_frame:
  assumes "c' \<in> {onMessageEvent i data c, onErrorEvent i rs err c, onReadyStateChange i rso status c, stopGeneration c}"
  shows "butlast (msgs c') = butlast (msgs c) \<and> map m_key (msgs c') = map m_key (msgs c) \<and>
    map m_from (msgs c') = map m_from (msgs c)"
proof -
  have "butlast (msgs (handleError i e cd d)) = butlast (msgs d) \<and>
    map m_key (msgs (handleError i e cd d)) = map m_key (msgs d) \<and>
    map m_from (msgs (handleError i e cd d)) = map m_from (msgs d)" for e cd d
    by (simp add: handleError_def closeSource_def handleStreamError_def error_update_eq eu.others eu.keys eu.froms)
  moreover have "butlast (msgs (handleStreamUpdate ty ch d)) = butlast (msgs d) \<and>
    map m_key (msgs (handleStreamUpdate ty ch d)) = map m_key (msgs d) \<and>
    map m_from (msgs (handleStreamUpdate ty ch d)) = map m_from (msgs d)" for ty ch d
    by (simp add: handleStreamUpdate_def su.others su.keys su.froms)
  ultimately show ?thesis
    using assms
    by (auto simp: onMessageEvent_def onErrorEvent_def onReadyStateChange_def stopGeneration_def
        stopStream_def handleStreamComplete_def closeSource_def Let_def cu.others cu.keys cu.froms
        tu.others tu.keys tu.froms split: option.splits prod.splits)
qed

lemma stream_event_frame_witness:
  "map m_key (msgs (onErrorEvent 0 1 None (init_chat [createLoadingAssistantMessage (lit ''k'') (lit ''v'')]))) = [lit ''k'']"
proof -
  let ?c = "init_chat [createLoadingAssistantMessage (lit ''k'') (lit ''v'')]"
  have "onErrorEvent 0 1 None ?c \<in> {onMessageEvent 0 [] ?c, onErrorEvent 0 1 None ?c,
    onReadyStateChange 0 None None ?c, stopGeneration ?c}" by simp
  from stream_event_frame [OF this] show ?thesis
    by (simp add: init_chat_def createLoadingAssistantMessage_def)
qed

text \<open>The sources of every session, calm or not: the current source is open and no source has a number not yet taken.\<close>

definition sources_inv :: "chat \<Rightarrow> bool" where
  "sources_inv c \<longleftrightarrow> (\<forall>i \<in> set (opened c). i < next_source c) \<and> (\<forall>i. sseSource c = Some i \<longrightarrow> i \<in> set (opened c))"

lemma sources_send: "sources_inv c \<Longrightarrow> sources_inv (sendStreamRequest started (c\<lparr>msgs := ms\<rparr>))"
  by (auto simp: sources_inv_def sendStreamRequest_def handleStreamError_def Let_def less_SucI)

lemma sources_error: "sources_inv c \<Longrightarrow> sources_inv (handleError i e code c)"
  by (auto simp: sources_inv_def handleError_def closeSource_def handleStreamError_def)

lemma sources_done: "sources_inv c \<Longrightarrow> sources_inv (handleStreamComplete (closeSource i (c\<lparr>streamComplete := True\<rparr>)))"
  by (auto simp: sources_inv_def handleStreamComplete_def closeSource_def)

lemma sources_stop: "sources_inv c \<Longrightarrow> sources_inv (stopGeneration c)"
  by (auto simp: sources_inv_def stopGeneration_def stopStream_def Let_def split: option.splits)

lemma sources_update: "sources_inv (handleStreamUpdate ty ch c) = sources_inv c"
  by (simp add: handleStreamUpdate_def sources_inv_def)

lemma sources_save: "sources_inv c \<Longrightarrow> sources_inv (applyEdit nids utext submit started c)"
proof (cases "Option.bind (editing c) (\<lambda>k. map_option (\<lambda>i. (k, i)) (index_of_key k (msgs c)))")
  case (Some ki)
  assume "sources_inv c"
  then have i: "sources_inv (c\<lparr>editing := None\<rparr>)" and e: "sources_inv (c\<lparr>editing := None, msgs := ms\<rparr>)" for ms
    by (simp_all add: sources_inv_def)
  obtain k i where "ki = (k, i)" by force
  with Some show ?thesis using sources_send [OF i] e by (simp add: applyEdit_def Let_def)
qed (simp add: applyEdit_def)

lemma sources_message: "sources_inv c \<Longrightarrow> sources_inv (onMessageEvent i data c)"
  unfolding onMessageEvent_def Let_def
  by (simp add: sources_done sources_error sources_update split: option.split del: list.map)

lemma sources_step: "chat_step c c' \<Longrightarrow> sources_inv c \<Longrightarrow> sources_inv c'"
proof (induction rule: chat_step.induct)
  case (error i c rs err)
  then show ?case by (auto simp: onErrorEvent_def sources_error split: prod.split)
next
  case (ready i c rso status)
  then show ?case by (auto simp: onReadyStateChange_def sources_error split: option.split)
next
  case (edit c k)
  then show ?case by (simp add: handleEditMessage_def sources_inv_def)
next
  case (cancel c)
  then show ?case by (simp add: cancel_edit_def sources_inv_def)
next
  case (delete c k)
  then show ?case by (simp add: handleDeleteMessage_def sources_inv_def)
next
  case (regenerate c nids k started)
  then show ?case by (auto simp: handleRegenerateMessage_def sources_send split: option.split)
qed (simp_all add: sources_message sources_stop sources_save handleSendMessage_def sources_send)

lemma sources_reach: "chat_reach ms c \<Longrightarrow> sources_inv c"
proof (induction rule: chat_reach.induct)
  case init
  show ?case by (simp add: sources_inv_def init_chat_def)
next
  case (step c c')
  then show ?case by (blast intro: sources_step)
qed

text \<open>What the server sends and the button that stops.\<close>

inductive stream_step :: "chat \<Rightarrow> chat \<Rightarrow> bool" where
  message: "i \<in> set (opened c) \<Longrightarrow> stream_step c (onMessageEvent i data c)"
| error: "i \<in> set (opened c) \<Longrightarrow> stream_step c (onErrorEvent i rs err c)"
| ready: "i \<in> set (opened c) \<Longrightarrow> stream_step c (onReadyStateChange i rso status c)"
| stop: "stream_step c (stopGeneration c)"

lemma stream_step_butlast: "stream_step c c' \<Longrightarrow> butlast (msgs c') = butlast (msgs c)"
proof (induction rule: stream_step.induct)
  case (message i c data)
  show ?case by (rule conjunct1 [OF stream_event_frame]) blast
next
  case (error i c rs err)
  show ?case by (rule conjunct1 [OF stream_event_frame]) blast
next
  case (ready i c rso status)
  show ?case by (rule conjunct1 [OF stream_event_frame]) blast
next
  case (stop c)
  show ?case by (rule conjunct1 [OF stream_event_frame]) blast
qed

lemma stream_steps_butlast: "stream_step\<^sup>*\<^sup>* c c' \<Longrightarrow> butlast (msgs c') = butlast (msgs c)"
  by (induction rule: rtranclp_induct) (simp_all add: stream_step_butlast)

text \<open>C36: A suggestion clicked while an answer is streaming orphans that answer: it opens a second source beside the first, and
  whatever both sources send from then on, and however often the user stops, the first answer stays in the list as it is, loading
  or streaming. Stopping closes the second source only, and leaves no current source while the first is still open.\<close>

theorem second_stream_orphans:
  assumes "chat_reach ms c" and "sseSource c = Some i" and "msgs c \<noteq> []" and "stuck (last (msgs c))"
    and "t \<in> set suggestions" and "c1 = handleSendMessage nids t True c" and "stream_step\<^sup>*\<^sup>* c1 c2"
  shows "chat_step c c1 \<and> opened c1 = opened c @ [next_source c] \<and> sseSource c1 = Some (next_source c) \<and>
    msgs c2 ! (length (msgs c) - 1) = last (msgs c) \<and> last (msgs c) \<in> set (msgs c2) \<and>
    sseSource (stopGeneration c1) = None \<and> i \<in> set (opened (stopGeneration c1))"
proof -
  have src: "i \<in> set (opened c)" "i \<noteq> next_source c" using sources_reach [OF assms(1)] assms(2) by (auto simp: sources_inv_def)
  have c1: "opened c1 = opened c @ [next_source c]" "sseSource c1 = Some (next_source c)"
    "msgs c1 = msgs c @ [createUserMessage (nids ! 0) (nids ! 1) t, createLoadingAssistantMessage (nids ! 2) (nids ! 3)]"
    by (simp_all add: assms(6) handleSendMessage_def sendStreamRequest_def Let_def)
  have b: "butlast (msgs c2) = msgs c @ [createUserMessage (nids ! 0) (nids ! 1) t]"
    using stream_steps_butlast [OF assms(7)] by (simp add: c1(3) butlast_append)
  then obtain m where "msgs c2 = butlast (msgs c2) @ [m]" by (cases "msgs c2" rule: rev_cases) auto
  then have m: "msgs c2 = msgs c @ [createUserMessage (nids ! 0) (nids ! 1) t, m]" using b by simp
  have "msgs c2 ! (length (msgs c) - 1) = last (msgs c)" "last (msgs c) \<in> set (msgs c2)"
    using assms(3) by (simp_all add: m nth_append last_conv_nth)
  moreover have "sseSource (stopGeneration c1) = None" "i \<in> set (opened (stopGeneration c1))"
    using src by (simp_all add: stopGeneration_def stopStream_def c1 Let_def)
  moreover have "chat_step c c1" unfolding assms(6) by (rule chat_step.suggest [OF assms(5)])
  ultimately show ?thesis using c1 by simp
qed

theorem second_stream_orphans_witness:
  "\<exists>c c1. chat_reach [] c \<and> chat_step c c1 \<and> sseSource (stopGeneration c1) = None \<and> 0 \<in> set (opened (stopGeneration c1)) \<and>
     list_ex stuck (msgs (stopGeneration c1))"
proof -
  let ?c = "handleSendMessage [[1], [2], [3], [4]] (lit ''hi'') True (init_chat [])"
  let ?c1 = "handleSendMessage [[5], [6], [7], [8]] (lit ''Code'') True ?c"
  have t: "trim (lit ''hi'') \<noteq> []" "lit ''Code'' \<in> set suggestions" by code_simp+
  have r: "chat_reach [] ?c" by (rule chat_reach.step [OF chat_reach.init chat_step.send]) (use t in \<open>simp_all add: init_chat_def\<close>)
  have s: "sseSource ?c = Some 0" "msgs ?c \<noteq> []" "stuck (last (msgs ?c))" by code_simp+
  have "stream_step\<^sup>*\<^sup>* ?c1 (stopGeneration ?c1)" by (blast intro: stream_step.stop)
  note o = second_stream_orphans [OF r s t(2) refl this]
  have "list_ex stuck (msgs (stopGeneration ?c1))" unfolding list_ex_iff using o s(3) by blast
  with o r show ?thesis by blast
qed

text \<open>When the stream says it is done, the source is closed, the last assistant message is complete
  (unless it had already failed) with the visible part of what was received, and from then on no
  error of that request changes anything.\<close>

lemma stream_done:
  assumes "msgs c \<noteq> []" and "m_from (last (msgs c)) = RAssistant" and "m_status (last (msgs c)) = Some Streaming"
  shows "(let c' = onMessageEvent i (lit ''[DONE]'') c; m = last (msgs c') in
    sseSource c' = None \<and> i \<notin> set (opened c') \<and> m_status m = Some Complete \<and>
    v_content (getCurrentVersion m) =
      visibleContent (parseThinkTags (v_content (getCurrentVersion (last (msgs c))))) \<and>
    handleError i e code c' = c')"
  using assms
  by (simp add: onMessageEvent_def handleStreamComplete_def closeSource_def handleError_def
      updateLastAssistantMessage_def complete_updater_def)

lemma stream_done_witness:
  "m_status (last (msgs (onMessageEvent 0 (lit ''[DONE]'')
     (init_chat [(createLoadingAssistantMessage [1] [2])\<lparr>m_status := Some Streaming\<rparr>])))) = Some Complete"
proof -
  let ?c = "init_chat [(createLoadingAssistantMessage [1] [2])\<lparr>m_status := Some Streaming\<rparr>]"
  have h: "msgs ?c \<noteq> []" "m_from (last (msgs ?c)) = RAssistant" "m_status (last (msgs ?c)) = Some Streaming"
    by (simp_all add: init_chat_def createLoadingAssistantMessage_def)
  show ?thesis using stream_done [OF h, of 0 "[]" None] by (simp only: Let_def)
qed

text \<open>C7: An error of a running stream is reported once, closes the source and marks the last assistant
  message as failed; a failed message is not changed by later chunks, by completion or by stopping.\<close>

theorem stream_error_sticky:
  assumes "msgs c \<noteq> []" and "m_from (last (msgs c)) = RAssistant" and "\<not> streamComplete c"
  shows "(let c' = handleError i e code c in
    toasts c' = toasts c @ [e] \<and> sseSource c' = None \<and> i \<notin> set (opened c') \<and>
    m_status (last (msgs c')) = Some Failed \<and>
    msgs (handleStreamUpdate ty chunk c') = msgs c' \<and> msgs (handleStreamComplete c') = msgs c' \<and>
    msgs (stopGeneration c') = msgs c')"
  using assms
  by (simp add: handleError_def closeSource_def handleStreamError_def error_update_eq
      updateLastAssistantMessage_def handleStreamUpdate_def handleStreamComplete_def stopGeneration_def
      stopStream_def stream_updater_def complete_updater_def stop_updater_def error_updater_def)

theorem stream_error_sticky_witness:
  "toasts (handleError 0 (lit ''x'') None (init_chat [createLoadingAssistantMessage [1] [2]])) = [lit ''x'']"
proof -
  let ?c = "init_chat [createLoadingAssistantMessage [1] [2]]"
  have h: "msgs ?c \<noteq> []" "m_from (last (msgs ?c)) = RAssistant" "\<not> streamComplete ?c"
    by (simp_all add: init_chat_def createLoadingAssistantMessage_def)
  show ?thesis
    using stream_error_sticky [OF h, of 0 "lit ''x''" None ContentChunk "[]"]
    by (simp add: Let_def init_chat_def)
qed

text \<open>A connection that ends with HTTP 200 but without the done marker is not noticed: the state is
  unchanged, so the source stays current and the message stays streaming until the user stops it.\<close>

lemma stream_silent_end:
  "onReadyStateChange i rs (Some 200) c = c"
  by (simp add: onReadyStateChange_def split: option.splits)

text \<open>Without streaming, a response that has no choice leaves the assistant message loading, and no
  stream is running that the user could stop.\<close>

lemma nonstream_no_choice_stuck:
  "nonStreamingResult NsNoChoice c = c \<and>
   (let c' = nonStreamingResult NsNoChoice (init_chat (ms @ [createLoadingAssistantMessage k v])) in
    sseSource c' = None \<and> stuck (last (msgs c')))"
  by (simp add: init_chat_def stuck_def createLoadingAssistantMessage_def)

end
