(* ===== verification/JS_Regex.thy ===== *)
theory JS_Regex
  imports JS_Prelude
begin

text \<open>
  Regular expressions of JavaScript, as far as the program uses them: classes of code units,
  sequence, alternation, greedy repetition, numbered groups, back references, the anchors and the
  word boundary.

  \<open>mt r\<close> maps a state (the code unit before the position, the rest of the text, the captures, the
  latest first) to the list of all ways to match \<open>r\<close> there, in the order in which the backtracking
  matcher of the language tries them. The first one is what the matcher returns; taking the list
  apart is how the lemmas below reason about backtracking. No pattern of the program has a group
  inside a repetition, so captures are never reset.
\<close>

type_synonym rst = "nat option \<times> jstring \<times> (nat \<times> jstring) list"

datatype re =
    Cls "nat \<Rightarrow> bool"
  | Eps
  | Seq re re
  | Alt re re
  | Star re
  | Grp nat re
  | Ref nat
  | Bol
  | Eol
  | Wordb

definition adv :: "nat option \<Rightarrow> jstring \<Rightarrow> nat option" where
  "adv pv xs = (if xs = [] then pv else Some (last xs))"

fun shorter :: "rst \<Rightarrow> rst \<Rightarrow> bool" where
  "shorter (_, s, _) (_, t, _) \<longleftrightarrow> length s < length t"

fun star_iter :: "(rst \<Rightarrow> rst list) \<Rightarrow> nat \<Rightarrow> rst \<Rightarrow> rst list" where
  "star_iter f 0 st = [st]"
| "star_iter f (Suc n) st = concat (map (star_iter f n) (filter (\<lambda>st'. shorter st' st) (f st))) @ [st]"

fun mt_cls :: "(nat \<Rightarrow> bool) \<Rightarrow> rst \<Rightarrow> rst list" where
  "mt_cls p (pv, [], caps) = []"
| "mt_cls p (pv, c # s, caps) = (if p c then [(Some c, s, caps)] else [])"

fun close_group :: "nat \<Rightarrow> jstring \<Rightarrow> rst \<Rightarrow> rst" where
  "close_group n s (pv, t, caps) = (pv, t, (n, take (length s - length t) s) # caps)"

fun mt_ref :: "nat \<Rightarrow> rst \<Rightarrow> rst list" where
  "mt_ref n (pv, s, caps) =
     (case map_of caps n of
        None \<Rightarrow> [(pv, s, caps)]
      | Some w \<Rightarrow> if starts_with s w then [(adv pv w, drop (length w) s, caps)] else [])"

definition word_at :: "nat option \<Rightarrow> bool" where
  "word_at c = (case c of None \<Rightarrow> False | Some x \<Rightarrow> is_word x)"

fun head_opt :: "jstring \<Rightarrow> nat option" where
  "head_opt [] = None"
| "head_opt (c # s) = Some c"

primrec mt :: "re \<Rightarrow> rst \<Rightarrow> rst list" where
  "mt (Cls p) = mt_cls p"
| "mt Eps = (\<lambda>st. [st])"
| "mt (Seq a b) = (\<lambda>st. concat (map (mt b) (mt a st)))"
| "mt (Alt a b) = (\<lambda>st. mt a st @ mt b st)"
| "mt (Star r) = (\<lambda>st. star_iter (mt r) (length (fst (snd st))) st)"
| "mt (Grp n r) = (\<lambda>st. map (close_group n (fst (snd st))) (mt r st))"
| "mt (Ref n) = mt_ref n"
| "mt Bol = (\<lambda>st. if fst st = None then [st] else [])"
| "mt Eol = (\<lambda>st. if fst (snd st) = [] then [st] else [])"
| "mt Wordb = (\<lambda>st. if word_at (fst st) \<noteq> word_at (head_opt (fst (snd st))) then [st] else [])"

section \<open>Derived patterns\<close>

fun cat :: "re list \<Rightarrow> re" where
  "cat [] = Eps"
| "cat (r # rs) = Seq r (cat rs)"

fun alts :: "re list \<Rightarrow> re" where
  "alts [] = Cls (\<lambda>_. False)"
| "alts [r] = r"
| "alts (r # q # rs) = Alt r (alts (q # rs))"

definition many1 :: "re \<Rightarrow> re" where
  "many1 r = Seq r (Star r)"

definition opt :: "re \<Rightarrow> re" where
  "opt r = Alt r Eps"

definition chr :: "nat \<Rightarrow> re" where
  "chr c = Cls (\<lambda>x. x = c)"

definition str :: "jstring \<Rightarrow> re" where
  "str s = cat (map chr s)"

definition sp :: re where
  "sp = Star (Cls is_ws)"

section \<open>Using a pattern\<close>

fun find_first :: "re \<Rightarrow> nat option \<Rightarrow> jstring \<Rightarrow> (jstring \<times> rst) option" where
  "find_first r pv s =
     (case mt r (pv, s, []) of
        st # _ \<Rightarrow> Some ([], st)
      | [] \<Rightarrow> (case s of [] \<Rightarrow> None | c # t \<Rightarrow> map_option (apfst ((#) c)) (find_first r (Some c) t)))"

declare find_first.simps [simp del]

text \<open>\<^verbatim>\<open>s.match(re)\<close> without the global flag: the captures of the first match.\<close>

definition re_match :: "re \<Rightarrow> jstring \<Rightarrow> (nat \<Rightarrow> jstring option) option" where
  "re_match r s = map_option (\<lambda>(_, _, _, caps). map_of caps) (find_first r None s)"

definition re_test :: "re \<Rightarrow> jstring \<Rightarrow> bool" where
  "re_test r s \<longleftrightarrow> find_first r None s \<noteq> None"

text \<open>
  The loop \<^verbatim>\<open>while ((m = re.exec(s)) !== null)\<close> of a global pattern: the captures of the successive
  matches. Every pattern the program uses this way consumes at least one code unit, so the text
  left after a match is shorter.
\<close>

function exec_all :: "re \<Rightarrow> nat option \<Rightarrow> jstring \<Rightarrow> (nat \<Rightarrow> jstring option) list" where
  "exec_all r pv s =
     (case find_first r pv s of
        None \<Rightarrow> []
      | Some (_, pv', t, caps) \<Rightarrow>
          map_of caps # (if length t < length s then exec_all r pv' t else []))"
  by pat_completeness auto
termination by (relation "measure (\<lambda>(r, pv, s). length s)") auto

declare exec_all.simps [simp del]

text \<open>The pieces of \<^verbatim>\<open>s.split(re)\<close>, and \<^verbatim>\<open>s.replace(re, w)\<close> with the global flag.\<close>

function re_split :: "re \<Rightarrow> nat option \<Rightarrow> jstring \<Rightarrow> jstring list" where
  "re_split r pv s =
     (case find_first r pv s of
        None \<Rightarrow> [s]
      | Some (x, pv', t, _) \<Rightarrow> if length t < length s then x # re_split r pv' t else [s])"
  by pat_completeness auto
termination by (relation "measure (\<lambda>(r, pv, s). length s)") auto

declare re_split.simps [simp del]

definition re_replace :: "re \<Rightarrow> jstring \<Rightarrow> jstring \<Rightarrow> jstring" where
  "re_replace r w s = join w (re_split r None s)"

section \<open>Lemmas\<close>

lemma adv_Nil [simp]: "adv pv [] = pv"
  by (simp add: adv_def)

lemma adv_Cons: "adv pv (c # s) = adv (Some c) s"
  by (simp add: adv_def)

lemma mt_str:
  "mt (str w) (pv, s, caps) =
     (if starts_with s w then [(adv pv w, drop (length w) s, caps)] else [])"
proof (induction w arbitrary: pv s)
  case Nil
  then show ?case by (simp add: str_def starts_with_def)
next
  case (Cons a w)
  have "mt (str (a # w)) (pv, s, caps) = concat (map (mt (str w)) (mt (chr a) (pv, s, caps)))"
    by (simp add: str_def)
  with Cons show ?case
    by (cases s) (auto simp: chr_def starts_with_def adv_Cons)
qed

lemma mt_str_append [simp]: "mt (str w) (pv, w @ s, caps) = [(adv pv w, s, caps)]"
  by (simp add: mt_str)

lemma star_cls_aux:
  "length s \<le> n \<Longrightarrow>
   star_iter (mt_cls p) n (pv, s, caps) =
     map (\<lambda>k. (adv pv (take k s), drop k s, caps)) (rev [0..<Suc (length (takeWhile p s))])"
proof (induction n arbitrary: pv s)
  case 0
  then show ?case by simp
next
  case (Suc n)
  show ?case
  proof (cases s)
    case Nil
    then show ?thesis by simp
  next
    case (Cons c t)
    show ?thesis
    proof (cases "p c")
      case False
      with Cons show ?thesis by simp
    next
      case True
      have up: "[0..<Suc (Suc m)] = 0 # map Suc [0..<Suc m]" for m
        by (simp add: upt_conv_Cons map_Suc_upt del: upt_Suc)
      have "star_iter (mt_cls p) n (Some c, t, caps) =
          map (\<lambda>k. (adv (Some c) (take k t), drop k t, caps)) (rev [0..<Suc (length (takeWhile p t))])"
        using Suc Cons by simp
      with True Cons show ?thesis
        by (simp add: up rev_map adv_Cons comp_def del: upt_Suc)
    qed
  qed
qed

lemma mt_star_cls:
  "mt (Star (Cls p)) (pv, s, caps) =
     map (\<lambda>k. (adv pv (take k s), drop k s, caps)) (rev [0..<Suc (length (takeWhile p s))])"
  by (simp add: star_cls_aux del: upt_Suc)

text \<open>A repeated class followed by a code unit outside it: only the longest way can go on.\<close>

lemma concat_map_last:
  assumes "\<And>k. k < n \<Longrightarrow> f k = []"
  shows "concat (map f (rev [0..<Suc n])) = f n"
  using assms by (induction n) auto

lemma star_cls_then:
  assumes "list_all p w" and "s = [] \<or> \<not> p (hd s)"
    and "\<And>k. k < length w \<Longrightarrow> f (adv pv (take k w), drop k w @ s, caps) = []"
  shows "concat (map f (mt (Star (Cls p)) (pv, w @ s, caps))) = f (adv pv w, s, caps)"
proof -
  have tw: "takeWhile p (w @ s) = w"
    using assms(1,2) by (cases s) (auto simp: list_all_iff takeWhile_append takeWhile_eq_all_conv)
  let ?g = "\<lambda>k. f (adv pv (take k (w @ s)), drop k (w @ s), caps)"
  have "concat (map f (mt (Star (Cls p)) (pv, w @ s, caps))) = concat (map ?g (rev [0..<Suc (length w)]))"
    by (simp only: mt_star_cls tw map_map comp_def)
  also have "\<dots> = ?g (length w)" by (rule concat_map_last) (use assms(3) in simp)
  finally show ?thesis by simp
qed

lemma mt_many1: "mt (many1 r) st = concat (map (mt (Star r)) (mt r st))"
  by (simp add: many1_def)

lemma many1_cls_then:
  assumes "list_all p w" and "w \<noteq> []" and "s = [] \<or> \<not> p (hd s)"
    and "\<And>k. 0 < k \<Longrightarrow> k < length w \<Longrightarrow> f (adv pv (take k w), drop k w @ s, caps) = []"
  shows "concat (map f (mt (many1 (Cls p)) (pv, w @ s, caps))) = f (adv pv w, s, caps)"
proof -
  obtain c t where w: "w = c # t" using assms(2) by (cases w) auto
  have "mt (many1 (Cls p)) (pv, w @ s, caps) = mt (Star (Cls p)) (Some c, t @ s, caps)"
    using assms(1) by (simp add: mt_many1 w del: mt.simps(5))
  also have "concat (map f \<dots>) = f (adv (Some c) t, s, caps)"
  proof (rule star_cls_then)
    show "f (adv (Some c) (take k t), drop k t @ s, caps) = []" if "k < length t" for k
      using assms(4) [of "Suc k"] that by (simp add: w adv_Cons)
  qed (use assms in \<open>auto simp: w\<close>)
  finally show ?thesis by (simp add: w adv_Cons)
qed

text \<open>An anchored pattern matches at the start or nowhere.\<close>

lemma find_first_anchored_later: "pv \<noteq> None \<Longrightarrow> find_first (Seq Bol r) pv s = None"
proof (induction s arbitrary: pv)
  case Nil
  then show ?case by (subst find_first.simps) auto
next
  case (Cons c s)
  then show ?case by (subst find_first.simps) auto
qed

lemma find_first_anchored:
  "find_first (Seq Bol r) None s =
     (case mt r (None, s, []) of st # _ \<Rightarrow> Some ([], st) | [] \<Rightarrow> None)"
  by (subst find_first.simps) (auto simp: find_first_anchored_later split: list.splits)

lemma re_match_anchored:
  "re_match (Seq Bol r) s =
     (case mt r (None, s, []) of (_, _, caps) # _ \<Rightarrow> Some (map_of caps) | [] \<Rightarrow> None)"
  by (auto simp: re_match_def find_first_anchored split: list.splits)

lemma re_test_anchored: "re_test (Seq Bol r) s \<longleftrightarrow> mt r (None, s, []) \<noteq> []"
  by (simp add: re_test_def find_first_anchored split: list.splits)

end
