(* ===== verification/Billing_Expr.thy ===== *)
theory Billing_Expr
  imports JS_Regex JS_Json
begin

text \<open>
  Billing expressions of the dynamic pricing editor (\<^verbatim>\<open>features/pricing/lib/billing-expr.ts\<close>): the
  registry of billing variables, the parser of tiers, the parser and the printer of request rules,
  and the split and the combination of a base expression and its rules.

  \<open>thrown\<close> is the result of code that may throw (\<^verbatim>\<open>JSON.parse\<close> on a malformed literal); inside
  it \<open>option\<close> is \<^verbatim>\<open>null\<close>.
\<close>

section \<open>The variable registry\<close>

datatype side = Input | Output | Condition

record billing_var =
  key :: jstring
  field :: "jstring option"
  tierField :: "jstring option"
  label :: jstring
  shortLabel :: jstring
  side :: side
  isBase :: bool
  isConditionOnly :: bool
  group :: "jstring option"

definition priced_var :: "string \<Rightarrow> string \<Rightarrow> string \<Rightarrow> string \<Rightarrow> string \<Rightarrow> side \<Rightarrow> bool \<Rightarrow> jstring option \<Rightarrow> billing_var" where
  "priced_var k f tf l sl sd base g =
     \<lparr>key = lit k, field = Some (lit f), tierField = Some (lit tf), label = lit l, shortLabel = lit sl,
      side = sd, isBase = base, isConditionOnly = False, group = g\<rparr>"

definition BILLING_VARS :: "billing_var list" where
  "BILLING_VARS =
     [priced_var ''p'' ''inputPrice'' ''input_unit_cost'' ''Input price'' ''Input'' Input True None,
      priced_var ''c'' ''outputPrice'' ''output_unit_cost'' ''Completion price'' ''Output'' Output True None,
      \<lparr>key = lit ''len'', field = None, tierField = None, label = lit ''Input length'',
       shortLabel = lit ''Length'', side = Condition, isBase = False, isConditionOnly = True, group = None\<rparr>,
      priced_var ''cr'' ''cacheReadPrice'' ''cache_read_unit_cost'' ''Cache read price'' ''Cache Read''
        Input False (Some (lit ''cache'')),
      priced_var ''cc'' ''cacheCreatePrice'' ''cache_create_unit_cost'' ''Cache create price'' ''Cache Write''
        Input False (Some (lit ''cache'')),
      priced_var ''cc1h'' ''cacheCreate1hPrice'' ''cache_create_1h_unit_cost'' ''Cache create (1h) price''
        ''Cache Write (1h)'' Input False (Some (lit ''cache'')),
      priced_var ''img'' ''imagePrice'' ''image_unit_cost'' ''Image input price'' ''Image In''
        Input False (Some (lit ''media'')),
      priced_var ''img_o'' ''imageOutputPrice'' ''image_output_unit_cost'' ''Image output price'' ''Image Out''
        Output False (Some (lit ''media'')),
      priced_var ''ai'' ''audioInputPrice'' ''audio_input_unit_cost'' ''Audio input price'' ''Audio In''
        Input False (Some (lit ''media'')),
      priced_var ''ao'' ''audioOutputPrice'' ''audio_output_unit_cost'' ''Audio output price'' ''Audio Out''
        Output False (Some (lit ''media''))]"

definition BILLING_PRICING_VARS :: "billing_var list" where
  "BILLING_PRICING_VARS = filter (\<lambda>v. \<not> isConditionOnly v) BILLING_VARS"

definition BILLING_CONDITION_VARS :: "jstring list" where
  "BILLING_CONDITION_VARS = map key (filter (\<lambda>v. isBase v \<or> isConditionOnly v) BILLING_VARS)"

definition BILLING_VAR_KEY_TO_FIELD :: "(jstring \<times> jstring) list" where
  "BILLING_VAR_KEY_TO_FIELD = map (\<lambda>v. (key v, the (field v))) BILLING_PRICING_VARS"

definition BILLING_EXTRA_VARS :: "billing_var list" where
  "BILLING_EXTRA_VARS = filter (\<lambda>v. \<not> isBase v \<and> \<not> isConditionOnly v) BILLING_VARS"

definition BILLING_CACHE_VAR_MAP :: "(jstring \<times> jstring) list" where
  "BILLING_CACHE_VAR_MAP = map (\<lambda>v. (the (tierField v), key v)) BILLING_EXTRA_VARS"

text \<open>The classes \<^verbatim>\<open>[\d.eE+-]\<close> and \<^verbatim>\<open>[\d.eE+]\<close>, and \<^verbatim>\<open>[^"]\<close>.\<close>

definition num_char :: "nat \<Rightarrow> bool" where
  "num_char c \<longleftrightarrow> is_digit c \<or> c = 46 \<or> c = 101 \<or> c = 69 \<or> c = 43 \<or> c = 45"

definition num_char_cond :: "nat \<Rightarrow> bool" where
  "num_char_cond c \<longleftrightarrow> is_digit c \<or> c = 46 \<or> c = 101 \<or> c = 69 \<or> c = 43"

definition not_quote :: "nat \<Rightarrow> bool" where
  "not_quote c \<longleftrightarrow> c \<noteq> 34"

definition words :: "string list \<Rightarrow> re" where
  "words ws = alts (map (\<lambda>w. str (lit w)) ws)"

definition BILLING_VAR_REGEX :: re where
  "BILLING_VAR_REGEX =
     cat [Wordb, Grp 1 (alts (map (\<lambda>v. str (key v)) BILLING_PRICING_VARS)), sp, chr 42, sp,
          Grp 2 (many1 (Cls num_char))]"

definition num_pattern :: re where
  "num_pattern =
     cat [opt (chr 45),
          Alt (cat [many1 (Cls is_digit), opt (chr 46), Star (Cls is_digit)])
              (cat [chr 46, many1 (Cls is_digit)]),
          opt (cat [Cls (\<lambda>c. c = 101 \<or> c = 69), opt (Cls (\<lambda>c. c = 43 \<or> c = 45)), many1 (Cls is_digit)])]"

definition NUMERIC_LITERAL_REGEX :: re where
  "NUMERIC_LITERAL_REGEX = cat [Bol, num_pattern, Eol]"

definition MATCH_EQ :: jstring where "MATCH_EQ = lit ''eq''"
definition MATCH_CONTAINS :: jstring where "MATCH_CONTAINS = lit ''contains''"
definition MATCH_GT :: jstring where "MATCH_GT = lit ''gt''"
definition MATCH_GTE :: jstring where "MATCH_GTE = lit ''gte''"
definition MATCH_LT :: jstring where "MATCH_LT = lit ''lt''"
definition MATCH_LTE :: jstring where "MATCH_LTE = lit ''lte''"
definition MATCH_EXISTS :: jstring where "MATCH_EXISTS = lit ''exists''"
definition MATCH_RANGE :: jstring where "MATCH_RANGE = lit ''range''"

lemmas match_modes = MATCH_EQ_def MATCH_CONTAINS_def MATCH_GT_def MATCH_GTE_def MATCH_LT_def
  MATCH_LTE_def MATCH_EXISTS_def MATCH_RANGE_def

definition TIME_FUNCS :: "string list" where
  "TIME_FUNCS = [''hour'', ''minute'', ''weekday'', ''month'', ''day'']"

datatype cond_source = SParam | SHeader

datatype request_condition =
    ParamHeaderCondition (c_source: cond_source) (c_path: jstring) (c_mode: jstring) (c_value: jstring)
  | TimeCondition (timeFunc: jstring) (timezone: jstring) (c_mode: jstring) (c_value: jstring)
      (rangeStart: jstring) (rangeEnd: jstring)

record rule_group =
  conditions :: "request_condition list"
  multiplier :: jstring

record tier_condition =
  tc_var :: jstring
  tc_op :: jstring
  tc_value :: jsnum

record parsed_tier =
  t_label :: jstring
  t_conditions :: "tier_condition list"
  t_prices :: "(jstring \<times> jsnum) list"

section \<open>The tier parser\<close>

definition re_version :: re where
  "re_version = cat [Bol, chr 118, Grp 1 (many1 (Cls is_digit)), chr 58, Grp 2 (Star (Cls (\<lambda>_. True))), Eol]"

definition cap :: "(nat \<Rightarrow> jstring option) \<Rightarrow> nat \<Rightarrow> jstring" where
  "cap m n = (case m n of None \<Rightarrow> [] | Some s \<Rightarrow> s)"

definition stripExprVersion :: "jstring \<Rightarrow> jsnum \<times> jstring" where
  "stripExprVersion exprStr =
     (if exprStr = [] then (Fin 1, [])
      else case re_match re_version exprStr of
             Some m \<Rightarrow> (js_Number (cap m 1), cap m 2)
           | None \<Rightarrow> (Fin 1, exprStr))"

definition or_zero :: "jsnum \<Rightarrow> jsnum" where
  "or_zero x = (if jtruthy x then x else Fin 0)"

text \<open>The first coefficient of every variable; later ones are ignored.\<close>

fun first_coeffs :: "(nat \<Rightarrow> jstring option) list \<Rightarrow> (jstring \<times> jsnum) list \<Rightarrow> (jstring \<times> jsnum) list" where
  "first_coeffs [] acc = acc"
| "first_coeffs (m # ms) acc =
     first_coeffs ms (if map_of acc (cap m 1) \<noteq> None then acc else acc @ [(cap m 1, js_Number (cap m 2))])"

definition parseTierBody :: "jstring \<Rightarrow> (jstring \<times> jsnum) list" where
  "parseTierBody bodyStr =
     (let coeffs = first_coeffs (exec_all BILLING_VAR_REGEX None bodyStr) [] in
      map (\<lambda>(v, f). (f, case map_of coeffs v of None \<Rightarrow> Fin 0 | Some x \<Rightarrow> or_zero x)) BILLING_VAR_KEY_TO_FIELD)"

definition cond_atom :: re where
  "cond_atom =
     cat [words [''p'', ''c'', ''len''], sp, words [''<'', ''<='', ''>'', ''>=''], sp, many1 (Cls num_char_cond)]"

definition condGroup :: re where
  "condGroup = Grp 1 (Seq cond_atom (Star (cat [sp, str (lit ''&&''), sp, cond_atom])))"

definition re_tier :: re where
  \<open>re_tier =
     cat [opt (cat [condGroup, sp, chr 63, sp]), str (lit ''tier("''), Grp 2 (Star (Cls not_quote)),
          str (lit ''",''), sp, Grp 3 (many1 (Cls (\<lambda>c. c \<noteq> 41))), chr 41]\<close>

definition re_and :: re where
  "re_and = cat [sp, str (lit ''&&''), sp]"

definition re_cond :: re where
  "re_cond =
     cat [Bol, Grp 1 (words [''p'', ''c'', ''len'']), sp, Grp 2 (words [''<'', ''<='', ''>'', ''>='']), sp,
          Grp 3 (many1 (Cls num_char_cond)), Eol]"

definition parse_conditions :: "jstring \<Rightarrow> tier_condition list" where
  "parse_conditions condStr =
     (if condStr = [] then []
      else concat (map (\<lambda>cp. case re_match re_cond (trim cp) of
                               Some cm \<Rightarrow> [\<lparr>tc_var = cap cm 1, tc_op = cap cm 2, tc_value = js_Number (cap cm 3)\<rparr>]
                             | None \<Rightarrow> [])
             (re_split re_and None condStr)))"

definition parseTiersFromExpr :: "jstring \<Rightarrow> parsed_tier list" where
  "parseTiersFromExpr exprStr =
     (if exprStr = [] then []
      else map (\<lambda>m. \<lparr>t_label = cap m 2, t_conditions = parse_conditions (cap m 1),
                     t_prices = parseTierBody (cap m 3)\<rparr>)
             (exec_all re_tier None (snd (stripExprVersion exprStr))))"

section \<open>The request rule parser\<close>

text \<open>
  The loop of \<^verbatim>\<open>splitTopLevelMultiply\<close> and \<^verbatim>\<open>splitTopLevelAnd\<close>: \<open>d\<close> is the depth of
  parentheses, \<open>acc\<close> the text since the last separator.
\<close>

definition paren :: "nat \<Rightarrow> int" where
  "paren c = (if c = 40 then 1 else if c = 41 then - 1 else 0)"

function split_top :: "jstring \<Rightarrow> int \<Rightarrow> jstring \<Rightarrow> jstring \<Rightarrow> jstring list" where
  "split_top sep d acc [] = [trim acc]"
| "split_top sep d acc (c # s) =
     (if d + paren c = 0 \<and> starts_with (c # s) sep
      then trim acc # split_top sep (d + paren c) [] (drop (length sep - 1) s)
      else split_top sep (d + paren c) (acc @ [c]) s)"
  by pat_completeness auto
termination by (relation "measure (\<lambda>(sep, d, acc, s). length s)") auto

definition splitTopLevelMultiply :: "jstring \<Rightarrow> jstring list" where
  "splitTopLevelMultiply expr = filter (\<lambda>w. w \<noteq> []) (split_top (lit '' * '') 0 [] expr)"

definition splitTopLevelAnd :: "jstring \<Rightarrow> jstring list" where
  "splitTopLevelAnd expr = filter (\<lambda>w. w \<noteq> []) (split_top (lit '' && '') 0 [] expr)"

definition parseExprLiteral :: "jstring \<Rightarrow> jval option" where
  "parseExprLiteral raw =
     (let t = trim raw in
      if t = lit ''true'' \<or> t = lit ''false'' then Some (JStr t)
      else if re_test NUMERIC_LITERAL_REGEX t then Some (JStr t)
      else case json_parse t of Some JNull \<Rightarrow> None | r \<Rightarrow> r)"

definition time_head :: "re list" where
  \<open>time_head = [Grp 1 (words TIME_FUNCS), str (lit ''("''), Grp 2 (many1 (Cls not_quote)), str (lit ''") '')]\<close>

definition range_body :: "re list" where
  \<open>range_body =
     time_head @ [str (lit ''>= ''), Grp 3 (many1 (Cls num_char)), str (lit '' || ''), Ref 1, str (lit ''("''),
       Ref 2, str (lit ''") < ''), Grp 4 (many1 (Cls num_char))]\<close>

definition re_range :: re where
  "re_range = cat (Bol # range_body @ [Eol])"

definition re_range_paren :: re where
  "re_range_paren = cat (Bol # chr 40 # range_body @ [chr 41, Eol])"

definition re_time :: re where
  "re_time =
     cat (Bol # time_head @ [Grp 3 (words [''=='', ''>='', ''<'']), chr 32, Grp 4 (many1 (Cls num_char)), Eol])"

definition time_range :: "(nat \<Rightarrow> jstring option) \<Rightarrow> request_condition" where
  "time_range m = TimeCondition (cap m 1) (cap m 2) MATCH_RANGE [] (cap m 3) (cap m 4)"

definition time_op_mode :: "jstring \<Rightarrow> jstring" where
  "time_op_mode w =
     (if w = lit ''=='' then MATCH_EQ else if w = lit ''>='' then MATCH_GTE
      else if w = lit ''<'' then MATCH_LT else MATCH_EQ)"

definition tryParseTimeCondition :: "jstring \<Rightarrow> request_condition option" where
  "tryParseTimeCondition expr =
     (case re_match re_range expr of
        Some m \<Rightarrow> Some (time_range m)
      | None \<Rightarrow>
     (case re_match re_range_paren expr of
        Some m \<Rightarrow> Some (time_range m)
      | None \<Rightarrow>
     (case re_match re_time expr of
        Some m \<Rightarrow> Some (TimeCondition (cap m 1) (cap m 2) (time_op_mode (cap m 3)) (cap m 4) [] [])
      | None \<Rightarrow> None)))"

datatype 'a thrown = Throw | Ret 'a

definition call_of :: "string \<Rightarrow> nat \<Rightarrow> re list" where
  \<open>call_of f n = [str (lit f @ lit ''("''), Grp n (many1 (Cls not_quote)), str (lit ''")'')]\<close>

text \<open>\<^verbatim>\<open>"(?:[^"\\]|\\.)*"\<close>: a double-quoted literal with escapes.\<close>

definition not_newline :: "nat \<Rightarrow> bool" where
  "not_newline c \<longleftrightarrow> c \<noteq> 10 \<and> c \<noteq> 13 \<and> c \<noteq> 8232 \<and> c \<noteq> 8233"

definition re_quoted :: re where
  "re_quoted =
     cat [chr 34, Star (Alt (Cls (\<lambda>c. c \<noteq> 34 \<and> c \<noteq> 92)) (cat [chr 92, Cls not_newline])), chr 34]"

definition re_header_exists :: re where
  \<open>re_header_exists = cat (Bol # call_of ''header'' 1 @ [str (lit '' != ""''), Eol])\<close>

definition re_param_exists :: re where
  "re_param_exists = cat (Bol # call_of ''param'' 1 @ [str (lit '' != nil''), Eol])"

definition re_header_has :: re where
  "re_header_has =
     cat (Bol # str (lit ''has('') # call_of ''header'' 1 @ [str (lit '', ''), Grp 2 re_quoted, chr 41, Eol])"

definition re_param_has :: re where
  "re_param_has =
     cat (Bol # call_of ''param'' 1 @ str (lit '' != nil && has('') # call_of ''param'' 2 @
       [str (lit '', ''), Grp 3 re_quoted, chr 41, Eol])"

definition re_param_cmp :: re where
  "re_param_cmp =
     cat (Bol # call_of ''param'' 1 @ str (lit '' != nil && '') # call_of ''param'' 2 @
       [chr 32, Grp 3 (words [''>'', ''>='', ''<'', ''<='']), chr 32, Grp 4 (many1 (Cls num_char)), Eol])"

definition re_eq :: re where
  \<open>re_eq =
     cat [Bol, Grp 1 (words [''param'', ''header'']), str (lit ''("''), Grp 2 (many1 (Cls not_quote)),
          str (lit ''") == ''), Grp 3 (many1 (Cls not_newline)), Eol]\<close>

definition cmp_op_mode :: "jstring \<Rightarrow> jstring" where
  "cmp_op_mode w =
     (if w = lit ''>'' then MATCH_GT else if w = lit ''>='' then MATCH_GTE
      else if w = lit ''<'' then MATCH_LT else MATCH_LTE)"

definition contains_cond :: "cond_source \<Rightarrow> jstring \<Rightarrow> jstring \<Rightarrow> request_condition option thrown" where
  "contains_cond src path literal =
     (case json_parse literal of
        None \<Rightarrow> Throw
      | Some v \<Rightarrow> Ret (Some (ParamHeaderCondition src path MATCH_CONTAINS (str_of v))))"

definition parse_eq_condition :: "jstring \<Rightarrow> request_condition option" where
  "parse_eq_condition expr =
     (case re_match re_eq expr of
        None \<Rightarrow> None
      | Some m \<Rightarrow>
          (case parseExprLiteral (cap m 3) of
             None \<Rightarrow> None
           | Some v \<Rightarrow> Some (ParamHeaderCondition (if cap m 1 = lit ''param'' then SParam else SHeader)
                              (cap m 2) MATCH_EQ (str_of v))))"

definition parse_param_cmp :: "jstring \<Rightarrow> request_condition option" where
  "parse_param_cmp expr =
     (case re_match re_param_cmp expr of
        Some m \<Rightarrow>
          if m 1 = m 2 then Some (ParamHeaderCondition SParam (cap m 1) (cmp_op_mode (cap m 3)) (cap m 4))
          else parse_eq_condition expr
      | None \<Rightarrow> parse_eq_condition expr)"

definition parse_param_condition :: "jstring \<Rightarrow> request_condition option thrown" where
  "parse_param_condition expr =
     (case re_match re_param_has expr of
        Some m \<Rightarrow>
          if m 1 = m 2 then contains_cond SParam (cap m 1) (cap m 3) else Ret (parse_param_cmp expr)
      | None \<Rightarrow> Ret (parse_param_cmp expr))"

definition tryParseRequestCondition :: "jstring \<Rightarrow> request_condition option thrown" where
  "tryParseRequestCondition expr =
     (case tryParseTimeCondition expr of
        Some tc \<Rightarrow> Ret (Some tc)
      | None \<Rightarrow>
     (case re_match re_header_exists expr of
        Some m \<Rightarrow> Ret (Some (ParamHeaderCondition SHeader (cap m 1) MATCH_EXISTS []))
      | None \<Rightarrow>
     (case re_match re_param_exists expr of
        Some m \<Rightarrow> Ret (Some (ParamHeaderCondition SParam (cap m 1) MATCH_EXISTS []))
      | None \<Rightarrow>
     (case re_match re_header_has expr of
        Some m \<Rightarrow> contains_cond SHeader (cap m 1) (cap m 2)
      | None \<Rightarrow> parse_param_condition expr))))"

definition re_factor :: re where
  "re_factor =
     cat [Bol, chr 40, Grp 1 (many1 (Cls (\<lambda>_. True))), str (lit '' ? ''), Grp 2 (many1 (Cls num_char)),
          str (lit '' : 1)''), Eol]"

fun parse_all :: "('a \<Rightarrow> 'b option thrown) \<Rightarrow> 'a list \<Rightarrow> 'b list option thrown" where
  "parse_all f [] = Ret (Some [])"
| "parse_all f (x # xs) =
     (case f x of
        Throw \<Rightarrow> Throw
      | Ret None \<Rightarrow> Ret None
      | Ret (Some y) \<Rightarrow>
          (case parse_all f xs of Throw \<Rightarrow> Throw | Ret None \<Rightarrow> Ret None | Ret (Some ys) \<Rightarrow> Ret (Some (y # ys))))"

definition tryParseRuleGroupFactor :: "jstring \<Rightarrow> rule_group option thrown" where
  "tryParseRuleGroupFactor part =
     (case re_match re_factor part of
        None \<Rightarrow> Ret None
      | Some m \<Rightarrow>
          (case parse_all (\<lambda>ap. tryParseRequestCondition (trim ap)) (splitTopLevelAnd (cap m 1)) of
             Throw \<Rightarrow> Throw
           | Ret None \<Rightarrow> Ret None
           | Ret (Some cs) \<Rightarrow>
               Ret (if cs = [] then None else Some \<lparr>conditions = cs, multiplier = cap m 2\<rparr>)))"

definition tryParseRequestRuleExpr :: "jstring \<Rightarrow> rule_group list option thrown" where
  "tryParseRequestRuleExpr expr =
     (let trimmed = trim expr in
      if trimmed = [] then Ret (Some [])
      else parse_all tryParseRuleGroupFactor (splitTopLevelMultiply trimmed))"

section \<open>Splitting and combining\<close>

text \<open>The depth reaches zero before the last position.\<close>

fun closes_early :: "int \<Rightarrow> jstring \<Rightarrow> bool" where
  "closes_early d [] = False"
| "closes_early d (c # s) = (d + paren c = 0 \<and> s \<noteq> [] \<or> closes_early (d + paren c) s)"

definition depth_of :: "jstring \<Rightarrow> int" where
  "depth_of s = sum_list (map paren s)"

definition hasFullOuterParens :: "jstring \<Rightarrow> bool" where
  "hasFullOuterParens expr \<longleftrightarrow>
     starts_with expr [40] \<and> ends_with expr [41] \<and> \<not> closes_early 0 expr \<and> depth_of expr = 0"

lemma length_trim_le: "length (trim s) \<le> length s"
  unfolding trim_def by (metis le_trans length_dropWhile_le length_rev)

function unwrap_parens :: "jstring \<Rightarrow> jstring" where
  "unwrap_parens current =
     (if hasFullOuterParens current then unwrap_parens (trim (butlast (tl current))) else current)"
  by pat_completeness auto
termination
proof (relation "measure length", simp)
  fix s :: jstring
  assume "hasFullOuterParens s"
  then have "s \<noteq> []" by (auto simp: hasFullOuterParens_def starts_with_def)
  then show "(trim (butlast (tl s)), s) \<in> measure length"
    using length_trim_le [of "butlast (tl s)"] by (cases s) auto
qed

declare unwrap_parens.simps [simp del]

definition unwrapOuterParens :: "jstring \<Rightarrow> jstring" where
  "unwrapOuterParens expr = unwrap_parens (trim expr)"

definition is_rule :: "jstring \<Rightarrow> bool thrown" where
  "is_rule part =
     (case tryParseRequestRuleExpr part of
        Throw \<Rightarrow> Throw | Ret None \<Rightarrow> Ret False | Ret (Some gs) \<Rightarrow> Ret (gs \<noteq> []))"

fun classify :: "jstring list \<Rightarrow> (jstring list \<times> jstring list) thrown" where
  "classify [] = Ret ([], [])"
| "classify (x # xs) =
     (case is_rule x of
        Throw \<Rightarrow> Throw
      | Ret b \<Rightarrow>
          (case classify xs of
             Throw \<Rightarrow> Throw
           | Ret (rs, bs) \<Rightarrow> Ret (if b then (x # rs, bs) else (rs, x # bs))))"

definition splitBillingExprAndRequestRules :: "jstring \<Rightarrow> (jstring \<times> jstring) thrown" where
  "splitBillingExprAndRequestRules expr =
     (let trimmed = trim expr in
      if trimmed = [] then Ret ([], [])
      else
        let parts = splitTopLevelMultiply trimmed in
        if length parts \<le> 1 then Ret (trimmed, [])
        else case classify parts of
               Throw \<Rightarrow> Throw
             | Ret (ruleParts, baseParts) \<Rightarrow>
                 Ret (if ruleParts = [] \<or> length baseParts \<noteq> 1 then (trimmed, [])
                      else (unwrapOuterParens (hd baseParts), join (lit '' * '') ruleParts)))"

definition combineBillingExpr :: "jstring \<Rightarrow> jstring \<Rightarrow> jstring" where
  "combineBillingExpr baseExpr requestRuleExpr =
     (let base = trim baseExpr; rules = trim requestRuleExpr in
      if base = [] then [] else if rules = [] then base
      else lit ''('' @ base @ lit '') * '' @ rules)"

section \<open>The editor\<close>

definition createEmptyCondition :: request_condition where
  "createEmptyCondition = ParamHeaderCondition SParam [] MATCH_EQ []"

definition createEmptyTimeCondition :: request_condition where
  "createEmptyTimeCondition = TimeCondition (lit ''hour'') (lit ''Asia/Shanghai'') MATCH_GTE [] [] []"

definition createEmptyRuleGroup :: rule_group where
  "createEmptyRuleGroup = \<lparr>conditions = [createEmptyCondition], multiplier = []\<rparr>"

definition createEmptyTimeRuleGroup :: rule_group where
  "createEmptyTimeRuleGroup = \<lparr>conditions = [createEmptyTimeCondition], multiplier = []\<rparr>"

definition getRequestRuleMatchOptions :: "jstring \<Rightarrow> (jstring \<times> jstring) list" where
  "getRequestRuleMatchOptions src =
     (if src = lit ''time'' then
        [(MATCH_EQ, lit ''Equals''), (MATCH_GTE, lit ''Greater than or equal''),
         (MATCH_LT, lit ''Less than''), (MATCH_RANGE, lit ''Overnight range'')]
      else
        let base = [(MATCH_EQ, lit ''Equals''), (MATCH_CONTAINS, lit ''Contains''), (MATCH_EXISTS, lit ''Exists'')] in
        if src = lit ''header'' then base
        else base @
          [(MATCH_GT, lit ''Greater than''), (MATCH_GTE, lit ''Greater than or equal''),
           (MATCH_LT, lit ''Less than''), (MATCH_LTE, lit ''Less than or equal'')])"

text \<open>A partial condition: a field that is \<^verbatim>\<open>null\<close> or \<^verbatim>\<open>undefined\<close> is \<open>None\<close>.\<close>

record partial_condition =
  pc_source :: "jstring option"
  pc_path :: "jstring option"
  pc_timeFunc :: "jstring option"
  pc_timezone :: "jstring option"
  pc_mode :: "jstring option"
  pc_value :: "jstring option"
  pc_rangeStart :: "jstring option"
  pc_rangeEnd :: "jstring option"

definition isTimeFunc :: "jstring option \<Rightarrow> bool" where
  "isTimeFunc v \<longleftrightarrow> (case v of None \<Rightarrow> False | Some s \<Rightarrow> s \<in> set (map lit TIME_FUNCS))"

definition or_empty :: "jstring option \<Rightarrow> jstring" where
  "or_empty v = (case v of None \<Rightarrow> [] | Some s \<Rightarrow> s)"

definition or_default :: "jstring \<Rightarrow> jstring option \<Rightarrow> jstring" where
  "or_default d v = (case v of Some (c # s) \<Rightarrow> c # s | _ \<Rightarrow> d)"

definition pick_mode :: "jstring \<Rightarrow> jstring \<Rightarrow> jstring option \<Rightarrow> jstring" where
  "pick_mode src d v =
     (case v of
        None \<Rightarrow> d
      | Some s \<Rightarrow> if list_ex (\<lambda>item. fst item = s) (getRequestRuleMatchOptions src) then s else d)"

definition normalizeCondition_request :: "partial_condition \<Rightarrow> request_condition" where
  "normalizeCondition_request pc =
     (if pc_source pc = Some (lit ''time'') then
        TimeCondition
          (if isTimeFunc (pc_timeFunc pc) then the (pc_timeFunc pc) else lit ''hour'')
          (or_default (lit ''Asia/Shanghai'') (pc_timezone pc))
          (pick_mode (lit ''time'') MATCH_GTE (pc_mode pc))
          (or_empty (pc_value pc)) (or_empty (pc_rangeStart pc)) (or_empty (pc_rangeEnd pc))
      else
        let src = (if pc_source pc = Some (lit ''header'') then SHeader else SParam) in
        ParamHeaderCondition src (or_empty (pc_path pc))
          (pick_mode (if src = SHeader then lit ''header'' else lit ''param'') MATCH_EQ (pc_mode pc))
          (or_empty (pc_value pc)))"

text \<open>A condition as the object that the builders pass to \<^verbatim>\<open>normalizeCondition\<close>.\<close>

fun as_partial :: "request_condition \<Rightarrow> partial_condition" where
  "as_partial (ParamHeaderCondition src path md v) =
     \<lparr>pc_source = Some (if src = SHeader then lit ''header'' else lit ''param''), pc_path = Some path,
      pc_timeFunc = None, pc_timezone = None, pc_mode = Some md, pc_value = Some v,
      pc_rangeStart = None, pc_rangeEnd = None\<rparr>"
| "as_partial (TimeCondition f tz md v s e) =
     \<lparr>pc_source = Some (lit ''time''), pc_path = None, pc_timeFunc = Some f, pc_timezone = Some tz,
      pc_mode = Some md, pc_value = Some v, pc_rangeStart = Some s, pc_rangeEnd = Some e\<rparr>"

definition buildExprLiteral :: "jstring \<Rightarrow> jstring \<Rightarrow> jstring" where
  "buildExprLiteral md value =
     (let t = trim value in
      if md = MATCH_CONTAINS then json_quote t
      else if t = lit ''true'' \<or> t = lit ''false'' then t
      else if re_test NUMERIC_LITERAL_REGEX t then t
      else json_quote t)"

definition time_op :: "jstring \<Rightarrow> jstring" where
  "time_op md =
     (if md = MATCH_EQ then lit ''=='' else if md = MATCH_GTE then lit ''>=''
      else if md = MATCH_LT then lit ''<'' else lit ''=='')"

definition buildTimeConditionExpr :: "request_condition \<Rightarrow> jstring" where
  "buildTimeConditionExpr cond =
     (let n = normalizeCondition_request (as_partial cond);
          fn = timeFunc n @ lit ''('' @ json_quote (timezone n) @ lit '')'' in
      if c_mode n = MATCH_RANGE then
        let s = trim (rangeStart n); e = trim (rangeEnd n) in
        if \<not> re_test NUMERIC_LITERAL_REGEX s \<or> \<not> re_test NUMERIC_LITERAL_REGEX e then []
        else fn @ lit '' >= '' @ s @ lit '' || '' @ fn @ lit '' < '' @ e
      else
        let v = trim (c_value n) in
        if \<not> re_test NUMERIC_LITERAL_REGEX v then []
        else fn @ lit '' '' @ time_op (c_mode n) @ lit '' '' @ v)"

definition cmp_op :: "jstring \<Rightarrow> jstring" where
  "cmp_op md =
     (if md = MATCH_GT then lit ''>'' else if md = MATCH_GTE then lit ''>=''
      else if md = MATCH_LT then lit ''<'' else lit ''<='')"

definition build_ph_expr :: "cond_source \<Rightarrow> jstring \<Rightarrow> jstring \<Rightarrow> jstring \<Rightarrow> jstring" where
  \<open>build_ph_expr src path md value =
     (let sourceExpr = (if src = SHeader then lit ''header('' else lit ''param('') @ json_quote path @ lit '')'' in
      if md = MATCH_EXISTS then sourceExpr @ (if src = SHeader then lit '' != ""'' else lit '' != nil'')
      else if md = MATCH_CONTAINS then
        (if src = SHeader then lit ''has('' @ sourceExpr @ lit '', '' @ buildExprLiteral md value @ lit '')''
         else sourceExpr @ lit '' != nil && has('' @ sourceExpr @ lit '', '' @ buildExprLiteral md value @ lit '')'')
      else if md = MATCH_GT \<or> md = MATCH_GTE \<or> md = MATCH_LT \<or> md = MATCH_LTE then
        (if \<not> re_test NUMERIC_LITERAL_REGEX (trim value) then []
         else sourceExpr @ lit '' != nil && '' @ sourceExpr @ lit '' '' @ cmp_op md @ lit '' '' @ trim value)
      else sourceExpr @ lit '' == '' @ buildExprLiteral md value)\<close>

fun buildRequestConditionExpr :: "request_condition \<Rightarrow> jstring" where
  "buildRequestConditionExpr (TimeCondition f tz md v s e) = buildTimeConditionExpr (TimeCondition f tz md v s e)"
| "buildRequestConditionExpr (ParamHeaderCondition src path md v) =
     (let n = normalizeCondition_request (as_partial (ParamHeaderCondition src path md v)); p = trim (c_path n) in
      if p = [] then [] else build_ph_expr (c_source n) p (c_mode n) (c_value n))"

definition buildRuleGroupFactor :: "rule_group \<Rightarrow> jstring" where
  "buildRuleGroupFactor g =
     (let mult = trim (multiplier g) in
      if \<not> re_test NUMERIC_LITERAL_REGEX mult then []
      else
        let condExprs = filter (\<lambda>e. e \<noteq> []) (map buildRequestConditionExpr (conditions g)) in
        if condExprs = [] then []
        else
          let combined =
            (if length condExprs = 1 then hd condExprs
             else join (lit '' && '')
                    (map (\<lambda>e. if includes_str e (lit '' || '') then lit ''('' @ e @ lit '')'' else e) condExprs)) in
          lit ''('' @ combined @ lit '' ? '' @ mult @ lit '' : 1)'')"

definition buildRequestRuleExpr :: "rule_group list \<Rightarrow> jstring" where
  "buildRequestRuleExpr groups = join (lit '' * '') (filter (\<lambda>e. e \<noteq> []) (map buildRuleGroupFactor groups))"

end
