(* ===== verification/Billing_Expr_Match.thy ===== *)
theory Billing_Expr_Match
  imports Billing_Expr
begin

text \<open>
  Lemmas on the patterns and the scanners of \<^verbatim>\<open>billing-expr.ts\<close>: splitting at top level, the factor
  pattern, and one lemma per shape of a printed condition saying that it is read back
  (\<open>cond_alone\<close>, \<open>cond_operand\<close>).
\<close>

section \<open>Scanning at top level\<close>

fun opaque :: "nat \<Rightarrow> int \<Rightarrow> jstring \<Rightarrow> bool" where
  "opaque x d [] = True"
| "opaque x d (c # w) \<longleftrightarrow> \<not> (d + paren c = 0 \<and> c = x) \<and> opaque x (d + paren c) w"

lemma depth_of_simps [simp]:
  "depth_of [] = 0" "depth_of (c # w) = paren c + depth_of w" "depth_of (u @ w) = depth_of u + depth_of w"
  by (simp_all add: depth_of_def)

lemma paren_simps [simp]: "paren 40 = 1" "paren 41 = - 1" "c \<noteq> 40 \<Longrightarrow> c \<noteq> 41 \<Longrightarrow> paren c = 0"
  by (simp_all add: paren_def)

lemma opaque_absent: "x \<notin> set w \<Longrightarrow> opaque x d w"
  by (induction w arbitrary: d) auto

lemma split_top_opaque:
  assumes "sep = 32 # x # sep'" and "opaque x d w" and "r = [] \<or> hd r \<noteq> x" and "x \<noteq> 40" "x \<noteq> 41"
  shows "split_top sep d acc (w @ r) = split_top sep (d + depth_of w) (acc @ w) r"
  using assms(2)
proof (induction w arbitrary: d acc)
  case Nil
  then show ?case by simp
next
  case (Cons c w)
  have "\<not> (d + paren c = 0 \<and> starts_with (c # w @ r) sep)"
  proof
    assume a: "d + paren c = 0 \<and> starts_with (c # w @ r) sep"
    then have "\<exists>t. w @ r = x # t" by (auto simp: assms(1) starts_with_iff)
    with assms(3) obtain w' where "w = x # w'" by (cases w) auto
    with Cons.prems a assms(4,5) show False by simp
  qed
  then have "split_top sep d acc ((c # w) @ r) = split_top sep (d + paren c) (acc @ [c]) (w @ r)"
    by (simp only: append_Cons split_top.simps if_False)
  with Cons show ?case by (simp add: add.assoc)
qed

lemma split_top_join:
  assumes sep: "sep = 32 # x # sep'" and x: "x \<noteq> 40" "x \<noteq> 41" "x \<noteq> 32"
    and "ws \<noteq> []" and "\<forall>w \<in> set ws. opaque x 0 w \<and> depth_of w = 0 \<and> trimmed w"
  shows "split_top sep 0 [] (join sep ws) = ws"
  using assms(5,6)
proof (induction ws rule: list_nonempty_induct)
  case (single w)
  then show ?case
    using split_top_opaque [OF sep, of 0 w "[]" "[]"] x by (simp add: trim_trimmed)
next
  case (cons w ws)
  obtain v vs where ws: "ws = v # vs" using cons(1) by (cases ws) auto
  have w: "opaque x 0 w" "depth_of w = 0" "trim w = w" using cons(3) by (auto simp: trim_trimmed)
  have hd: "hd (sep @ join sep ws) \<noteq> x" using x by (simp add: sep)
  have "join sep (w # ws) = w @ sep @ join sep ws" by (simp add: ws)
  then have "split_top sep 0 [] (join sep (w # ws)) = split_top sep 0 w (sep @ join sep ws)"
    using split_top_opaque [OF sep w(1), of "sep @ join sep ws" "[]"] x hd w(2) by simp
  also have "\<dots> = w # split_top sep 0 [] (join sep ws)"
    using w(3) by (simp add: sep starts_with_def)
  finally show ?case using cons by simp
qed

text \<open>Balanced text: the running depth is never negative and ends at zero.\<close>

fun nonneg :: "int \<Rightarrow> jstring \<Rightarrow> bool" where
  "nonneg d [] = True"
| "nonneg d (c # w) \<longleftrightarrow> 0 \<le> d + paren c \<and> nonneg (d + paren c) w"

definition balanced :: "jstring \<Rightarrow> bool" where
  "balanced w \<longleftrightarrow> nonneg 0 w \<and> depth_of w = 0"

lemma nonneg_mono: "nonneg d w \<Longrightarrow> d \<le> e \<Longrightarrow> nonneg e w"
  by (induction w arbitrary: d e) (force simp: add_mono)+

lemma nonneg_append: "nonneg d (u @ w) \<longleftrightarrow> nonneg d u \<and> nonneg (d + depth_of u) w"
  by (induction u arbitrary: d) (auto simp: add.assoc)

lemma balanced_append: "balanced u \<Longrightarrow> balanced w \<Longrightarrow> balanced (u @ w)"
  by (simp add: balanced_def nonneg_append)

lemma balanced_parens: "balanced w \<Longrightarrow> balanced (40 # w @ [41])"
  using nonneg_mono [of 0 w 1] by (simp add: balanced_def nonneg_append)

lemma balanced_flat: "40 \<notin> set w \<Longrightarrow> 41 \<notin> set w \<Longrightarrow> balanced w"
proof -
  assume h: "40 \<notin> set w" "41 \<notin> set w"
  then have "depth_of w = 0" by (induction w) auto
  moreover have "0 \<le> d \<Longrightarrow> nonneg d w" for d using h by (induction w) auto
  ultimately show ?thesis by (simp add: balanced_def)
qed

lemma opaque_inside: "nonneg d w \<Longrightarrow> opaque x (d + 1) w"
proof (induction w arbitrary: d)
  case (Cons c w)
  then have "opaque x (d + paren c + 1) w" by simp
  with Cons.prems show ?case by (simp add: algebra_simps)
qed simp

lemma opaque_append: "opaque x d (u @ w) \<longleftrightarrow> opaque x d u \<and> opaque x (d + depth_of u) w"
  by (induction u arbitrary: d) (auto simp: add.assoc)

lemma opaque_parens: "balanced w \<Longrightarrow> x \<noteq> 40 \<Longrightarrow> x \<noteq> 41 \<Longrightarrow> opaque x 0 (40 # w @ [41])"
  using opaque_inside [of 0 w x] by (simp add: balanced_def opaque_append)

lemma balanced_join:
  "balanced sep \<Longrightarrow> \<forall>w \<in> set ws. balanced w \<Longrightarrow> balanced (join sep ws)"
  by (induction sep ws rule: join.induct) (auto intro!: balanced_append simp: balanced_def [of "[]"])

section \<open>Numeric literals\<close>

primrec in_class :: "(nat \<Rightarrow> bool) \<Rightarrow> re \<Rightarrow> bool" where
  "in_class P (Cls p) \<longleftrightarrow> (\<forall>c. p c \<longrightarrow> P c)"
| "in_class P Eps \<longleftrightarrow> True"
| "in_class P (Seq a b) \<longleftrightarrow> in_class P a \<and> in_class P b"
| "in_class P (Alt a b) \<longleftrightarrow> in_class P a \<and> in_class P b"
| "in_class P (Star r) \<longleftrightarrow> in_class P r"
| "in_class P (Grp n r) \<longleftrightarrow> in_class P r"
| "in_class P (Ref n) \<longleftrightarrow> False"
| "in_class P Bol \<longleftrightarrow> True"
| "in_class P Eol \<longleftrightarrow> True"
| "in_class P Wordb \<longleftrightarrow> True"

definition consumes :: "(nat \<Rightarrow> bool) \<Rightarrow> rst \<Rightarrow> rst \<Rightarrow> bool" where
  "consumes P st st' \<longleftrightarrow> (\<exists>w. fst (snd st) = w @ fst (snd st') \<and> list_all P w)"

lemma consumes_refl [simp]: "consumes P st st"
  by (simp add: consumes_def)

lemma consumes_trans: "consumes P a b \<Longrightarrow> consumes P b c \<Longrightarrow> consumes P a c"
  unfolding consumes_def by (metis append.assoc list_all_append)

lemma star_iter_consumes:
  "(\<And>st st'. st' \<in> set (f st) \<Longrightarrow> consumes P st st') \<Longrightarrow> st' \<in> set (star_iter f n st) \<Longrightarrow> consumes P st st'"
proof (induction n arbitrary: st)
  case (Suc n)
  then consider "st' = st" | st1 where "st1 \<in> set (f st)" "st' \<in> set (star_iter f n st1)" by auto
  then show ?case
  proof cases
    case 2
    with Suc show ?thesis by (metis consumes_trans)
  qed simp
qed simp

lemma mt_consumes: "in_class P r \<Longrightarrow> st' \<in> set (mt r st) \<Longrightarrow> consumes P st st'"
proof (induction r arbitrary: st st')
  case (Cls p)
  then show ?case
    by (cases "(p, st)" rule: mt_cls.cases) (auto simp: consumes_def split: if_splits)
next
  case (Seq a b)
  then obtain st1 where "st1 \<in> set (mt a st)" "st' \<in> set (mt b st1)" by auto
  moreover from Seq.prems have "in_class P a" "in_class P b" by simp_all
  ultimately show ?case using Seq.IH by (metis consumes_trans)
next
  case (Star r)
  then show ?case by (metis in_class.simps(5) mt.simps(5) star_iter_consumes)
next
  case (Grp n r)
  then obtain st1 where "st1 \<in> set (mt r st)" "st' = close_group n (fst (snd st)) st1" by auto
  with Grp show ?case by (cases st1) (fastforce simp: consumes_def)
qed (auto split: if_splits)

definition numlit :: "jstring \<Rightarrow> bool" where
  "numlit s \<longleftrightarrow> re_test NUMERIC_LITERAL_REGEX s"

lemma numlit_chars:
  assumes "numlit s"
  shows "list_all num_char s \<and> s \<noteq> []"
proof -
  have "mt (Seq num_pattern (Seq Eol Eps)) (None, s, []) \<noteq> []"
    using assms re_test_anchored by (simp add: numlit_def NUMERIC_LITERAL_REGEX_def del: mt.simps)
  then obtain st where st: "st \<in> set (mt num_pattern (None, s, []))" and e: "fst (snd st) = []"
    by (auto split: if_splits)
  have "in_class num_char num_pattern"
    by (auto simp: num_pattern_def opt_def chr_def many1_def num_char_def)
  with st e have "list_all num_char s"
    using mt_consumes [of num_char num_pattern st "(None, s, [])"] by (auto simp: consumes_def)
  moreover have "s \<noteq> []"
    using st by (auto simp: num_pattern_def opt_def chr_def many1_def)
  ultimately show ?thesis by simp
qed

lemma num_char_not_ws: "num_char c \<Longrightarrow> \<not> is_ws c"
  by (auto simp: num_char_def is_ws_def is_digit_def)

lemma numlit_trim [simp]: "numlit s \<Longrightarrow> trim s = s"
  using numlit_chars by (intro trim_no_ws) (auto simp: list_all_iff num_char_not_ws)

section \<open>Matching quoted names and numbers\<close>

text \<open>Text that is printed and read back unchanged between double quotes.\<close>

definition plain_char :: "nat \<Rightarrow> bool" where
  "plain_char c \<longleftrightarrow> 32 \<le> c \<and> c < 8232 \<and> c \<notin> {34, 38, 40, 41, 92, 124}"

lemma plain_charD:
  assumes "plain_char c"
  shows "c < 65536" and "c \<noteq> 34" and "c \<noteq> 92" and "c \<notin> {38, 40, 41, 124}" and "not_newline c"
proof -
  have b: "32 \<le> c" "c < 8232" using assms by (simp_all add: plain_char_def)
  from b show "c < 65536" by linarith
  from assms show "c \<noteq> 34" "c \<noteq> 92" "c \<notin> {38, 40, 41, 124}" by (simp_all add: plain_char_def)
  from b have "c \<noteq> 10" "c \<noteq> 13" "c \<noteq> 8232" "c \<noteq> 8233" by linarith+
  then show "not_newline c" by (simp add: not_newline_def)
qed

definition plain :: "jstring \<Rightarrow> bool" where
  "plain w \<longleftrightarrow> list_all plain_char w \<and> trimmed w"

lemma quote_body_plain: "list_all plain_char w \<Longrightarrow> quote_body w = w"
  by (induction w rule: quote_body.induct)
    (auto simp: plain_char_def esc_char_def is_high_def is_low_def)

lemma json_quote_plain: "list_all plain_char w \<Longrightarrow> json_quote w = 34 # w @ [34]"
  by (simp add: json_quote_def quote_body_plain)

lemma quoted_then:
  assumes "w \<noteq> []" and "34 \<notin> set w"
  shows "mt (Seq (Grp n (many1 (Cls not_quote))) (Seq (str (34 # u)) r)) (pv, w @ 34 # s, caps) =
    mt (Seq (str (34 # u)) r) (adv pv w, 34 # s, (n, w) # caps)"
proof -
  let ?f = "\<lambda>st. mt (Seq (str (34 # u)) r) (close_group n (w @ 34 # s) st)"
  have "mt (Seq (Grp n (many1 (Cls not_quote))) (Seq (str (34 # u)) r)) (pv, w @ 34 # s, caps) =
      concat (map ?f (mt (many1 (Cls not_quote)) (pv, w @ 34 # s, caps)))"
    by (simp add: comp_def)
  also have "\<dots> = ?f (adv pv w, 34 # s, caps)"
  proof (rule many1_cls_then)
    show "list_all not_quote w" using assms(2) by (auto simp: list_all_iff not_quote_def)
    fix k assume "0 < k" "k < length w"
    then obtain c t where "drop k w = c # t" by (metis Cons_nth_drop_Suc)
    moreover from this have "c \<noteq> 34" using assms(2) by (metis in_set_dropD list.set_intros(1))
    ultimately show "?f (adv pv (take k w), drop k w @ 34 # s, caps) = []"
      by (simp add: mt_str starts_with_def)
  qed (use assms in \<open>auto simp: not_quote_def\<close>)
  finally show ?thesis by simp
qed

lemma class_then:
  assumes "list_all p w" and "w \<noteq> []" and "s = [] \<or> \<not> p (hd s)"
    and "\<And>pv c t caps. p c \<Longrightarrow> mt r (pv, c # t, caps) = []"
  shows "mt (Seq (Grp n (many1 (Cls p))) r) (pv, w @ s, caps) = mt r (adv pv w, s, (n, w) # caps)"
proof -
  let ?f = "\<lambda>st. mt r (close_group n (w @ s) st)"
  have "mt (Seq (Grp n (many1 (Cls p))) r) (pv, w @ s, caps) =
      concat (map ?f (mt (many1 (Cls p)) (pv, w @ s, caps)))"
    by (simp add: comp_def)
  also have "\<dots> = ?f (adv pv w, s, caps)"
  proof (rule many1_cls_then)
    fix k assume "0 < k" "k < length w"
    then obtain c t where d: "drop k w = c # t" by (metis Cons_nth_drop_Suc)
    then have "p c" using assms(1) by (metis in_set_dropD list.set_intros(1) list_all_iff)
    with d assms(4) show "?f (adv pv (take k w), drop k w @ s, caps) = []" by simp
  qed (use assms in auto)
  finally show ?thesis by simp
qed

lemmas num_then = class_then [where p = num_char]

section \<open>Matching a factor\<close>

lemma takeWhile_all [simp]: "takeWhile (\<lambda>_. True) xs = xs"
  by (induction xs) auto

lemma concat_map_unique:
  "distinct xs \<Longrightarrow> x \<in> set xs \<Longrightarrow> (\<And>y. y \<in> set xs \<Longrightarrow> y \<noteq> x \<Longrightarrow> f y = []) \<Longrightarrow> concat (map f xs) = f x"
proof (induction xs)
  case (Cons a xs)
  show ?case
  proof (cases "a = x")
    case True
    with Cons.prems have "\<forall>y \<in> set xs. f y = []" by auto
    then have "concat (map f xs) = []" by simp
    with True show ?thesis by simp
  next
    case False
    with Cons show ?thesis by auto
  qed
qed simp

definition factor_tail :: re where
  "factor_tail = cat [str (lit '' ? ''), Grp 2 (many1 (Cls num_char)), str (lit '' : 1)''), Eol]"

definition factor_end :: "jstring \<Rightarrow> jstring" where
  "factor_end m = lit '' ? '' @ m @ lit '' : 1)''"

lemma factor_tail_text:
  assumes "mt factor_tail (pv, s, caps) \<noteq> []"
  shows "\<exists>n. s = factor_end n \<and> list_all num_char n"
proof -
  obtain u where s: "s = lit '' ? '' @ u"
    using assms by (auto simp: factor_tail_def mt_str starts_with_iff split: if_splits)
  have "mt factor_tail (pv, s, caps) =
      concat (map (\<lambda>st. mt (Seq (str (lit '' : 1)'')) (Seq Eol Eps)) (close_group 2 u st))
        (mt (many1 (Cls num_char)) (adv pv (lit '' ? ''), u, caps)))"
    by (simp add: s factor_tail_def mt_str [of "[32, 63, 32]"] starts_with_def comp_def)
  with assms obtain st where st: "st \<in> set (mt (many1 (Cls num_char)) (adv pv (lit '' ? ''), u, caps))"
    and r: "mt (Seq (str (lit '' : 1)'')) (Seq Eol Eps)) (close_group 2 u st) \<noteq> []"
    by (auto simp del: mt.simps close_group.simps)
  obtain v where v: "u = v @ fst (snd st)" "list_all num_char v"
    using mt_consumes [OF _ st, of num_char] by (auto simp: many1_def consumes_def)
  have "fst (snd st) = lit '' : 1)''"
    using r by (cases st) (auto simp: mt_str starts_with_iff split: if_splits)
  with s v show ?thesis by (auto simp: factor_end_def)
qed

lemma factor_tail_match:
  assumes "list_all num_char m" and "m \<noteq> []"
  shows "mt factor_tail (pv, factor_end m, caps) = [(Some 41, [], (2, m) # caps)]"
proof -
  have "mt (Seq (Grp 2 (many1 (Cls num_char))) (Seq (str (lit '' : 1)'')) (Seq Eol Eps))) (pv', m @ lit '' : 1)'', caps)
      = mt (Seq (str (lit '' : 1)'')) (Seq Eol Eps)) (adv pv' m, lit '' : 1)'', (2, m) # caps)" for pv'
    by (rule num_then) (use assms in \<open>auto simp: mt_str starts_with_def num_char_def is_digit_def\<close>)
  then show ?thesis
    by (simp add: factor_tail_def factor_end_def mt_str starts_with_def adv_def)
qed

lemma factor_end_unique:
  assumes "u @ factor_end m = w @ factor_end n" and "list_all num_char m" and "list_all num_char n"
  shows "u = w"
proof -
  have tw: "takeWhile num_char (drop 5 (rev (v @ factor_end k))) = rev k" if "list_all num_char k" for v k
    using that by (auto simp: factor_end_def takeWhile_append list_all_iff num_char_def is_digit_def)
  have "m = n" using tw [of m u] tw [of n w] assms by simp
  with assms(1) show ?thesis by simp
qed

lemma factor_match:
  assumes "comb \<noteq> []" and m: "list_all num_char m" "m \<noteq> []"
  shows "re_match re_factor (40 # comb @ factor_end m) = Some (map_of [(2, m), (1, comb)])"
proof -
  obtain c t where comb: "comb = c # t" using assms(1) by (cases comb) auto
  let ?X = "comb @ factor_end m"
  let ?st = "\<lambda>k. (adv (Some c) (take k (t @ factor_end m)), drop k (t @ factor_end m), [])"
  let ?f = "\<lambda>k. mt factor_tail (close_group 1 ?X (?st k))"
  let ?ks = "rev [0..<Suc (length (t @ factor_end m))]"
  have "mt (many1 (Cls (\<lambda>_. True))) (Some 40, ?X, []) = mt (Star (Cls (\<lambda>_. True))) (Some c, t @ factor_end m, [])"
    by (simp add: comb mt_many1 del: mt.simps(5))
  then have mm: "mt (many1 (Cls (\<lambda>_. True))) (Some 40, ?X, []) = map ?st ?ks"
    by (simp only: mt_star_cls takeWhile_all)
  have "mt (Seq (Grp 1 (many1 (Cls (\<lambda>_. True)))) factor_tail) (Some 40, ?X, []) = concat (map ?f ?ks)"
    by (simp only: mt.simps(3,6) fst_conv snd_conv mm map_map comp_def)
  also have "\<dots> = ?f (length t)"
  proof (rule concat_map_unique)
    fix k assume "k \<in> set ?ks" "k \<noteq> length t"
    then have k: "k \<le> length (t @ factor_end m)" by auto
    show "?f k = []"
    proof (rule ccontr)
      assume "?f k \<noteq> []"
      then have "\<exists>n. drop k (t @ factor_end m) = factor_end n \<and> list_all num_char n"
        unfolding close_group.simps by (rule factor_tail_text)
      then obtain n where n: "drop k (t @ factor_end m) = factor_end n" "list_all num_char n" by blast
      have "t @ factor_end m = take k (t @ factor_end m) @ factor_end n"
        by (simp only: n(1) [symmetric] append_take_drop_id)
      then have "t = take k (t @ factor_end m)" by (rule factor_end_unique) (use m n in auto)
      then have "length t = length (take k (t @ factor_end m))" by (rule arg_cong)
      with k \<open>k \<noteq> length t\<close> show False by (simp only: length_take min_def split: if_splits)
    qed
  qed (simp_all del: upt_Suc)
  also have "\<dots> = mt factor_tail (adv (Some c) t, factor_end m, [(1, comb)])"
    by (simp add: comb)
  also have "\<dots> = [(Some 41, [], [(2, m), (1, comb)])]"
    by (rule factor_tail_match [OF m])
  finally have a: "mt (Seq (Grp 1 (many1 (Cls (\<lambda>_. True)))) factor_tail) (Some 40, ?X, []) =
    [(Some 41, [], [(2, m), (1, comb)])]" .
  have b: "re_factor = Seq Bol (Seq (chr 40) (Seq (Grp 1 (many1 (Cls (\<lambda>_. True)))) factor_tail))"
    by (simp add: re_factor_def factor_tail_def)
  have c: "mt (Seq (chr 40) r) (None, 40 # u, []) = mt r (Some 40, u, [])" for r u
    by (simp add: chr_def)
  show ?thesis
    by (simp only: a b c re_match_anchored list.case prod.case)
qed

section \<open>Matching a condition\<close>

lemma seq_str: "mt (Seq (str a) r) (pv, a @ s, caps) = mt r (adv pv a, s, caps)"
  by simp

lemma seq_str_fail: "\<not> starts_with s a \<Longrightarrow> mt (Seq (str a) r) (pv, s, caps) = []"
  by (simp add: mt_str)

lemma seq_fail: "mt a st = [] \<Longrightarrow> mt (Seq a b) st = []"
  by simp

lemmas match_calc = re_match_anchored list.case prod.case

lemma match_fail: "mt r (None, s, []) = [] \<Longrightarrow> re_match (Seq Bol r) s = None"
  by (simp add: re_match_anchored)

lemma eol_fail [simp]: "mt (Seq Eol Eps) (pv, c # t, caps) = []"
  by simp

lemma eol_one [simp]: "mt (Seq Eol Eps) (pv, [], caps) = [(pv, [], caps)]"
  by simp

text \<open>The text of a call with a quoted argument: \<^verbatim>\<open>f("w")\<close>.\<close>

definition call_text :: "jstring \<Rightarrow> jstring \<Rightarrow> jstring" where
  "call_text f w = f @ [40, 34] @ w @ [34, 41]"

lemma call_match:
  assumes "w \<noteq> []" and "34 \<notin> set w"
  shows "mt (cat (call_of f n @ rs)) (pv, call_text (lit f) w @ s, caps) = mt (cat rs) (Some 41, s, (n, w) # caps)"
proof -
  have t: "call_text (lit f) w @ s = (lit f @ [40, 34]) @ w @ 34 # 41 # s"
    and r: "cat (call_of f n @ rs) =
      Seq (str (lit f @ [40, 34])) (Seq (Grp n (many1 (Cls not_quote))) (Seq (str [34, 41]) (cat rs)))"
    by (simp_all add: call_text_def call_of_def)
  have "mt (Seq (str [34, 41]) (cat rs)) (pv', 34 # 41 # s, c) = mt (cat rs) (Some 41, s, c)" for pv' c
    using seq_str [of "[34, 41]" "cat rs" pv' s c] by (simp add: adv_def)
  then show ?thesis
    unfolding t r by (simp only: seq_str quoted_then [OF assms])
qed

lemma call_fail: "\<not> starts_with s (lit f) \<Longrightarrow> mt (cat (call_of f n @ rs)) (pv, s, caps) = []"
proof -
  assume "\<not> starts_with s (lit f)"
  then have "\<not> starts_with s (lit f @ [40, 34])" by (auto simp: starts_with_iff)
  then show ?thesis by (simp add: call_of_def seq_str_fail del: mt.simps)
qed

lemma time_words:
  assumes "f \<in> set TIME_FUNCS"
  shows "mt (Seq (Grp 1 (words TIME_FUNCS)) r) (pv, lit f @ 40 # s, caps) =
    mt r (adv pv (lit f), 40 # s, (1, lit f) # caps)"
proof -
  have "mt (words TIME_FUNCS) (pv, lit f @ 40 # s, caps) = [(adv pv (lit f), 40 # s, caps)]"
    using assms by (auto simp: TIME_FUNCS_def words_def mt_str starts_with_def)
  then show ?thesis by (simp add: comp_def)
qed

lemma time_words_fail:
  assumes "\<forall>f \<in> set TIME_FUNCS. \<not> starts_with s (lit f)"
  shows "mt (Seq (Grp 1 (words TIME_FUNCS)) r) (pv, s, caps) = []"
  using assms by (simp add: TIME_FUNCS_def words_def mt_str)

lemma time_head_match:
  assumes "f \<in> set TIME_FUNCS" and "w \<noteq> []" and "34 \<notin> set w"
  shows "mt (cat (time_head @ rs)) (pv, call_text (lit f) w @ 32 # s, caps) =
    mt (cat rs) (Some 32, s, (2, w) # (1, lit f) # caps)"
proof -
  have t: "call_text (lit f) w @ 32 # s = lit f @ 40 # 34 # w @ 34 # 41 # 32 # s"
    and r: "cat (time_head @ rs) =
      Seq (Grp 1 (words TIME_FUNCS)) (Seq (str [40, 34])
        (Seq (Grp 2 (many1 (Cls not_quote))) (Seq (str [34, 41, 32]) (cat rs))))"
    by (simp_all add: call_text_def time_head_def)
  have e: "mt (Seq (str [34, 41, 32]) (cat rs)) (pv', 34 # 41 # 32 # s, c) = mt (cat rs) (Some 32, s, c)" for pv' c
    using seq_str [of "[34, 41, 32]" "cat rs" pv' s c] by (simp add: adv_def)
  have o: "mt (Seq (str [40, 34]) q) (pv', 40 # 34 # u, c) = mt q (Some 34, u, c)" for pv' u c q
    using seq_str [of "[40, 34]" q pv' u c] by (simp add: adv_def)
  show ?thesis
    unfolding t r by (simp only: time_words [OF assms(1)] o quoted_then [OF assms(2,3)] e)
qed

definition range_text :: "jstring \<Rightarrow> jstring \<Rightarrow> jstring \<Rightarrow> jstring \<Rightarrow> jstring" where
  "range_text f w s e = call_text f w @ lit '' >= '' @ s @ lit '' || '' @ call_text f w @ lit '' < '' @ e"

lemma range_body_match:
  assumes "f \<in> set TIME_FUNCS" and w: "w \<noteq> []" "34 \<notin> set w" and "numlit s" and "numlit e"
    and u: "u = [] \<or> \<not> num_char (hd u)"
    and rs: "\<And>pv c t caps. num_char c \<Longrightarrow> mt (cat rs) (pv, c # t, caps) = []"
  shows "\<exists>pv'. mt (cat (range_body @ rs)) (pv, range_text (lit f) w s e @ u, []) =
    mt (cat rs) (pv', u, [(4, e), (3, s), (2, w), (1, lit f)])"
proof -
  note se = numlit_chars [OF assms(4)] numlit_chars [OF assms(5)]
  define R2 where "R2 = Ref 1 # str [40, 34] # Ref 2 # str [34, 41, 32, 60, 32] # Grp 4 (many1 (Cls num_char)) # rs"
  have r: "cat (range_body @ rs) =
      cat (time_head @ str [62, 61, 32] # Grp 3 (many1 (Cls num_char)) # str (lit '' || '') # R2)"
    by (simp add: range_body_def time_head_def R2_def)
  have t: "range_text (lit f) w s e @ u =
      call_text (lit f) w @ 32 # [62, 61, 32] @ s @ lit '' || '' @ lit f @ [40, 34] @ w @ [34, 41, 32, 60, 32] @ e @ u"
    by (simp add: range_text_def call_text_def)
  have n3: "mt (Seq (Grp 3 (many1 (Cls num_char))) (Seq (str (lit '' || '')) (cat R2))) (pv', s @ lit '' || '' @ v, c) =
      mt (Seq (str (lit '' || '')) (cat R2)) (adv pv' s, lit '' || '' @ v, (3, s) # c)" for pv' v c
    by (rule num_then) (use se in \<open>auto simp: mt_str starts_with_def num_char_def is_digit_def\<close>)
  have n4: "mt (Seq (Grp 4 (many1 (Cls num_char))) (cat rs)) (pv', e @ u, c) =
      mt (cat rs) (adv pv' e, u, (4, e) # c)" for pv' c
    by (rule num_then) (use se u rs in auto)
  have ref: "mt (Seq (Ref n) q) (pv', x @ v, c) = mt q (adv pv' x, v, c)" if "map_of c n = Some x" for n q x v c pv'
    using that by simp
  show ?thesis
    unfolding r t
    by (simp only: time_head_match [OF assms(1-3)] cat.simps seq_str n3, simp only: R2_def cat.simps,
        subst ref [where x = "lit f"], simp, simp only: seq_str, subst ref [where x = w], simp,
        simp only: seq_str n4, blast)
qed

lemma range_match:
  assumes "f \<in> set TIME_FUNCS" and "w \<noteq> []" "34 \<notin> set w" and "numlit s" and "numlit e"
  shows "re_match re_range (range_text (lit f) w s e) = Some (map_of [(4, e), (3, s), (2, w), (1, lit f)])"
proof -
  obtain pv where "mt (cat (range_body @ [Eol])) (None, range_text (lit f) w s e @ [], []) =
      mt (cat [Eol]) (pv, [], [(4, e), (3, s), (2, w), (1, lit f)])"
    using range_body_match [OF assms, of "[]" "[Eol]" None] by auto
  then have m: "mt (cat (range_body @ [Eol])) (None, range_text (lit f) w s e, []) =
      [(pv, [], [(4, e), (3, s), (2, w), (1, lit f)])]"
    by (simp only: cat.simps append_Nil2 eol_one)
  have r: "re_range = Seq Bol (cat (range_body @ [Eol]))" by (simp add: re_range_def)
  show ?thesis by (simp only: r m match_calc)
qed

lemma range_paren_match:
  assumes "f \<in> set TIME_FUNCS" and "w \<noteq> []" "34 \<notin> set w" and "numlit s" and "numlit e"
  shows "re_match re_range_paren (40 # range_text (lit f) w s e @ [41]) =
    Some (map_of [(4, e), (3, s), (2, w), (1, lit f)])"
proof -
  have k: "mt (cat [chr 41, Eol]) (pv, c # t, caps) = []" if "num_char c" for pv c t caps
    using that by (auto simp: chr_def num_char_def is_digit_def)
  obtain pv where m: "mt (cat (range_body @ [chr 41, Eol])) (Some 40, range_text (lit f) w s e @ [41], []) =
      mt (cat [chr 41, Eol]) (pv, [41], [(4, e), (3, s), (2, w), (1, lit f)])"
    using range_body_match [OF assms, of "[41]" "[chr 41, Eol]" "Some 40"] k
    by (auto simp: num_char_def is_digit_def)
  have e: "mt (cat [chr 41, Eol]) (pv, [41], c) = [(Some 41, [], c)]" for c
    by (simp add: chr_def)
  have o: "mt (Seq (chr 40) q) (None, 40 # u, []) = mt q (Some 40, u, [])" for q u
    by (simp add: chr_def)
  have r: "re_range_paren = Seq Bol (Seq (chr 40) (cat (range_body @ [chr 41, Eol])))"
    by (simp add: re_range_paren_def)
  show ?thesis by (simp only: r o m e match_calc)
qed

lemma range_fail_first:
  assumes "\<forall>f \<in> set TIME_FUNCS. \<not> starts_with s (lit f)"
  shows "re_match re_range s = None" and "re_match re_time s = None"
proof -
  have r: "re_range = Seq Bol (Seq (Grp 1 (words TIME_FUNCS)) (cat (tl range_body @ [Eol])))"
    by (simp add: re_range_def range_body_def time_head_def)
  show "re_match re_range s = None" by (simp only: r match_calc time_words_fail [OF assms])
  have t: "re_time = Seq Bol (Seq (Grp 1 (words TIME_FUNCS)) (cat (tl time_head @
      [Grp 3 (words [''=='', ''>='', ''<'']), chr 32, Grp 4 (many1 (Cls num_char)), Eol])))"
    by (simp add: re_time_def time_head_def)
  show "re_match re_time s = None" by (simp only: t match_calc time_words_fail [OF assms])
qed

lemma range_paren_fail: "hd s \<noteq> 40 \<Longrightarrow> re_match re_range_paren s = None"
proof -
  assume "hd s \<noteq> 40"
  then have o: "mt (Seq (chr 40) q) (None, s, []) = []" for q by (cases s) (simp_all add: chr_def)
  have r: "re_range_paren = Seq Bol (Seq (chr 40) (cat (range_body @ [chr 41, Eol])))"
    by (simp add: re_range_paren_def)
  show ?thesis by (simp only: r o match_calc)
qed

lemma time_none:
  "\<forall>f \<in> set TIME_FUNCS. \<not> starts_with s (lit f) \<Longrightarrow> hd s \<noteq> 40 \<Longrightarrow> tryParseTimeCondition s = None"
  by (simp add: tryParseTimeCondition_def range_fail_first range_paren_fail)

lemma range_fail_op:
  assumes "f \<in> set TIME_FUNCS" and w: "w \<noteq> []" "34 \<notin> set w" and "numlit v" and "q \<in> {''=='', ''>='', ''<''}"
  shows "re_match re_range (call_text (lit f) w @ 32 # lit q @ 32 # v) = None"
proof -
  define R where "R = cat [str (lit '' || ''), Ref 1, str [40, 34], Ref 2, str [34, 41, 32, 60, 32],
    Grp 4 (many1 (Cls num_char)), Eol]"
  have r: "re_range = Seq Bol (cat (time_head @ [str [62, 61, 32], Grp 3 (many1 (Cls num_char)), str (lit '' || ''),
      Ref 1, str [40, 34], Ref 2, str [34, 41, 32, 60, 32], Grp 4 (many1 (Cls num_char)), Eol]))"
    by (simp add: re_range_def range_body_def time_head_def)
  have n: "mt (Seq (Grp 3 (many1 (Cls num_char))) R) (pv, v @ [], c) = mt R (adv pv v, [], (3, v) # c)"
    for pv c
    by (rule num_then) (use numlit_chars [OF assms(4)] in \<open>auto simp: R_def mt_str starts_with_def num_char_def is_digit_def\<close>)
  have z: "mt R (pv, [], c) = []" for pv c
    by (simp add: R_def mt_str starts_with_def)
  have h: "mt (Seq (str [62, 61, 32]) (Seq (Grp 3 (many1 (Cls num_char))) R))
      (Some 32, lit q @ 32 # v, c) = []" for c
  proof (cases "q = ''>=''")
    case True
    then have "lit q @ 32 # v = [62, 61, 32] @ v @ []" by simp
    then show ?thesis by (simp only: seq_str n z)
  next
    case False
    then have "\<not> starts_with (lit q @ 32 # v) [62, 61, 32]" using assms(5) by (auto simp: starts_with_def)
    then show ?thesis by (rule seq_str_fail)
  qed
  show ?thesis
    by (simp only: r match_calc time_head_match [OF assms(1-3)] cat.simps h [unfolded R_def cat.simps])
qed

lemma time_op_match:
  assumes "f \<in> set TIME_FUNCS" and w: "w \<noteq> []" "34 \<notin> set w" and "numlit v" and "q \<in> {''=='', ''>='', ''<''}"
  shows "re_match re_time (call_text (lit f) w @ 32 # lit q @ 32 # v) =
    Some (map_of [(4, v), (3, lit q), (2, w), (1, lit f)])"
proof -
  let ?R = "Seq (Grp 4 (many1 (Cls num_char))) (Seq Eol Eps)"
  have r: "re_time = Seq Bol (cat (time_head @ [Grp 3 (words [''=='', ''>='', ''<'']), chr 32, Grp 4 (many1 (Cls num_char)), Eol]))"
    by (simp add: re_time_def time_head_def)
  have n: "mt ?R (pv, v @ [], c) = [(adv pv v, [], (4, v) # c)]" for pv c
    by (subst num_then) (use numlit_chars [OF assms(4)] in auto)
  have c: "mt (Seq (chr 32) ?R) (pv, 32 # v, c) = [(adv (Some 32) v, [], (4, v) # c)]" for pv c
  proof -
    have "mt (Seq (chr 32) ?R) (pv, 32 # v, c) = mt ?R (Some 32, v @ [], c)"
      by (simp add: chr_def)
    then show ?thesis by (simp only: n)
  qed
  have "mt (words [''=='', ''>='', ''<'']) (pv, lit q @ 32 # v, c) = [(adv pv (lit q), 32 # v, c)]" for pv c
    using assms(5) by (auto simp: words_def mt_str starts_with_def)
  then have g: "mt (Seq (Grp 3 (words [''=='', ''>='', ''<''])) p) (pv, lit q @ 32 # v, c) =
      mt p (adv pv (lit q), 32 # v, (3, lit q) # c)" for pv c p
    by (simp add: comp_def)
  show ?thesis
    by (simp only: r match_calc time_head_match [OF assms(1-3)] cat.simps g c)
qed

lemma call_first:
  "starts_with (call_text f w @ s) p \<longleftrightarrow> starts_with (f @ [40, 34] @ w @ [34, 41] @ s) p"
  by (simp add: call_text_def)

lemma ph_not_time: "f \<in> {''header'', ''param''} \<Longrightarrow> tryParseTimeCondition (call_text (lit f) w @ s) = None"
  by (rule time_none) (auto simp: TIME_FUNCS_def starts_with_def call_text_def)

lemma call_re_match:
  assumes "w \<noteq> []" and "34 \<notin> set w"
  shows "re_match (cat (Bol # call_of f n @ rs)) (call_text (lit f) w @ s) =
    (case mt (cat rs) (Some 41, s, [(n, w)]) of (_, _, caps) # _ \<Rightarrow> Some (map_of caps) | [] \<Rightarrow> None)"
  by (simp only: cat.simps(2) [of Bol] re_match_anchored call_match [OF assms])

lemma call_re_fail: "\<not> starts_with s (lit f) \<Longrightarrow> re_match (cat (Bol # call_of f n @ rs)) s = None"
  by (simp add: re_match_anchored call_fail del: mt.simps)

lemma str_re_fail: "\<not> starts_with s a \<Longrightarrow> re_match (cat (Bol # str a # rs)) s = None"
  by (simp add: re_match_anchored seq_str_fail del: mt.simps)

lemma tail_str: "mt (cat (str a # rs)) (pv, s, caps) =
    (if starts_with s a then mt (cat rs) (adv pv a, drop (length a) s, caps) else [])"
  by (simp add: mt_str)

lemma exists_parse:
  assumes "w \<noteq> []" and "34 \<notin> set w"
  shows "tryParseRequestCondition (call_text (lit ''header'') w @ [32, 33, 61, 32, 34, 34]) =
      Ret (Some (ParamHeaderCondition SHeader w MATCH_EXISTS []))"
    and "tryParseRequestCondition (call_text (lit ''param'') w @ lit '' != nil'') =
      Ret (Some (ParamHeaderCondition SParam w MATCH_EXISTS []))"
proof -
  have 1: "re_match re_header_exists (call_text (lit ''header'') w @ [32, 33, 61, 32, 34, 34]) = Some (map_of [(1, w)])"
    unfolding re_header_exists_def
    by (simp only: call_re_match [OF assms], simp add: tail_str starts_with_def del: map_of.simps cat.simps(2))
      (simp del: map_of.simps)
  show "tryParseRequestCondition (call_text (lit ''header'') w @ [32, 33, 61, 32, 34, 34]) =
      Ret (Some (ParamHeaderCondition SHeader w MATCH_EXISTS []))"
    unfolding tryParseRequestCondition_def 1 using ph_not_time [of "''header''" w] by (simp add: cap_def)
  have 2: "re_match re_header_exists (call_text (lit ''param'') w @ s) = None" for s
    unfolding re_header_exists_def by (rule call_re_fail) (simp add: starts_with_def call_text_def)
  have 3: "re_match re_param_exists (call_text (lit ''param'') w @ lit '' != nil'') = Some (map_of [(1, w)])"
    unfolding re_param_exists_def
    by (simp only: call_re_match [OF assms], simp add: tail_str starts_with_def del: map_of.simps cat.simps(2))
      (simp del: map_of.simps)
  show "tryParseRequestCondition (call_text (lit ''param'') w @ lit '' != nil'') =
      Ret (Some (ParamHeaderCondition SParam w MATCH_EXISTS []))"
    unfolding tryParseRequestCondition_def 2 3 using ph_not_time [of "''param''" w] by (simp add: cap_def)
qed

text \<open>An equality: every other pattern fails on it.\<close>

lemma eq_match:
  assumes "w \<noteq> []" and "34 \<notin> set w" and f: "f \<in> {''header'', ''param''}"
    and L: "L \<noteq> []" "list_all not_newline L"
  shows "re_match re_eq (call_text (lit f) w @ lit '' == '' @ L) = Some (map_of [(3, L), (2, w), (1, lit f)])"
proof -
  let ?T = "Seq (Grp 3 (many1 (Cls not_newline))) (Seq Eol Eps)"
  have t: "call_text (lit f) w @ lit '' == '' @ L = lit f @ [40, 34] @ w @ 34 # ([41, 32, 61, 61, 32] @ L)"
    by (simp add: call_text_def)
  have r: "re_eq = Seq Bol (Seq (Grp 1 (words [''param'', ''header''])) (Seq (str [40, 34])
      (Seq (Grp 2 (many1 (Cls not_quote))) (Seq (str (34 # [41, 32, 61, 61, 32])) ?T))))"
    by (simp add: re_eq_def)
  have "mt (words [''param'', ''header'']) (pv, lit f @ [40, 34] @ u, c) = [(adv pv (lit f), [40, 34] @ u, c)]" for pv u c
    using f by (auto simp: words_def mt_str starts_with_def)
  then have g: "mt (Seq (Grp 1 (words [''param'', ''header''])) q) (pv, lit f @ [40, 34] @ u, c) =
      mt q (adv pv (lit f), [40, 34] @ u, (1, lit f) # c)" for pv u c q
    by (simp add: comp_def)
  have e: "mt (Seq (str (34 # a)) q) (pv, 34 # a @ u, c) = mt q (adv pv (34 # a), u, c)" for a q pv u c
    using seq_str [of "34 # a"] by simp
  have l: "mt ?T (pv, L, c) = [(adv pv L, [], (3, L) # c)]" for pv c
    using class_then [of not_newline L "[]" "Seq Eol Eps" 3 pv c] L by (simp del: mt.simps(3))
  show ?thesis
    by (simp only: r t match_calc g seq_str quoted_then [OF assms(1,2)] e l)
qed

lemma eq_others_fail:
  fixes L :: jstring
  assumes "w \<noteq> []" and "34 \<notin> set w" and f: "f \<in> {''header'', ''param''}"
  defines "T \<equiv> call_text (lit f) w @ lit '' == '' @ L"
  shows "re_match re_header_exists T = None" and "re_match re_param_exists T = None"
    and "re_match re_header_has T = None" and "re_match re_param_has T = None" and "re_match re_param_cmp T = None"
proof -
  have c: "re_match (cat (Bol # call_of g n @ str a # rs)) T = None"
    if "g \<in> {''header'', ''param''}" and "\<not> starts_with (lit '' == '' @ L) a" for g n a rs
  proof (cases "g = f")
    case True
    with that show ?thesis
      unfolding T_def True
      by (subst call_re_match [OF assms(1,2)]) (simp only: cat.simps seq_str_fail list.case not_False_eq_True)
  next
    case False
    with that f have "\<not> starts_with T (lit g)" by (auto simp: T_def call_text_def starts_with_def)
    then show ?thesis by (rule call_re_fail)
  qed
  show "re_match re_header_exists T = None" and "re_match re_param_exists T = None"
    unfolding re_header_exists_def re_param_exists_def by (rule c; simp add: starts_with_def)+
  show "re_match re_param_has T = None" and "re_match re_param_cmp T = None"
    unfolding re_param_has_def re_param_cmp_def by (rule c; simp add: starts_with_def)+
  show "re_match re_header_has T = None"
    unfolding re_header_has_def by (rule str_re_fail) (use f in \<open>auto simp: T_def call_text_def starts_with_def\<close>)
qed

lemma eq_parse:
  assumes "w \<noteq> []" and "34 \<notin> set w" and f: "f \<in> {''header'', ''param''}"
    and L: "L \<noteq> []" "list_all not_newline L" and v: "parseExprLiteral L = Some x"
  shows "tryParseRequestCondition (call_text (lit f) w @ lit '' == '' @ L) =
    Ret (Some (ParamHeaderCondition (if f = ''param'' then SParam else SHeader) w MATCH_EQ (str_of x)))"
proof -
  note o = eq_others_fail [OF assms(1-3), of L]
  have "parse_eq_condition (call_text (lit f) w @ lit '' == '' @ L) =
      Some (ParamHeaderCondition (if f = ''param'' then SParam else SHeader) w MATCH_EQ (str_of x))"
    unfolding parse_eq_condition_def eq_match [OF assms(1-5)] using v f by (auto simp: cap_def)
  then show ?thesis
    unfolding tryParseRequestCondition_def parse_param_condition_def parse_param_cmp_def o ph_not_time [OF f]
    by simp
qed

text \<open>A quoted literal without escapes.\<close>

lemma star_alt_escape:
  "92 \<notin> set s \<Longrightarrow>
   star_iter (mt (Alt (Cls p) (cat [chr 92, q]))) n (pv, s, caps) = star_iter (mt_cls p) n (pv, s, caps)"
proof (induction n arbitrary: pv s)
  case (Suc n)
  show ?case
  proof (cases s)
    case (Cons c t)
    with Suc have "star_iter (mt (Alt (Cls p) (cat [chr 92, q]))) n (Some c, t, caps) =
        star_iter (mt_cls p) n (Some c, t, caps)"
      by simp
    with Cons Suc.prems show ?thesis by (simp add: chr_def)
  qed (simp add: chr_def)
qed simp

lemma quoted_match:
  assumes "34 \<notin> set v" and "92 \<notin> set v"
  shows "mt re_quoted (pv, 34 # v @ [34, 41], c) = [(Some 34, [41], c)]"
proof -
  let ?f = "mt (Seq (chr 34) Eps)"
  let ?p = "\<lambda>c. c \<noteq> (34::nat) \<and> c \<noteq> 92"
  have "mt re_quoted (pv, 34 # v @ [34, 41], c) =
      concat (map ?f (mt (Star (Alt (Cls ?p) (cat [chr 92, Cls not_newline]))) (Some 34, v @ [34, 41], c)))"
    unfolding re_quoted_def cat.simps mt.simps(3) [of "chr 34"] by (simp add: chr_def)
  also have "\<dots> = concat (map ?f (mt (Star (Cls ?p)) (Some 34, v @ [34, 41], c)))"
    using star_alt_escape [of "v @ [34, 41]" ?p "Cls not_newline" "length (v @ [34, 41])" "Some 34" c] assms
    by (simp del: mt.simps(3,4) cat.simps)
  also have "\<dots> = ?f (adv (Some 34) v, [34, 41], c)"
  proof (rule star_cls_then)
    show "list_all ?p v" using assms by (auto simp: list_all_iff)
    fix k assume "k < length v"
    then obtain a t where "drop k v = a # t" by (metis Cons_nth_drop_Suc)
    moreover from this have "a \<noteq> 34" using assms(1) by (metis in_set_dropD list.set_intros(1))
    ultimately show "?f (adv (Some 34) (take k v), drop k v @ [34, 41], c) = []" by (simp add: chr_def)
  qed simp
  finally show ?thesis by (simp add: chr_def)
qed

lemma json_roundtrip_plain:
  assumes "list_all plain_char v"
  shows "json_parse (json_quote v) = Some (JStr v)"
proof -
  have "unit_str v" using assms plain_charD(1) by (auto simp: unit_str_def list_all_iff)
  then show ?thesis using json.dec_enc [of "JStr v"] by simp
qed

lemma contains_parse:
  assumes w: "w \<noteq> []" "34 \<notin> set w" and v: "list_all plain_char v"
  shows "tryParseRequestCondition
      (lit ''has('' @ call_text (lit ''header'') w @ [44, 32] @ json_quote v @ [41]) =
    Ret (Some (ParamHeaderCondition SHeader w MATCH_CONTAINS v))"
proof -
  let ?T = "lit ''has('' @ call_text (lit ''header'') w @ [44, 32] @ 34 # v @ [34, 41]"
  let ?E = "Seq (Grp 2 re_quoted) (Seq (chr 41) (Seq Eol Eps))"
  have q: "34 \<notin> set v" "92 \<notin> set v" using v plain_charD(2,3) by (auto simp: list_all_iff)
  have t: "tryParseTimeCondition ?T = None"
    by (rule time_none) (auto simp: TIME_FUNCS_def starts_with_def)
  have 1: "re_match re_header_exists ?T = None" and 2: "re_match re_param_exists ?T = None"
    unfolding re_header_exists_def re_param_exists_def by (rule call_re_fail; simp add: starts_with_def)+
  have r: "re_header_has = Seq Bol (Seq (str (lit ''has('')) (cat (call_of ''header'' 1 @
      [str [44, 32], Grp 2 re_quoted, chr 41, Eol])))"
    by (simp add: re_header_has_def)
  have e: "mt ?E (pv, 34 # v @ [34, 41], c) = [(Some 41, [], (2, 34 # v @ [34]) # c)]" for pv c
    unfolding mt.simps(3) [of "Grp 2 re_quoted"] mt.simps(6) quoted_match [OF q] by (simp add: chr_def quoted_match [OF q])
  have 3: "re_match re_header_has ?T = Some (map_of [(2, 34 # v @ [34]), (1, w)])"
    by (simp only: r match_calc seq_str call_match [OF w] cat.simps e)
  have j: "json_parse (34 # v @ [34]) = Some (JStr v)"
    using json_roundtrip_plain [OF v] by (simp add: json_quote_plain [OF v])
  have "tryParseRequestCondition ?T = Ret (Some (ParamHeaderCondition SHeader w MATCH_CONTAINS v))"
    unfolding tryParseRequestCondition_def t 1 2 3 by (simp add: contains_cond_def cap_def j)
  then show ?thesis by (simp add: json_quote_plain [OF v])
qed

section \<open>Conditions that are read back\<close>

fun ok_cond :: "request_condition \<Rightarrow> bool" where
  "ok_cond (TimeCondition f tz md v s e) \<longleftrightarrow>
     f \<in> set (map lit TIME_FUNCS) \<and> tz \<noteq> [] \<and> list_all plain_char tz \<and>
     (if md = MATCH_RANGE then v = [] \<and> numlit s \<and> numlit e
      else md \<in> {MATCH_EQ, MATCH_GTE, MATCH_LT} \<and> numlit v \<and> s = [] \<and> e = [])"
| "ok_cond (ParamHeaderCondition src path md v) \<longleftrightarrow>
     path \<noteq> [] \<and> plain path \<and> plain v \<and>
     (md = MATCH_EQ \<or> md = MATCH_EXISTS \<and> v = [] \<or> md = MATCH_CONTAINS \<and> src = SHeader)"

lemma literal_roundtrip:
  assumes "plain v"
  shows "parseExprLiteral (buildExprLiteral MATCH_EQ v) = Some (JStr v)"
proof -
  have t: "trim v = v" and p: "list_all plain_char v" using assms by (auto simp: plain_def trim_trimmed)
  have q: "trim (json_quote v) = json_quote v"
    by (rule trim_trimmed) (simp add: json_quote_def trimmed_def is_ws_def)
  have n: "\<not> numlit (json_quote v)"
    using numlit_chars [of "json_quote v"] by (auto simp: json_quote_def num_char_def is_digit_def)
  have w: "json_quote v \<noteq> lit ''true''" "json_quote v \<noteq> lit ''false''" by (simp_all add: json_quote_def)
  have "parseExprLiteral (json_quote v) = Some (JStr v)"
    unfolding parseExprLiteral_def Let_def q json_roundtrip_plain [OF p] using n w by (simp add: numlit_def)
  moreover have "parseExprLiteral v = Some (JStr v)"
    if "v = lit ''true'' \<or> v = lit ''false'' \<or> re_test NUMERIC_LITERAL_REGEX v"
    unfolding parseExprLiteral_def Let_def t using that by auto
  ultimately show ?thesis
    unfolding buildExprLiteral_def Let_def t by (auto simp: match_modes)
qed

lemma literal_chars:
  assumes "plain v"
  shows "buildExprLiteral MATCH_EQ v \<noteq> [] \<and> list_all not_newline (buildExprLiteral MATCH_EQ v) \<and>
    (\<forall>c \<in> set (buildExprLiteral MATCH_EQ v). c \<notin> {38, 40, 41, 124}) \<and> trimmed (buildExprLiteral MATCH_EQ v)"
proof -
  have t: "trim v = v" and p: "list_all plain_char v" and tr: "trimmed v"
    using assms by (auto simp: plain_def trim_trimmed)
  show ?thesis
  proof (cases "buildExprLiteral MATCH_EQ v = json_quote v")
    case True
    have "\<forall>c \<in> set v. not_newline c \<and> c \<notin> {38, 40, 41, 124}"
      using p plain_charD(4,5) unfolding list_all_iff by blast
    then show ?thesis
      unfolding True json_quote_plain [OF p]
      by (simp add: list_all_iff not_newline_def trimmed_def is_ws_def)
  next
    case False
    have be: "buildExprLiteral MATCH_EQ v =
        (if v = lit ''true'' \<or> v = lit ''false'' \<or> numlit v then v else json_quote v)"
      by (simp add: buildExprLiteral_def Let_def t match_modes numlit_def)
    have "\<not> numlit []" using numlit_chars [of "[]"] by blast
    with False be have "v \<noteq> []" "buildExprLiteral MATCH_EQ v = v" by (auto split: if_splits)
    moreover have "\<forall>c \<in> set v. not_newline c \<and> c \<notin> {38, 40, 41, 124}"
      using p plain_charD(4,5) unfolding list_all_iff by blast
    ultimately show ?thesis using tr by (simp add: list_all_iff)
  qed
qed

lemma or_default_some: "s \<noteq> [] \<Longrightarrow> or_default d (Some s) = s"
  by (cases s) (simp_all add: or_default_def)

lemma normalize_id: "ok_cond c \<Longrightarrow> normalizeCondition_request (as_partial c) = c"
proof (cases c)
  case (TimeCondition f tz md v s e)
  assume "ok_cond c"
  then have "isTimeFunc (Some f)" and "tz \<noteq> []" and "md \<in> {MATCH_RANGE, MATCH_EQ, MATCH_GTE, MATCH_LT}"
    by (auto simp: TimeCondition isTimeFunc_def split: if_splits)
  moreover from this(3) have "pick_mode (lit ''time'') MATCH_GTE (Some md) = md"
    by (auto simp: pick_mode_def getRequestRuleMatchOptions_def match_modes)
  ultimately show ?thesis by (simp add: TimeCondition normalizeCondition_request_def or_default_some or_empty_def)
next
  case (ParamHeaderCondition src path md v)
  assume "ok_cond c"
  then have "md = MATCH_EQ \<or> md = MATCH_EXISTS \<or> md = MATCH_CONTAINS" by (auto simp: ParamHeaderCondition)
  then have "pick_mode w MATCH_EQ (Some md) = md" if "w \<in> {lit ''header'', lit ''param''}" for w
    using that by (auto simp: pick_mode_def getRequestRuleMatchOptions_def match_modes Let_def)
  then show ?thesis by (cases src) (simp_all add: ParamHeaderCondition normalizeCondition_request_def or_empty_def)
qed

definition src_name :: "cond_source \<Rightarrow> string" where
  "src_name src = (if src = SHeader then ''header'' else ''param'')"

lemma build_range:
  assumes "ok_cond (TimeCondition f tz MATCH_RANGE v s e)"
  shows "buildRequestConditionExpr (TimeCondition f tz MATCH_RANGE v s e) = range_text f tz s e"
  using assms
  unfolding buildRequestConditionExpr.simps buildTimeConditionExpr_def normalize_id [OF assms] Let_def
  by (simp add: numlit_def [symmetric] json_quote_plain range_text_def call_text_def)

lemma build_time_op:
  assumes "ok_cond (TimeCondition f tz md v s e)" and "md \<noteq> MATCH_RANGE"
  shows "buildRequestConditionExpr (TimeCondition f tz md v s e) = call_text f tz @ 32 # time_op md @ 32 # v"
  using assms
  unfolding buildRequestConditionExpr.simps buildTimeConditionExpr_def normalize_id [OF assms(1)] Let_def
  by (simp add: numlit_def [symmetric] json_quote_plain call_text_def)

lemma build_ph:
  assumes "ok_cond (ParamHeaderCondition src path md v)"
  shows "buildRequestConditionExpr (ParamHeaderCondition src path md v) =
    (if md = MATCH_EXISTS then call_text (lit (src_name src)) path @ (if src = SHeader then [32, 33, 61, 32, 34, 34] else lit '' != nil'')
     else if md = MATCH_CONTAINS then lit ''has('' @ call_text (lit ''header'') path @ [44, 32] @ json_quote v @ [41]
     else call_text (lit (src_name src)) path @ lit '' == '' @ buildExprLiteral MATCH_EQ v)"
proof -
  have p: "trim path = path" "path \<noteq> []" "list_all plain_char path" "trim v = v"
    using assms by (auto simp: plain_def trim_trimmed)
  have "buildRequestConditionExpr (ParamHeaderCondition src path md v) = build_ph_expr src path md v"
    using p by (simp add: normalize_id [OF assms] del: as_partial.simps)
  with assms p show ?thesis
    by (cases src) (auto simp: build_ph_expr_def Let_def json_quote_plain call_text_def src_name_def match_modes
        buildExprLiteral_def)
qed

text \<open>Reading back one condition; a range also inside its own parentheses.\<close>

lemma plain_path: "plain w \<Longrightarrow> 34 \<notin> set w"
  using plain_charD(2) by (auto simp: plain_def list_all_iff)

lemma cond_roundtrip_ph:
  assumes "ok_cond (ParamHeaderCondition src path md v)"
  shows "tryParseRequestCondition (buildRequestConditionExpr (ParamHeaderCondition src path md v)) =
    Ret (Some (ParamHeaderCondition src path md v))"
proof -
  have w: "path \<noteq> []" "34 \<notin> set path" and v: "plain v" using assms plain_path by auto
  consider "md = MATCH_EXISTS" "v = []" | "md = MATCH_CONTAINS" "src = SHeader" | "md = MATCH_EQ"
    using assms by auto
  then show ?thesis
  proof cases
    case 1
    with exists_parse [OF w] show ?thesis
      unfolding build_ph [OF assms] by (cases src) (simp_all add: src_name_def)
  next
    case 2
    with contains_parse [OF w, of v] v show ?thesis
      unfolding build_ph [OF assms] by (simp add: match_modes plain_def)
  next
    case 3
    have "MATCH_EQ \<noteq> MATCH_EXISTS" "MATCH_EQ \<noteq> MATCH_CONTAINS" by (simp_all add: match_modes)
    moreover have "src_name src \<in> {''header'', ''param''}" by (simp add: src_name_def)
    note eq_parse [OF w this _ _ literal_roundtrip [OF v]]
    ultimately show ?thesis
      unfolding build_ph [OF assms] unfolding 3 using literal_chars [OF v] by (cases src) (simp_all add: src_name_def)
  qed
qed

lemma time_condE:
  assumes "ok_cond (TimeCondition f tz md v s e)"
  obtains g where "f = lit g" and "g \<in> set TIME_FUNCS" and "tz \<noteq> []" and "34 \<notin> set tz"
  using assms plain_charD(2) by (auto simp: list_all_iff)

lemma cond_roundtrip_range:
  assumes "ok_cond (TimeCondition f tz MATCH_RANGE v s e)"
  shows "tryParseRequestCondition (range_text f tz s e) = Ret (Some (TimeCondition f tz MATCH_RANGE v s e))"
    and "tryParseRequestCondition (40 # range_text f tz s e @ [41]) = Ret (Some (TimeCondition f tz MATCH_RANGE v s e))"
proof -
  obtain g where g: "f = lit g" "g \<in> set TIME_FUNCS" "tz \<noteq> []" "34 \<notin> set tz" using assms by (rule time_condE)
  have n: "numlit s" "numlit e" "v = []" using assms by auto
  show "tryParseRequestCondition (range_text f tz s e) = Ret (Some (TimeCondition f tz MATCH_RANGE v s e))"
    unfolding tryParseRequestCondition_def tryParseTimeCondition_def g(1) range_match [OF g(2-4) n(1,2)]
    by (simp add: time_range_def cap_def n(3))
  have "re_match re_range (40 # u) = None" for u
    by (rule range_fail_first) (auto simp: TIME_FUNCS_def starts_with_def)
  then show "tryParseRequestCondition (40 # range_text f tz s e @ [41]) = Ret (Some (TimeCondition f tz MATCH_RANGE v s e))"
    unfolding tryParseRequestCondition_def tryParseTimeCondition_def g(1) range_paren_match [OF g(2-4) n(1,2)]
    by (simp add: time_range_def cap_def n(3))
qed

lemma cond_roundtrip_time:
  assumes "ok_cond (TimeCondition f tz md v s e)" and "md \<noteq> MATCH_RANGE"
  shows "tryParseRequestCondition (buildRequestConditionExpr (TimeCondition f tz md v s e)) =
    Ret (Some (TimeCondition f tz md v s e))"
proof -
  obtain g where g: "f = lit g" "g \<in> set TIME_FUNCS" "tz \<noteq> []" "34 \<notin> set tz" using assms(1) by (rule time_condE)
  have n: "numlit v" "s = []" "e = []" and md: "md \<in> {MATCH_EQ, MATCH_GTE, MATCH_LT}" using assms by auto
  define q where "q = (if md = MATCH_EQ then ''=='' else if md = MATCH_GTE then ''>='' else ''<'')"
  have q: "time_op md = lit q" "q \<in> {''=='', ''>='', ''<''}" and m: "time_op_mode (lit q) = md"
    using md by (auto simp: q_def time_op_def time_op_mode_def match_modes)
  have hd: "hd (call_text (lit g) tz @ u) \<noteq> 40" for u using g(2) by (auto simp: TIME_FUNCS_def call_text_def)
  show ?thesis
    unfolding build_time_op [OF assms]
    unfolding q(1) g(1) tryParseRequestCondition_def tryParseTimeCondition_def
      range_fail_op [OF g(2-4) n(1) q(2)] range_paren_fail [OF hd] time_op_match [OF g(2-4) n(1) q(2)]
    using m by (simp add: cap_def n)
qed

section \<open>Text of a condition\<close>

text \<open>What the splitters need to know of a printed condition.\<close>

definition cond_text :: "jstring \<Rightarrow> bool" where
  "cond_text e \<longleftrightarrow> e \<noteq> [] \<and> trimmed e \<and> balanced e \<and> 38 \<notin> set e"

definition flat :: "jstring \<Rightarrow> bool" where
  "flat w \<longleftrightarrow> (\<forall>c \<in> set w. c \<notin> {38, 40, 41, 124})"

lemma flat_balanced: "flat w \<Longrightarrow> balanced w"
  by (rule balanced_flat) (auto simp: flat_def)

lemma flat_plain: "list_all plain_char w \<Longrightarrow> flat w"
  using plain_charD(4) unfolding flat_def list_all_iff by blast

lemma flat_numlit: "numlit w \<Longrightarrow> flat w"
  using numlit_chars [of w] by (auto simp: flat_def list_all_iff num_char_def is_digit_def)

lemma flat_literal: "plain v \<Longrightarrow> flat (buildExprLiteral MATCH_EQ v)"
  using literal_chars [of v] unfolding flat_def by blast

lemma flat_quote: "list_all plain_char w \<Longrightarrow> flat (json_quote w)"
  using flat_plain [of w] by (auto simp: json_quote_plain flat_def)

lemma balanced_call: "flat f \<Longrightarrow> flat w \<Longrightarrow> balanced (call_text f w)"
proof -
  assume "flat f" "flat w"
  then have "balanced f" and "flat (34 # w @ [34])" by (auto intro: flat_balanced simp: flat_def)
  then have "balanced (f @ 40 # (34 # w @ [34]) @ [41])"
    by (blast intro: balanced_append balanced_parens flat_balanced)
  then show ?thesis by (simp add: call_text_def)
qed

lemma set_call_text: "set (call_text f w) = set f \<union> {40, 34, 41} \<union> set w"
  by (auto simp: call_text_def)

lemma trimmed_last: "trimmed w \<Longrightarrow> w \<noteq> [] \<Longrightarrow> \<not> is_ws (last w)"
  by (simp add: trimmed_def)

lemma numlit_trimmed: "numlit w \<Longrightarrow> trimmed w \<and> w \<noteq> []"
  using numlit_trim [of w] trimmed_trim [of w] numlit_chars [of w] by simp

lemma trimmed_call:
  assumes "f \<noteq> []" and "\<not> is_ws (hd f)" and "trimmed u" and "u \<noteq> []"
  shows "trimmed (call_text f w @ s @ u)"
  using assms by (auto simp: trimmed_def call_text_def)

lemma time_func_text: "f \<in> set (map lit TIME_FUNCS) \<Longrightarrow> f \<noteq> [] \<and> \<not> is_ws (hd f) \<and> flat f"
  by (auto simp: TIME_FUNCS_def is_ws_def flat_def)

lemma range_cond_text:
  assumes "ok_cond (TimeCondition f tz MATCH_RANGE v s e)"
  shows "cond_text (range_text f tz s e) \<and> includes_str (range_text f tz s e) (lit '' || '')"
proof -
  have f: "f \<noteq> []" "\<not> is_ws (hd f)" "flat f" using assms time_func_text by auto
  have w: "flat tz" "flat s" "flat e" and e: "trimmed e" "e \<noteq> []"
    using assms numlit_trimmed flat_plain flat_numlit by auto
  have m: "flat (lit '' >= '' @ s)" "flat (lit '' < '' @ e)" using w by (auto simp: flat_def)
  have b1: "balanced (lit '' || '')" by (simp add: balanced_def)
  have b: "balanced (range_text f tz s e)"
    using balanced_append [OF balanced_call [OF f(3) w(1)] balanced_append [OF flat_balanced [OF m(1)] balanced_append [OF
      b1 balanced_append [OF balanced_call [OF f(3) w(1)] flat_balanced [OF m(2)]]]]]
    by (simp add: range_text_def)
  have t: "trimmed (range_text f tz s e)"
    using trimmed_call [OF f(1,2) e, of tz "lit '' >= '' @ s @ lit '' || '' @ call_text f tz @ lit '' < ''"]
    by (simp add: range_text_def)
  have "38 \<notin> set (range_text f tz s e)"
    using f w by (auto simp: range_text_def set_call_text flat_def)
  moreover have "range_text f tz s e = (call_text f tz @ lit '' >= '' @ s) @ lit '' || '' @ (call_text f tz @ lit '' < '' @ e)"
    by (simp add: range_text_def)
  then have "includes_str (range_text f tz s e) (lit '' || '')" by (simp only: includes_str_mid)
  ultimately show ?thesis using b t e by (auto simp: cond_text_def range_text_def)
qed

lemma no_bar: "124 \<notin> set e \<Longrightarrow> \<not> includes_str e (lit '' || '')"
  by (auto simp: includes_str_iff)

lemma call_cond_text:
  assumes "f \<noteq> []" "\<not> is_ws (hd f)" "flat f" and "flat w" and "flat s" and "trimmed u" "u \<noteq> []" "flat u"
  shows "cond_text (call_text f w @ s @ u) \<and> \<not> includes_str (call_text f w @ s @ u) (lit '' || '')"
proof -
  have "balanced (call_text f w @ s @ u)"
    using assms by (intro balanced_append balanced_call flat_balanced)
  moreover have "38 \<notin> set (call_text f w @ s @ u)" "124 \<notin> set (call_text f w @ s @ u)"
    using assms by (auto simp: set_call_text flat_def)
  ultimately show ?thesis
    using trimmed_call [OF assms(1,2,6,7)] no_bar by (auto simp: cond_text_def call_text_def)
qed

lemma ph_cond_text:
  assumes "ok_cond (ParamHeaderCondition src path md v)"
  shows "cond_text (buildRequestConditionExpr (ParamHeaderCondition src path md v)) \<and>
    \<not> includes_str (buildRequestConditionExpr (ParamHeaderCondition src path md v)) (lit '' || '')"
proof -
  have f: "lit (src_name src) \<noteq> []" "\<not> is_ws (hd (lit (src_name src)))" "flat (lit (src_name src))"
    by (auto simp: src_name_def is_ws_def flat_def)
  have w: "flat path" and v: "plain v" "list_all plain_char v"
    using assms flat_plain by (auto simp: plain_def)
  consider "md = MATCH_EXISTS" | "md = MATCH_CONTAINS" | "md = MATCH_EQ" using assms by auto
  then show ?thesis
  proof cases
    case 1
    let ?u = "if src = SHeader then [33, 61, 32, 34, 34] else [33, 61, 32, 110, 105, 108]"
    have "cond_text (call_text (lit (src_name src)) path @ [32] @ ?u) \<and>
        \<not> includes_str (call_text (lit (src_name src)) path @ [32] @ ?u) (lit '' || '')"
      by (rule call_cond_text [OF f w]) (auto simp: flat_def trimmed_def is_ws_def)
    moreover have "buildRequestConditionExpr (ParamHeaderCondition src path md v) =
        call_text (lit (src_name src)) path @ [32] @ ?u"
      unfolding build_ph [OF assms] by (simp add: 1)
    ultimately show ?thesis by (simp only: simp_thms)
  next
    case 2
    have m: "MATCH_CONTAINS \<noteq> MATCH_EXISTS" by (simp add: match_modes)
    let ?q = "call_text (lit ''header'') path @ [44, 32] @ json_quote v"
    have e: "buildRequestConditionExpr (ParamHeaderCondition src path md v) = lit ''has'' @ 40 # ?q @ [41]"
      unfolding build_ph [OF assms] unfolding 2 by (simp add: m)
    have fq: "flat (json_quote v)" "flat (lit ''header'')" using flat_quote [OF v(2)] by (auto simp: flat_def)
    have bq: "balanced ?q"
      using balanced_append [OF balanced_call [OF fq(2) w] balanced_append [of "[44, 32]", OF _ flat_balanced [OF fq(1)]]]
      by (simp add: balanced_def)
    have "balanced (lit ''has'')" by (simp add: balanced_def)
    then have "balanced (lit ''has'' @ 40 # ?q @ [41])"
      by (rule balanced_append [OF _ balanced_parens [OF bq]])
    moreover have "trimmed (lit ''has'' @ 40 # ?q @ [41])" by (simp add: trimmed_def is_ws_def)
    moreover have s: "38 \<notin> set (lit ''has'' @ 40 # ?q @ [41])" "124 \<notin> set (lit ''has'' @ 40 # ?q @ [41])"
      using fq w by (auto simp: flat_def set_call_text)
    ultimately show ?thesis unfolding e using no_bar [OF s(2)] by (auto simp: cond_text_def)
  next
    case 3
    have m: "MATCH_EQ \<noteq> MATCH_EXISTS" "MATCH_EQ \<noteq> MATCH_CONTAINS" by (simp_all add: match_modes)
    show ?thesis
      unfolding build_ph [OF assms] unfolding 3 if_not_P [OF m(1)] if_not_P [OF m(2)]
      by (rule call_cond_text [OF f w])
        (use literal_chars [OF v(1)] flat_literal [OF v(1)] in \<open>auto simp: flat_def\<close>)
  qed
qed

lemma time_cond_text:
  assumes "ok_cond (TimeCondition f tz md v s e)" and "md \<noteq> MATCH_RANGE"
  shows "cond_text (buildRequestConditionExpr (TimeCondition f tz md v s e)) \<and>
    \<not> includes_str (buildRequestConditionExpr (TimeCondition f tz md v s e)) (lit '' || '')"
proof -
  have f: "f \<noteq> []" "\<not> is_ws (hd f)" "flat f" using assms time_func_text by auto
  have w: "flat tz" "numlit v" using assms flat_plain by auto
  have "cond_text (call_text f tz @ (32 # time_op md @ [32]) @ v) \<and>
      \<not> includes_str (call_text f tz @ (32 # time_op md @ [32]) @ v) (lit '' || '')"
    by (rule call_cond_text [OF f w(1)])
      (use w numlit_trimmed [of v] flat_numlit [of v] in \<open>auto simp: flat_def time_op_def\<close>)
  then show ?thesis unfolding build_time_op [OF assms] by simp
qed

definition cond_item :: "jstring \<Rightarrow> jstring" where
  "cond_item e = (if includes_str e (lit '' || '') then 40 # e @ [41] else e)"

text \<open>A condition alone and a condition as an operand of \<^verbatim>\<open>&&\<close>.\<close>

lemma cond_alone:
  assumes "ok_cond c"
  shows "cond_text (buildRequestConditionExpr c) \<and>
    tryParseRequestCondition (buildRequestConditionExpr c) = Ret (Some c)"
proof (cases c)
  case (ParamHeaderCondition src path md v)
  then show ?thesis using assms ph_cond_text cond_roundtrip_ph by auto
next
  case (TimeCondition f tz md v s e)
  show ?thesis
  proof (cases "md = MATCH_RANGE")
    case True
    with assms TimeCondition have ok: "ok_cond (TimeCondition f tz MATCH_RANGE v s e)" by simp
    show ?thesis
      unfolding TimeCondition True build_range [OF ok] using range_cond_text [OF ok] cond_roundtrip_range(1) [OF ok] by simp
  next
    case False
    then show ?thesis using assms TimeCondition time_cond_text cond_roundtrip_time by auto
  qed
qed

lemma cond_text_parens: "cond_text e \<Longrightarrow> cond_text (40 # e @ [41])"
  using balanced_parens [of e] by (auto simp: cond_text_def trimmed_def is_ws_def)

lemma cond_operand:
  assumes "ok_cond c"
  shows "cond_text (cond_item (buildRequestConditionExpr c)) \<and>
    tryParseRequestCondition (cond_item (buildRequestConditionExpr c)) = Ret (Some c)"
proof (cases "\<exists>f tz v s e. c = TimeCondition f tz MATCH_RANGE v s e")
  case True
  then obtain f tz v s e where c: "c = TimeCondition f tz MATCH_RANGE v s e" by blast
  note ok = assms [unfolded c]
  show ?thesis
    unfolding c build_range [OF ok] cond_item_def
    using range_cond_text [OF ok] cond_roundtrip_range(2) [OF ok] cond_text_parens by simp
next
  case False
  have "\<not> includes_str (buildRequestConditionExpr c) (lit '' || '')"
  proof (cases c)
    case (ParamHeaderCondition src path md v)
    with assms show ?thesis by (simp only: ph_cond_text not_False_eq_True)
  next
    case (TimeCondition f tz md v s e)
    with False have "md \<noteq> MATCH_RANGE" by blast
    with assms TimeCondition show ?thesis by (simp only: time_cond_text not_False_eq_True)
  qed
  then show ?thesis using cond_alone [OF assms] by (simp add: cond_item_def)
qed

end
