(* ===== verification/Billing_Expr_Props.thy ===== *)
theory Billing_Expr_Props
  imports Billing_Expr_Match
begin

text \<open>
  Properties of billing expressions: what the rule editor prints is parsed back to the same rules,
  a combined expression is split into the same two parts, and the cases where this fails.
\<close>

definition ok_group :: "rule_group \<Rightarrow> bool" where
  "ok_group g \<longleftrightarrow> conditions g \<noteq> [] \<and> list_all ok_cond (conditions g) \<and> numlit (multiplier g)"

definition operands :: "rule_group \<Rightarrow> jstring list" where
  "operands g =
     (let es = map buildRequestConditionExpr (conditions g) in if length es = 1 then es else map cond_item es)"

lemma operand_parse:
  assumes "ok_group g"
  shows "list_all2 (\<lambda>e c. cond_text e \<and> tryParseRequestCondition e = Ret (Some c)) (operands g) (conditions g)"
proof -
  have ok: "ok_cond c" if "c \<in> set (conditions g)" for c using assms that by (simp add: ok_group_def list_all_iff)
  show ?thesis
    unfolding operands_def Let_def length_map
    using ok cond_alone cond_operand
    by (cases "length (conditions g) = 1") (simp_all add: list_all2_conv_all_nth)
qed

lemma operands_ne: "ok_group g \<Longrightarrow> operands g \<noteq> []"
  by (simp add: operands_def ok_group_def Let_def)

lemma build_factor:
  assumes "ok_group g"
  shows "buildRuleGroupFactor g = 40 # join (lit '' && '') (operands g) @ factor_end (multiplier g)"
proof -
  let ?es = "map buildRequestConditionExpr (conditions g)"
  have "\<forall>e \<in> set ?es. e \<noteq> []"
    using assms cond_alone by (auto simp: ok_group_def list_all_iff cond_text_def)
  then have f: "filter (\<lambda>e. e \<noteq> []) ?es = ?es" by (rule filter_id)
  have ne: "?es \<noteq> []" and m: "trim (multiplier g) = multiplier g" "re_test NUMERIC_LITERAL_REGEX (multiplier g)"
    using assms by (auto simp: ok_group_def numlit_def [symmetric])
  have "(if length ?es = 1 then hd ?es else join (lit '' && '') (map cond_item ?es)) = join (lit '' && '') (operands g)"
    using ne by (cases ?es) (auto simp: operands_def Let_def)
  then show ?thesis
    unfolding buildRuleGroupFactor_def Let_def f m(1) if_not_P [OF ne] using m(2)
    by (simp add: factor_end_def cond_item_def [abs_def] cong: if_cong)
qed

lemma parse_all_list:
  "list_all2 (\<lambda>x y. f x = Ret (Some y)) xs ys \<Longrightarrow> parse_all f xs = Ret (Some ys)"
  by (induction xs ys rule: list_all2_induct) auto

lemma group_roundtrip:
  assumes "ok_group g"
  shows "tryParseRuleGroupFactor (buildRuleGroupFactor g) = Ret (Some g)"
proof -
  let ?os = "operands g"
  note p = operand_parse [OF assms]
  have ct: "\<forall>e \<in> set ?os. cond_text e" using p by (auto simp: list_all2_conv_all_nth in_set_conv_nth)
  have "split_top (lit '' && '') 0 [] (join (lit '' && '') ?os) = ?os"
    by (rule split_top_join [where x = 38])
      (use ct operands_ne [OF assms] in \<open>auto simp: cond_text_def opaque_absent balanced_def\<close>)
  then have sp: "splitTopLevelAnd (join (lit '' && '') ?os) = ?os"
    unfolding splitTopLevelAnd_def using ct by (simp add: filter_id cond_text_def)
  have "list_all2 (\<lambda>e c. tryParseRequestCondition (trim e) = Ret (Some c)) ?os (conditions g)"
    using p by (rule list_all2_mono) (simp add: cond_text_def trim_trimmed)
  then have pa: "parse_all (\<lambda>ap. tryParseRequestCondition (trim ap)) ?os = Ret (Some (conditions g))"
    by (rule parse_all_list)
  have ne: "join (lit '' && '') ?os \<noteq> []"
    using ct operands_ne [OF assms] join_eq_Nil [of ?os] by (auto simp: cond_text_def)
  have m: "list_all num_char (multiplier g)" "multiplier g \<noteq> []"
    using assms numlit_chars by (auto simp: ok_group_def)
  have c: "cap (map_of [(2, multiplier g), (1, join (lit '' && '') ?os)]) 1 = join (lit '' && '') ?os"
    "cap (map_of [(2, multiplier g), (1, join (lit '' && '') ?os)]) 2 = multiplier g"
    by (simp_all add: cap_def)
  have "conditions g \<noteq> []" using assms by (simp add: ok_group_def)
  then show ?thesis
    by (simp add: tryParseRuleGroupFactor_def build_factor [OF assms, simplified] factor_match [OF ne m, simplified]
        c [simplified] sp [simplified] pa)
qed

lemma factor_shape:
  assumes "balanced w" and "numlit m"
  shows "opaque 42 0 (40 # w @ factor_end m) \<and> depth_of (40 # w @ factor_end m) = 0 \<and> trimmed (40 # w @ factor_end m)"
proof -
  let ?in = "w @ lit '' ? '' @ m @ lit '' : 1''"
  have e: "40 # w @ factor_end m = 40 # ?in @ [41]" by (simp add: factor_end_def)
  have "flat (lit '' ? '' @ m @ lit '' : 1'')"
    using flat_numlit [OF assms(2)] by (auto simp: flat_def)
  then have b: "balanced ?in" using assms(1) balanced_append flat_balanced by blast
  show ?thesis
    unfolding e using opaque_parens [OF b, of 42] balanced_parens [OF b]
    by (simp add: balanced_def trimmed_def is_ws_def)
qed

lemma factor_text:
  assumes "ok_group g"
  shows "opaque 42 0 (buildRuleGroupFactor g) \<and> depth_of (buildRuleGroupFactor g) = 0 \<and>
    trimmed (buildRuleGroupFactor g) \<and> buildRuleGroupFactor g \<noteq> []"
proof -
  have "\<forall>e \<in> set (operands g). balanced e"
    using operand_parse [OF assms] by (auto simp: cond_text_def list_all2_conv_all_nth in_set_conv_nth)
  then have "balanced (join (lit '' && '') (operands g))"
    by (intro balanced_join) (simp_all add: balanced_def)
  then show ?thesis
    unfolding build_factor [OF assms] using assms factor_shape by (simp add: ok_group_def del: opaque.simps)
qed

lemma single_factor:
  assumes "balanced w" and "numlit m"
  shows "splitTopLevelMultiply (40 # w @ factor_end m) = [40 # w @ factor_end m]"
    and "trim (40 # w @ factor_end m) = 40 # w @ factor_end m"
proof -
  note f = factor_shape [OF assms]
  have "split_top (lit '' * '') 0 [] (join (lit '' * '') [40 # w @ factor_end m]) = [40 # w @ factor_end m]"
    by (rule split_top_join [where x = 42]) (use f in auto)
  then show "splitTopLevelMultiply (40 # w @ factor_end m) = [40 # w @ factor_end m]"
    unfolding splitTopLevelMultiply_def by (simp del: split_top.simps)
  from f show "trim (40 # w @ factor_end m) = 40 # w @ factor_end m" by (simp only: trim_trimmed)
qed

lemma build_single:
  assumes "buildRequestConditionExpr c = e" and "e \<noteq> []" and "numlit m"
  shows "buildRequestRuleExpr [\<lparr>conditions = [c], multiplier = m\<rparr>] = 40 # e @ factor_end m"
  using assms by (simp add: buildRequestRuleExpr_def buildRuleGroupFactor_def Let_def factor_end_def numlit_def [symmetric])

lemma trimmed_join:
  "xs \<noteq> [] \<Longrightarrow> \<forall>x \<in> set xs. trimmed x \<and> x \<noteq> [] \<Longrightarrow> trimmed (join sep xs) \<and> join sep xs \<noteq> []"
proof (induction sep xs rule: join.induct)
  case (3 sep x y ys)
  have "trimmed (join sep (y # ys)) \<and> join sep (y # ys) \<noteq> []" by (rule 3) (use 3 in simp_all)
  moreover have "trimmed x" "x \<noteq> []" using 3 by simp_all
  ultimately show ?case unfolding join.simps trimmed_def by (simp, blast)
qed simp_all

lemma rules_text:
  assumes "\<forall>g \<in> set gs. ok_group g"
  shows "buildRequestRuleExpr gs = join (lit '' * '') (map buildRuleGroupFactor gs)"
    and "gs \<noteq> [] \<Longrightarrow> trimmed (buildRequestRuleExpr gs) \<and> buildRequestRuleExpr gs \<noteq> []"
    and "gs \<noteq> [] \<Longrightarrow> splitTopLevelMultiply (buildRequestRuleExpr gs) = map buildRuleGroupFactor gs"
proof -
  have t: "opaque 42 0 f \<and> depth_of f = 0 \<and> trimmed f \<and> f \<noteq> []" if "f \<in> set (map buildRuleGroupFactor gs)" for f
    using that assms factor_text by auto
  then show b: "buildRequestRuleExpr gs = join (lit '' * '') (map buildRuleGroupFactor gs)"
    unfolding buildRequestRuleExpr_def by (subst filter_id) auto
  show "trimmed (buildRequestRuleExpr gs) \<and> buildRequestRuleExpr gs \<noteq> []" if "gs \<noteq> []"
    unfolding b using t that by (intro trimmed_join) auto
  show "splitTopLevelMultiply (buildRequestRuleExpr gs) = map buildRuleGroupFactor gs" if "gs \<noteq> []"
  proof -
    have "split_top (lit '' * '') 0 [] (join (lit '' * '') (map buildRuleGroupFactor gs)) = map buildRuleGroupFactor gs"
      by (rule split_top_join [where x = 42]) (use t that in auto)
    then show ?thesis unfolding splitTopLevelMultiply_def b using t by (simp add: filter_id)
  qed
qed

lemma rules_reparsed:
  assumes "\<forall>g \<in> set gs. ok_group g"
  shows "tryParseRequestRuleExpr (buildRequestRuleExpr gs) = Ret (Some gs)"
proof (cases "gs = []")
  case True
  then show ?thesis by (simp add: buildRequestRuleExpr_def tryParseRequestRuleExpr_def)
next
  case False
  have "list_all2 (\<lambda>x y. tryParseRuleGroupFactor x = Ret (Some y)) (map buildRuleGroupFactor gs) gs"
    using assms group_roundtrip by (simp add: list_all2_conv_all_nth)
  then have "parse_all tryParseRuleGroupFactor (map buildRuleGroupFactor gs) = Ret (Some gs)"
    by (rule parse_all_list)
  then show ?thesis
    using rules_text(2,3) [OF assms False] by (simp add: tryParseRequestRuleExpr_def trim_trimmed)
qed


definition sample_group :: rule_group where
  "sample_group =
     \<lparr>conditions = [TimeCondition (lit ''hour'') (lit ''Asia/Tokyo'') MATCH_RANGE [] (lit ''21'') (lit ''6''),
        ParamHeaderCondition SHeader (lit ''x-tier'') MATCH_CONTAINS (lit ''fast''),
        ParamHeaderCondition SParam (lit ''stream'') MATCH_EQ (lit ''true'')], multiplier = lit ''1.5''\<rparr>"

lemma sample_group_ok: "ok_group sample_group"
  by code_simp


section \<open>Splitting a combined expression\<close>

lemma is_rule_factor:
  assumes "ok_group g"
  shows "is_rule (buildRuleGroupFactor g) = Ret True"
proof -
  have "buildRequestRuleExpr [g] = buildRuleGroupFactor g"
    using factor_text [OF assms] by (simp add: buildRequestRuleExpr_def)
  then have "tryParseRequestRuleExpr (buildRuleGroupFactor g) = Ret (Some [g])"
    using rules_text(2,3) [of "[g]"] group_roundtrip [OF assms] assms
    by (simp add: tryParseRequestRuleExpr_def trim_trimmed)
  then show ?thesis by (simp add: is_rule_def)
qed

lemma classify_rules: "\<forall>g \<in> set gs. ok_group g \<Longrightarrow> classify (map buildRuleGroupFactor gs) = Ret (map buildRuleGroupFactor gs, [])"
  by (induction gs) (simp_all add: is_rule_factor)

lemma closes_early_inside: "0 < d \<Longrightarrow> nonneg (d - 1) w \<Longrightarrow> d + depth_of w = 1 \<Longrightarrow> \<not> closes_early d (w @ [41])"
proof (induction w arbitrary: d)
  case (Cons c w)
  then have "\<not> closes_early (d + paren c) (w @ [41])" by (intro Cons.IH) (auto simp: algebra_simps)
  with Cons show ?case by auto
qed simp

lemma full_parens: "balanced w \<Longrightarrow> hasFullOuterParens (40 # w @ [41])"
  using closes_early_inside [of 1 w]
  by (simp add: hasFullOuterParens_def balanced_def starts_with_def ends_with_def)

lemma combined_split:
  assumes "base \<noteq> []" and "trimmed base" and "balanced base" and "\<not> hasFullOuterParens base"
    and "is_rule (lit ''('' @ base @ lit '')'') = Ret False" and "gs \<noteq> []" and "\<forall>g \<in> set gs. ok_group g"
  shows "splitBillingExprAndRequestRules (combineBillingExpr base (buildRequestRuleExpr gs)) =
    Ret (base, buildRequestRuleExpr gs)"
proof -
  let ?b = "40 # base @ [41]" and ?fs = "map buildRuleGroupFactor gs"
  note rt = rules_text [OF assms(7)]
  have b: "opaque 42 0 ?b" "depth_of ?b = 0" "trimmed ?b"
    using opaque_parens [OF assms(3), of 42] balanced_parens [OF assms(3)]
    by (auto simp: balanced_def trimmed_def is_ws_def)
  have fs: "\<forall>w \<in> set (?b # ?fs). opaque 42 0 w \<and> depth_of w = 0 \<and> trimmed w"
    using b factor_text assms(7) by auto
  have comb: "combineBillingExpr base (buildRequestRuleExpr gs) = join (lit '' * '') (?b # ?fs)"
    using assms(1,2,6) rt(2) [OF assms(6)] unfolding combineBillingExpr_def rt(1)
    by (cases gs) (auto simp: trim_trimmed Let_def)
  have "trimmed (join (lit '' * '') (?b # ?fs)) \<and> join (lit '' * '') (?b # ?fs) \<noteq> []"
    by (rule trimmed_join) (use b(3) factor_text assms(7) in auto)
  moreover have "split_top (lit '' * '') 0 [] (join (lit '' * '') (?b # ?fs)) = ?b # ?fs"
    by (rule split_top_join [where x = 42]) (use fs in auto)
  then have sp: "splitTopLevelMultiply (join (lit '' * '') (?b # ?fs)) = ?b # ?fs"
    unfolding splitTopLevelMultiply_def using factor_text assms(7) by (simp add: filter_id)
  have cl: "classify (?b # ?fs) = Ret (?fs, [?b])"
    using assms(5) classify_rules [OF assms(7)] by simp
  have u: "unwrapOuterParens ?b = base"
    using b(3) full_parens [OF assms(3)] assms(2,4)
    by (simp add: unwrapOuterParens_def trim_trimmed unwrap_parens.simps [of ?b] unwrap_parens.simps [of base])
  have "trim (join (lit '' * '') (?b # ?fs)) = join (lit '' * '') (?b # ?fs)"
    using calculation by (simp only: trim_trimmed)
  then show ?thesis
    unfolding splitBillingExprAndRequestRules_def comb Let_def
    using calculation assms(6) by (simp only: sp cl thrown.case prod.case) (simp add: u rt(1))
qed

text \<open>C6: A base expression and its request rules survive being combined and split again: for a base
  that is trimmed, has balanced parentheses, is not itself wrapped in parentheses and is not a
  rule, and for every non-empty list of printable rule groups (so without a comparison of a body parameter), splitting the combination gives
  back exactly the base and the printed rules.\<close>

theorem combine_split_roundtrip:
  assumes "base \<noteq> []" and "trimmed base" and "balanced base" and "\<not> hasFullOuterParens base"
    and "is_rule (lit ''('' @ base @ lit '')'') = Ret False" and "gs \<noteq> []" and "\<forall>g \<in> set gs. ok_group g"
  shows "splitBillingExprAndRequestRules (combineBillingExpr base (buildRequestRuleExpr gs)) =
    Ret (base, buildRequestRuleExpr gs)"
  by (rule combined_split [OF assms])

theorem combine_split_roundtrip_witness:
  "splitBillingExprAndRequestRules (combineBillingExpr (lit ''p * 2 + c * 6'') (buildRequestRuleExpr [sample_group])) =
   Ret (lit ''p * 2 + c * 6'', buildRequestRuleExpr [sample_group])"
  by (rule combine_split_roundtrip) (simp_all only: list.set ball_simps sample_group_ok simp_thms, code_simp+)

section \<open>Conditions the parser cannot read\<close>

lemma eq_fail:
  assumes "w \<noteq> []" and "34 \<notin> set w" and "\<not> starts_with s (lit '' == '')"
  shows "re_match re_eq (call_text (lit ''param'') w @ s) = None"
proof -
  let ?T = "Seq (Grp 3 (many1 (Cls not_newline))) (Seq Eol Eps)"
  have t: "call_text (lit ''param'') w @ s = lit ''param'' @ [40, 34] @ w @ 34 # (41 # s)"
    by (simp add: call_text_def)
  have r: "re_eq = Seq Bol (Seq (Grp 1 (words [''param'', ''header''])) (Seq (str [40, 34])
      (Seq (Grp 2 (many1 (Cls not_quote))) (Seq (str (34 # [41, 32, 61, 61, 32])) ?T))))"
    by (simp add: re_eq_def)
  have "mt (words [''param'', ''header'']) (pv, lit ''param'' @ [40, 34] @ u, c) =
      [(adv pv (lit ''param''), [40, 34] @ u, c)]" for pv u c
    by (auto simp: words_def mt_str starts_with_def)
  then have g: "mt (Seq (Grp 1 (words [''param'', ''header''])) q) (pv, lit ''param'' @ [40, 34] @ u, c) =
      mt q (adv pv (lit ''param''), [40, 34] @ u, (1, lit ''param'') # c)" for pv u c q
    by (simp add: comp_def)
  have "\<not> starts_with (34 # 41 # s) (34 # [41, 32, 61, 61, 32])" using assms(3) by (simp add: starts_with_def)
  from seq_str_fail [OF this]
  have e: "mt (Seq (str (34 # [41, 32, 61, 61, 32])) q) (pv, 34 # 41 # s, c) = []" for q pv c .
  show ?thesis
    by (simp only: r t match_calc g seq_str quoted_then [OF assms(1,2)] e)
qed

lemma param_cmp_alone:
  assumes "w \<noteq> []" and "34 \<notin> set w" and "\<not> starts_with s (lit '' ='')" and "\<not> starts_with s (lit '' !'')"
  shows "tryParseRequestCondition (call_text (lit ''param'') w @ s) = Ret None"
proof -
  let ?T = "call_text (lit ''param'') w @ s"
  have pre: "\<not> starts_with s (a @ b)" if "\<not> starts_with s a" for a b
    using that by (auto simp: starts_with_iff)
  have c: "re_match (cat (Bol # call_of ''param'' n @ str a # rs)) ?T = None" if "\<not> starts_with s a" for n a rs
    by (subst call_re_match [OF assms(1,2)]) (simp only: cat.simps seq_str_fail [OF that] list.case)
  have 1: "re_match re_header_exists ?T = None"
    unfolding re_header_exists_def by (rule call_re_fail) (simp add: starts_with_def call_text_def)
  have 2: "re_match re_param_exists ?T = None" "re_match re_param_has ?T = None" "re_match re_param_cmp ?T = None"
    unfolding re_param_exists_def re_param_has_def re_param_cmp_def
    by (rule c; use pre [OF assms(4), of "lit ''= nil''"] pre [OF assms(4), of "lit ''= nil && has(''"]
        pre [OF assms(4), of "lit ''= nil && ''"] in simp)+
  have 3: "re_match re_header_has ?T = None"
    unfolding re_header_has_def by (rule str_re_fail) (simp add: call_text_def starts_with_def)
  have 4: "re_match re_eq ?T = None"
    by (rule eq_fail [OF assms(1,2)]) (use pre [OF assms(3), of "lit ''= ''"] in simp)
  show ?thesis
    unfolding tryParseRequestCondition_def parse_param_condition_def parse_param_cmp_def parse_eq_condition_def 1 2 3 4
    using ph_not_time [of "''param''" w s] by simp
qed

text \<open>A numeric comparison on a request parameter is never read back: the printed condition has
  the form \<^verbatim>\<open>param(..) != nil && param(..) > n\<close>, the parser first splits it at \<^verbatim>\<open>&&\<close>, and the
  second half alone matches no pattern, so the whole rule expression is rejected.\<close>

lemma param_comparison_unread:
  assumes "path \<noteq> []" and "plain path" and "numlit v" and "numlit m"
    and "md \<in> {MATCH_GT, MATCH_GTE, MATCH_LT, MATCH_LTE}"
  shows "tryParseRequestRuleExpr (buildRequestRuleExpr
    [\<lparr>conditions = [ParamHeaderCondition SParam path md v], multiplier = m\<rparr>]) = Ret None"
proof -
  let ?c = "call_text (lit ''param'') path"
  let ?x = "?c @ lit '' != nil''" and ?y = "?c @ 32 # cmp_op md @ 32 # v"
  let ?in = "join (lit '' && '') [?x, ?y]"
  have w: "34 \<notin> set path" "trim path = path" "list_all plain_char path" "flat path"
    using assms(2) plain_path flat_plain by (auto simp: plain_def trim_trimmed)
  have op: "flat (32 # cmp_op md @ [32])" "\<not> starts_with (32 # cmp_op md @ 32 # v) (lit '' ='')"
    "\<not> starts_with (32 # cmp_op md @ 32 # v) (lit '' !'')"
    by (auto simp: cmp_op_def flat_def starts_with_def)
  have f: "lit ''param'' \<noteq> []" "\<not> is_ws (hd (lit ''param''))" "flat (lit ''param'')"
    by (auto simp: is_ws_def flat_def)
  have x: "cond_text ?x"
    using call_cond_text [OF f w(4), of "[32]" "lit ''!= nil''"] by (simp add: flat_def trimmed_def is_ws_def)
  have y: "cond_text ?y"
    using call_cond_text [OF f w(4) op(1), of v] numlit_trimmed [OF assms(3)] flat_numlit [OF assms(3)] by simp
  have "pick_mode (lit ''param'') MATCH_EQ (Some md) = md"
    using assms(5) by (auto simp: pick_mode_def getRequestRuleMatchOptions_def match_modes Let_def)
  then have "buildRequestConditionExpr (ParamHeaderCondition SParam path md v) = build_ph_expr SParam path md v"
    using assms(1) w(2) by (simp add: normalizeCondition_request_def or_empty_def)
  also have "\<dots> = ?in"
  proof -
    have "md \<noteq> MATCH_EXISTS" "md \<noteq> MATCH_CONTAINS" using assms(5) by (auto simp: match_modes)
    moreover have "re_test NUMERIC_LITERAL_REGEX v" "trim v = v" using assms(3) by (simp_all add: numlit_def [symmetric])
    ultimately show ?thesis
      using assms(5) by (simp add: build_ph_expr_def json_quote_plain [OF w(3)] call_text_def)
  qed
  finally have e: "buildRequestConditionExpr (ParamHeaderCondition SParam path md v) = ?in" .
  have m: "list_all num_char m" "m \<noteq> []" "trim m = m" "re_test NUMERIC_LITERAL_REGEX m"
    using numlit_chars [OF assms(4)] assms(4) by (auto simp: numlit_def [symmetric])
  let ?F = "40 # ?in @ factor_end m"
  have "?in \<noteq> []" by (simp add: call_text_def)
  then have b: "buildRequestRuleExpr [\<lparr>conditions = [ParamHeaderCondition SParam path md v], multiplier = m\<rparr>] = ?F"
    by (rule build_single [OF e _ assms(4)])
  have f: "tryParseRuleGroupFactor ?F = Ret None"
  proof -
    have "split_top (lit '' && '') 0 [] ?in = [?x, ?y]"
      by (rule split_top_join [where x = 38]) (use x y in \<open>auto simp: cond_text_def opaque_absent balanced_def\<close>)
    then have sp: "splitTopLevelAnd ?in = [?x, ?y]"
      unfolding splitTopLevelAnd_def using x y by (simp add: cond_text_def)
    have t: "trim ?x = ?x" "trim ?y = ?y" using x y by (simp_all add: cond_text_def trim_trimmed)
    have "parse_all (\<lambda>ap. tryParseRequestCondition (trim ap)) [?x, ?y] = Ret None"
      unfolding parse_all.simps t exists_parse(2) [OF assms(1) w(1)] param_cmp_alone [OF assms(1) w(1) op(2,3)] by simp
    moreover have "re_match re_factor ?F = Some (map_of [(2, m), (1, ?in)])"
      by (rule factor_match) (use m in \<open>simp_all add: call_text_def\<close>)
    moreover have "cap (map_of [(2, m), (1, ?in)]) 1 = ?in" by (simp add: cap_def)
    ultimately show ?thesis
      unfolding tryParseRuleGroupFactor_def by (simp only: sp option.case thrown.case)
  qed
  have "balanced ?in"
    by (rule balanced_join) (use x y in \<open>auto simp: cond_text_def balanced_def\<close>)
  note sf = single_factor [OF this assms(4)]
  show ?thesis
    unfolding b tryParseRequestRuleExpr_def Let_def sf(2) by (simp only: sf(1) parse_all.simps f thrown.case option.case) simp
qed

text \<open>Without spaces around the plus sign the tier parser loses a price: the number pattern of
  \<^verbatim>\<open>BILLING_VAR_REGEX\<close> takes the sign along, the coefficient is not a number, and the price read
  is zero; with spaces the prices are read.\<close>

lemma compact_tier_loses_price:
  \<open>map (\<lambda>t. map_of (t_prices t) (lit ''inputPrice'')) (parseTiersFromExpr (lit ''tier("base", p*2+c*6)'')) = [Some (Fin 0)] \<and>
   map (\<lambda>t. map_of (t_prices t) (lit ''inputPrice'')) (parseTiersFromExpr (lit ''tier("base", p * 2 + c * 6)'')) = [Some (Fin 2)]\<close>
  by code_simp

end
