(* ===== verification/Channel_Utils.thy ===== *)
theory Channel_Utils
  imports JS_Json
begin

text \<open>
  The channel list (\<^verbatim>\<open>features/channels/lib/channel-utils.ts\<close>, \<^verbatim>\<open>multi-key-utils.ts\<close> and the
  tables of \<^verbatim>\<open>constants.ts\<close>): labels and icons of channel types, masking and counting of keys,
  lists of models and groups, the attention flags, the aggregation of channels by tag and the
  removal of duplicate keys. String comparison by locale is a parameter.
\<close>

section \<open>Channel types\<close>

definition CHANNEL_TYPES :: "(nat \<times> string) list" where
  "CHANNEL_TYPES =
     [(0, ''Unknown''), (1, ''OpenAI''), (2, ''Midjourney''), (3, ''Azure''), (4, ''Ollama''),
      (5, ''MidjourneyPlus''), (6, ''OpenAIMax''), (7, ''OhMyGPT''), (8, ''Custom''), (9, ''AILS''),
      (10, ''AI Proxy''), (11, ''PaLM''), (12, ''API2GPT''), (13, ''AIGC2D''), (14, ''Anthropic''),
      (15, ''Baidu''), (16, ''Zhipu''), (17, ''Ali''), (18, ''Xunfei''), (19, ''360''),
      (20, ''OpenRouter''), (21, ''AI Proxy Library''), (22, ''FastGPT''), (23, ''Tencent''),
      (24, ''Gemini''), (25, ''Moonshot''), (26, ''Zhipu V4''), (27, ''Perplexity''),
      (31, ''LingYiWanWu''), (33, ''AWS''), (34, ''Cohere''), (35, ''MiniMax''), (36, ''SunoAPI''),
      (37, ''Dify''), (38, ''Jina''), (39, ''Cloudflare''), (40, ''SiliconFlow''), (41, ''Vertex AI''),
      (42, ''Mistral''), (43, ''DeepSeek''), (44, ''MokaAI''), (45, ''VolcEngine''), (46, ''Baidu V2''),
      (47, ''Xinference''), (48, ''xAI''), (49, ''Coze''), (50, ''Kling''), (51, ''Jimeng''),
      (52, ''Vidu''), (53, ''Submodel''), (54, ''DoubaoVideo''), (55, ''Sora''), (56, ''Replicate''),
      (57, ''Codex''), (58, ''Xiaomi MiMO''), (59, ''Xiaomi MiMO International'')]"

definition CHANNEL_TYPE_DISPLAY_ORDER :: "nat list" where
  "CHANNEL_TYPE_DISPLAY_ORDER =
     [1, 14, 33, 24, 43, 58, 59, 3, 41, 48, 42, 34, 20, 4, 40, 27, 25, 17, 26, 15, 46, 23, 18, 45,
      31, 35, 49, 19, 47, 37, 38, 39, 11, 8, 57, 22, 21, 44, 2, 5, 36, 50, 51, 52, 53, 54, 55, 56]"

fun first_options :: "nat list \<Rightarrow> (nat \<times> string) list" where
  "first_options [] = []"
| "first_options (i # ids) =
     (case map_of CHANNEL_TYPES i of
        Some l \<Rightarrow> if l \<noteq> [] then (i, l) # first_options ids else first_options ids
      | None \<Rightarrow> first_options ids)"

definition CHANNEL_TYPE_OPTIONS :: "(nat \<times> string) list" where
  "CHANNEL_TYPE_OPTIONS =
     (let ordered = first_options CHANNEL_TYPE_DISPLAY_ORDER; seen = map fst ordered in
      ordered @ filter (\<lambda>(i, _). i \<noteq> 0 \<and> i \<notin> set seen) CHANNEL_TYPES)"

definition getChannelTypeLabel :: "nat \<Rightarrow> string" where
  "getChannelTypeLabel ty = (case map_of CHANNEL_TYPES ty of Some l \<Rightarrow> if l = [] then ''Unknown'' else l | None \<Rightarrow> ''Unknown'')"

definition TYPE_TO_ICON :: "(nat \<times> string) list" where
  "TYPE_TO_ICON =
     [(1, ''OpenAI''), (6, ''OpenAI''), (7, ''OpenAI''), (8, ''OpenAI''), (3, ''Azure''), (14, ''Claude''),
      (24, ''Gemini''), (11, ''Google''), (41, ''Gemini''), (33, ''Aws''), (39, ''Cloudflare''),
      (15, ''Baidu''), (46, ''Baidu''), (16, ''Zhipu''), (26, ''Zhipu''), (17, ''Qwen''), (18, ''Spark''),
      (23, ''Hunyuan''), (19, ''Ai360''), (25, ''Moonshot''), (31, ''Yi''), (35, ''Minimax''),
      (45, ''Volcengine''), (58, ''XiaomiMiMo''), (59, ''XiaomiMiMo''), (4, ''Ollama''),
      (27, ''Perplexity''), (34, ''Cohere''), (42, ''Mistral''), (43, ''DeepSeek''), (48, ''XAI''),
      (49, ''Coze''), (40, ''SiliconCloud''), (44, ''OpenAI''), (20, ''OpenRouter''), (2, ''Midjourney''),
      (5, ''Midjourney''), (50, ''Kling''), (51, ''Jimeng''), (52, ''Vidu''), (36, ''Suno''),
      (55, ''OpenAI''), (54, ''Doubao''), (56, ''Replicate''), (37, ''Dify''), (38, ''Jina''),
      (22, ''FastGPT''), (47, ''Xinference''), (53, ''OpenAI''), (10, ''OpenAI''), (21, ''OpenAI''),
      (12, ''OpenAI''), (13, ''OpenAI''), (9, ''OpenAI'')]"

definition getChannelTypeIcon :: "nat \<Rightarrow> string" where
  "getChannelTypeIcon ty = (case map_of TYPE_TO_ICON ty of Some l \<Rightarrow> l | None \<Rightarrow> ''OpenAI'')"

definition TYPE_TO_KEY_PROMPT :: "(nat \<times> string) list" where
  "TYPE_TO_KEY_PROMPT =
     [(15, ''Format: APIKey|SecretKey''), (18, ''Format: APPID|APISecret|APIKey''),
      (22, ''Format: APIKey-AppId, e.g., fastgpt-0sp2gtvfdgyi4k30jwlgwf1i-64f335d84283f05518e9e041''),
      (23, ''Format: AppId|SecretId|SecretKey''), (33, ''Format: Ak|Sk|Region''),
      (50, ''Format: AccessKey|SecretKey (or just ApiKey if upstream is New API)''),
      (51, ''Format: Access Key ID|Secret Access Key''),
      (57, ''Paste Codex OAuth JSON credential (access_token / refresh_token / account_id)'')]"

definition getKeyPromptForType :: "nat \<Rightarrow> string" where
  "getKeyPromptForType ty =
     (case map_of TYPE_TO_KEY_PROMPT ty of Some l \<Rightarrow> l | None \<Rightarrow> ''Enter API key for this channel'')"

section \<open>Channels\<close>

record channel_info =
  is_multi_key :: bool
  multi_key_size :: jsnum
  multi_key_status_list :: "(jstring \<times> jval) list option"
  multi_key_mode :: jstring

text \<open>
  A channel. Fields that may be \<^verbatim>\<open>null\<close>, \<^verbatim>\<open>undefined\<close> or change their type in an aggregate row
  are values; \<open>c_rest\<close> holds the properties nothing here reads.
\<close>

record channel =
  c_id :: jval
  c_type :: jsnum
  c_key :: jstring
  c_status :: jval
  c_name :: jstring
  c_weight :: jval
  c_created_time :: jsnum
  c_test_time :: jsnum
  c_response_time :: jsnum
  c_balance :: jsnum
  c_balance_updated_time :: jsnum
  c_models :: jstring
  c_group :: jstring
  c_used_quota :: jsnum
  c_priority :: jval
  c_tag :: "jstring option"
  c_info :: "channel_info option"
  c_rest :: "(jstring \<times> jval) list"

record tag_row = channel +
  children :: "channel list"

definition strict_eq :: "jval \<Rightarrow> jval \<Rightarrow> bool" where
  "strict_eq v w \<longleftrightarrow> (case (v, w) of (JNum x, JNum y) \<Rightarrow> jeq x y | _ \<Rightarrow> v = w)"

definition isChannelEnabled :: "channel \<Rightarrow> bool" where
  "isChannelEnabled ch \<longleftrightarrow> strict_eq (c_status ch) (JNum (Fin 1))"

definition isMultiKeyChannel :: "channel \<Rightarrow> bool" where
  "isMultiKeyChannel ch \<longleftrightarrow> (case c_info ch of None \<Rightarrow> False | Some ci \<Rightarrow> is_multi_key ci)"

datatype variant = Success | Warning | Danger | Neutral | Info

definition getChannelStatusBadge :: "nat \<Rightarrow> variant \<times> string" where
  "getChannelStatusBadge st =
     (if st = 1 then (Success, ''Enabled'') else if st = 2 then (Danger, ''Disabled'')
      else if st = 3 then (Warning, ''Auto Disabled'') else (Neutral, ''Unknown''))"

definition getMultiKeyStatusBadge :: "nat \<Rightarrow> variant \<times> string" where
  "getMultiKeyStatusBadge st =
     (if st = 2 then (Neutral, ''Manual Disabled'') else if st = 3 then (Danger, ''Auto Disabled'')
      else (Success, ''Enabled''))"

definition getMultiKeyStatusConfig :: "nat \<Rightarrow> variant \<times> string" where
  "getMultiKeyStatusConfig st =
     (if st = 1 \<or> st = 2 \<or> st = 3 then getMultiKeyStatusBadge st else (Neutral, ''Unknown''))"

datatype multi_key_action = ADelete | AEnable | ADisable | AEnableAll | ADisableAll | ADeleteDisabled

fun getMultiKeyConfirmMessage :: "multi_key_action option \<Rightarrow> string" where
  "getMultiKeyConfirmMessage None = []"
| "getMultiKeyConfirmMessage (Some ADelete) =
     ''Are you sure you want to delete this key? This action cannot be undone.''"
| "getMultiKeyConfirmMessage (Some AEnable) = ''Enable this key?''"
| "getMultiKeyConfirmMessage (Some ADisable) = ''Disable this key?''"
| "getMultiKeyConfirmMessage (Some AEnableAll) = ''Are you sure you want to enable all keys?''"
| "getMultiKeyConfirmMessage (Some ADisableAll) = ''Are you sure you want to disable all enabled keys?''"
| "getMultiKeyConfirmMessage (Some ADeleteDisabled) =
     ''Are you sure you want to delete all auto-disabled keys? This action cannot be undone.''"

definition isDestructiveAction :: "multi_key_action option \<Rightarrow> bool" where
  "isDestructiveAction a \<longleftrightarrow> a \<in> {Some ADelete, Some ADeleteDisabled, Some ADisableAll}"

section \<open>Keys\<close>

definition nonblank_lines :: "jstring \<Rightarrow> jstring list" where
  "nonblank_lines s = filter (\<lambda>k. trim k \<noteq> []) (split1 10 s)"

text \<open>\<^verbatim>\<open>s.slice(-n)\<close>\<close>

definition last_chars :: "nat \<Rightarrow> jstring \<Rightarrow> jstring" where
  "last_chars n s = drop (length s - n) s"

definition formatChannelKey :: "jstring \<Rightarrow> bool \<Rightarrow> jstring" where
  "formatChannelKey k isMultiKey =
     (if k = [] then []
      else if isMultiKey then nat_str (length (nonblank_lines k)) @ lit '' keys''
      else if length k \<le> 16 then take 4 k @ lit ''...'' @ last_chars 4 k
      else take 8 k @ lit ''...'' @ last_chars 8 k)"

definition formatKeyPreview :: "jstring \<Rightarrow> nat \<Rightarrow> jstring" where
  "formatKeyPreview k maxLength =
     (if k = [] then [] else if length k \<le> maxLength then k else take maxLength k @ lit ''...'')"

definition countKeys :: "jstring \<Rightarrow> nat" where
  "countKeys k = (if k = [] then 0 else length (nonblank_lines k))"

record dedup_result =
  deduplicatedText :: jstring
  beforeCount :: nat
  afterCount :: nat
  removedCount :: int

fun dedup_loop :: "jstring list \<Rightarrow> jstring list \<Rightarrow> jstring list" where
  "dedup_loop [] acc = acc"
| "dedup_loop (line # ls) acc =
     dedup_loop ls (if trim line \<noteq> [] \<and> trim line \<notin> set acc then acc @ [trim line] else acc)"

definition deduplicateKeys :: "jstring \<Rightarrow> dedup_result" where
  "deduplicateKeys keysText =
     (if keysText = [] \<or> trim keysText = []
      then \<lparr>deduplicatedText = [], beforeCount = 0, afterCount = 0, removedCount = 0\<rparr>
      else
        let keyLines = split1 10 keysText; ks = dedup_loop keyLines [] in
        \<lparr>deduplicatedText = join [10] ks, beforeCount = length keyLines, afterCount = length ks,
         removedCount = int (length keyLines) - int (length ks)\<rparr>)"

section \<open>Lists, settings and display\<close>

definition parseModelsList :: "jstring \<Rightarrow> jstring list" where
  "parseModelsList models = (if models = [] then [] else split_trim 44 models)"

definition group_cmp :: "(jstring \<Rightarrow> jstring \<Rightarrow> int) \<Rightarrow> jstring \<Rightarrow> jstring \<Rightarrow> int" where
  "group_cmp localeCompare a b =
     (if a = lit ''default'' then - 1 else if b = lit ''default'' then 1 else localeCompare a b)"

definition parseGroupsList :: "(jstring \<Rightarrow> jstring \<Rightarrow> int) \<Rightarrow> jstring \<Rightarrow> jstring list" where
  "parseGroupsList localeCompare groups =
     (if groups = [] then [] else js_sort (group_cmp localeCompare) (split_trim 44 groups))"

definition formatModelsString :: "jstring list \<Rightarrow> jstring" where
  "formatModelsString models = join [44] models"

definition formatGroupsString :: "jstring list \<Rightarrow> jstring" where
  "formatGroupsString groups = join [44] groups"

definition parseChannelSettings :: "jstring option \<Rightarrow> jval" where
  "parseChannelSettings settingStr =
     (case settingStr of
        Some (c # s) \<Rightarrow> (case json_parse (c # s) of None \<Rightarrow> JObj [] | Some v \<Rightarrow> v)
      | _ \<Rightarrow> JObj [])"

definition parseChannelOtherSettings :: "jstring option \<Rightarrow> jval" where
  "parseChannelOtherSettings settingsStr =
     (if settingsStr = Some (lit ''{}'') then JObj [] else parseChannelSettings settingsStr)"

definition validateChannelSettings :: "jstring \<Rightarrow> bool" where
  "validateChannelSettings settings \<longleftrightarrow> settings = [] \<or> trim settings = [] \<or> json_parse settings \<noteq> None"

definition getBalanceVariant :: "jsnum \<Rightarrow> variant" where
  "getBalanceVariant balance =
     (if jeq balance (Fin 0) then Neutral else if jlt balance (Fin 1) then Danger
      else if jlt balance (Fin 10) then Warning else Success)"

definition formatResponseTime :: "jsnum \<Rightarrow> jstring" where
  "formatResponseTime timeMs =
     (if jeq timeMs (Fin 0) then lit ''Not tested''
      else if jlt timeMs (Fin 1000) then num_str timeMs @ lit ''ms''
      else toFixed 2 (jdiv timeMs (Fin 1000)) @ lit ''s'')"

definition getResponseTimeConfig :: "jsnum \<Rightarrow> variant \<times> string" where
  "getResponseTimeConfig timeMs =
     (if jeq timeMs (Fin 0) then (Neutral, ''Not tested'')
      else if jle timeMs (Fin 500) then (Success, ''Excellent'')
      else if jle timeMs (Fin 1000) then (Info, ''Good'')
      else if jle timeMs (Fin 2000) then (Warning, ''Fair'')
      else (Danger, ''Poor''))"

definition getPriorityDisplay :: "jval \<Rightarrow> jstring" where
  "getPriorityDisplay priority = (if nullish priority then lit ''0'' else str_of priority)"

definition getWeightDisplay :: "jval \<Rightarrow> jstring" where
  "getWeightDisplay weight = (if nullish weight then lit ''0'' else str_of weight)"

definition validateChannelName :: "jstring \<Rightarrow> bool" where
  "validateChannelName name \<longleftrightarrow> trim name \<noteq> []"

definition validateApiKey :: "jstring \<Rightarrow> bool" where
  "validateApiKey k \<longleftrightarrow> trim k \<noteq> []"

definition validateModels :: "jstring \<Rightarrow> bool" where
  "validateModels models \<longleftrightarrow> parseModelsList models \<noteq> []"

definition validateGroups :: "(jstring \<Rightarrow> jstring \<Rightarrow> int) \<Rightarrow> jstring \<Rightarrow> bool" where
  "validateGroups localeCompare groups \<longleftrightarrow> parseGroupsList localeCompare groups \<noteq> []"

section \<open>Attention\<close>

definition all_keys_disabled :: "channel \<Rightarrow> bool" where
  "all_keys_disabled ch \<longleftrightarrow>
     (case c_info ch of
        None \<Rightarrow> False
      | Some ci \<Rightarrow>
          is_multi_key ci \<and>
          (case multi_key_status_list ci of
             None \<Rightarrow> False
           | Some ps \<Rightarrow> jle (multi_key_size ci) (Fin (of_nat (length ps)))))"

definition low_balance :: "channel \<Rightarrow> bool" where
  "low_balance ch \<longleftrightarrow> jlt (Fin 0) (c_balance ch) \<and> jlt (c_balance ch) (Fin 1)"

definition channelNeedsAttention :: "channel \<Rightarrow> bool" where
  "channelNeedsAttention ch \<longleftrightarrow>
     (if strict_eq (c_status ch) (JNum (Fin 3)) then True
      else if low_balance ch then True
      else if all_keys_disabled ch then True else False)"

definition getAttentionReason :: "channel \<Rightarrow> string option" where
  "getAttentionReason ch =
     (if strict_eq (c_status ch) (JNum (Fin 3)) then Some ''Auto-disabled''
      else if low_balance ch then Some ''Low balance''
      else if all_keys_disabled ch then Some ''All keys disabled'' else None)"

section \<open>Aggregation by tag\<close>

definition tag_of :: "channel \<Rightarrow> jstring" where
  "tag_of ch = (case c_tag ch of None \<Rightarrow> [] | Some t \<Rightarrow> t)"

definition new_tag_row :: "jstring \<Rightarrow> channel \<Rightarrow> tag_row" where
  "new_tag_row tag ch =
     \<lparr>c_id = JStr tag, c_type = Fin 0, c_key = tag, c_status = JUndef, c_name = tag,
      c_weight = JNum (Fin (- 1)), c_created_time = Fin 0, c_test_time = Fin 0, c_response_time = Fin 0,
      c_balance = Fin 0, c_balance_updated_time = Fin 0, c_models = [], c_group = [],
      c_used_quota = Fin 0, c_priority = JNum (Fin (- 1)), c_tag = Some tag, c_info = c_info ch,
      c_rest = c_rest ch, children = []\<rparr>"

text \<open>The same value, or \<^verbatim>\<open>null\<close> when they differ; \<open>-1\<close> marks the start.\<close>

definition merge_same :: "jval \<Rightarrow> jval \<Rightarrow> jval" where
  "merge_same cur v =
     (if strict_eq cur (JNum (Fin (- 1))) then v else if \<not> strict_eq cur v then JNull else cur)"

definition csv_parts :: "jstring \<Rightarrow> jstring list" where
  "csv_parts s = filter (\<lambda>w. w \<noteq> []) (split1 44 s)"

definition merge_group :: "jstring \<Rightarrow> jstring \<Rightarrow> jstring" where
  "merge_group cur g =
     (if cur = [] then g
      else foldl (\<lambda>acc w. if w \<in> set (csv_parts cur) then acc else acc @ [44] @ w) cur (csv_parts g))"

definition merge_status :: "jval \<Rightarrow> jval \<Rightarrow> jval" where
  "merge_status cur st =
     (if strict_eq st (JNum (Fin 1)) then JNum (Fin 1) else if cur = JUndef then st else cur)"

definition add_child :: "channel \<Rightarrow> tag_row \<Rightarrow> tag_row" where
  "add_child ch row =
     (let n = of_nat (length (children row) + 1) in
      row\<lparr>children := children row @ [ch],
          c_used_quota := jadd (c_used_quota row) (c_used_quota ch),
          c_response_time :=
            jdiv (jadd (jmul (c_response_time row) (jsub (Fin n) (Fin 1))) (c_response_time ch)) (Fin n),
          c_priority := merge_same (c_priority row) (c_priority ch),
          c_weight := merge_same (c_weight row) (c_weight ch),
          c_group := merge_group (c_group row) (c_group ch),
          c_status := merge_status (c_status row) (c_status ch)\<rparr>)"

text \<open>One turn of the loop. The row of a tag is found by its key, which is the tag itself.\<close>

definition aggregate_step :: "tag_row list \<Rightarrow> channel \<Rightarrow> tag_row list" where
  "aggregate_step rows ch =
     (let tag = tag_of ch;
          rows = (if tag \<in> set (map c_key rows) then rows else rows @ [new_tag_row tag ch]) in
      map (\<lambda>row. if c_key row = tag then add_child ch row else row) rows)"

definition aggregateChannelsByTag :: "channel list \<Rightarrow> tag_row list" where
  "aggregateChannelsByTag channels = foldl aggregate_step [] channels"

section \<open>Lemmas\<close>

text \<open>The row of one tag, built from its channels alone.\<close>

definition row_of :: "jstring \<Rightarrow> channel list \<Rightarrow> tag_row" where
  "row_of tag cs = foldl (\<lambda>row ch. add_child ch row) (new_tag_row tag (hd cs)) cs"

definition group_rows :: "channel list \<Rightarrow> tag_row list" where
  "group_rows chs = map (\<lambda>t. row_of t (filter (\<lambda>c. tag_of c = t) chs)) (uniq (map tag_of chs))"

lemma add_child_key [simp]: "c_key (add_child ch row) = c_key row"
  by (simp add: add_child_def Let_def)

lemma foldl_add_key [simp]: "c_key (foldl (\<lambda>row ch. add_child ch row) row cs) = c_key row"
  by (induction cs arbitrary: row) auto

lemma row_of_key [simp]: "c_key (row_of t cs) = t"
  by (simp add: row_of_def) (simp add: new_tag_row_def)

lemma row_of_snoc: "cs \<noteq> [] \<Longrightarrow> row_of t (cs @ [c]) = add_child c (row_of t cs)"
  by (simp add: row_of_def)

lemma row_of_single: "row_of t [c] = add_child c (new_tag_row t c)"
  by (simp add: row_of_def)

lemma uniq_snoc: "uniq (xs @ [x]) = uniq xs @ (if x \<in> set xs then [] else [x])"
  by (simp add: uniq_append)

lemma group_rows_snoc: "group_rows (chs @ [c]) = aggregate_step (group_rows chs) c"
proof (cases "tag_of c \<in> tag_of ` set chs")
  case True
  have "row_of t (filter (\<lambda>x. tag_of x = t) (chs @ [c])) =
      (if t = tag_of c then add_child c (row_of t (filter (\<lambda>x. tag_of x = t) chs))
       else row_of t (filter (\<lambda>x. tag_of x = t) chs))" if "t \<in> set (uniq (map tag_of chs))" for t
  proof -
    have "filter (\<lambda>x. tag_of x = t) chs \<noteq> []" using that by (auto simp: filter_empty_conv)
    then show ?thesis by (cases "t = tag_of c") (auto simp: row_of_snoc)
  qed
  moreover have "map c_key (group_rows chs) = uniq (map tag_of chs)"
    by (simp add: group_rows_def comp_def)
  ultimately show ?thesis
    using True by (simp add: group_rows_def uniq_snoc aggregate_step_def Let_def comp_def)
next
  case False
  have "row_of t (filter (\<lambda>x. tag_of x = t) (chs @ [c])) = row_of t (filter (\<lambda>x. tag_of x = t) chs)"
    and "t \<noteq> tag_of c" if "t \<in> set (uniq (map tag_of chs))" for t
    using that False by (auto simp: image_iff)
  moreover have "filter (\<lambda>x. tag_of x = tag_of c) (chs @ [c]) = [c]"
    using False by (auto simp: filter_empty_conv image_iff)
  moreover have "map c_key (group_rows chs) = uniq (map tag_of chs)"
    by (simp add: group_rows_def comp_def)
  ultimately show ?thesis
    using False by (auto simp: group_rows_def uniq_snoc aggregate_step_def Let_def comp_def row_of_single new_tag_row_def)
qed

lemma aggregate_is_grouping: "aggregateChannelsByTag chs = group_rows chs"
  by (induction chs rule: rev_induct)
    (simp_all add: aggregateChannelsByTag_def group_rows_snoc, simp add: group_rows_def)

text \<open>C9: Aggregation by tag is a grouping: the rows are, in the order in which the tags first appear,
  one row per tag, and each row is what the channels of that tag alone would give.\<close>

theorem aggregate_groups:
  "aggregateChannelsByTag chs = group_rows chs"
  by (rule aggregate_is_grouping)

section \<open>What a row shows\<close>

lemma foldl_children:
  "children (foldl (\<lambda>row ch. add_child ch row) row cs) = children row @ cs"
  by (induction cs arbitrary: row) (auto simp: add_child_def Let_def)

lemma foldl_status:
  "c_status (foldl (\<lambda>row ch. add_child ch row) row cs) = foldl merge_status (c_status row) (map c_status cs)"
  by (induction cs arbitrary: row) (auto simp: add_child_def Let_def)

lemma foldl_priority:
  "c_priority (foldl (\<lambda>row ch. add_child ch row) row cs) = foldl merge_same (c_priority row) (map c_priority cs)"
  by (induction cs arbitrary: row) (auto simp: add_child_def Let_def)

lemma foldl_quota:
  "c_used_quota (foldl (\<lambda>row ch. add_child ch row) row cs) = foldl jadd (c_used_quota row) (map c_used_quota cs)"
  by (induction cs arbitrary: row) (auto simp: add_child_def Let_def)

lemma strict_eq_refl: "strict_eq v v \<longleftrightarrow> v \<noteq> JNum NaN"
  by (cases v) (auto simp: strict_eq_def)

lemma strict_eq_imp: "strict_eq v w \<Longrightarrow> v = w"
  by (cases v; cases w) (auto simp: strict_eq_def elim: jeq.elims)

lemma merge_status_enabled: "foldl merge_status st vs = JNum (Fin 1) \<longleftrightarrow> st = JNum (Fin 1) \<or> JNum (Fin 1) \<in> set vs"
proof (induction vs arbitrary: st)
  case (Cons v vs)
  have "merge_status st v = JNum (Fin 1) \<longleftrightarrow> st = JNum (Fin 1) \<or> v = JNum (Fin 1)"
    using strict_eq_imp [of v "JNum (Fin 1)"] strict_eq_refl [of v] by (auto simp: merge_status_def)
  with Cons show ?case by auto
qed simp

text \<open>Merging from a value that is not the marker.\<close>

definition plain_value :: "jval \<Rightarrow> bool" where
  "plain_value v \<longleftrightarrow> v \<noteq> JNum NaN \<and> v \<noteq> JNum (Fin (- 1))"

lemma strict_eq_plain: "plain_value v \<Longrightarrow> strict_eq v w \<longleftrightarrow> v = w"
  using strict_eq_imp [of v w] strict_eq_refl [of v] by (auto simp: plain_value_def)

lemma merge_null: "list_all plain_value vs \<Longrightarrow> foldl merge_same JNull vs = JNull"
proof (induction vs)
  case (Cons v vs)
  then show ?case by (simp add: merge_same_def strict_eq_def)
qed simp

lemma merge_same_all:
  "plain_value v \<Longrightarrow> list_all plain_value vs \<Longrightarrow>
   foldl merge_same v vs = (if list_all (\<lambda>w. w = v) vs then v else JNull)"
proof (induction vs)
  case (Cons w vs)
  have "merge_same v w = (if w = v then v else JNull)"
    using strict_eq_plain [OF Cons.prems(1)] Cons.prems(1) by (auto simp: merge_same_def plain_value_def)
  with Cons show ?case by (simp add: merge_null)
qed simp

lemma row_in_group:
  assumes "row \<in> set (group_rows chs)"
  obtains t where "row = row_of t (filter (\<lambda>c. tag_of c = t) chs)" and "c_key row = t"
    and "filter (\<lambda>c. tag_of c = t) chs \<noteq> []"
  using assms by (auto simp: group_rows_def filter_empty_conv)

text \<open>A row of the aggregation lists the channels of its tag in order; it is shown as enabled
  exactly when one of them is enabled, and its quota is the sum of theirs.\<close>

lemma aggregate_row_summary:
  assumes "row \<in> set (aggregateChannelsByTag chs)"
  shows "children row = filter (\<lambda>c. tag_of c = c_key row) chs \<and> children row \<noteq> [] \<and>
    (c_status row = JNum (Fin 1) \<longleftrightarrow> (\<exists>c \<in> set (children row). isChannelEnabled c)) \<and>
    c_used_quota row = foldl jadd (Fin 0) (map c_used_quota (children row))"
proof -
  from assms obtain t where r: "row = row_of t (filter (\<lambda>c. tag_of c = t) chs)" and k: "c_key row = t"
    and ne: "filter (\<lambda>c. tag_of c = t) chs \<noteq> []"
    unfolding aggregate_is_grouping by (rule row_in_group)
  have ch: "children row = filter (\<lambda>c. tag_of c = t) chs"
    by (simp add: r row_of_def foldl_children new_tag_row_def)
  have "isChannelEnabled c \<longleftrightarrow> c_status c = JNum (Fin 1)" for c
    using strict_eq_imp [of "c_status c" "JNum (Fin 1)"] by (auto simp: isChannelEnabled_def strict_eq_def)
  moreover have "c_status row = foldl merge_status JUndef (map c_status (children row))"
    unfolding ch by (simp add: r row_of_def foldl_status new_tag_row_def)
  ultimately have "c_status row = JNum (Fin 1) \<longleftrightarrow> (\<exists>c \<in> set (children row). isChannelEnabled c)"
    by (simp add: merge_status_enabled) (metis imageE imageI)
  moreover have "c_used_quota row = foldl jadd (Fin 0) (map c_used_quota (children row))"
    unfolding ch by (simp add: r row_of_def foldl_quota new_tag_row_def)
  ultimately show ?thesis using ch k ne by simp
qed

definition sample_channel :: "nat \<Rightarrow> string \<Rightarrow> int \<Rightarrow> int \<Rightarrow> channel" where
  "sample_channel i tag st prio =
     \<lparr>c_id = JNum (Fin (of_nat i)), c_type = Fin 1, c_key = lit ''sk'', c_status = JNum (Fin (of_int st)),
      c_name = lit ''ch'', c_weight = JNum (Fin 0), c_created_time = Fin 0, c_test_time = Fin 0,
      c_response_time = Fin 100, c_balance = Fin 5, c_balance_updated_time = Fin 0, c_models = lit ''m'',
      c_group = lit ''default'', c_used_quota = Fin 7, c_priority = JNum (Fin (of_int prio)),
      c_tag = Some (lit tag), c_info = None, c_rest = []\<rparr>"

lemma aggregate_row_summary_witness:
  "c_status (hd (aggregateChannelsByTag [sample_channel 1 ''a'' 2 0, sample_channel 2 ''a'' 1 0])) = JNum (Fin 1)"
proof -
  let ?cs = "[sample_channel 1 ''a'' 2 0, sample_channel 2 ''a'' 1 0]"
  let ?r = "hd (aggregateChannelsByTag ?cs)"
  have "aggregateChannelsByTag ?cs \<noteq> []" by code_simp
  then have r: "?r \<in> set (aggregateChannelsByTag ?cs)" by simp
  have "\<exists>c \<in> set (children ?r). isChannelEnabled c" by code_simp
  with aggregate_row_summary [OF r] show ?thesis by blast
qed

text \<open>The priority of a row is the common priority of its channels, or null when they differ,
  provided no channel has the priority -1.\<close>

lemma aggregate_priority:
  assumes "row \<in> set (aggregateChannelsByTag chs)" and "list_all (\<lambda>c. plain_value (c_priority c)) (children row)"
  shows "c_priority row =
    (if list_all (\<lambda>c. c_priority c = c_priority (hd (children row))) (children row)
     then c_priority (hd (children row)) else JNull)"
proof -
  from assms(1) obtain t where r: "row = row_of t (filter (\<lambda>c. tag_of c = t) chs)" and k: "c_key row = t"
    and ne: "filter (\<lambda>c. tag_of c = t) chs \<noteq> []"
    unfolding aggregate_is_grouping by (rule row_in_group)
  have ch: "children row = filter (\<lambda>c. tag_of c = t) chs"
    by (simp add: r row_of_def foldl_children new_tag_row_def)
  with ne obtain c cs where cs: "children row = c # cs" by (metis neq_Nil_conv)
  have "c_priority row = foldl merge_same (JNum (Fin (- 1))) (map c_priority (children row))"
    unfolding ch by (simp add: r row_of_def foldl_priority new_tag_row_def)
  also have "\<dots> = foldl merge_same (c_priority c) (map c_priority cs)"
    by (simp add: cs merge_same_def strict_eq_def)
  also have "\<dots> = (if list_all (\<lambda>w. w = c_priority c) (map c_priority cs) then c_priority c else JNull)"
    by (rule merge_same_all) (use assms(2) cs in \<open>auto simp: list_all_iff\<close>)
  finally show ?thesis by (auto simp: cs list_all_iff)
qed

lemma aggregate_priority_witness:
  "c_priority (hd (aggregateChannelsByTag [sample_channel 1 ''a'' 1 5, sample_channel 2 ''a'' 1 3])) = JNull"
proof -
  let ?cs = "[sample_channel 1 ''a'' 1 5, sample_channel 2 ''a'' 1 3]"
  let ?r = "hd (aggregateChannelsByTag ?cs)"
  have "aggregateChannelsByTag ?cs \<noteq> []" by code_simp
  then have r: "?r \<in> set (aggregateChannelsByTag ?cs)" by simp
  have p: "list_all (\<lambda>c. plain_value (c_priority c)) (children ?r)" by code_simp
  have "\<not> list_all (\<lambda>c. c_priority c = c_priority (hd (children ?r))) (children ?r)" by code_simp
  with aggregate_priority [OF r p] show ?thesis by simp
qed

text \<open>A channel whose priority is -1 is mistaken for the start marker: a row of two channels with the
  different priorities -1 and 5 shows the priority 5 instead of null.\<close>

lemma aggregate_priority_marker:
  "map c_priority (aggregateChannelsByTag [sample_channel 1 ''a'' 1 (- 1), sample_channel 2 ''a'' 1 5]) = [JNum (Fin 5)]"
  by code_simp

section \<open>Keys\<close>

lemma dedup_loop_uniq: "dedup_loop ls acc = acc @ filter (\<lambda>k. k \<notin> set acc) (uniq (filter (\<lambda>k. k \<noteq> []) (map trim ls)))"
proof (induction ls arbitrary: acc)
  case (Cons l ls)
  have f: "filter (\<lambda>k. k \<notin> set acc \<and> k \<noteq> t) xs = filter (\<lambda>k. k \<notin> set acc) (filter (\<lambda>k. k \<noteq> t) xs)" for t xs
    by (simp add: conj_commute)
  show ?case
  proof (cases "trim l \<noteq> [] \<and> trim l \<notin> set acc")
    case True
    then show ?thesis by (simp add: Cons conj_commute)
  next
    case False
    then show ?thesis by (auto simp: Cons intro!: filter_cong)
  qed
qed simp

lemma split_trim_blank: "trim s = [] \<Longrightarrow> split_trim d s = []"
  using split1_part_subset [of _ d s] by (fastforce simp: split_trim_def filter_empty_conv trim_eq_Nil_iff)

lemma deduplicateKeys_text:
  "deduplicatedText (deduplicateKeys s) = join [10] (uniq (split_trim 10 s)) \<and>
   afterCount (deduplicateKeys s) = length (uniq (split_trim 10 s))"
proof (cases "trim s = []")
  case True
  then show ?thesis using split_trim_blank [OF True] by (simp add: deduplicateKeys_def)
next
  case False
  then have "s \<noteq> []" by auto
  with False show ?thesis by (simp add: deduplicateKeys_def dedup_loop_uniq split_trim_def Let_def)
qed

lemma countKeys_join:
  assumes "\<forall>w \<in> set ws. w \<noteq> [] \<and> trimmed w \<and> 10 \<notin> set w"
  shows "countKeys (join [10] ws) = length ws"
proof (cases "ws = []")
  case False
  have "filter (\<lambda>k. trim k \<noteq> []) ws = ws" using assms by (auto simp: trim_trimmed intro: filter_id)
  moreover have "join [10] ws \<noteq> []" using assms False by (simp add: join_eq_Nil)
  ultimately show ?thesis using assms False by (simp add: countKeys_def nonblank_lines_def split1_join)
qed (simp add: countKeys_def)

text \<open>Removing duplicate keys keeps the first copy of every non-blank line, trimmed and in order: the
  result has no duplicates, its count is the number of keys it holds, and doing it again changes
  nothing.\<close>

lemma deduplicate_keys:
  "(let r = deduplicateKeys s in
    deduplicatedText r = join [10] (uniq (split_trim 10 s)) \<and> afterCount r = length (uniq (split_trim 10 s)) \<and>
    countKeys (deduplicatedText r) = afterCount r \<and> removedCount r = int (beforeCount r) - int (afterCount r) \<and>
    deduplicatedText (deduplicateKeys (deduplicatedText r)) = deduplicatedText r)"
proof -
  have w: "\<forall>w \<in> set (uniq (split_trim 10 s)). w \<noteq> [] \<and> trimmed w \<and> 10 \<notin> set w"
    using split_trim_parts by simp
  have "removedCount (deduplicateKeys s) = int (beforeCount (deduplicateKeys s)) - int (afterCount (deduplicateKeys s))"
    by (simp add: deduplicateKeys_def Let_def)
  then show ?thesis
    by (simp add: Let_def deduplicateKeys_text countKeys_join [OF w] split_trim_join [OF w])
qed

text \<open>The masked form of a single key hides the middle: for a key of more than eight characters it
  depends only on the length class and on the first and last four characters (eight for keys of
  more than sixteen).\<close>

lemma key_mask_hides:
  assumes "8 < length k" and "length k \<le> 16 \<longleftrightarrow> length k' \<le> 16" and "8 < length k'"
    and "take 8 k = take 8 k'" and "last_chars 8 k = last_chars 8 k'"
  shows "formatChannelKey k False = formatChannelKey k' False \<and> length (formatChannelKey k False) \<le> 19"
proof -
  have t: "take 4 k = take 4 k'"
    using arg_cong [OF assms(4), of "take 4"] by simp
  have d: "last_chars 4 x = last_chars 4 (last_chars 8 x)" if "8 < length x" for x :: jstring
    using that by (simp add: last_chars_def)
  have l: "last_chars 4 k = last_chars 4 k'" using assms d by metis
  have n: "length (last_chars n x) \<le> n" for n and x :: jstring by (simp add: last_chars_def)
  have ne: "k \<noteq> []" "k' \<noteq> []" using assms by auto
  show ?thesis
  proof (cases "length k \<le> 16")
    case True
    then show ?thesis using assms(2) t l ne n [of 4 k] by (simp add: formatChannelKey_def)
  next
    case False
    then show ?thesis using assms(2,4,5) ne n [of 8 k] by (simp add: formatChannelKey_def)
  qed
qed

lemma key_mask_hides_witness:
  "formatChannelKey (lit ''sk-12345SECRET67890abc'') False = formatChannelKey (lit ''sk-12345HIDDEN!67890abc'') False"
  using key_mask_hides [of "lit ''sk-12345SECRET67890abc''" "lit ''sk-12345HIDDEN!67890abc''"]
  by (simp add: last_chars_def)

text \<open>A single key of at most eight characters is not masked: its masked form determines it.\<close>

lemma short_key_not_masked:
  assumes "length k \<le> 8" and "length k' = length k"
  shows "formatChannelKey k False = formatChannelKey k' False \<longleftrightarrow> k = k'"
proof (cases "k = []")
  case False
  then have ne: "k' \<noteq> []" using assms by auto
  have tail: "drop 4 x = drop (8 - length x) (last_chars 4 x)" if "length x \<le> 8" for x :: jstring
  proof (cases "length x \<le> 4")
    case False
    with that have "8 - length x + (length x - 4) = 4" by simp
    then show ?thesis by (simp add: last_chars_def)
  qed (simp add: last_chars_def)
  have "k = k'" if "take 4 k @ lit ''...'' @ last_chars 4 k = take 4 k' @ lit ''...'' @ last_chars 4 k'"
  proof -
    from that assms(2) have "take 4 k = take 4 k'" "last_chars 4 k = last_chars 4 k'"
      by (simp_all add: append_eq_append_conv)
    then have "take 4 k @ drop 4 k = take 4 k' @ drop 4 k'"
      using tail [of k] tail [of k'] assms by simp
    then show ?thesis by simp
  qed
  then show ?thesis using assms False ne by (auto simp: formatChannelKey_def)
qed (use assms in simp)

section \<open>Flags and tables\<close>

text \<open>A channel needs attention exactly when there is a reason to show.\<close>

lemma attention_has_reason:
  "channelNeedsAttention ch \<longleftrightarrow> getAttentionReason ch \<noteq> None"
  by (simp add: channelNeedsAttention_def getAttentionReason_def)

text \<open>The type options offer every channel type except the unknown one, each exactly once.\<close>

lemma type_options_complete:
  "distinct (map fst CHANNEL_TYPE_OPTIONS) \<and> set CHANNEL_TYPE_OPTIONS = set CHANNEL_TYPES - {(0, ''Unknown'')}"
  by code_simp

end
