(* ===== verification/Channel_Form.thy ===== *)
theory Channel_Form
  imports JS_Json
begin

text \<open>
  The channel form (\<^verbatim>\<open>features/channels/lib/channel-form.ts\<close>): the field and cross-field checks,
  the form defaults of a channel, the two JSON settings texts and the create and update payloads.

  Form values and channels are objects whose properties the code reads, copies and rewrites by
  name, so they are property lists here. The schema library itself is not modelled: the functions
  the schema is built from are.
\<close>

text \<open>\<^verbatim>\<open>v?.trim()\<close> of an optional string: \<open>[]\<close> also stands for \<^verbatim>\<open>undefined\<close>, which the code
  treats alike.\<close>

definition otrim :: "jval \<Rightarrow> jstring" where
  "otrim v = (case v of JStr s \<Rightarrow> trim s | _ \<Rightarrow> [])"

section \<open>Checks of the fields\<close>

datatype parsed_json = Absent | Malformed | Parsed jval

definition parseOptionalJson :: "jval \<Rightarrow> parsed_json" where
  "parseOptionalJson v =
     (case v of
        JStr s \<Rightarrow>
          if trim s = [] then Absent
          else (case json_parse s of None \<Rightarrow> Malformed | Some w \<Rightarrow> Parsed w)
      | _ \<Rightarrow> Absent)"

definition isJsonObjectValue :: "jval \<Rightarrow> bool" where
  "isJsonObjectValue v \<longleftrightarrow> as_object v \<noteq> None"

definition isOptionalJsonObject :: "jval \<Rightarrow> bool" where
  "isOptionalJsonObject v \<longleftrightarrow>
     (case parseOptionalJson v of Malformed \<Rightarrow> False | Absent \<Rightarrow> True | Parsed w \<Rightarrow> isJsonObjectValue w)"

definition isOptionalModelMapping :: "jval \<Rightarrow> bool" where
  "isOptionalModelMapping v \<longleftrightarrow>
     (case parseOptionalJson v of
        Malformed \<Rightarrow> False
      | Absent \<Rightarrow> True
      | Parsed w \<Rightarrow>
          (case as_object w of None \<Rightarrow> False | Some ps \<Rightarrow> list_all (\<lambda>(_, x). is_string x) ps))"

definition http_code :: "jsnum \<Rightarrow> bool" where
  "http_code x \<longleftrightarrow> is_integer x \<and> jle (Fin 100) x \<and> jle x (Fin 599)"

definition isOptionalStatusCodeMapping :: "jval \<Rightarrow> bool" where
  "isOptionalStatusCodeMapping v \<longleftrightarrow>
     (case parseOptionalJson v of
        Malformed \<Rightarrow> False
      | Absent \<Rightarrow> True
      | Parsed w \<Rightarrow>
          (case as_object w of
             None \<Rightarrow> False
           | Some ps \<Rightarrow> list_all (\<lambda>(k, x). http_code (js_Number k) \<and> http_code (num_of x)) ps))"

definition filled_string :: "jval \<Rightarrow> bool" where
  "filled_string v \<longleftrightarrow> (case v of JStr s \<Rightarrow> trim s \<noteq> [] | _ \<Rightarrow> False)"

definition isCodexCredential :: "jval \<Rightarrow> bool" where
  "isCodexCredential v \<longleftrightarrow>
     (case parseOptionalJson v of
        Malformed \<Rightarrow> False
      | Absent \<Rightarrow> True
      | Parsed w \<Rightarrow>
          (case as_object w of
             None \<Rightarrow> False
           | Some ps \<Rightarrow> filled_string (get ps ''access_token'') \<and> filled_string (get ps ''account_id'')))"

definition isVertexJsonKey :: "jval \<Rightarrow> bool" where
  "isVertexJsonKey v \<longleftrightarrow>
     (case parseOptionalJson v of
        Malformed \<Rightarrow> False
      | Absent \<Rightarrow> True
      | Parsed (JArr vs) \<Rightarrow> list_all isJsonObjectValue vs
      | Parsed w \<Rightarrow> isJsonObjectValue w)"

text \<open>The issues of the \<^verbatim>\<open>superRefine\<close> step, as pairs of a path and a message.\<close>

definition type_in :: "nat list \<Rightarrow> obj \<Rightarrow> bool" where
  "type_in ns fd \<longleftrightarrow> get fd ''type'' \<in> set (map (\<lambda>n. JNum (Fin (of_nat n))) ns)"

definition not_single :: "obj \<Rightarrow> bool" where
  "not_single fd \<longleftrightarrow> truthy (get fd ''multi_key_mode'') \<and> get fd ''multi_key_mode'' \<noteq> jstr_lit ''single''"

definition channel_form_issues :: "obj \<Rightarrow> (string \<times> string) list" where
  "channel_form_issues fd =
     (if type_in [3, 8, 36, 45] fd \<and> otrim (get fd ''base_url'') = []
      then [(''base_url'', ''Base URL is required for this channel type'')] else []) @
     (if type_in [3, 18, 21, 39, 41, 49] fd \<and> otrim (get fd ''other'') = []
      then [(''other'', ''This channel type requires additional configuration'')] else []) @
     (if type_in [57] fd
      then (if not_single fd then [(''multi_key_mode'', ''Codex channels do not support batch creation'')] else []) @
           (if otrim (get fd ''key'') \<noteq> [] \<and> \<not> isCodexCredential (get fd ''key'')
            then [(''key'', ''Codex credential must be a JSON object with access_token and account_id'')] else [])
      else []) @
     (if type_in [41] fd \<and> get fd ''vertex_key_type'' = jstr_lit ''json'' \<and>
         otrim (get fd ''key'') \<noteq> [] \<and> \<not> isVertexJsonKey (get fd ''key'')
      then [(''key'', ''Vertex AI service account key must be valid JSON'')] else []) @
     (if type_in [41] fd \<and> get fd ''vertex_key_type'' = jstr_lit ''api_key'' \<and> not_single fd
      then [(''multi_key_mode'', ''Vertex AI API Key mode does not support batch creation'')] else [])"

section \<open>Default values\<close>

definition CHANNEL_FORM_DEFAULT_VALUES :: obj where
  "CHANNEL_FORM_DEFAULT_VALUES = obj_lit
     [(''name'', JStr []), (''type'', JNum (Fin 1)), (''base_url'', JStr []), (''key'', JStr []),
      (''openai_organization'', JStr []), (''models'', JStr []), (''group'', JArr [jstr_lit ''default'']),
      (''model_mapping'', JStr []), (''priority'', JNum (Fin 0)), (''weight'', JNum (Fin 0)),
      (''test_model'', JStr []), (''auto_ban'', JNum (Fin 1)), (''status'', JNum (Fin 1)),
      (''status_code_mapping'', JStr []), (''tag'', JStr []), (''remark'', JStr []), (''setting'', JStr []),
      (''param_override'', JStr []), (''header_override'', JStr []), (''settings'', jstr_lit ''{}''),
      (''other'', JStr []), (''multi_key_mode'', jstr_lit ''single''), (''multi_key_type'', jstr_lit ''random''),
      (''batch_add_set_key_prefix_2_name'', JBool False), (''key_mode'', jstr_lit ''append''),
      (''force_format'', JBool False), (''thinking_to_content'', JBool False), (''proxy'', JStr []),
      (''pass_through_body_enabled'', JBool False), (''system_prompt'', JStr []),
      (''system_prompt_override'', JBool False), (''is_enterprise_account'', JBool False),
      (''vertex_key_type'', jstr_lit ''json''), (''aws_key_type'', jstr_lit ''ak_sk''),
      (''azure_responses_version'', JStr []), (''allow_service_tier'', JBool False),
      (''disable_store'', JBool False), (''allow_safety_identifier'', JBool False),
      (''allow_include_obfuscation'', JBool False), (''allow_inference_geo'', JBool False),
      (''allow_speed'', JBool False), (''claude_beta_query'', JBool False),
      (''upstream_model_update_check_enabled'', JBool False),
      (''upstream_model_update_auto_sync_enabled'', JBool False),
      (''upstream_model_update_ignored_models'', JStr [])]"

section \<open>Lists of models and groups\<close>

definition parseModels :: "jstring \<Rightarrow> jstring list" where
  "parseModels models = (if models = [] then [] else split_trim 44 models)"

definition parseGroups :: "jstring \<Rightarrow> jstring list" where
  "parseGroups groups = (if groups = [] then [] else split_trim 44 groups)"

definition formatModels :: "jstring list \<Rightarrow> jstring" where
  "formatModels models = join (lit '','') models"

definition formatGroups :: "jstring list \<Rightarrow> jstring" where
  "formatGroups groups = join (lit '','') groups"

section \<open>Form defaults of a channel\<close>

definition falsy_or :: "jval \<Rightarrow> string \<Rightarrow> jval \<Rightarrow> jval" where
  "falsy_or parsed k d = jor (jprop (lit k) parsed) d"

definition extra_of :: "jval \<Rightarrow> (string \<times> jval) list" where
  "extra_of parsed =
     [(''force_format'', falsy_or parsed ''force_format'' (JBool False)),
      (''thinking_to_content'', falsy_or parsed ''thinking_to_content'' (JBool False)),
      (''proxy'', falsy_or parsed ''proxy'' (JStr [])),
      (''pass_through_body_enabled'', falsy_or parsed ''pass_through_body_enabled'' (JBool False)),
      (''system_prompt'', falsy_or parsed ''system_prompt'' (JStr [])),
      (''system_prompt_override'', falsy_or parsed ''system_prompt_override'' (JBool False))]"

text \<open>The parsed text of a settings field, or the empty object when the field is empty, malformed or
  \<^verbatim>\<open>null\<close> (reading a property of it throws inside the \<^verbatim>\<open>try\<close> block).\<close>

definition parsed_or_empty :: "jval \<Rightarrow> jval" where
  "parsed_or_empty v =
     (case v of
        JStr s \<Rightarrow>
          if s = [] then JObj []
          else (case json_parse s of None \<Rightarrow> JObj [] | Some w \<Rightarrow> if nullish w then JObj [] else w)
      | _ \<Rightarrow> JObj [])"

definition is_true :: "jval \<Rightarrow> jval" where
  "is_true v = JBool (v = JBool True)"

definition special_of :: "jval \<Rightarrow> (string \<times> jval) list" where
  "special_of parsed =
     [(''is_enterprise_account'', is_true (jprop (lit ''openrouter_enterprise'') parsed)),
      (''vertex_key_type'', falsy_or parsed ''vertex_key_type'' (jstr_lit ''json'')),
      (''azure_responses_version'', falsy_or parsed ''azure_responses_version'' (JStr [])),
      (''aws_key_type'', falsy_or parsed ''aws_key_type'' (jstr_lit ''ak_sk'')),
      (''allow_service_tier'', is_true (jprop (lit ''allow_service_tier'') parsed)),
      (''disable_store'', is_true (jprop (lit ''disable_store'') parsed)),
      (''allow_include_obfuscation'', is_true (jprop (lit ''allow_include_obfuscation'') parsed)),
      (''allow_inference_geo'', is_true (jprop (lit ''allow_inference_geo'') parsed)),
      (''allow_speed'', is_true (jprop (lit ''allow_speed'') parsed)),
      (''claude_beta_query'', is_true (jprop (lit ''claude_beta_query'') parsed)),
      (''allow_safety_identifier'', is_true (jprop (lit ''allow_safety_identifier'') parsed)),
      (''upstream_model_update_check_enabled'', is_true (jprop (lit ''upstream_model_update_check_enabled'') parsed)),
      (''upstream_model_update_auto_sync_enabled'',
       is_true (jprop (lit ''upstream_model_update_auto_sync_enabled'') parsed)),
      (''upstream_model_update_ignored_models'',
       case jprop (lit ''upstream_model_update_ignored_models'') parsed of
         JArr vs \<Rightarrow> JStr (str_of (JArr vs)) | _ \<Rightarrow> JStr [])]"

definition group_text :: "jval \<Rightarrow> jstring" where
  "group_text v = str_of (jor v (jstr_lit ''default''))"

text \<open>A channel has a \<^verbatim>\<open>channel_info\<close>: its type requires it and the schema supplies a default. For an object without one the code
  throws at \<^verbatim>\<open>channel.channel_info.multi_key_mode\<close>; the model reads it as missing and takes the default.\<close>

definition form_defaults :: "obj \<Rightarrow> (string \<times> jval) list" where
  "form_defaults ch =
     ([(''name'', jor (get ch ''name'') (JStr [])), (''type'', get ch ''type''),
       (''base_url'', jor (get ch ''base_url'') (JStr [])), (''key'', JStr []),
       (''openai_organization'', jor (get ch ''openai_organization'') (JStr [])),
       (''models'', jor (get ch ''models'') (JStr [])),
       (''group'', JArr (map JStr (parseGroups (group_text (get ch ''group''))))),
       (''model_mapping'', jor (get ch ''model_mapping'') (JStr [])),
       (''priority'', jor (get ch ''priority'') (JNum (Fin 0))), (''weight'', jor (get ch ''weight'') (JNum (Fin 0))),
       (''test_model'', jor (get ch ''test_model'') (JStr [])),
       (''auto_ban'', jcoalesce (get ch ''auto_ban'') (JNum (Fin 1))), (''status'', get ch ''status''),
       (''status_code_mapping'', jor (get ch ''status_code_mapping'') (JStr [])),
       (''tag'', jor (get ch ''tag'') (JStr [])), (''remark'', jor (get ch ''remark'') (JStr [])),
       (''setting'', jor (get ch ''setting'') (JStr [])),
       (''param_override'', jor (get ch ''param_override'') (JStr [])),
       (''header_override'', jor (get ch ''header_override'') (JStr [])),
       (''settings'', jor (get ch ''settings'') (jstr_lit ''{}'')), (''other'', jor (get ch ''other'') (JStr [])),
       (''multi_key_mode'', jstr_lit ''single''),
       (''multi_key_type'', jor (jprop (lit ''multi_key_mode'') (get ch ''channel_info'')) (jstr_lit ''random'')),
       (''batch_add_set_key_prefix_2_name'', JBool False), (''key_mode'', jstr_lit ''append'')] @
      extra_of (parsed_or_empty (get ch ''setting'')) @ special_of (parsed_or_empty (get ch ''settings'')))"

definition transformChannelToFormDefaults :: "obj \<Rightarrow> obj" where
  "transformChannelToFormDefaults ch = obj_lit (form_defaults ch)"

section \<open>The settings texts\<close>

definition setting_object :: "obj \<Rightarrow> obj" where
  "setting_object fd = obj_lit (extra_of (JObj fd))"

definition buildSettingJSON :: "obj \<Rightarrow> jstring" where
  "buildSettingJSON fd = json_text (JObj (setting_object fd))"

definition set_or_del :: "bool \<Rightarrow> string \<Rightarrow> jval \<Rightarrow> obj \<Rightarrow> obj" where
  "set_or_del b k v ps = (if b then obj_put (lit k) v ps else obj_del (lit k) ps)"

definition MODEL_FETCHABLE_TYPES :: "nat list" where
  "MODEL_FETCHABLE_TYPES = [1, 4, 14, 17, 20, 23, 24, 25, 26, 27, 31, 34, 35, 40, 42, 43, 47, 48, 58, 59]"

definition provider_fields :: "obj \<Rightarrow> obj \<Rightarrow> obj" where
  "provider_fields fd ps =
     (let ps = set_or_del (type_in [41] fd) ''vertex_key_type'' (jor (get fd ''vertex_key_type'') (jstr_lit ''json'')) ps;
          ps = set_or_del (type_in [3] fd \<and> truthy (get fd ''azure_responses_version'')) ''azure_responses_version''
                 (get fd ''azure_responses_version'') ps;
          ps = set_or_del (type_in [20] fd) ''openrouter_enterprise'' (is_true (get fd ''is_enterprise_account'')) ps
      in set_or_del (type_in [33] fd) ''aws_key_type'' (jor (get fd ''aws_key_type'') (jstr_lit ''ak_sk'')) ps)"

definition passthrough_fields :: "obj \<Rightarrow> obj \<Rightarrow> obj" where
  "passthrough_fields fd ps =
     (let ps = set_or_del (type_in [1, 14] fd) ''allow_service_tier'' (is_true (get fd ''allow_service_tier'')) ps;
          ps = set_or_del (type_in [1] fd) ''disable_store'' (is_true (get fd ''disable_store'')) ps;
          ps = set_or_del (type_in [1] fd) ''allow_safety_identifier'' (is_true (get fd ''allow_safety_identifier'')) ps;
          ps = set_or_del (type_in [1] fd) ''allow_include_obfuscation'' (is_true (get fd ''allow_include_obfuscation'')) ps;
          ps = set_or_del (type_in [1, 14] fd) ''allow_inference_geo'' (is_true (get fd ''allow_inference_geo'')) ps;
          ps = set_or_del (type_in [14] fd) ''allow_speed'' (is_true (get fd ''allow_speed'')) ps
      in set_or_del (type_in [14] fd) ''claude_beta_query'' (is_true (get fd ''claude_beta_query'')) ps)"

definition ignored_models :: "obj \<Rightarrow> jval" where
  "ignored_models fd =
     JArr (map JStr (uniq (split_trim 44 (str_of (jor (get fd ''upstream_model_update_ignored_models'') (JStr []))))))"

definition is_number :: "jval \<Rightarrow> bool" where
  "is_number v \<longleftrightarrow> (case v of JNum _ \<Rightarrow> True | _ \<Rightarrow> False)"

definition upstream_fields :: "obj \<Rightarrow> obj \<Rightarrow> obj" where
  "upstream_fields fd ps =
     (if \<not> type_in MODEL_FETCHABLE_TYPES fd then ps
      else
        let chk = (get fd ''upstream_model_update_check_enabled'' = JBool True);
            ps = obj_put (lit ''upstream_model_update_check_enabled'') (JBool chk) ps;
            ps = obj_put (lit ''upstream_model_update_auto_sync_enabled'')
                   (JBool (chk \<and> get fd ''upstream_model_update_auto_sync_enabled'' = JBool True)) ps;
            ps = obj_put (lit ''upstream_model_update_ignored_models'') (ignored_models fd) ps;
            ps = (if \<not> is_array (get ps ''upstream_model_update_last_detected_models'') \<or> \<not> chk
                  then obj_put (lit ''upstream_model_update_last_detected_models'') (JArr []) ps else ps)
        in if \<not> is_number (get ps ''upstream_model_update_last_check_time'')
           then obj_put (lit ''upstream_model_update_last_check_time'') (JNum (Fin 0)) ps else ps)"

definition settings_object :: "obj \<Rightarrow> obj \<Rightarrow> obj" where
  "settings_object fd ps = upstream_fields fd (passthrough_fields fd (provider_fields fd ps))"

text \<open>
  \<open>None\<close> when the code throws: the existing settings text is JSON but neither an object nor an
  array, and the first \<^verbatim>\<open>in\<close> or assignment on it fails. The properties set on an array are not
  printed.
\<close>

definition buildSettingsJSON :: "obj \<Rightarrow> jstring option" where
  "buildSettingsJSON fd =
     (let existing =
        (case get fd ''settings'' of
           JStr s \<Rightarrow>
             if s = [] \<or> s = lit ''{}'' then JObj []
             else (case json_parse s of None \<Rightarrow> JObj [] | Some w \<Rightarrow> w)
         | _ \<Rightarrow> JObj [])
      in case existing of
           JObj ps \<Rightarrow> Some (json_text (JObj (settings_object fd ps)))
         | JArr vs \<Rightarrow> Some (json_text (JArr vs))
         | _ \<Rightarrow> None)"

section \<open>Payloads\<close>

text \<open>\<^verbatim>\<open>String(v || '').trim().replace(/\/+$/, '')\<close>\<close>

definition normalizeBaseUrl :: "jval \<Rightarrow> jstring" where
  "normalizeBaseUrl v = rev (dropWhile (\<lambda>c. c = 47) (rev (trim (str_of (jor v (JStr []))))))"

definition str_list :: "jval \<Rightarrow> jstring list" where
  "str_list v = (case v of JArr vs \<Rightarrow> map str_of vs | _ \<Rightarrow> [])"

definition empty_to_null :: "obj \<Rightarrow> obj" where
  "empty_to_null ob = map (\<lambda>(k, v). (k, if v = JStr [] then JNull else v)) ob"

definition common_fields :: "obj \<Rightarrow> jstring \<Rightarrow> (string \<times> jval) list" where
  "common_fields fd settings =
     [(''status_code_mapping'', jor (get fd ''status_code_mapping'') JNull), (''tag'', jor (get fd ''tag'') JNull),
      (''remark'', jor (get fd ''remark'') (JStr [])), (''setting'', JStr (buildSettingJSON fd)),
      (''param_override'', jor (get fd ''param_override'') JNull),
      (''header_override'', jor (get fd ''header_override'') JNull), (''settings'', JStr settings),
      (''other'', jor (get fd ''other'') (JStr []))]"

definition create_channel :: "obj \<Rightarrow> jstring \<Rightarrow> obj" where
  "create_channel fd settings = empty_to_null (obj_lit
     ([(''name'', get fd ''name''), (''type'', get fd ''type''),
       (''base_url'', jor (JStr (normalizeBaseUrl (get fd ''base_url''))) JNull), (''key'', get fd ''key''),
       (''openai_organization'', jor (get fd ''openai_organization'') JNull), (''models'', get fd ''models''),
       (''group'', JStr (formatGroups (str_list (get fd ''group'')))),
       (''model_mapping'', jor (get fd ''model_mapping'') JNull), (''priority'', jor (get fd ''priority'') JNull),
       (''weight'', jor (get fd ''weight'') JNull), (''test_model'', jor (get fd ''test_model'') JNull),
       (''auto_ban'', jcoalesce (get fd ''auto_ban'') (JNum (Fin 1))), (''status'', get fd ''status'')] @
      common_fields fd settings))"

record create_payload =
  cp_mode :: jval
  cp_multi_key_mode :: jval
  cp_prefix :: jval
  cp_channel :: obj

definition transformFormDataToCreatePayload :: "obj \<Rightarrow> create_payload option" where
  "transformFormDataToCreatePayload fd =
     map_option (\<lambda>settings.
       let md = jor (get fd ''multi_key_mode'') (jstr_lit ''single'') in
       \<lparr>cp_mode = md,
        cp_multi_key_mode = (if md = jstr_lit ''multi_to_single'' then get fd ''multi_key_type'' else JUndef),
        cp_prefix = (if md = jstr_lit ''batch'' then get fd ''batch_add_set_key_prefix_2_name'' else JUndef),
        cp_channel = create_channel fd settings\<rparr>) (buildSettingsJSON fd)"

definition update_fields :: "obj \<Rightarrow> jval \<Rightarrow> jstring \<Rightarrow> obj" where
  "update_fields fd channelId settings = obj_lit
     ([(''id'', channelId), (''name'', get fd ''name''), (''type'', get fd ''type''),
       (''base_url'', jor (JStr (normalizeBaseUrl (get fd ''base_url''))) JNull),
       (''openai_organization'', jor (get fd ''openai_organization'') JNull), (''models'', get fd ''models''),
       (''group'', JStr (formatGroups (str_list (get fd ''group'')))),
       (''model_mapping'', jor (get fd ''model_mapping'') JNull),
       (''priority'', jcoalesce (get fd ''priority'') (JNum (Fin 0))),
       (''weight'', jcoalesce (get fd ''weight'') (JNum (Fin 0))),
       (''test_model'', jor (get fd ''test_model'') JNull),
       (''auto_ban'', jcoalesce (get fd ''auto_ban'') (JNum (Fin 1))), (''status'', get fd ''status'')] @
      common_fields fd settings)"

definition clearable_fields :: "obj \<Rightarrow> obj" where
  "clearable_fields fd = map (\<lambda>(k, v). (lit k, v))
     [(''base_url'', JStr (normalizeBaseUrl (get fd ''base_url''))),
      (''openai_organization'', jor (get fd ''openai_organization'') (JStr [])),
      (''test_model'', jor (get fd ''test_model'') (JStr [])), (''tag'', jor (get fd ''tag'') (JStr [])),
      (''remark'', jor (get fd ''remark'') (JStr [])),
      (''model_mapping'', jor (get fd ''model_mapping'') (JStr [])),
      (''status_code_mapping'', jor (get fd ''status_code_mapping'') (JStr [])),
      (''param_override'', jor (get fd ''param_override'') (JStr [])),
      (''header_override'', jor (get fd ''header_override'') (JStr []))]"

definition transformFormDataToUpdatePayload :: "obj \<Rightarrow> jval \<Rightarrow> obj option" where
  "transformFormDataToUpdatePayload fd channelId =
     map_option (\<lambda>settings.
       let payload = update_fields fd channelId settings;
           payload = (if filled_string (get fd ''key'') then obj_put (lit ''key'') (get fd ''key'') payload else payload)
       in obj_build (empty_to_null payload) (clearable_fields fd)) (buildSettingsJSON fd)"

definition validateJSON :: "jstring \<Rightarrow> bool" where
  "validateJSON value \<longleftrightarrow> value = [] \<or> trim value = [] \<or> json_parse value \<noteq> None"

definition validateModelMapping :: "jstring \<Rightarrow> bool" where
  "validateModelMapping value \<longleftrightarrow> value = [] \<or> trim value = [] \<or> validateJSON value"

section \<open>Lemmas\<close>

lemma get_set_or_del [simp]:
  "obj_get k (set_or_del b k' v ps) = (if k = lit k' then (if b then v else JUndef) else obj_get k ps)"
  by (simp add: set_or_del_def)

lemma has_set_or_del [simp]:
  "obj_has k (set_or_del b k' v ps) = (if k = lit k' then b else obj_has k ps)"
  by (simp add: set_or_del_def)

definition managed_keys :: "string list" where
  "managed_keys =
     [''vertex_key_type'', ''azure_responses_version'', ''openrouter_enterprise'', ''aws_key_type'',
      ''allow_service_tier'', ''disable_store'', ''allow_safety_identifier'', ''allow_include_obfuscation'',
      ''allow_inference_geo'', ''allow_speed'', ''claude_beta_query'',
      ''upstream_model_update_check_enabled'', ''upstream_model_update_auto_sync_enabled'',
      ''upstream_model_update_ignored_models'', ''upstream_model_update_last_detected_models'',
      ''upstream_model_update_last_check_time'']"

lemma upstream_frame:
  "k \<notin> set (map lit managed_keys) \<Longrightarrow> obj_get k (upstream_fields fd ps) = obj_get k ps"
  by (simp add: upstream_fields_def managed_keys_def Let_def)

lemma passthrough_frame:
  "k \<notin> set (map lit managed_keys) \<Longrightarrow> obj_get k (passthrough_fields fd ps) = obj_get k ps"
  by (simp add: passthrough_fields_def managed_keys_def Let_def)

lemma provider_frame:
  "k \<notin> set (map lit managed_keys) \<Longrightarrow> obj_get k (provider_fields fd ps) = obj_get k ps"
  by (simp add: provider_fields_def managed_keys_def Let_def)

definition upstream_keys :: "string list" where
  "upstream_keys =
     [''upstream_model_update_check_enabled'', ''upstream_model_update_auto_sync_enabled'',
      ''upstream_model_update_ignored_models'', ''upstream_model_update_last_detected_models'',
      ''upstream_model_update_last_check_time'']"

lemma upstream_has:
  "k \<notin> set (map lit upstream_keys) \<Longrightarrow> obj_has k (upstream_fields fd ps) = obj_has k ps"
  by (simp add: upstream_fields_def upstream_keys_def Let_def)

lemma upstream_get:
  "k \<notin> set (map lit upstream_keys) \<Longrightarrow> obj_get k (upstream_fields fd ps) = obj_get k ps"
  by (simp add: upstream_fields_def upstream_keys_def Let_def)

text \<open>The settings text of a channel is rebuilt by type: the fields of one provider are present
  exactly for that provider (Vertex for 41, OpenRouter for 20, AWS for 33, the OpenAI passthrough
  fields for 1, the Anthropic ones for 14), and every property the form does not manage keeps the
  value it had in the stored settings.\<close>

lemma settings_isolation:
  "(obj_has (lit ''vertex_key_type'') (settings_object fd ps) \<longleftrightarrow> type_in [41] fd) \<and>
   (obj_has (lit ''openrouter_enterprise'') (settings_object fd ps) \<longleftrightarrow> type_in [20] fd) \<and>
   (obj_has (lit ''aws_key_type'') (settings_object fd ps) \<longleftrightarrow> type_in [33] fd) \<and>
   (obj_has (lit ''allow_service_tier'') (settings_object fd ps) \<longleftrightarrow> type_in [1, 14] fd) \<and>
   (obj_has (lit ''disable_store'') (settings_object fd ps) \<longleftrightarrow> type_in [1] fd) \<and>
   (obj_has (lit ''allow_inference_geo'') (settings_object fd ps) \<longleftrightarrow> type_in [1, 14] fd) \<and>
   (obj_has (lit ''claude_beta_query'') (settings_object fd ps) \<longleftrightarrow> type_in [14] fd) \<and>
   (k \<in> set (map lit managed_keys) \<or> obj_get k (settings_object fd ps) = obj_get k ps)"
proof (intro conjI)
  show "k \<in> set (map lit managed_keys) \<or> obj_get k (settings_object fd ps) = obj_get k ps"
    using upstream_frame passthrough_frame provider_frame by (metis settings_object_def)
qed (simp_all add: settings_object_def upstream_has upstream_keys_def passthrough_fields_def provider_fields_def Let_def)

text \<open>In the rebuilt settings automatic synchronisation of upstream models is on only when the
  update check is on, the ignored models are distinct, and the detected models are kept only while
  the check is on.\<close>

lemma upstream_settings_consistent:
  assumes "type_in MODEL_FETCHABLE_TYPES fd"
  shows "(get (settings_object fd ps) ''upstream_model_update_auto_sync_enabled'' = JBool True \<longrightarrow>
      get (settings_object fd ps) ''upstream_model_update_check_enabled'' = JBool True) \<and>
    get (settings_object fd ps) ''upstream_model_update_ignored_models'' = ignored_models fd \<and>
    distinct (str_list (ignored_models fd)) \<and>
    (get fd ''upstream_model_update_check_enabled'' \<noteq> JBool True \<longrightarrow>
      get (settings_object fd ps) ''upstream_model_update_last_detected_models'' = JArr [])"
proof -
  let ?q = "passthrough_fields fd (provider_fields fd ps)"
  have m: "map (str_of \<circ> JStr) xs = xs" for xs :: "jstring list" by (induction xs) auto
  show ?thesis
    using assms m
    by (simp add: settings_object_def upstream_fields_def Let_def ignored_models_def str_list_def)
qed

definition openai_form :: obj where
  "openai_form = obj_lit [(''type'', JNum (Fin 1)), (''upstream_model_update_ignored_models'', jstr_lit ''a, b ,a'')]"

lemma upstream_settings_consistent_witness:
  "get (settings_object openai_form []) ''upstream_model_update_ignored_models'' = JArr [jstr_lit ''a'', jstr_lit ''b'']"
proof -
  have t: "type_in MODEL_FETCHABLE_TYPES openai_form" by code_simp
  have i: "ignored_models openai_form = JArr [jstr_lit ''a'', jstr_lit ''b'']" by code_simp
  from upstream_settings_consistent [OF t, of "[]"] show ?thesis unfolding i by blast
qed

section \<open>The extra settings\<close>

definition extra_keys :: "string list" where
  "extra_keys =
     [''force_format'', ''thinking_to_content'', ''proxy'', ''pass_through_body_enabled'', ''system_prompt'',
      ''system_prompt_override'']"

definition form_ok :: "obj \<Rightarrow> bool" where
  "form_ok fd \<longleftrightarrow> list_all (\<lambda>k. json_ok (jor (get fd k) (JBool False))) extra_keys"

lemma setting_object_eq:
  "setting_object fd =
    [(lit ''force_format'', falsy_or (JObj fd) ''force_format'' (JBool False)),
     (lit ''thinking_to_content'', falsy_or (JObj fd) ''thinking_to_content'' (JBool False)),
     (lit ''proxy'', falsy_or (JObj fd) ''proxy'' (JStr [])),
     (lit ''pass_through_body_enabled'', falsy_or (JObj fd) ''pass_through_body_enabled'' (JBool False)),
     (lit ''system_prompt'', falsy_or (JObj fd) ''system_prompt'' (JStr [])),
     (lit ''system_prompt_override'', falsy_or (JObj fd) ''system_prompt_override'' (JBool False))]"
  by (simp add: setting_object_def extra_of_def obj_lit_def obj_build_def obj_put_def index_key_def is_digit_def)

lemma jor_ok: "json_ok (jor v (JBool False)) \<Longrightarrow> json_ok d \<Longrightarrow> json_ok (jor v d)"
  by (simp add: jor_def split: if_splits)

lemma setting_ok:
  assumes "form_ok fd"
  shows "json_ok (JObj (setting_object fd))"
proof -
  have b: "obj_build [] (setting_object fd) = setting_object fd"
    by (simp add: setting_object_eq obj_build_def obj_put_def index_key_def is_digit_def)
  have "json_ok (falsy_or (JObj fd) k d)" if "k \<in> set extra_keys" "json_ok d" for k d
    using assms that by (auto simp: form_ok_def list_all_iff falsy_or_def jprop_def intro: jor_ok)
  then have "list_all (\<lambda>kv. unit_str (fst kv) \<and> json_ok (snd kv)) (setting_object fd)"
    by (simp add: setting_object_eq unit_str_def extra_keys_def)
  with b show ?thesis by simp
qed

definition default_keys :: "string list" where
  "default_keys =
     [''name'', ''type'', ''base_url'', ''key'', ''openai_organization'', ''models'', ''group'', ''model_mapping'',
      ''priority'', ''weight'', ''test_model'', ''auto_ban'', ''status'', ''status_code_mapping'', ''tag'',
      ''remark'', ''setting'', ''param_override'', ''header_override'', ''settings'', ''other'',
      ''multi_key_mode'', ''multi_key_type'', ''batch_add_set_key_prefix_2_name'', ''key_mode'',
      ''force_format'', ''thinking_to_content'', ''proxy'', ''pass_through_body_enabled'', ''system_prompt'',
      ''system_prompt_override'', ''is_enterprise_account'', ''vertex_key_type'', ''azure_responses_version'',
      ''aws_key_type'', ''allow_service_tier'', ''disable_store'', ''allow_include_obfuscation'',
      ''allow_inference_geo'', ''allow_speed'', ''claude_beta_query'', ''allow_safety_identifier'',
      ''upstream_model_update_check_enabled'', ''upstream_model_update_auto_sync_enabled'',
      ''upstream_model_update_ignored_models'']"

lemma default_keys: "map fst (form_defaults ch) = default_keys"
  by (simp add: form_defaults_def extra_of_def special_of_def default_keys_def)

lemma default_keys_distinct: "distinct default_keys"
  by code_simp

lemma get_defaults:
  "get (transformChannelToFormDefaults ch) k = (case map_of (form_defaults ch) k of None \<Rightarrow> JUndef | Some v \<Rightarrow> v)"
  unfolding transformChannelToFormDefaults_def
  by (rule get_obj_lit) (simp only: default_keys default_keys_distinct)

lemma extra_map_of:
  "k \<in> set extra_keys \<Longrightarrow> map_of (extra_of v) k =
    Some (falsy_or v k (if k = ''proxy'' \<or> k = ''system_prompt'' then JStr [] else JBool False))"
  by (auto simp: extra_of_def extra_keys_def)

lemma extra_get:
  assumes "k \<in> set extra_keys"
  shows "get (setting_object fd) k =
    falsy_or (JObj fd) k (if k = ''proxy'' \<or> k = ''system_prompt'' then JStr [] else JBool False)"
proof -
  have "map fst (extra_of (JObj fd)) = extra_keys" by (simp add: extra_of_def extra_keys_def)
  moreover have "distinct extra_keys" by code_simp
  ultimately have "distinct (map fst (extra_of (JObj fd)))" by simp
  then show ?thesis
    unfolding setting_object_def by (simp only: get_obj_lit extra_map_of [OF assms] option.case)
qed

lemma defaults_extra:
  assumes "k \<in> set extra_keys"
  shows "map_of (form_defaults ch) k =
    Some (falsy_or (parsed_or_empty (get ch ''setting'')) k
      (if k = ''proxy'' \<or> k = ''system_prompt'' then JStr [] else JBool False))"
proof -
  define ps where "ps = parsed_or_empty (get ch ''setting'')"
  show ?thesis
    using assms unfolding form_defaults_def ps_def [symmetric]
    by (auto simp: extra_of_def extra_keys_def simp del: list.map)
qed

text \<open>The extra settings of the form survive being saved and loaded: the setting text parses back
  to an object with exactly the six extra settings, and the form defaults of a channel with that
  text show the same six values.\<close>

lemma setting_text_roundtrip:
  assumes "form_ok fd" and "k \<in> set extra_keys"
    and "d = (if k = ''proxy'' \<or> k = ''system_prompt'' then JStr [] else JBool False)"
  shows "map_option (jprop (lit k)) (json_parse (buildSettingJSON fd)) = Some (jor (get fd k) d) \<and>
    get (transformChannelToFormDefaults (obj_put (lit ''setting'') (JStr (buildSettingJSON fd)) ch)) k = jor (get fd k) d"
proof -
  have p: "json_parse (buildSettingJSON fd) = Some (JObj (setting_object fd))"
    unfolding buildSettingJSON_def by (rule json.dec_enc [OF setting_ok [OF assms(1)]])
  have e: "jprop (lit k) (JObj (setting_object fd)) = jor (get fd k) d"
    using extra_get [OF assms(2), of fd] assms(3) by (simp add: jprop_def falsy_or_def del: list.map)
  let ?C = "obj_put (lit ''setting'') (JStr (buildSettingJSON fd)) ch"
  have "buildSettingJSON fd \<noteq> []"
    unfolding buildSettingJSON_def by (rule json.enc_not_Nil [OF setting_ok [OF assms(1)]])
  then have q: "parsed_or_empty (get ?C ''setting'') = JObj (setting_object fd)"
    by (simp add: parsed_or_empty_def p nullish_def del: list.map)
  have "get (transformChannelToFormDefaults ?C) k = falsy_or (JObj (setting_object fd)) k d"
    unfolding get_defaults defaults_extra [OF assms(2)] q option.case assms(3) ..
  then have "get (transformChannelToFormDefaults ?C) k = jor (get fd k) d"
    by (simp add: falsy_or_def e jor_def del: list.map)
  with p e show ?thesis by (simp del: list.map)
qed

lemma setting_text_roundtrip_witness:
  "get (transformChannelToFormDefaults (obj_put (lit ''setting'')
     (JStr (buildSettingJSON (obj_lit [(''proxy'', jstr_lit ''http://p'')]))) [])) ''proxy'' = jstr_lit ''http://p''"
proof -
  let ?f = "obj_lit [(''proxy'', jstr_lit ''http://p'')]"
  have f: "form_ok ?f" "''proxy'' \<in> set extra_keys"
    "JStr [] = (if ''proxy'' = ''proxy'' \<or> ''proxy'' = ''system_prompt'' then JStr [] else JBool False)"
    by code_simp+
  have "jor (get ?f ''proxy'') (JStr []) = jstr_lit ''http://p''" by code_simp
  with setting_text_roundtrip [OF f, of "[]"] show ?thesis by (simp del: list.map)
qed

text \<open>The setting text has no other property: whatever else the stored setting of the channel held
  is lost when the channel is saved, even when the form was not changed.\<close>

lemma setting_drops_unknown:
  assumes "form_ok fd" and "k \<notin> set (map lit extra_keys)"
  shows "map_option (jprop k) (json_parse (buildSettingJSON fd)) = Some JUndef"
proof -
  have "json_parse (buildSettingJSON fd) = Some (JObj (setting_object fd))"
    unfolding buildSettingJSON_def by (rule json.dec_enc [OF setting_ok [OF assms(1)]])
  with assms(2) show ?thesis by (simp add: jprop_def setting_object_eq obj_get_def extra_keys_def)
qed

lemma setting_drops_unknown_witness:
  "map_option (jprop (lit ''custom_flag'')) (json_parse (buildSettingJSON
     (transformChannelToFormDefaults [(lit ''setting'', JStr (json_text (JObj [(lit ''custom_flag'', JBool True)])))]))) =
   Some JUndef"
  by (rule setting_drops_unknown) code_simp+

section \<open>Payloads\<close>

lemma get_empty_to_null: "obj_get k (empty_to_null ob) = (if obj_get k ob = JStr [] then JNull else obj_get k ob)"
  by (induction ob) (auto simp: empty_to_null_def obj_get_def)

lemma has_empty_to_null: "obj_has k (empty_to_null ob) = obj_has k ob"
  by (induction ob) (auto simp: empty_to_null_def obj_has_def)

text \<open>The payload of a new channel has no empty string: every optional text that is empty is sent
  as null, and the batch options are sent only in the mode they belong to.\<close>

lemma create_payload_no_empty:
  assumes "transformFormDataToCreatePayload fd = Some p"
  shows "obj_get k (cp_channel p) \<noteq> JStr [] \<and>
    (cp_multi_key_mode p = JUndef \<or> cp_mode p = jstr_lit ''multi_to_single'') \<and>
    (cp_prefix p = JUndef \<or> cp_mode p = jstr_lit ''batch'')"
proof -
  have "obj_get k (create_channel fd st) \<noteq> JStr []" for st
    unfolding create_channel_def by (simp only: get_empty_to_null split: if_split) simp
  with assms show ?thesis
    by (auto simp: transformFormDataToCreatePayload_def Let_def simp del: list.map)
qed

lemma create_payload_no_empty_witness:
  "map_option (\<lambda>p. get (cp_channel p) ''tag'' \<noteq> JStr []) (transformFormDataToCreatePayload CHANNEL_FORM_DEFAULT_VALUES) = Some True"
proof -
  have "transformFormDataToCreatePayload CHANNEL_FORM_DEFAULT_VALUES \<noteq> None" by code_simp
  then obtain p where p: "transformFormDataToCreatePayload CHANNEL_FORM_DEFAULT_VALUES = Some p" by blast
  with create_payload_no_empty [OF p, of "lit ''tag''"] show ?thesis by simp
qed

text \<open>The payload of an update carries the key only when a new key was typed, and sends every
  clearable text as a string, never as null, so that an emptied field is cleared.\<close>

lemma update_payload_key:
  assumes "transformFormDataToUpdatePayload fd channelId = Some p"
  shows "(obj_has (lit ''key'') p \<longleftrightarrow> filled_string (get fd ''key'')) \<and>
    (filled_string (get fd ''key'') \<longrightarrow> get p ''key'' = get fd ''key'') \<and>
    list_all (\<lambda>k. get p k \<noteq> JNull \<and> get p k \<noteq> JUndef)
      [''base_url'', ''openai_organization'', ''test_model'', ''tag'', ''remark'', ''model_mapping'',
       ''status_code_mapping'', ''param_override'', ''header_override'']"
proof -
  obtain st where st: "buildSettingsJSON fd = Some st"
    using assms by (auto simp: transformFormDataToUpdatePayload_def)
  define b where "b = (if filled_string (get fd ''key'') then obj_put (lit ''key'') (get fd ''key'') (update_fields fd channelId st)
    else update_fields fd channelId st)"
  have p: "p = obj_build (empty_to_null b) (clearable_fields fd)"
    using assms by (simp add: transformFormDataToUpdatePayload_def st Let_def b_def)
  have c: "lit ''key'' \<notin> fst ` set (clearable_fields fd)" by (simp add: clearable_fields_def)
  have u: "\<not> obj_has (lit ''key'') (update_fields fd channelId st)"
    by (simp add: update_fields_def obj_lit_def has_obj_build common_fields_def obj_has_def [of _ "[]"])
  have 1: "obj_has (lit ''key'') p \<longleftrightarrow> filled_string (get fd ''key'')"
    unfolding p has_obj_build has_empty_to_null using c u by (simp add: b_def del: list.map)
  have 2: "get p ''key'' = get fd ''key''" if "filled_string (get fd ''key'')"
  proof -
    have "get fd ''key'' \<noteq> JStr []" using that by (auto simp: filled_string_def)
    then show ?thesis
      unfolding p get_obj_build_absent [OF c] get_empty_to_null using that by (simp add: b_def del: list.map)
  qed
  have 3: "get p k = JStr (normalizeBaseUrl (get fd ''base_url''))" if "k = ''base_url''" for k
    unfolding p that by (simp add: obj_build_def clearable_fields_def)
  have 4: "get p k = jor (get fd k) (JStr [])"
    if "k \<in> {''openai_organization'', ''test_model'', ''tag'', ''remark'', ''model_mapping'',
       ''status_code_mapping'', ''param_override'', ''header_override''}" for k
    using that unfolding p by (auto simp: obj_build_def clearable_fields_def)
  have "jor v (JStr []) \<noteq> JNull \<and> jor v (JStr []) \<noteq> JUndef" for v by (cases v) (simp_all add: jor_def)
  then show ?thesis using 1 2 3 4 by (simp del: list.map)
qed

lemma update_payload_key_witness:
  "map_option (\<lambda>p. obj_has (lit ''key'') p) (transformFormDataToUpdatePayload CHANNEL_FORM_DEFAULT_VALUES (JNum (Fin 7))) =
   Some False"
proof -
  have "transformFormDataToUpdatePayload CHANNEL_FORM_DEFAULT_VALUES (JNum (Fin 7)) \<noteq> None" by code_simp
  then obtain p where p: "transformFormDataToUpdatePayload CHANNEL_FORM_DEFAULT_VALUES (JNum (Fin 7)) = Some p" by blast
  have k: "\<not> filled_string (get CHANNEL_FORM_DEFAULT_VALUES ''key'')" by code_simp
  from update_payload_key [OF p] k p show ?thesis by (simp del: list.map)
qed

end
