(* ===== verification/Model_Mapping.thy ===== *)
theory Model_Mapping
  imports Channel_Form
begin

text \<open>
  Saving a channel: the checks on the model mapping (\<^verbatim>\<open>lib/model-mapping-validation.ts\<close>) and on the
  status code mapping (\<^verbatim>\<open>lib/status-code-risk-guard.ts\<close>), the pending upstream updates
  (\<^verbatim>\<open>lib/upstream-update-utils.ts\<close>), the submit handler of the drawer
  (\<^verbatim>\<open>channel-mutate-drawer.tsx\<close>, \<open>onSubmit\<close>) that composes them, and the mutation it starts
  (\<^verbatim>\<open>hooks/use-channel-mutate-form.ts\<close>). The answers of the user to the two confirmation dialogs are
  arguments of the handler.
\<close>

section \<open>Lists of models\<close>

definition parseModelsString :: "jstring \<Rightarrow> jstring list" where
  "parseModelsString modelsStr = (if modelsStr = [] then [] else split_trim 44 modelsStr)"

definition formatModelsArray :: "jstring list \<Rightarrow> jstring" where
  "formatModelsArray models = join [44] (uniq models)"

definition normalizeModelName :: "jstring \<Rightarrow> jstring" where
  "normalizeModelName model = trim model"

text \<open>The object a text parses to; \<open>None\<close> when it does not parse or is not an object.\<close>

definition json_object :: "jstring \<Rightarrow> obj option" where
  "json_object s = Option.bind (json_parse s) as_object"

definition extractMappingSourceModels :: "jstring \<Rightarrow> jstring list" where
  "extractMappingSourceModels modelMapping =
     (let trimmed = trim modelMapping in
      if trimmed = [] then []
      else case json_object trimmed of
        None \<Rightarrow> []
      | Some parsed \<Rightarrow> uniq (filter (\<lambda>k. k \<noteq> []) (map (\<lambda>(k, _). trim k) parsed)))"

definition string_value :: "jval \<Rightarrow> jstring" where
  "string_value v = (case v of JStr s \<Rightarrow> trim s | _ \<Rightarrow> [])"

definition extractRedirectModels :: "jstring \<Rightarrow> jstring list" where
  "extractRedirectModels modelMapping =
     (let trimmed = trim modelMapping in
      if trimmed = [] then []
      else case json_object trimmed of
        None \<Rightarrow> []
      | Some parsed \<Rightarrow> uniq (filter (\<lambda>v. v \<noteq> []) (map (\<lambda>(_, v). string_value v) parsed)))"

fun differs_at :: "jstring list \<Rightarrow> jstring list \<Rightarrow> bool" where
  "differs_at (x # xs) (y # ys) = (if x \<noteq> y then True else differs_at xs ys)"
| "differs_at _ _ = False"

definition hasModelConfigChanged :: "jstring list \<Rightarrow> jstring \<Rightarrow> jstring list \<Rightarrow> jstring \<Rightarrow> bool" where
  "hasModelConfigChanged currentModels currentModelMapping initialModels initialModelMapping =
     (if length initialModels = 0 \<and> initialModelMapping = [] then True
      else if length currentModels \<noteq> length initialModels then True
      else if differs_at currentModels initialModels then True
      else trim currentModelMapping \<noteq> trim initialModelMapping)"

definition findMissingModelsInMapping :: "jstring \<Rightarrow> jstring list \<Rightarrow> jstring list" where
  "findMissingModelsInMapping modelMapping currentModels =
     (if modelMapping = [] \<or> trim modelMapping = [] then []
      else case json_object modelMapping of
        None \<Rightarrow> []
      | Some parsed \<Rightarrow>
          let modelSet = set (map normalizeModelName currentModels) in
          uniq (filter (\<lambda>k. k \<noteq> [] \<and> k \<notin> modelSet) (map (\<lambda>(k, _). normalizeModelName k) parsed)))"

text \<open>The error message, or \<open>None\<close> when the mapping is valid.\<close>

definition validateModelMappingJson :: "jstring \<Rightarrow> string option" where
  "validateModelMappingJson modelMapping =
     (if modelMapping = [] \<or> trim modelMapping = [] then None
      else case json_parse modelMapping of
        None \<Rightarrow> Some ''Model mapping must be valid JSON format''
      | Some v \<Rightarrow>
          (case as_object v of
             None \<Rightarrow> Some ''Model mapping must be a valid JSON object''
           | Some parsed \<Rightarrow>
               if list_ex (\<lambda>(_, x). \<not> is_string x) parsed then Some ''Model mapping values must be strings''
               else None))"

definition findExposedTargetModels :: "jstring \<Rightarrow> jstring list \<Rightarrow> jstring list" where
  "findExposedTargetModels modelMapping currentModels =
     (let redirectModels = extractRedirectModels modelMapping in
      if length redirectModels = 0 then []
      else let modelSet = set (map normalizeModelName currentModels) in
        filter (\<lambda>model. normalizeModelName model \<in> modelSet) redirectModels)"

record redirect_categories =
  normalizedCurrentModels :: "jstring list"
  normalizedRedirectModels :: "jstring list"
  classificationSet :: "jstring list"
  redirectOnlySet :: "jstring list"

definition categorizeModelsWithRedirect :: "jstring list \<Rightarrow> jstring list \<Rightarrow> redirect_categories" where
  "categorizeModelsWithRedirect currentModels redirectModels =
     (let cur = uniq (filter (\<lambda>m. m \<noteq> []) (map normalizeModelName currentModels));
          red = uniq (filter (\<lambda>m. m \<noteq> []) (map normalizeModelName redirectModels)) in
      \<lparr>normalizedCurrentModels = cur, normalizedRedirectModels = red, classificationSet = uniq (cur @ red),
       redirectOnlySet = uniq (filter (\<lambda>m. m \<notin> set cur) red)\<rparr>)"

section \<open>Pending upstream updates\<close>

text \<open>\<open>None\<close> is the exception of calling \<^verbatim>\<open>map\<close> on a value that is not an array.\<close>

definition normalizeModelList :: "jval \<Rightarrow> jstring list option" where
  "normalizeModelList models =
     (case jor models (JArr []) of
        JArr vs \<Rightarrow> Some (uniq (filter (\<lambda>m. m \<noteq> []) (map (\<lambda>v. trim (str_of (jor v (JStr [])))) vs)))
      | _ \<Rightarrow> None)"

record upstream_meta =
  meta_enabled :: bool
  pendingAddModels :: "jstring list"
  pendingRemoveModels :: "jstring list"

definition parseUpstreamUpdateMeta :: "jval \<Rightarrow> upstream_meta option" where
  "parseUpstreamUpdateMeta settings =
     (let parsed =
            (case settings of
               JObj ps \<Rightarrow> settings
             | JStr s \<Rightarrow> (case json_parse s of None \<Rightarrow> JNull | Some v \<Rightarrow> v)
             | _ \<Rightarrow> JNull) in
      case parsed of
        JObj _ \<Rightarrow>
          Option.bind (normalizeModelList (jprop (lit ''upstream_model_update_last_detected_models'') parsed)) (\<lambda>add.
          Option.bind (normalizeModelList (jprop (lit ''upstream_model_update_last_removed_models'') parsed)) (\<lambda>rem.
          Some \<lparr>meta_enabled = (jprop (lit ''upstream_model_update_check_enabled'') parsed = JBool True),
                pendingAddModels = add, pendingRemoveModels = rem\<rparr>))
      | _ \<Rightarrow> Some \<lparr>meta_enabled = False, pendingAddModels = [], pendingRemoveModels = []\<rparr>)"

section \<open>The status code guard\<close>

definition NON_REDIRECTABLE_STATUS_CODES :: "nat list" where
  "NON_REDIRECTABLE_STATUS_CODES = [504, 524]"

text \<open>The pattern \<^verbatim>\<open>/^[1-5]\d{2}$/\<close>.\<close>

definition code_pattern :: "jstring \<Rightarrow> bool" where
  "code_pattern s \<longleftrightarrow> length s = 3 \<and> 49 \<le> s ! 0 \<and> s ! 0 \<le> 53 \<and> is_digit (s ! 1) \<and> is_digit (s ! 2)"

definition parseStatusCodeKey :: "jstring \<Rightarrow> nat option" where
  "parseStatusCodeKey rawKey =
     (let normalized = trim rawKey in
      if \<not> code_pattern normalized then None else Some (digits_val normalized))"

definition parseStatusCodeMappingTarget :: "jval \<Rightarrow> nat option" where
  "parseStatusCodeMappingTarget rawValue =
     (case rawValue of
        JNum x \<Rightarrow>
          (case x of
             Fin q \<Rightarrow> if is_integer x \<and> 100 \<le> q \<and> q \<le> 599 then Some (nat \<lfloor>q\<rfloor>) else None
           | _ \<Rightarrow> None)
      | JStr s \<Rightarrow>
          (let normalized = trim s in
           if \<not> code_pattern normalized then None
           else let code = digits_val normalized in if 100 \<le> code \<and> code \<le> 599 then Some code else None)
      | _ \<Rightarrow> None)"

definition entry_codes :: "jstring \<times> jval \<Rightarrow> (nat \<times> nat) option" where
  "entry_codes e =
     (case (parseStatusCodeKey (fst e), parseStatusCodeMappingTarget (snd e)) of
        (Some a, Some b) \<Rightarrow> Some (a, b) | _ \<Rightarrow> None)"

definition collectInvalidStatusCodeEntries :: "jstring \<Rightarrow> jstring list" where
  "collectInvalidStatusCodeEntries mapping =
     (if trim mapping = [] then []
      else case json_object mapping of
        None \<Rightarrow> []
      | Some parsed \<Rightarrow>
          map (\<lambda>(k, v). k @ [32, 8594, 32] @ str_of v) (filter (\<lambda>e. entry_codes e = None) parsed))"

definition redirect_text :: "nat \<times> nat \<Rightarrow> jstring" where
  "redirect_text c = nat_str (fst c) @ lit '' -> '' @ nat_str (snd c)"

definition risky :: "nat \<times> nat \<Rightarrow> bool" where
  "risky c \<longleftrightarrow> fst c \<in> set NON_REDIRECTABLE_STATUS_CODES \<and> fst c \<noteq> snd c"

definition collectDisallowedStatusCodeRedirects :: "jstring \<Rightarrow> jstring list" where
  "collectDisallowedStatusCodeRedirects mapping =
     (if trim mapping = [] then []
      else case json_object mapping of
        None \<Rightarrow> []
      | Some parsed \<Rightarrow>
          js_sort str_cmp (uniq (map redirect_text (filter risky (List.map_filter entry_codes parsed)))))"

definition collectNewDisallowedStatusCodeRedirects :: "jstring \<Rightarrow> jstring \<Rightarrow> jstring list" where
  "collectNewDisallowedStatusCodeRedirects originalStr currentStr =
     (let currentRisky = collectDisallowedStatusCodeRedirects currentStr in
      if length currentRisky = 0 then []
      else filter (\<lambda>m. m \<notin> set (collectDisallowedStatusCodeRedirects originalStr)) currentRisky)"

section \<open>The submit handler\<close>

datatype missing_action = Cancel | Submit | Add

datatype mutation = UpdateChannel jval obj | CreateChannel create_payload

record drawer =
  isEditing :: bool
  currentRow_id :: "jval option"
  isMultiKey :: bool
  initialModels :: "jstring list"
  initialModelMapping :: jstring
  initialStatusCodeMapping :: jstring

text \<open>The request of the mutation; \<open>None\<close> when building the payload throws.\<close>

definition mutation_request :: "drawer \<Rightarrow> obj \<Rightarrow> mutation option" where
  "mutation_request d fd =
     (case (isEditing d, currentRow_id d) of
        (True, Some i) \<Rightarrow>
          map_option (\<lambda>payload.
            UpdateChannel i (if isMultiKey d \<and> truthy (get fd ''key_mode'')
                             then obj_put (lit ''key_mode'') (get fd ''key_mode'') payload else payload))
            (transformFormDataToUpdatePayload fd i)
      | _ \<Rightarrow> map_option CreateChannel (transformFormDataToCreatePayload fd))"

datatype submit_outcome =
    KeyRequired
  | InvalidEntries "jstring list"
  | RiskRefused "jstring list"
  | MappingError string
  | MissingCancelled "jstring list"
  | Sent obj "mutation option"

definition text_field :: "obj \<Rightarrow> string \<Rightarrow> jstring" where
  "text_field fd k = (case get fd k of JStr s \<Rightarrow> s | _ \<Rightarrow> [])"

definition status_gate :: "(jstring list \<Rightarrow> bool) \<Rightarrow> drawer \<Rightarrow> jstring \<Rightarrow> submit_outcome option" where
  "status_gate confirmRisk d mapping =
     (if trim mapping = [] then None
      else let invalid = collectInvalidStatusCodeEntries mapping in
        if invalid \<noteq> [] then Some (InvalidEntries invalid)
        else let new = collectNewDisallowedStatusCodeRedirects (initialStatusCodeMapping d) mapping in
          if new \<noteq> [] \<and> \<not> confirmRisk new then Some (RiskRefused new) else None)"

definition model_gate ::
  "(jstring list \<Rightarrow> missing_action) \<Rightarrow> drawer \<Rightarrow> obj \<Rightarrow> submit_outcome + obj" where
  "model_gate confirmMissing d fd =
     (let mapping = text_field fd ''model_mapping'' in
      if trim mapping = [] then Inr fd
      else case validateModelMappingJson mapping of
        Some err \<Rightarrow> Inl (MappingError err)
      | None \<Rightarrow>
          let models = parseModelsString (text_field fd ''models'');
              missing = findMissingModelsInMapping mapping models in
          if missing \<noteq> [] \<and> hasModelConfigChanged models mapping (initialModels d) (initialModelMapping d)
          then case confirmMissing missing of
            Cancel \<Rightarrow> Inl (MissingCancelled missing)
          | Add \<Rightarrow> Inr (obj_put (lit ''models'') (JStr (formatModelsArray (uniq (models @ missing)))) fd)
          | Submit \<Rightarrow> Inr fd
          else Inr fd)"

definition onSubmit ::
  "(jstring list \<Rightarrow> bool) \<Rightarrow> (jstring list \<Rightarrow> missing_action) \<Rightarrow> drawer \<Rightarrow> obj \<Rightarrow> submit_outcome" where
  "onSubmit confirmRisk confirmMissing d fd =
     (if \<not> isEditing d \<and> otrim (get fd ''key'') = [] then KeyRequired
      else case status_gate confirmRisk d (text_field fd ''status_code_mapping'') of
        Some stop \<Rightarrow> stop
      | None \<Rightarrow>
          (case model_gate confirmMissing d fd of
             Inl stop \<Rightarrow> stop
           | Inr fd' \<Rightarrow> Sent fd' (mutation_request d fd')))"

section \<open>Models\<close>

text \<open>A model list is a separated list whose tokens are the trimmed names without a comma.\<close>

definition model_name :: "jstring \<Rightarrow> bool" where
  "model_name m \<longleftrightarrow> m \<noteq> [] \<and> trimmed m \<and> 44 \<notin> set m"

interpretation ml: list_codec 44 "\<lambda>m. m" Some model_name
  by unfold_locales (auto simp: model_name_def)

lemma parse_models_name: "m \<in> set (parseModelsString s) \<Longrightarrow> model_name m"
  using split_trim_parts [of m 44 s] by (auto simp: parseModelsString_def model_name_def split: if_splits)

lemma parse_format_models:
  "\<forall>m \<in> set ms. model_name m \<Longrightarrow> parseModelsString (formatModelsArray ms) = uniq ms"
  using ml.split_trim_print [of "uniq ms"] by (auto simp: parseModelsString_def formatModelsArray_def)

lemma differs_at_iff: "length xs = length ys \<Longrightarrow> differs_at xs ys \<longleftrightarrow> xs \<noteq> ys"
  by (induction xs ys rule: list_induct2) auto

lemma config_changed_iff:
  "hasModelConfigChanged ms mm ims imm \<longleftrightarrow>
   (ims = [] \<and> imm = []) \<or> ms \<noteq> ims \<or> trim mm \<noteq> trim imm"
  by (cases "length ms = length ims") (auto simp: hasModelConfigChanged_def differs_at_iff)

definition mapping_sources :: "jstring \<Rightarrow> jstring list" where
  "mapping_sources mm = (if trim mm = [] then []
     else case json_object mm of None \<Rightarrow> [] | Some ps \<Rightarrow> filter (\<lambda>k. k \<noteq> []) (map (\<lambda>(k, _). trim k) ps))"

lemma missing_filter:
  "findMissingModelsInMapping mm cur = uniq (filter (\<lambda>k. k \<notin> trim ` set cur) (mapping_sources mm))"
  by (cases "mm = []")
    (auto simp: findMissingModelsInMapping_def mapping_sources_def normalizeModelName_def Let_def
      comp_def conj_commute case_prod_beta split: option.splits)

lemma set_missing: "set (findMissingModelsInMapping mm cur) = set (mapping_sources mm) - trim ` set cur"
  by (auto simp: missing_filter)

lemma source_trimmed: "k \<in> set (mapping_sources mm) \<Longrightarrow> k \<noteq> [] \<and> trimmed k"
  by (auto simp: mapping_sources_def split: if_splits option.splits)

lemma missing_add: "findMissingModelsInMapping mm (cur @ findMissingModelsInMapping mm cur) = []"
proof -
  have "trim ` set (findMissingModelsInMapping mm cur) = set (findMissingModelsInMapping mm cur)"
    using source_trimmed by (force simp: set_missing trim_trimmed)
  then show ?thesis
    by (auto simp: missing_filter [of mm "cur @ _"] filter_empty_conv image_Un set_missing)
qed

lemma missing_cong: "set a = set b \<Longrightarrow> findMissingModelsInMapping mm a = findMissingModelsInMapping mm b"
  by (simp add: missing_filter)

text \<open>The missing models of a mapping are exactly its source names that the channel does not offer;
  once they are added and the list is written and read back none is missing, provided no source
  name holds a comma.\<close>

lemma missing_models_added:
  assumes "\<forall>k \<in> set (mapping_sources mm). 44 \<notin> set k"
  shows "(let ms = parseModelsString s; missing = findMissingModelsInMapping mm ms in
    set missing = set (mapping_sources mm) - set ms \<and> distinct missing \<and>
    findMissingModelsInMapping mm (parseModelsString (formatModelsArray (uniq (ms @ missing)))) = [])"
proof -
  let ?ms = "parseModelsString s" let ?mi = "findMissingModelsInMapping mm ?ms"
  have t: "trim ` set ?ms = set ?ms"
    using parse_models_name [of _ s] by (force simp: model_name_def trim_trimmed)
  have "\<forall>m \<in> set (uniq (?ms @ ?mi)). model_name m"
    using parse_models_name source_trimmed assms by (auto simp: set_missing model_name_def)
  then have "parseModelsString (formatModelsArray (uniq (?ms @ ?mi))) = uniq (?ms @ ?mi)"
    by (simp add: parse_format_models)
  moreover have "findMissingModelsInMapping mm (uniq (?ms @ ?mi)) = []"
    using missing_add [of mm ?ms] by (subst missing_cong [of _ "?ms @ ?mi"]) simp_all
  ultimately show ?thesis by (simp add: Let_def set_missing t) (simp add: missing_filter)
qed

lemma missing_models_added_witness:
  "findMissingModelsInMapping (lit ''{\"gpt-4\":\"gpt-4o\",\"o1\":\"o3\"}'')
     (parseModelsString (formatModelsArray (uniq ([lit ''o1''] @ [lit ''gpt-4''])))) = []"
proof -
  have "\<forall>k \<in> set (mapping_sources (lit ''{\"gpt-4\":\"gpt-4o\",\"o1\":\"o3\"}'')). 44 \<notin> set k" by code_simp
  from missing_models_added [OF this, of "lit ''o1''"]
  have "findMissingModelsInMapping (lit ''{\"gpt-4\":\"gpt-4o\",\"o1\":\"o3\"}'')
     (parseModelsString (formatModelsArray (uniq (parseModelsString (lit ''o1'') @
       findMissingModelsInMapping (lit ''{\"gpt-4\":\"gpt-4o\",\"o1\":\"o3\"}'') (parseModelsString (lit ''o1'')))))) = []"
    by (simp only: Let_def)
  moreover have "parseModelsString (lit ''o1'') = [lit ''o1'']" by code_simp
  moreover have "findMissingModelsInMapping (lit ''{\"gpt-4\":\"gpt-4o\",\"o1\":\"o3\"}'') [lit ''o1''] = [lit ''gpt-4'']"
    by code_simp
  ultimately show ?thesis by (simp only:)
qed

text \<open>A source name with a comma is never added: the list is written with commas, so the name comes
  back as two models and is still missing.\<close>

lemma comma_model_stays_missing:
  "(let mm = lit ''{\"a,b\":\"c\"}''; missing = findMissingModelsInMapping mm [] in
    missing = [lit ''a,b''] \<and>
    findMissingModelsInMapping mm (parseModelsString (formatModelsArray (uniq missing))) = missing)"
  by code_simp

text \<open>Exposed targets: removing them from the list leaves none.\<close>

lemma exposed_iff:
  "set (findExposedTargetModels mm cur) = set (extractRedirectModels mm) \<inter> trim ` set cur"
proof -
  have "trim m = m" if "m \<in> set (extractRedirectModels mm)" for m
    using that by (auto simp: extractRedirectModels_def Let_def string_value_def trim_trimmed
      split: if_splits option.splits jval.splits)
  then show ?thesis
    by (auto simp: findExposedTargetModels_def Let_def normalizeModelName_def)
qed

lemma exposed_removed:
  "findExposedTargetModels mm (filter (\<lambda>m. trim m \<notin> set (findExposedTargetModels mm cur)) cur) = []"
proof -
  have "set (findExposedTargetModels mm (filter (\<lambda>m. trim m \<notin> set (findExposedTargetModels mm cur)) cur)) = {}"
    by (auto simp: exposed_iff)
  then show ?thesis by simp
qed

text \<open>The categories partition the classified models.\<close>

lemma categories_partition:
  "(let r = categorizeModelsWithRedirect cur red in
    set (classificationSet r) = set (normalizedCurrentModels r) \<union> set (redirectOnlySet r) \<and>
    set (normalizedCurrentModels r) \<inter> set (redirectOnlySet r) = {})"
  by (auto simp: categorizeModelsWithRedirect_def Let_def)

section \<open>The guard on status codes\<close>

lemma code_pattern_cases:
  assumes "code_pattern s"
  obtains a b c where "s = [48 + a, 48 + b, 48 + c]" and "1 \<le> a" "a \<le> 5" "b < 10" "c < 10"
proof -
  from assms obtain x y z where s: "s = [x, y, z]"
    by (auto simp: code_pattern_def length_Suc_conv numeral_3_eq_3)
  with assms have "49 \<le> x" "x \<le> 53" "48 \<le> y" "y \<le> 57" "48 \<le> z" "z \<le> 57"
    by (auto simp: code_pattern_def is_digit_def)
  then have "s = [48 + (x - 48), 48 + (y - 48), 48 + (z - 48)]" and "1 \<le> x - 48" "x - 48 \<le> 5" "y - 48 < 10" "z - 48 < 10"
    by (auto simp: s)
  then show thesis by (rule that)
qed

lemma tens: "c < 10 \<Longrightarrow> (10 * x + c) div 10 = x \<and> (10 * x + c) mod 10 = c" for x c :: nat
  by simp

lemma code_pattern_nat_str:
  assumes "code_pattern s"
  shows "s = nat_str (digits_val s) \<and> 100 \<le> digits_val s \<and> digits_val s \<le> 599"
  using assms
proof (cases rule: code_pattern_cases)
  case (1 a b c)
  let ?n = "100 * a + 10 * b + c"
  have v: "digits_val s = ?n" using 1 by (simp add: digits_val_def)
  have "nat_str ?n = nat_str (?n div 10) @ [48 + ?n mod 10]" using 1 by (subst nat_str.simps) simp
  moreover have "?n div 10 = 10 * a + b" "?n mod 10 = c" using tens [of c "10 * a + b"] 1(5) by simp_all
  moreover have "nat_str (10 * a + b) = nat_str ((10 * a + b) div 10) @ [48 + (10 * a + b) mod 10]"
    using 1 by (subst nat_str.simps) simp
  moreover have "(10 * a + b) div 10 = a" "(10 * a + b) mod 10 = b" using tens [of b a] 1(4) by simp_all
  moreover have "nat_str a = [48 + a]" using 1 by (subst nat_str.simps) simp
  ultimately show ?thesis using 1 v by simp
qed

lemma js_Number_trim: "js_Number (trim s) = js_Number s"
  by (simp add: js_Number_def)

lemma code_text_number: "code_pattern (trim s) \<Longrightarrow> js_Number s = Fin (of_nat (digits_val (trim s)))"
  using code_pattern_nat_str [of "trim s"] js_Number_nat_str [of "digits_val (trim s)"] js_Number_trim [of s] by simp

lemma key_code: "parseStatusCodeKey k = Some a \<Longrightarrow> js_Number k = Fin (of_nat a) \<and> a \<le> 599"
  using code_text_number [of k] code_pattern_nat_str [of "trim k"]
  by (auto simp: parseStatusCodeKey_def Let_def split: if_splits)

lemma target_code: "parseStatusCodeMappingTarget v = Some b \<Longrightarrow> num_of v = Fin (of_nat b) \<and> b \<le> 599"
proof (cases v)
  case (JNum x)
  assume a: "parseStatusCodeMappingTarget v = Some b"
  with JNum obtain q where q: "x = Fin q" "is_integer x" "100 \<le> q" "q \<le> 599" "b = nat \<lfloor>q\<rfloor>"
    by (auto simp: parseStatusCodeMappingTarget_def split: jsnum.splits if_splits)
  then obtain z where z: "q = of_int z" by (auto simp: is_integer_def elim: Ints_cases)
  then show ?thesis using q JNum by (auto simp: num_of_def)
next
  case (JStr s)
  assume "parseStatusCodeMappingTarget v = Some b"
  then show ?thesis
    using JStr code_text_number [of s] by (auto simp: parseStatusCodeMappingTarget_def num_of_def Let_def split: if_splits)
qed (auto simp: parseStatusCodeMappingTarget_def)

lemma set_map_filter_Some: "set (List.map_filter g xs) = {y. \<exists>x \<in> set xs. g x = Some y}"
  by (induction xs) (auto simp: map_filter_simps split: option.splits)

lemma distinct_js_sort: "distinct (js_sort cmp xs) \<longleftrightarrow> distinct xs"
  using mset_eq_imp_distinct_iff [OF mset_js_sort] .

lemma set_risky:
  "set (collectDisallowedStatusCodeRedirects mapping) =
   (if trim mapping = [] then {} else case json_object mapping of None \<Rightarrow> {} | Some ps \<Rightarrow>
      {redirect_text c | c e. e \<in> set ps \<and> entry_codes e = Some c \<and> risky c})"
  by (simp add: collectDisallowedStatusCodeRedirects_def set_map_filter_Some image_Collect split: option.splits
      del: split_paired_Ex split_paired_All) blast

lemma set_new_risky:
  "set (collectNewDisallowedStatusCodeRedirects old new) =
   set (collectDisallowedStatusCodeRedirects new) - set (collectDisallowedStatusCodeRedirects old)"
  by (auto simp: collectNewDisallowedStatusCodeRedirects_def Let_def)

lemma num_str_code: "b \<le> 599 \<Longrightarrow> num_str (Fin (of_nat b)) = nat_str b"
  by (rule num_str_nat) simp

text \<open>The guard on status codes is complete: in a mapping it finds no invalid entry in, every entry
  that sends 504 or 524 to another code, however key and target are written, is reported.\<close>

lemma status_guard_complete:
  assumes "collectInvalidStatusCodeEntries mapping = []" and "trim mapping \<noteq> []"
    and "json_object mapping = Some ps" and "(k, v) \<in> set ps"
    and "js_Number k = Fin 504 \<or> js_Number k = Fin 524" and "num_of v \<noteq> js_Number k"
  shows "num_str (js_Number k) @ lit '' -> '' @ num_str (num_of v)
    \<in> set (collectDisallowedStatusCodeRedirects mapping)"
proof -
  have "entry_codes (k, v) \<noteq> None"
    using assms(1-4) by (auto simp: collectInvalidStatusCodeEntries_def filter_empty_conv)
  then obtain a b where a: "parseStatusCodeKey k = Some a" and b: "parseStatusCodeMappingTarget v = Some b"
    by (auto simp: entry_codes_def split: option.splits)
  from key_code [OF a] have k: "js_Number k = Fin (of_nat a)" "a \<le> 599" by auto
  from target_code [OF b] have v: "num_of v = Fin (of_nat b)" "b \<le> 599" by auto
  have "of_nat a = (504 :: rat) \<or> of_nat a = (524 :: rat)" using assms(5) k by simp
  then have "a = 504 \<or> a = 524" by (metis of_nat_eq_iff of_nat_numeral)
  moreover have "a \<noteq> b" using assms(6) k v by auto
  ultimately have "risky (a, b)" by (auto simp: risky_def NON_REDIRECTABLE_STATUS_CODES_def)
  moreover have "entry_codes (k, v) = Some (a, b)" using a b by (simp add: entry_codes_def)
  ultimately have "redirect_text (a, b) \<in> set (collectDisallowedStatusCodeRedirects mapping)"
    using assms(2,3,4) by (auto simp: set_risky)
  then show ?thesis using k v by (simp add: redirect_text_def num_str_code del: list.map)
qed

lemma status_guard_complete_witness:
  "lit ''504 -> 200'' \<in> set (collectDisallowedStatusCodeRedirects (lit ''{\" 504 \":200}''))"
proof -
  let ?m = "lit ''{\" 504 \":200}''"
  have 1: "collectInvalidStatusCodeEntries ?m = []" by code_simp
  have 2: "trim ?m \<noteq> []" by code_simp
  have 3: "json_object ?m = Some [(lit '' 504 '', JNum (Fin 200))]" by code_simp
  have 4: "js_Number (lit '' 504 '') = Fin 504 \<or> js_Number (lit '' 504 '') = Fin 524" by code_simp
  have 5: "num_of (JNum (Fin 200)) \<noteq> js_Number (lit '' 504 '')" by code_simp
  have 6: "num_str (js_Number (lit '' 504 '')) @ lit '' -> '' @ num_str (num_of (JNum (Fin 200))) = lit ''504 -> 200''"
    by code_simp
  from status_guard_complete [OF 1 2 3 _ 4 5] show ?thesis unfolding 6 by simp
qed

text \<open>The reported redirects are sorted and without duplicates, and the new ones are those of the
  edited mapping that the stored mapping did not have.\<close>

lemma risky_redirects_sorted:
  "sorted_wrt (\<lambda>a b. str_cmp a b < 0) (collectDisallowedStatusCodeRedirects new) \<and>
   set (collectNewDisallowedStatusCodeRedirects old new) =
     set (collectDisallowedStatusCodeRedirects new) - set (collectDisallowedStatusCodeRedirects old) \<and>
   collectNewDisallowedStatusCodeRedirects new new = []"
proof -
  have d: "distinct (collectDisallowedStatusCodeRedirects new)"
    by (simp add: collectDisallowedStatusCodeRedirects_def distinct_js_sort split: option.splits)
  have "sorted_wrt (\<lambda>a b. str_cmp a b \<le> 0) (collectDisallowedStatusCodeRedirects new)"
    by (auto simp: collectDisallowedStatusCodeRedirects_def sc.sorted_sort split: option.splits)
  with d have "sorted_wrt (\<lambda>a b. str_cmp a b < 0) (collectDisallowedStatusCodeRedirects new)"
    by (induction "collectDisallowedStatusCodeRedirects new" rule: list.induct)
      (auto simp: order.order_iff_strict str_cmp_0 sorted_wrt_iff_nth_less distinct_conv_nth)
  then show ?thesis using set_new_risky [of old new] set_new_risky [of new new] by simp
qed

section \<open>Submitting\<close>

lemma status_gate_None:
  "status_gate confirm d m = None \<longleftrightarrow>
   trim m = [] \<or> collectInvalidStatusCodeEntries m = [] \<and>
     (let new = collectNewDisallowedStatusCodeRedirects (initialStatusCodeMapping d) m in new = [] \<or> confirm new)"
  by (auto simp: status_gate_def Let_def)

lemma model_gate_Inr:
  assumes "model_gate confirm d fd = Inr fd'"
  defines "mm \<equiv> text_field fd ''model_mapping''"
  defines "ms \<equiv> parseModelsString (text_field fd ''models'')"
  defines "missing \<equiv> findMissingModelsInMapping mm ms"
  shows "validateModelMappingJson mm = None"
    and "fd' = fd \<or> confirm missing = Add \<and> missing \<noteq> [] \<and>
           fd' = obj_put (lit ''models'') (JStr (formatModelsArray (uniq (ms @ missing)))) fd"
    and "fd' = fd \<Longrightarrow> missing = [] \<or> confirm missing \<noteq> Cancel \<or>
           \<not> hasModelConfigChanged ms mm (initialModels d) (initialModelMapping d)"
proof -
  show "validateModelMappingJson mm = None"
    using assms(1) by (auto simp: model_gate_def mm_def Let_def validateModelMappingJson_def split: if_splits option.splits)
  show "fd' = fd \<or> confirm missing = Add \<and> missing \<noteq> [] \<and>
      fd' = obj_put (lit ''models'') (JStr (formatModelsArray (uniq (ms @ missing)))) fd"
    using assms(1) unfolding model_gate_def Let_def mm_def [symmetric] ms_def [symmetric] missing_def [symmetric]
    by (auto split: if_splits option.splits missing_action.splits)
  have "missing = []" if "trim mm = []"
    using that by (simp add: missing_def findMissingModelsInMapping_def)
  then show "missing = [] \<or> confirm missing \<noteq> Cancel \<or>
      \<not> hasModelConfigChanged ms mm (initialModels d) (initialModelMapping d)" if "fd' = fd"
    using assms(1) unfolding model_gate_def Let_def mm_def [symmetric] ms_def [symmetric] missing_def [symmetric]
    by (auto split: if_splits option.splits missing_action.splits)
qed

text \<open>C10: A channel is sent only through its checks: a new channel has a key, no entry of the status code
  mapping is invalid, a new redirect of 504 or 524 was confirmed, the model mapping is valid, and
  missing models were accepted or added unless the model configuration is the stored one. Only the
  list of models of the form can differ from what was submitted.\<close>

theorem submit_checked:
  assumes "onSubmit confirmRisk confirmMissing d fd = Sent fd' req"
  defines "st \<equiv> text_field fd ''status_code_mapping''" and "mm \<equiv> text_field fd ''model_mapping''"
    and "ms \<equiv> parseModelsString (text_field fd ''models'')"
  shows "(isEditing d \<or> otrim (get fd ''key'') \<noteq> []) \<and> collectInvalidStatusCodeEntries st = [] \<and>
    (let new = collectNewDisallowedStatusCodeRedirects (initialStatusCodeMapping d) st in new = [] \<or> confirmRisk new) \<and>
    validateModelMappingJson mm = None \<and>
    (let missing = findMissingModelsInMapping mm ms in
       missing = [] \<or> confirmMissing missing \<noteq> Cancel \<or>
       \<not> hasModelConfigChanged ms mm (initialModels d) (initialModelMapping d)) \<and>
    (\<forall>k. k \<noteq> lit ''models'' \<longrightarrow> obj_get k fd' = obj_get k fd) \<and> req = mutation_request d fd'"
proof -
  from assms(1) have key: "isEditing d \<or> otrim (get fd ''key'') \<noteq> []" and sg: "status_gate confirmRisk d st = None"
    and mg: "model_gate confirmMissing d fd = Inr fd'" and req: "req = mutation_request d fd'"
    by (auto simp: onSubmit_def status_gate_def model_gate_def st_def Let_def
      split: if_splits option.splits sum.splits missing_action.splits)
  have "trim st = [] \<Longrightarrow> collectInvalidStatusCodeEntries st = []"
    and "trim st = [] \<Longrightarrow> collectNewDisallowedStatusCodeRedirects (initialStatusCodeMapping d) st = []"
    by (simp_all add: collectInvalidStatusCodeEntries_def collectNewDisallowedStatusCodeRedirects_def
      collectDisallowedStatusCodeRedirects_def)
  with sg have "collectInvalidStatusCodeEntries st = []" and
    "let new = collectNewDisallowedStatusCodeRedirects (initialStatusCodeMapping d) st in new = [] \<or> confirmRisk new"
    by (auto simp: status_gate_None)
  moreover have "validateModelMappingJson mm = None"
    using model_gate_Inr(1) [OF mg] by (simp add: mm_def)
  moreover have "let missing = findMissingModelsInMapping mm ms in missing = [] \<or> confirmMissing missing \<noteq> Cancel \<or>
       \<not> hasModelConfigChanged ms mm (initialModels d) (initialModelMapping d)"
    using model_gate_Inr(2,3) [OF mg] unfolding mm_def ms_def Let_def by fastforce
  moreover have "obj_get k fd' = obj_get k fd" if "k \<noteq> lit ''models''" for k
    using model_gate_Inr(2) [OF mg] that by auto
  ultimately show ?thesis using key req by blast
qed

definition sample_drawer :: drawer where
  "sample_drawer = \<lparr>isEditing = False, currentRow_id = None, isMultiKey = False, initialModels = [],
     initialModelMapping = [], initialStatusCodeMapping = []\<rparr>"

definition sample_form :: obj where
  "sample_form = obj_lit [(''key'', jstr_lit ''sk-1''), (''models'', jstr_lit ''o1''),
     (''status_code_mapping'', jstr_lit ''{\"504\":200}''), (''model_mapping'', jstr_lit ''{\"o3\":\"o1\"}'')]"

theorem submit_checked_witness:
  "collectInvalidStatusCodeEntries (lit ''{\"504\":200}'') = [] \<and>
   validateModelMappingJson (lit ''{\"o3\":\"o1\"}'') = None \<and>
   onSubmit (\<lambda>new. new = [lit ''504 -> 200'']) (\<lambda>_. Add) sample_drawer sample_form \<noteq> KeyRequired"
proof -
  let ?fd = "obj_put (lit ''models'') (JStr (lit ''o1,o3'')) sample_form"
  have st: "text_field sample_form ''status_code_mapping'' = lit ''{\"504\":200}''" by code_simp
  have mm: "text_field sample_form ''model_mapping'' = lit ''{\"o3\":\"o1\"}''" by code_simp
  have key: "otrim (get sample_form ''key'') \<noteq> []" by code_simp
  have sg: "status_gate (\<lambda>new. new = [lit ''504 -> 200'']) sample_drawer (lit ''{\"504\":200}'') = None" by code_simp
  have mg: "model_gate (\<lambda>_. Add) sample_drawer sample_form = Inr ?fd" by code_simp
  have "onSubmit (\<lambda>new. new = [lit ''504 -> 200'']) (\<lambda>_. Add) sample_drawer sample_form =
      Sent ?fd (mutation_request sample_drawer ?fd)"
    unfolding onSubmit_def st sg mg using key by simp
  from submit_checked [OF this] this show ?thesis unfolding st mm by (simp del: list.map)
qed

end
