(* ===== verification/Passkey.thy ===== *)
theory Passkey
  imports JS_Json
begin

text \<open>
  Passkey helpers (\<^verbatim>\<open>lib/passkey.ts\<close>): base64url in both directions, the options handed to the
  browser's credential calls and the results sent back to the server.

  A byte is a natural number below 256. \<open>btoa\<close> and \<open>atob\<close> are the platform's base64 functions:
  \<open>atob\<close> drops ASCII whitespace, takes off up to two padding characters of a text whose length is a
  multiple of four and fails on a text of length 1 modulo 4 or on a character outside the alphabet.
  The options are untyped data from the server into which decoded buffers are put, so a value there
  is plain data, a buffer, or an object or array that holds such values.
\<close>

type_synonym bytes = "nat list"

definition bytes_ok :: "bytes \<Rightarrow> bool" where
  "bytes_ok bs \<longleftrightarrow> list_all (\<lambda>b. b < 256) bs"

section \<open>Base64 of the platform\<close>

definition b64_char :: "nat \<Rightarrow> nat" where
  "b64_char v =
     (if v < 26 then 65 + v else if v < 52 then 71 + v else if v < 62 then v - 4
      else if v = 62 then 43 else 47)"

definition b64_val :: "nat \<Rightarrow> nat option" where
  "b64_val c =
     (if 65 \<le> c \<and> c \<le> 90 then Some (c - 65) else if 97 \<le> c \<and> c \<le> 122 then Some (c - 71)
      else if 48 \<le> c \<and> c \<le> 57 then Some (c + 4) else if c = 43 then Some 62
      else if c = 47 then Some 63 else None)"

fun sextets :: "bytes \<Rightarrow> nat list" where
  "sextets (a # b # c # r) =
     (a div 4) # (a mod 4 * 16 + b div 16) # (b mod 16 * 4 + c div 64) # (c mod 64) # sextets r"
| "sextets [a, b] = [a div 4, a mod 4 * 16 + b div 16, b mod 16 * 4]"
| "sextets [a] = [a div 4, a mod 4 * 16]"
| "sextets [] = []"

fun unsextets :: "nat list \<Rightarrow> bytes" where
  "unsextets (w # x # y # z # r) =
     (w * 4 + x div 16) # (x mod 16 * 16 + y div 4) # (y mod 4 * 64 + z) # unsextets r"
| "unsextets [w, x, y] = [w * 4 + x div 16, x mod 16 * 16 + y div 4]"
| "unsextets [w, x] = [w * 4 + x div 16]"
| "unsextets _ = []"

definition btoa :: "bytes \<Rightarrow> jstring" where
  "btoa bs = map b64_char (sextets bs) @ replicate ((3 - length bs mod 3) mod 3) 61"

definition is_ascii_ws :: "nat \<Rightarrow> bool" where
  "is_ascii_ws c \<longleftrightarrow> c = 9 \<or> c = 10 \<or> c = 12 \<or> c = 13 \<or> c = 32"

definition drop_last_eq :: "jstring \<Rightarrow> jstring" where
  "drop_last_eq s = (if s \<noteq> [] \<and> last s = 61 then butlast s else s)"

definition atob :: "jstring \<Rightarrow> bytes option" where
  "atob s =
     (let t = filter (\<lambda>c. \<not> is_ascii_ws c) s;
          t = (if length t mod 4 = 0 then drop_last_eq (drop_last_eq t) else t) in
      if length t mod 4 = 1 then None
      else if list_all (\<lambda>c. b64_val c \<noteq> None) t then Some (unsextets (map (the \<circ> b64_val) t))
      else None)"

section \<open>Base64url\<close>

text \<open>\<open>replace_char a b\<close> is \<^verbatim>\<open>s.replace(/a/g, 'b')\<close>, \<open>strip_eq\<close> is \<^verbatim>\<open>s.replace(/=+$/g, '')\<close>.\<close>

definition replace_char :: "nat \<Rightarrow> nat \<Rightarrow> jstring \<Rightarrow> jstring" where
  "replace_char a b s = map (\<lambda>c. if c = a then b else c) s"

definition strip_eq :: "jstring \<Rightarrow> jstring" where
  "strip_eq s = rev (dropWhile (\<lambda>c. c = 61) (rev s))"

text \<open>
  The argument is what a field holds: a missing value gives an empty buffer; a value that is not a
  string has no usable length and is converted to a string first. \<open>None\<close> is the exception of
  \<open>atob\<close>.
\<close>

definition base64UrlToArrayBuffer :: "jval \<Rightarrow> bytes option" where
  "base64UrlToArrayBuffer value =
     (if \<not> truthy value then Some []
      else
        let padding = (case value of
              JStr s \<Rightarrow> replicate ((4 - length s mod 4) mod 4) 61
            | JArr vs \<Rightarrow> replicate ((4 - length vs mod 4) mod 4) 61
            | _ \<Rightarrow> []);
            base64 = replace_char 95 47 (replace_char 45 43 (str_of value @ padding)) in
        map_option (map (\<lambda>c. c mod 256)) (atob base64))"

definition arrayBufferToBase64Url :: "bytes option \<Rightarrow> jstring" where
  "arrayBufferToBase64Url buffer =
     (case buffer of
        None \<Rightarrow> []
      | Some bs \<Rightarrow> strip_eq (replace_char 47 95 (replace_char 43 45 (btoa bs))))"

section \<open>Options for the browser\<close>

datatype opt_val =
    Plain jval
  | Buffer bytes
  | Fields "(jstring \<times> opt_val) list"
  | Items "opt_val list"

datatype passkey_error = NoOptions | BadBase64 | BadItem

definition spread :: "jval \<Rightarrow> (jstring \<times> opt_val) list" where
  "spread v =
     (case v of
        JObj ps \<Rightarrow> map (\<lambda>(k, x). (k, Plain x)) ps
      | JStr s \<Rightarrow> map (\<lambda>(i, c). (nat_str i, Plain (JStr [c]))) (enumerate 0 s)
      | JArr vs \<Rightarrow> map (\<lambda>(i, x). (nat_str i, Plain x)) (enumerate 0 vs)
      | _ \<Rightarrow> [])"

definition decode_field :: "jval \<Rightarrow> passkey_error + bytes" where
  "decode_field v = (case base64UrlToArrayBuffer v of None \<Rightarrow> Inl BadBase64 | Some bs \<Rightarrow> Inr bs)"

definition decode_item :: "jval \<Rightarrow> passkey_error + opt_val" where
  "decode_item item =
     (if nullish item then Inl BadItem
      else case decode_field (jprop (lit ''id'') item) of
        Inl e \<Rightarrow> Inl e
      | Inr bs \<Rightarrow> Inr (Fields (obj_put (lit ''id'') (Buffer bs) (spread item))))"

fun decode_items :: "jval list \<Rightarrow> passkey_error + opt_val list" where
  "decode_items [] = Inr []"
| "decode_items (v # vs) =
     (case decode_item v of
        Inl e \<Rightarrow> Inl e
      | Inr x \<Rightarrow> (case decode_items vs of Inl e \<Rightarrow> Inl e | Inr xs \<Rightarrow> Inr (x # xs)))"

text \<open>\<^verbatim>\<open>payload?.publicKey ?? payload?.PublicKey ?? payload?.response ?? payload?.Response\<close>\<close>

definition payload_options :: "jval \<Rightarrow> jval" where
  "payload_options payload =
     jcoalesce (jcoalesce (jcoalesce (jprop (lit ''publicKey'') payload) (jprop (lit ''PublicKey'') payload))
       (jprop (lit ''response'') payload)) (jprop (lit ''Response'') payload)"

text \<open>A list of credential descriptors under \<open>key\<close>, when the options hold one.\<close>

definition put_credentials ::
  "string \<Rightarrow> jval \<Rightarrow> (jstring \<times> opt_val) list \<Rightarrow> passkey_error + (jstring \<times> opt_val) list" where
  "put_credentials key options publicKey =
     (case jprop (lit key) options of
        JArr vs \<Rightarrow> (case decode_items vs of Inl e \<Rightarrow> Inl e | Inr xs \<Rightarrow> Inr (obj_put (lit key) (Items xs) publicKey))
      | _ \<Rightarrow> Inr publicKey)"

definition prepareCredentialCreationOptions :: "jval \<Rightarrow> passkey_error + (jstring \<times> opt_val) list" where
  "prepareCredentialCreationOptions payload =
     (let options = payload_options payload; user = jprop (lit ''user'') options in
      if \<not> truthy options then Inl NoOptions
      else case decode_field (jprop (lit ''challenge'') options) of
        Inl e \<Rightarrow> Inl e
      | Inr challenge \<Rightarrow>
          (case decode_field (jprop (lit ''id'') user) of
             Inl e \<Rightarrow> Inl e
           | Inr userId \<Rightarrow>
               let publicKey = obj_put (lit ''user'') (Fields (obj_put (lit ''id'') (Buffer userId) (spread user)))
                     (obj_put (lit ''challenge'') (Buffer challenge) (spread options)) in
               (case put_credentials ''excludeCredentials'' options publicKey of
                  Inl e \<Rightarrow> Inl e
                | Inr publicKey \<Rightarrow>
                    Inr (if jprop (lit ''attestationFormats'') options = JArr []
                         then obj_del (lit ''attestationFormats'') publicKey else publicKey))))"

definition prepareCredentialRequestOptions :: "jval \<Rightarrow> passkey_error + (jstring \<times> opt_val) list" where
  "prepareCredentialRequestOptions payload =
     (let options = payload_options payload in
      if \<not> truthy options then Inl NoOptions
      else case decode_field (jprop (lit ''challenge'') options) of
        Inl e \<Rightarrow> Inl e
      | Inr challenge \<Rightarrow>
          put_credentials ''allowCredentials'' options (obj_put (lit ''challenge'') (Buffer challenge) (spread options)))"

section \<open>Results for the server\<close>

record credential =
  cred_id :: jstring
  rawId :: bytes
  cred_type :: jstring
  authenticatorAttachment :: jval
  extensionResults :: "jval option"

record attestation = credential +
  attestationObject :: bytes
  att_clientDataJSON :: bytes
  transports :: "jstring list option"

record assertion = credential +
  authenticatorData :: bytes
  as_clientDataJSON :: bytes
  signature :: bytes
  userHandle :: "bytes option"

definition extensions :: "('a) credential_scheme \<Rightarrow> jval" where
  "extensions c = (case extensionResults c of None \<Rightarrow> JObj [] | Some v \<Rightarrow> jcoalesce v (JObj []))"

definition b64 :: "bytes \<Rightarrow> jval" where
  "b64 bs = JStr (arrayBufferToBase64Url (Some bs))"

definition buildRegistrationResult :: "attestation option \<Rightarrow> jval" where
  "buildRegistrationResult credential =
     (case credential of
        None \<Rightarrow> JNull
      | Some c \<Rightarrow> JObj
          [(lit ''id'', JStr (cred_id c)), (lit ''rawId'', b64 (rawId c)), (lit ''type'', JStr (cred_type c)),
           (lit ''authenticatorAttachment'', authenticatorAttachment c),
           (lit ''response'', JObj
              [(lit ''attestationObject'', b64 (attestationObject c)), (lit ''clientDataJSON'', b64 (att_clientDataJSON c)),
               (lit ''transports'', case transports c of None \<Rightarrow> JUndef | Some ts \<Rightarrow> JArr (map JStr ts))]),
           (lit ''clientExtensionResults'', extensions c)])"

definition buildAssertionResult :: "assertion option \<Rightarrow> jval" where
  "buildAssertionResult credential =
     (case credential of
        None \<Rightarrow> JNull
      | Some c \<Rightarrow> JObj
          [(lit ''id'', JStr (cred_id c)), (lit ''rawId'', b64 (rawId c)), (lit ''type'', JStr (cred_type c)),
           (lit ''authenticatorAttachment'', authenticatorAttachment c),
           (lit ''response'', JObj
              [(lit ''authenticatorData'', b64 (authenticatorData c)), (lit ''clientDataJSON'', b64 (as_clientDataJSON c)),
               (lit ''signature'', b64 (signature c)),
               (lit ''userHandle'', case userHandle c of None \<Rightarrow> JNull | Some h \<Rightarrow> b64 h)]),
           (lit ''clientExtensionResults'', extensions c)])"

text \<open>What the browser offers: no \<^verbatim>\<open>PublicKeyCredential\<close> at all, or the two queries, each missing,
  failing (\<open>None\<close>) or answering.\<close>

datatype query = Missing | Asked "bool option"

fun isPasskeySupported :: "(query \<times> query) option \<Rightarrow> bool" where
  "isPasskeySupported None = False"
| "isPasskeySupported (Some (conditional, platform)) =
     (if conditional = Asked (Some True) then True
      else case platform of Missing \<Rightarrow> True | Asked None \<Rightarrow> False | Asked (Some b) \<Rightarrow> b)"

section \<open>Base64url is lossless\<close>

lemma b64_val_char: "v < 64 \<Longrightarrow> b64_val (b64_char v) = Some v"
  by (auto simp: b64_val_def b64_char_def)

lemma b64_val_ok: "b64_val c \<noteq> None \<Longrightarrow> c \<noteq> 61 \<and> c \<noteq> 45 \<and> c \<noteq> 95 \<and> \<not> is_ascii_ws c \<and> c < 128"
  by (auto simp: b64_val_def is_ascii_ws_def split: if_splits)

lemma sextets_bound: "bytes_ok bs \<Longrightarrow> s \<in> set (sextets bs) \<Longrightarrow> s < 64"
proof (induction bs rule: sextets.induct)
  case (1 a b c r)
  then have "a < 256" "b < 256" "c < 256" "bytes_ok r" by (auto simp: bytes_ok_def)
  then have "a div 4 < 64" "a mod 4 * 16 + b div 16 < 64" "b mod 16 * 4 + c div 64 < 64" "c mod 64 < 64" by auto
  with 1 \<open>bytes_ok r\<close> show ?case by auto
next
  case (2 a b)
  then have "a < 256" "b < 256" by (auto simp: bytes_ok_def)
  then have "a div 4 < 64" "a mod 4 * 16 + b div 16 < 64" "b mod 16 * 4 < 64" by auto
  with 2 show ?case by auto
qed (auto simp: bytes_ok_def)

lemma pack_unpack: "y < m \<Longrightarrow> (x * m + y) div m = x" "y < m \<Longrightarrow> (x * m + y) mod m = y" for x y m :: nat
  by simp_all

lemma split_div_16: "b < 256 \<Longrightarrow> b div 16 < 16" and split_div_64: "b < 256 \<Longrightarrow> b div 64 < 4" for b :: nat
  by auto

lemma unsextets_sextets: "bytes_ok bs \<Longrightarrow> unsextets (sextets bs) = bs"
proof (induction bs rule: sextets.induct)
  case (1 a b c r)
  then have l: "a < 256" "b < 256" "c < 256" "bytes_ok r" by (auto simp: bytes_ok_def)
  note d = split_div_16 [OF l(2)] split_div_64 [OF l(3)]
  show ?case using 1 l(4) by (simp add: pack_unpack d)
next
  case (2 a b)
  then have l: "a < 256" "b < 256" by (auto simp: bytes_ok_def)
  then show ?case by (simp add: pack_unpack split_div_16)
qed simp_all

text \<open>The number of characters, by the number of full groups and the bytes left over.\<close>

lemma length_sextets: "length (sextets bs) = (4 * length bs + 2) div 3"
proof (induction bs rule: sextets.induct)
  case (1 a b c r)
  have "(4 * (m + 3) + 2) div 3 = (4 * m + 2) div 3 + 4" for m :: nat by presburger
  from this [of "length r"] show ?case using 1 by (simp add: add.commute)
qed simp_all

text \<open>The padding the decoder puts back is the one the encoder took off.\<close>

lemma padding_length:
  fixes n :: nat
  defines "m \<equiv> (4 * n + 2) div 3" and "z \<equiv> (3 - n mod 3) mod 3"
  shows "(4 - m mod 4) mod 4 = z" and "(m + z) mod 4 = 0" and "m mod 4 \<noteq> 1" and "z \<le> 2"
proof -
  define k r where "k = n div 3" and "r = n mod 3"
  have n: "n = 3 * k + r" and "r < 3" by (simp_all add: k_def r_def)
  then consider "r = 0" | "r = 1" | "r = 2" by linarith
  then have "(m mod 4, z) \<in> {(0, 0), (2, 2), (3, 1)}"
  proof cases
    case 1
    have "(4 * (3 * k) + 2) div 3 = 4 * k" by presburger
    then show ?thesis using 1 by (simp add: m_def z_def n)
  next
    case 2
    have "(4 * (3 * k + 1) + 2) div 3 = 4 * k + 2" by presburger
    moreover have "(4 * k + 2) mod 4 = 2" and "(3 * k + 1) mod 3 = 1" by presburger+
    ultimately show ?thesis using 2 unfolding m_def z_def n by simp
  next
    case 3
    have "(4 * (3 * k + 2) + 2) div 3 = 4 * k + 3" by presburger
    moreover have "(4 * k + 3) mod 4 = 3" and "(3 * k + 2) mod 3 = 2" by presburger+
    ultimately show ?thesis using 3 unfolding m_def z_def n by simp
  qed
  then show "(4 - m mod 4) mod 4 = z" and "(m + z) mod 4 = 0" and "m mod 4 \<noteq> 1" and "z \<le> 2"
    by (auto simp: mod_add_left_eq [of m 4 z, symmetric])
qed

lemma strip_eq_append: "61 \<notin> set s \<Longrightarrow> strip_eq (s @ replicate n 61) = s"
proof -
  assume "61 \<notin> set s"
  then have "dropWhile (\<lambda>c. c = 61) (rev s) = rev s"
    by (intro dropWhile_hd_id) (metis hd_rev last_in_set rev_is_Nil_conv)
  moreover have "dropWhile (\<lambda>c. c = 61) (replicate n (61 :: nat) @ xs) = dropWhile (\<lambda>c. c = 61) xs" for xs
    by (induction n) auto
  ultimately show ?thesis by (simp add: strip_eq_def)
qed

lemma drop_last_eq_id: "61 \<notin> set s \<Longrightarrow> drop_last_eq s = s"
  unfolding drop_last_eq_def by (metis last_in_set)

lemma drop_padding: "61 \<notin> set s \<Longrightarrow> n \<le> 2 \<Longrightarrow> drop_last_eq (drop_last_eq (s @ replicate n 61)) = s"
proof -
  assume s: "61 \<notin> set s" and "n \<le> 2"
  then consider "n = 0" | "n = 1" | "n = 2" by linarith
  then show ?thesis
  proof cases
    case 3
    have "s @ replicate 2 61 = (s @ [61]) @ [61]" by (simp add: numeral_2_eq_2)
    then show ?thesis unfolding 3 using s by (simp add: drop_last_eq_def butlast_append)
  next
    case 2
    have "drop_last_eq (s @ [61]) = s" by (simp add: drop_last_eq_def)
    then show ?thesis unfolding 2 using s by (simp add: drop_last_eq_id)
  qed (use s in \<open>simp add: drop_last_eq_id\<close>)
qed

definition code_chars :: "bytes \<Rightarrow> jstring" where
  "code_chars bs = map b64_char (sextets bs)"

lemma code_chars_vals: "bytes_ok bs \<Longrightarrow> map b64_val (code_chars bs) = map Some (sextets bs)"
  using sextets_bound by (auto simp: code_chars_def b64_val_char)

lemma code_chars_ok: "bytes_ok bs \<Longrightarrow> c \<in> set (code_chars bs) \<Longrightarrow> b64_val c \<noteq> None"
  using sextets_bound by (auto simp: code_chars_def b64_val_char)

lemma atob_padded:
  assumes "bytes_ok bs"
  shows "atob (code_chars bs @ replicate ((3 - length bs mod 3) mod 3) 61) = Some bs"
proof -
  let ?n = "(3 - length bs mod 3) mod 3" and ?s = "code_chars bs"
  have c: "b64_val c \<noteq> None" if "c \<in> set ?s" for c using code_chars_ok [OF assms that] .
  then have ne: "61 \<notin> set ?s" using b64_val_ok by blast
  have ws: "filter (\<lambda>c. \<not> is_ascii_ws c) (?s @ replicate ?n 61) = ?s @ replicate ?n 61"
    using c b64_val_ok by (intro filter_id) (auto simp: is_ascii_ws_def)
  have len: "length ?s = (4 * length bs + 2) div 3" by (simp add: code_chars_def length_sextets)
  have "length (?s @ replicate ?n 61) mod 4 = 0" using padding_length(2) by (simp only: length_append length_replicate len)
  moreover have "?n \<le> 2" by (rule padding_length(4))
  moreover have "length ?s mod 4 \<noteq> 1" unfolding len by (rule padding_length(3))
  moreover have "map (the \<circ> b64_val) ?s = sextets bs"
    using arg_cong [OF code_chars_vals [OF assms], of "map the"] by (simp add: comp_def)
  moreover have "list_all (\<lambda>c. b64_val c \<noteq> None) ?s" using c by (simp add: list_all_iff)
  ultimately show ?thesis
    unfolding atob_def Let_def ws using drop_padding [OF ne] unsextets_sextets [OF assms] by simp
qed

lemma encode_url:
  assumes "bytes_ok bs"
  shows "arrayBufferToBase64Url (Some bs) = replace_char 47 95 (replace_char 43 45 (code_chars bs))"
proof -
  let ?n = "(3 - length bs mod 3) mod 3"
  have "replace_char 47 95 (replace_char 43 45 (btoa bs)) =
      replace_char 47 95 (replace_char 43 45 (code_chars bs)) @ replicate ?n 61"
    by (simp add: btoa_def code_chars_def replace_char_def)
  moreover have "61 \<notin> set (replace_char 47 95 (replace_char 43 45 (code_chars bs)))"
    using code_chars_ok [OF assms] b64_val_ok by (fastforce simp: replace_char_def)
  ultimately show ?thesis by (simp add: arrayBufferToBase64Url_def strip_eq_append)
qed

lemma replace_back:
  assumes "\<forall>c \<in> set s. c \<noteq> 45 \<and> c \<noteq> 95"
  shows "replace_char 95 47 (replace_char 45 43 (replace_char 47 95 (replace_char 43 45 s))) = s"
  using assms by (induction s) (auto simp: replace_char_def)

lemma base64url_decode_encode:
  assumes "bytes_ok bs"
  shows "base64UrlToArrayBuffer (JStr (arrayBufferToBase64Url (Some bs))) = Some bs"
proof (cases "bs = []")
  case True
  then show ?thesis by (simp add: arrayBufferToBase64Url_def btoa_def replace_char_def strip_eq_def base64UrlToArrayBuffer_def)
next
  case False
  let ?u = "replace_char 47 95 (replace_char 43 45 (code_chars bs))" and ?n = "(3 - length bs mod 3) mod 3"
  have len: "length ?u = (4 * length bs + 2) div 3" by (simp add: replace_char_def code_chars_def length_sextets)
  have "length ?u \<noteq> 0" unfolding len using False by (cases bs) auto
  then have ne: "?u \<noteq> []" by auto
  have "replace_char 95 47 (replace_char 45 43 (?u @ replicate ?n 61)) = code_chars bs @ replicate ?n 61"
    using replace_back [of "code_chars bs"] code_chars_ok [OF assms] b64_val_ok
    by (force simp: replace_char_def)
  moreover have "map (\<lambda>c. c mod 256) bs = bs" using assms by (induction bs) (auto simp: bytes_ok_def)
  ultimately have "map_option (map (\<lambda>c. c mod 256)) (atob (replace_char 95 47 (replace_char 45 43 (?u @ replicate ?n 61)))) = Some bs"
    by (simp only: atob_padded [OF assms] option.map)
  moreover have "(4 - length ?u mod 4) mod 4 = ?n" unfolding len by (rule padding_length(1))
  ultimately show ?thesis
    using ne by (simp only: base64UrlToArrayBuffer_def encode_url [OF assms] truthy.simps str_of.simps jval.case Let_def
      not_False_eq_True not_True_eq_False if_False)
qed

text \<open>C13: Base64url is lossless: decoding the text of a buffer gives the buffer back, and the text is made of
  letters, digits, - and _ only, without padding.\<close>

theorem base64url_roundtrip:
  assumes "bytes_ok bs"
  shows "base64UrlToArrayBuffer (JStr (arrayBufferToBase64Url (Some bs))) = Some bs \<and>
    list_all (\<lambda>c. is_word c \<or> c = 45) (arrayBufferToBase64Url (Some bs)) \<and>
    length (arrayBufferToBase64Url (Some bs)) = (4 * length bs + 2) div 3"
proof -
  have "is_word c \<or> c = 45 \<or> c = 43 \<or> c = 47" if "c \<in> set (code_chars bs)" for c
    using code_chars_ok [OF assms that] by (auto simp: b64_val_def is_word_def split: if_splits)
  then have "list_all (\<lambda>c. is_word c \<or> c = 45) (arrayBufferToBase64Url (Some bs))"
    unfolding encode_url [OF assms] by (fastforce simp: list_all_iff replace_char_def is_word_def)
  moreover have "length (arrayBufferToBase64Url (Some bs)) = (4 * length bs + 2) div 3"
    by (simp add: encode_url [OF assms] replace_char_def code_chars_def length_sextets)
  ultimately show ?thesis using base64url_decode_encode [OF assms] by simp
qed

theorem base64url_roundtrip_witness:
  "base64UrlToArrayBuffer (JStr (arrayBufferToBase64Url (Some [251, 255, 0, 62]))) = Some [251, 255, 0, 62]"
  using base64url_roundtrip [of "[251, 255, 0, 62]"] by (simp add: bytes_ok_def)

section \<open>Options and results\<close>

lemma map_of_spread: "map_of (spread (JObj ps)) k = map_option Plain (map_of ps k)"
  by (induction ps) (auto simp: spread_def)

lemma decode_field_b64: "bytes_ok bs \<Longrightarrow> decode_field (b64 bs) = Inr bs"
  by (simp add: decode_field_def b64_def base64url_decode_encode)

definition descriptor :: "jval \<Rightarrow> bytes \<Rightarrow> bool" where
  "descriptor v bs \<longleftrightarrow> bytes_ok bs \<and> (\<exists>qs. v = JObj qs \<and> obj_get (lit ''id'') qs = b64 bs)"

definition decoded :: "opt_val \<Rightarrow> bytes \<Rightarrow> bool" where
  "decoded x bs \<longleftrightarrow> (\<exists>fs. x = Fields fs \<and> map_of fs (lit ''id'') = Some (Buffer bs))"

lemma decode_item_descriptor: "descriptor v bs \<Longrightarrow> \<exists>x. decode_item v = Inr x \<and> decoded x bs"
  by (auto simp: descriptor_def decode_item_def nullish_def jprop_def decode_field_b64 decoded_def)

lemma decode_items_descriptors:
  "list_all2 descriptor vs ids \<Longrightarrow> \<exists>xs. decode_items vs = Inr xs \<and> list_all2 decoded xs ids"
proof (induction rule: list_all2_induct)
  case (Cons v vs bs ids)
  then show ?case using decode_item_descriptor [OF Cons(1)] by (auto split: sum.splits)
qed simp

text \<open>The request options keep what the server sent: the challenge and the ids of the allowed credentials
  are the bytes the server encoded, and every other field is unchanged.\<close>

lemma request_options_decoded:
  assumes "payload_options payload = JObj ps" and "bytes_ok ch" and "obj_get (lit ''challenge'') ps = b64 ch"
    and "obj_get (lit ''allowCredentials'') ps = JArr vs" and "list_all2 descriptor vs ids"
  shows "\<exists>pk items. prepareCredentialRequestOptions payload = Inr pk \<and>
    map_of pk (lit ''challenge'') = Some (Buffer ch) \<and>
    map_of pk (lit ''allowCredentials'') = Some (Items items) \<and> list_all2 decoded items ids \<and>
    (\<forall>k. k \<noteq> lit ''challenge'' \<and> k \<noteq> lit ''allowCredentials'' \<longrightarrow> map_of pk k = map_option Plain (map_of ps k))"
proof -
  from decode_items_descriptors [OF assms(5)] obtain xs where xs: "decode_items vs = Inr xs" "list_all2 decoded xs ids" by blast
  let ?pk = "obj_put (lit ''allowCredentials'') (Items xs) (obj_put (lit ''challenge'') (Buffer ch) (spread (JObj ps)))"
  have p: "jprop k (JObj ps) = obj_get k ps" for k by (simp add: jprop_def)
  have ne: "lit ''challenge'' \<noteq> lit ''allowCredentials''" by simp
  have "prepareCredentialRequestOptions payload = Inr ?pk"
    unfolding prepareCredentialRequestOptions_def put_credentials_def Let_def assms(1) p assms(3,4)
    by (simp add: decode_field_b64 [OF assms(2)] xs(1) del: list.map)
  moreover have "map_of ?pk (lit ''challenge'') = Some (Buffer ch)" using ne by (simp del: list.map)
  moreover have "map_of ?pk (lit ''allowCredentials'') = Some (Items xs)" by (simp del: list.map)
  moreover have "map_of ?pk k = map_option Plain (map_of ps k)"
    if "k \<noteq> lit ''challenge''" "k \<noteq> lit ''allowCredentials''" for k
    using that by (simp add: map_of_spread del: list.map)
  ultimately show ?thesis using xs(2) by blast
qed

lemma request_options_decoded_witness:
  "\<exists>pk. prepareCredentialRequestOptions (JObj [(lit ''publicKey'', JObj [(lit ''challenge'', b64 [1, 2, 3]),
     (lit ''allowCredentials'', JArr [JObj [(lit ''id'', b64 [9])]])])]) = Inr pk \<and>
     map_of pk (lit ''challenge'') = Some (Buffer [1, 2, 3])"
proof -
  let ?ps = "[(lit ''challenge'', b64 [1, 2, 3]), (lit ''allowCredentials'', JArr [JObj [(lit ''id'', b64 [9])]])]"
  have 1: "payload_options (JObj [(lit ''publicKey'', JObj ?ps)]) = JObj ?ps"
    by (simp add: payload_options_def jprop_def obj_get_def jcoalesce_def nullish_def)
  have 2: "bytes_ok [1, 2, 3]" by (simp add: bytes_ok_def)
  have 3: "obj_get (lit ''challenge'') ?ps = b64 [1, 2, 3]" by (simp add: obj_get_def)
  have 4: "obj_get (lit ''allowCredentials'') ?ps = JArr [JObj [(lit ''id'', b64 [9])]]" by (simp add: obj_get_def)
  have 5: "list_all2 descriptor [JObj [(lit ''id'', b64 [9])]] [[9]]"
    by (simp add: descriptor_def bytes_ok_def obj_get_def)
  from request_options_decoded [OF 1 2 3 4 5] show ?thesis by blast
qed

lemma options_missing: "prepareCredentialRequestOptions payload = Inl NoOptions \<longleftrightarrow> \<not> truthy (payload_options payload)"
proof -
  have f: "decode_field v \<noteq> Inl NoOptions" for v by (simp add: decode_field_def split: option.splits)
  then have "decode_item v \<noteq> Inl NoOptions" for v by (auto simp: decode_item_def split: sum.splits)
  then have "decode_items vs \<noteq> Inl NoOptions" for vs by (induction vs) (auto split: sum.splits)
  then show ?thesis
    using f by (auto simp: prepareCredentialRequestOptions_def put_credentials_def Let_def split: sum.splits jval.splits)
qed

text \<open>The server reads back from the assertion the bytes the authenticator produced.\<close>

lemma assertion_lossless:
  assumes "bytes_ok (rawId c)"
  shows "base64UrlToArrayBuffer (jprop (lit ''rawId'') (buildAssertionResult (Some c))) = Some (rawId c)"
  using base64url_decode_encode [OF assms] by (simp add: buildAssertionResult_def jprop_def obj_get_def b64_def)

end
