(* ===== verification/Secure_Verification.thy ===== *)
theory Secure_Verification
  imports Passkey
begin

text \<open>
  Secure verification before sensitive actions: the hook
  \<^verbatim>\<open>features/auth/secure-verification/hooks/use-secure-verification.ts\<close>, the verification calls of
  \<^verbatim>\<open>secure-verification/api.ts\<close> and the error test of \<^verbatim>\<open>lib/secure-verification.ts\<close>.

  The hook is a state machine: the user starts, cancels and switches methods at any time, and an
  execution is asynchronous. It runs the verification first and the protected call after it, and
  other steps may come in between; its two answers are separate steps of the relation \<open>sv_step\<close>.
  \<^verbatim>\<open>withVerification\<close> makes the protected call at once, before any verification, and leaves it to the server to
  refuse it; the answer to that attempt is a step of its own too.
  A protected call is named by a number. The log records what the hook did, newest first: \<open>Tried\<close> is an attempt,
  \<open>Ran\<close> the call of an execution, \<open>Verified\<close> holds what the verification before it was made with.
\<close>

section \<open>Errors that ask for verification\<close>

definition axios_data :: "jval \<Rightarrow> jval" where
  "axios_data error = jprop (lit ''data'') (jprop (lit ''response'') error)"

definition isVerificationRequiredError :: "jval \<Rightarrow> bool" where
  "isVerificationRequiredError error =
     (case error of
        JObj _ \<Rightarrow>
          if jprop (lit ''status'') (jprop (lit ''response'') error) \<noteq> JNum (Fin 403) then False
          else let code = jprop (lit ''code'') (axios_data error) in
            if \<not> truthy code then False
            else code \<in> {JStr (lit ''VERIFICATION_REQUIRED''), JStr (lit ''VERIFICATION_EXPIRED''),
                         JStr (lit ''VERIFICATION_INVALID'')}
      | _ \<Rightarrow> False)"

record verification_info =
  info_code :: jval
  info_message :: jval
  info_required :: bool

definition extractVerificationInfo :: "jval \<Rightarrow> verification_info" where
  "extractVerificationInfo error =
     \<lparr>info_code = jprop (lit ''code'') (axios_data error),
      info_message = jcoalesce (jprop (lit ''message'') (axios_data error)) (JStr (lit ''Secure verification is required'')),
      info_required = True\<rparr>"

section \<open>Methods and verification calls\<close>

datatype vmethod = TwoFA | PasskeyMethod

record methods =
  has2FA :: bool
  hasPasskey :: bool
  passkeySupported :: bool

definition defaultMethods :: methods where
  "defaultMethods = \<lparr>has2FA = False, hasPasskey = False, passkeySupported = False\<rparr>"

text \<open>The three answers, or \<open>None\<close> when one of the requests fails.\<close>

definition enabled_answer :: "jval \<Rightarrow> bool" where
  "enabled_answer res \<longleftrightarrow> truthy (jprop (lit ''success'') res) \<and> truthy (jprop (lit ''enabled'') (jprop (lit ''data'') res))"

definition checkVerificationMethods :: "(jval \<times> jval \<times> bool) option \<Rightarrow> methods" where
  "checkVerificationMethods answers =
     (case answers of
        None \<Rightarrow> defaultMethods
      | Some (twoFA, passkey, supported) \<Rightarrow>
          \<lparr>has2FA = enabled_answer twoFA, hasPasskey = enabled_answer passkey, passkeySupported = supported\<rparr>)"

text \<open>
  The verification calls. A request is answered by a body or fails with a thrown error; the requests
  made are part of the result, in order. \<open>Inl\<close> is the message of the error that is thrown.
\<close>

datatype answer = Body jval | Thrown jstring

datatype request =
    VerifyPost string jstring
  | BeginPasskey
  | Prompt "(jstring \<times> opt_val) list"
  | FinishPasskey jval

definition message_or :: "jval \<Rightarrow> string \<Rightarrow> jstring" where
  "message_or body msg = str_of (jor (jprop (lit ''message'') body) (JStr (lit msg)))"

definition post_success :: "answer \<Rightarrow> string \<Rightarrow> jstring + jval" where
  "post_success a msg =
     (case a of
        Thrown e \<Rightarrow> Inl e
      | Body b \<Rightarrow> if truthy (jprop (lit ''success'') b) then Inr b else Inl (message_or b msg))"

text \<open>The passkey calls read \<^verbatim>\<open>success\<close> without a guard: a missing body throws.\<close>

definition need_success :: "answer \<Rightarrow> string \<Rightarrow> jstring + jval" where
  "need_success a msg = (case a of Body b \<Rightarrow> if nullish b then Inl (lit ''TypeError'') else post_success a msg | _ \<Rightarrow> post_success a msg)"

definition verifyTwoFA :: "(jstring \<Rightarrow> answer) \<Rightarrow> jstring option \<Rightarrow> request list \<times> (jstring + unit)" where
  "verifyTwoFA post code =
     (let trimmed = (case code of None \<Rightarrow> [] | Some s \<Rightarrow> trim s) in
      if trimmed = [] then ([], Inl (lit ''Please enter the verification code or backup code''))
      else ([VerifyPost ''2fa'' trimmed],
            case post_success (post trimmed) ''Verification failed'' of Inl e \<Rightarrow> Inl e | Inr _ \<Rightarrow> Inr ()))"

text \<open>What the browser answers to the credential prompt.\<close>

datatype prompt = NotAllowed | InvalidState | PromptError jstring | NoCredential | Credential assertion

record passkey_env =
  credentialsAvailable :: bool
  beginAnswer :: answer
  promptAnswer :: "(jstring \<times> opt_val) list \<Rightarrow> prompt"
  finishAnswer :: "jval \<Rightarrow> answer"
  verifyAnswer :: answer

text \<open>Exceptions of the platform are named by their kind; their texts differ between browsers.\<close>

definition prepare_error :: "passkey_error \<Rightarrow> jstring" where
  "prepare_error e =
     (case e of NoOptions \<Rightarrow> lit ''Unable to parse Passkey login options from response''
      | BadBase64 \<Rightarrow> lit ''InvalidCharacterError'' | BadItem \<Rightarrow> lit ''TypeError'')"

definition finish_passkey :: "passkey_env \<Rightarrow> assertion \<Rightarrow> request list \<times> (jstring + unit)" where
  "finish_passkey env cred =
     (let assertion = buildAssertionResult (Some cred) in
      case need_success (finishAnswer env assertion) ''Passkey verification failed'' of
        Inl e \<Rightarrow> ([FinishPasskey assertion], Inl e)
      | Inr _ \<Rightarrow>
          ([FinishPasskey assertion, VerifyPost ''passkey'' []],
           case post_success (verifyAnswer env) ''Failed to complete verification'' of Inl e \<Rightarrow> Inl e | Inr _ \<Rightarrow> Inr ()))"

definition verifyPasskey :: "passkey_env \<Rightarrow> request list \<times> (jstring + unit)" where
  "verifyPasskey env =
     (if \<not> credentialsAvailable env
      then ([], Inl (lit ''Passkey verification is not supported in this environment''))
      else case need_success (beginAnswer env) ''Failed to start verification'' of
        Inl e \<Rightarrow> ([BeginPasskey], Inl e)
      | Inr b \<Rightarrow>
          let data = jprop (lit ''data'') b in
          (case prepareCredentialRequestOptions (jcoalesce (jprop (lit ''options'') data) data) of
            Inl e \<Rightarrow> ([BeginPasskey], Inl (prepare_error e))
          | Inr publicKey \<Rightarrow>
              (case promptAnswer env publicKey of
                 NotAllowed \<Rightarrow> ([BeginPasskey, Prompt publicKey], Inl (lit ''Passkey verification was cancelled or timed out''))
               | InvalidState \<Rightarrow>
                   ([BeginPasskey, Prompt publicKey], Inl (lit ''Passkey verification is not available in the current state''))
               | PromptError e \<Rightarrow> ([BeginPasskey, Prompt publicKey], Inl e)
               | NoCredential \<Rightarrow> ([BeginPasskey, Prompt publicKey], Inl (lit ''Passkey verification was cancelled''))
               | Credential cred \<Rightarrow> apfst ((@) [BeginPasskey, Prompt publicKey]) (finish_passkey env cred))))"

definition verify :: "(jstring \<Rightarrow> answer) \<Rightarrow> passkey_env \<Rightarrow> vmethod \<Rightarrow> jstring option \<Rightarrow> request list \<times> (jstring + unit)" where
  "verify post env m code = (case m of TwoFA \<Rightarrow> verifyTwoFA post code | PasskeyMethod \<Rightarrow> verifyPasskey env)"

section \<open>The hook\<close>

record vstate =
  v_method :: "vmethod option"
  loading :: bool
  v_code :: jstring
  v_title :: "jstring option"
  v_description :: "jstring option"
  apiCall :: "nat option"

definition initialState :: vstate where
  "initialState = \<lparr>v_method = None, loading = False, v_code = [], v_title = None, v_description = None, apiCall = None\<rparr>"

datatype stage = Verifying | Calling

record execution =
  ex_id :: nat
  ex_call :: nat
  ex_method :: vmethod
  ex_code :: jstring
  ex_stage :: stage

datatype log_entry =
    Refused
  | Misconfigured
  | NoMethod
  | Tried nat
  | Started nat nat vmethod jstring
  | Verified nat vmethod jstring passkey_env
  | Ran nat nat
  | Succeeded nat
  | Failed nat jstring

record hook =
  h_methods :: methods
  h_state :: vstate
  h_open :: bool
  attempts :: "nat list"
  running :: "execution list"
  next_id :: nat
  h_log :: "log_entry list"

definition init_hook :: hook where
  "init_hook = \<lparr>h_methods = defaultMethods, h_state = initialState, h_open = False, attempts = [], running = [], next_id = 0, h_log = []\<rparr>"

definition reset :: "hook \<Rightarrow> hook" where
  "reset h = h\<lparr>h_state := initialState, h_open := False\<rparr>"

definition default_method :: "methods \<Rightarrow> vmethod option" where
  "default_method ms =
     (if hasPasskey ms \<and> passkeySupported ms then Some PasskeyMethod
      else if has2FA ms then Some TwoFA else None)"

text \<open>The continuation of \<open>startVerification\<close> once the methods have been fetched.\<close>

definition startVerification ::
  "methods \<Rightarrow> nat \<Rightarrow> vmethod option \<Rightarrow> jstring option \<Rightarrow> jstring option \<Rightarrow> hook \<Rightarrow> hook \<times> bool" where
  "startVerification available call preferred ti descr h =
     (let h = h\<lparr>h_methods := available\<rparr> in
      if \<not> has2FA available \<and> \<not> hasPasskey available then (h\<lparr>h_log := Refused # h_log h\<rparr>, False)
      else
        let m = (case preferred of Some p \<Rightarrow> Some p | None \<Rightarrow> default_method available) in
        (h\<lparr>h_state := (h_state h)\<lparr>apiCall := Some call, v_method := m, v_title := ti, v_description := descr\<rparr>,
           h_open := True\<rparr>, True))"

text \<open>\<open>executeVerification\<close> up to its first await.\<close>

definition executeVerification :: "vmethod option \<Rightarrow> jstring option \<Rightarrow> hook \<Rightarrow> hook" where
  "executeVerification m code h =
     (case apiCall (h_state h) of
        None \<Rightarrow> h\<lparr>h_log := Misconfigured # h_log h\<rparr>
      | Some call \<Rightarrow>
          (case (case m of Some x \<Rightarrow> Some x | None \<Rightarrow> v_method (h_state h)) of
             None \<Rightarrow> h\<lparr>h_log := NoMethod # h_log h\<rparr>
           | Some actual \<Rightarrow>
               let c = (case code of Some c \<Rightarrow> c | None \<Rightarrow> v_code (h_state h)) in
               h\<lparr>h_state := (h_state h)\<lparr>loading := True\<rparr>,
                 running := \<lparr>ex_id = next_id h, ex_call = call, ex_method = actual, ex_code = c, ex_stage = Verifying\<rparr> # running h,
                 next_id := next_id h + 1, h_log := Started (next_id h) call actual c # h_log h\<rparr>))"

definition settle :: "execution \<Rightarrow> hook \<Rightarrow> hook" where
  "settle ex h = h\<lparr>h_state := (h_state h)\<lparr>loading := False\<rparr>, running := filter (\<lambda>x. ex_id x \<noteq> ex_id ex) (running h)\<rparr>"

text \<open>The verification has answered: the protected call is made, or the error is reported. \<open>post\<close> and \<open>env\<close> are the
  answers of the server and the browser.\<close>

definition onVerified :: "(jstring \<Rightarrow> answer) \<Rightarrow> passkey_env \<Rightarrow> execution \<Rightarrow> hook \<Rightarrow> hook" where
  "onVerified post env ex h =
     (case snd (verify post env (ex_method ex) (Some (ex_code ex))) of
        Inl e \<Rightarrow> settle ex (h\<lparr>h_log := Failed (ex_id ex) e # h_log h\<rparr>)
      | Inr _ \<Rightarrow>
          h\<lparr>running := map (\<lambda>x. if ex_id x = ex_id ex then x\<lparr>ex_stage := Calling\<rparr> else x) (running h),
            h_log := Ran (ex_id ex) (ex_call ex) # Verified (ex_id ex) (ex_method ex) (ex_code ex) env # h_log h\<rparr>)"

text \<open>The protected call has answered.\<close>

definition onCalled :: "bool \<Rightarrow> (jstring + unit) \<Rightarrow> execution \<Rightarrow> hook \<Rightarrow> hook" where
  "onCalled autoReset r ex h =
     (case r of
        Inl e \<Rightarrow> settle ex (h\<lparr>h_log := Failed (ex_id ex) e # h_log h\<rparr>)
      | Inr _ \<Rightarrow>
          settle ex ((if autoReset then reset h else h)\<lparr>h_log := Succeeded (ex_id ex) # h_log h\<rparr>))"

definition setCode :: "jstring \<Rightarrow> hook \<Rightarrow> hook" where
  "setCode code h = h\<lparr>h_state := (h_state h)\<lparr>v_code := code\<rparr>\<rparr>"

definition switchMethod :: "vmethod \<Rightarrow> hook \<Rightarrow> hook" where
  "switchMethod m h = h\<lparr>h_state := (h_state h)\<lparr>v_method := Some m, v_code := []\<rparr>\<rparr>"

definition cancel :: "hook \<Rightarrow> hook" where
  "cancel h = reset h"

definition canUseMethod :: "methods \<Rightarrow> vmethod \<Rightarrow> bool" where
  "canUseMethod ms m = (case m of TwoFA \<Rightarrow> has2FA ms | PasskeyMethod \<Rightarrow> hasPasskey ms \<and> passkeySupported ms)"

definition recommendedMethod :: "methods \<Rightarrow> vmethod option" where
  "recommendedMethod ms =
     (if hasPasskey ms \<and> passkeySupported ms then Some PasskeyMethod
      else if has2FA ms then Some TwoFA else None)"

text \<open>\<open>withVerification\<close> makes the call at once, before any verification (\<open>tryCall\<close>), and asks for verification when the
  server refuses it. \<open>res\<close> is the answer to that first call; \<open>Inr None\<close> is the returned \<^verbatim>\<open>null\<close>, \<open>Inl\<close> the error
  thrown again.\<close>

definition tryCall :: "nat \<Rightarrow> hook \<Rightarrow> hook" where
  "tryCall call h = h\<lparr>attempts := call # attempts h, h_log := Tried call # h_log h\<rparr>"

definition withVerification ::
  "(jval + jval) \<Rightarrow> methods \<Rightarrow> nat \<Rightarrow> vmethod option \<Rightarrow> jstring option \<Rightarrow> jstring option \<Rightarrow> hook \<Rightarrow> hook \<times> (jval + jval option)" where
  "withVerification res available call preferred ti descr h =
     (let h = h\<lparr>attempts := remove1 call (attempts h)\<rparr> in
      case res of
        Inr v \<Rightarrow> (h, Inr (Some v))
      | Inl error \<Rightarrow>
          if isVerificationRequiredError error
          then (fst (startVerification available call preferred ti descr h), Inr None)
          else (h, Inl error))"

inductive sv_step :: "bool \<Rightarrow> (jstring \<Rightarrow> answer) \<Rightarrow> hook \<Rightarrow> hook \<Rightarrow> bool" for autoReset post where
  fetched: "sv_step autoReset post h (h\<lparr>h_methods := ms\<rparr>)"
| start: "sv_step autoReset post h (fst (startVerification ms call preferred ti descr h))"
| attempt: "sv_step autoReset post h (tryCall call h)"
| attempted: "call \<in> set (attempts h) \<Longrightarrow> sv_step autoReset post h (fst (withVerification res ms call preferred ti descr h))"
| execute: "sv_step autoReset post h (executeVerification m code h)"
| verified: "ex \<in> set (running h) \<Longrightarrow> ex_stage ex = Verifying \<Longrightarrow> sv_step autoReset post h (onVerified post env ex h)"
| called: "ex \<in> set (running h) \<Longrightarrow> ex_stage ex = Calling \<Longrightarrow> sv_step autoReset post h (onCalled autoReset r ex h)"
| code: "sv_step autoReset post h (setCode c h)"
| switch: "sv_step autoReset post h (switchMethod m h)"
| cancelled: "sv_step autoReset post h (cancel h)"
| opened: "sv_step autoReset post h (h\<lparr>h_open := b\<rparr>)"

inductive sv_reach :: "bool \<Rightarrow> (jstring \<Rightarrow> answer) \<Rightarrow> hook \<Rightarrow> bool" for autoReset post where
  init: "sv_reach autoReset post init_hook"
| step: "sv_reach autoReset post h \<Longrightarrow> sv_step autoReset post h h' \<Longrightarrow> sv_reach autoReset post h'"

section \<open>Verification comes first\<close>

text \<open>The log, newest first: the call of an execution comes right after the verification of that execution, which
  succeeded with the method and the code the execution was started with, for the call it was started for; and an execution
  calls once.\<close>

fun ran_id :: "log_entry \<Rightarrow> nat option" where
  "ran_id (Ran n _) = Some n"
| "ran_id _ = None"

abbreviation ran_ids :: "log_entry list \<Rightarrow> nat list" where
  "ran_ids lg \<equiv> List.map_filter ran_id lg"

fun verified_before :: "(jstring \<Rightarrow> answer) \<Rightarrow> nat \<Rightarrow> nat \<Rightarrow> log_entry list \<Rightarrow> bool" where
  "verified_before post n c (Verified n' m cd env # lg) \<longleftrightarrow>
     n' = n \<and> Started n c m cd \<in> set lg \<and> snd (verify post env m (Some cd)) = Inr ()"
| "verified_before post n c _ \<longleftrightarrow> False"

fun log_ok :: "(jstring \<Rightarrow> answer) \<Rightarrow> log_entry list \<Rightarrow> bool" where
  "log_ok post [] \<longleftrightarrow> True"
| "log_ok post (Ran n c # lg) \<longleftrightarrow> verified_before post n c lg \<and> n \<notin> set (ran_ids lg) \<and> log_ok post lg"
| "log_ok post (_ # lg) \<longleftrightarrow> log_ok post lg"

definition runs_ok :: "hook \<Rightarrow> bool" where
  "runs_ok h \<longleftrightarrow> distinct (map ex_id (running h)) \<and> (\<forall>ex \<in> set (running h). ex_id ex < next_id h) \<and>
     (\<forall>n \<in> set (ran_ids (h_log h)). n < next_id h)"

definition sv_inv :: "(jstring \<Rightarrow> answer) \<Rightarrow> hook \<Rightarrow> bool" where
  "sv_inv post h \<longleftrightarrow> runs_ok h \<and> log_ok post (h_log h) \<and>
     (\<forall>ex \<in> set (running h). ex_stage ex = Verifying \<longrightarrow>
        ex_id ex \<notin> set (ran_ids (h_log h)) \<and> Started (ex_id ex) (ex_call ex) (ex_method ex) (ex_code ex) \<in> set (h_log h)) \<and>
     (running h = [] \<longrightarrow> \<not> loading (h_state h))"

named_theorems sv_defs \<open>the operations of the hook\<close>

lemmas hook_defs [sv_defs] = startVerification_def executeVerification_def settle_def onVerified_def onCalled_def
  reset_def initialState_def setCode_def switchMethod_def cancel_def withVerification_def tryCall_def Let_def

lemmas inv_defs = sv_inv_def runs_ok_def

lemma inv_init: "sv_inv post init_hook"
  by (simp add: inv_defs init_hook_def initialState_def map_filter_simps)

lemma inv_start: "sv_inv post h \<Longrightarrow> sv_inv post (fst (startVerification ms call preferred ti descr h))"
  by (auto simp: inv_defs startVerification_def Let_def map_filter_simps)

lemma inv_attempts: "sv_inv post (h\<lparr>attempts := as\<rparr>) = sv_inv post h"
  by (simp add: inv_defs)

lemma inv_tryCall: "sv_inv post h \<Longrightarrow> sv_inv post (tryCall call h)"
  by (auto simp: inv_defs tryCall_def map_filter_simps)

lemma inv_attempt: "sv_inv post h \<Longrightarrow> sv_inv post (fst (withVerification res ms call preferred ti descr h))"
  by (auto simp: withVerification_def Let_def inv_start inv_attempts split: sum.splits)

lemma inv_reset: "sv_inv post h \<Longrightarrow> sv_inv post (reset h)"
  by (auto simp: inv_defs reset_def initialState_def)

lemma inv_execute: "sv_inv post h \<Longrightarrow> sv_inv post (executeVerification m code h)"
  by (auto simp: inv_defs executeVerification_def map_filter_simps less_Suc_eq Let_def split: option.splits)

lemma inv_log: "sv_inv post h \<Longrightarrow> ran_id e = None \<Longrightarrow> sv_inv post (h\<lparr>h_log := e # h_log h\<rparr>)"
  by (cases e) (auto simp: inv_defs map_filter_simps)

lemma inv_settle: "sv_inv post h \<Longrightarrow> sv_inv post (settle ex h)"
  by (auto simp: inv_defs settle_def distinct_map_filter)

lemma inv_verified:
  assumes "sv_inv post h" and "ex \<in> set (running h)" and "ex_stage ex = Verifying"
  shows "sv_inv post (onVerified post env ex h)"
proof (cases "snd (verify post env (ex_method ex) (Some (ex_code ex)))")
  case (Inl e)
  then show ?thesis using assms(1) by (simp add: onVerified_def inv_settle inv_log)
next
  case (Inr u)
  have fresh: "ex_id ex \<notin> set (ran_ids (h_log h))"
    and started: "Started (ex_id ex) (ex_call ex) (ex_method ex) (ex_code ex) \<in> set (h_log h)"
    using assms by (auto simp: sv_inv_def)
  let ?go = "\<lambda>x. if ex_id x = ex_id ex then x\<lparr>ex_stage := Calling\<rparr> else x"
  have go: "map ex_id (map ?go (running h)) = map ex_id (running h)" by simp
  have run: "running (onVerified post env ex h) = map ?go (running h)" "next_id (onVerified post env ex h) = next_id h"
    "h_log (onVerified post env ex h) = Ran (ex_id ex) (ex_call ex) # Verified (ex_id ex) (ex_method ex) (ex_code ex) env # h_log h"
    using Inr by (simp_all add: onVerified_def)
  have "runs_ok (onVerified post env ex h)"
    using assms(1,2) unfolding sv_inv_def runs_ok_def run go by (auto simp: map_filter_simps)
  moreover have "log_ok post (h_log (onVerified post env ex h))"
    using assms(1) Inr fresh started by (simp add: sv_inv_def run map_filter_simps)
  ultimately show ?thesis
    using assms(1,2) Inr by (auto simp: sv_inv_def onVerified_def map_filter_simps)
qed

lemma inv_called: "sv_inv post h \<Longrightarrow> sv_inv post (onCalled autoReset r ex h)"
proof (cases r)
  case (Inr u)
  assume h: "sv_inv post h"
  have "h_log (if autoReset then reset h else h) = h_log h" by (simp add: reset_def)
  moreover have "sv_inv post (if autoReset then reset h else h)" using h by (simp add: inv_reset)
  ultimately show ?thesis
    using inv_log [of post "if autoReset then reset h else h" "Succeeded (ex_id ex)"] Inr
    by (simp add: onCalled_def inv_settle)
qed (simp add: onCalled_def inv_settle inv_log)

lemma inv_step: "sv_step autoReset post h h' \<Longrightarrow> sv_inv post h \<Longrightarrow> sv_inv post h'"
proof (induction rule: sv_step.induct)
  case (fetched h ms)
  then show ?case by (auto simp: inv_defs)
next
  case (code h c)
  then show ?case by (auto simp: inv_defs setCode_def)
next
  case (switch h m)
  then show ?case by (auto simp: inv_defs switchMethod_def)
next
  case (opened h b)
  then show ?case by (auto simp: inv_defs)
qed (auto simp: cancel_def intro: inv_start inv_tryCall inv_attempt inv_execute inv_verified inv_called inv_reset)

lemma inv_reach: "sv_reach autoReset post h \<Longrightarrow> sv_inv post h"
  by (induction rule: sv_reach.induct) (auto intro: inv_init inv_step)

lemma log_ok_Ran: "log_ok post (later @ Ran n c # earlier) \<Longrightarrow>
    verified_before post n c earlier \<and> n \<notin> set (ran_ids later) \<and> n \<notin> set (ran_ids earlier)"
proof (induction later)
  case (Cons e later)
  have "log_ok post (later @ Ran n c # earlier)" using Cons.prems by (cases e) simp_all
  moreover have "ran_id e \<noteq> Some n" using Cons.prems by (cases e) (auto simp: List.map_filter_def)
  ultimately show ?case using Cons.IH by (cases e) (auto simp: map_filter_simps)
qed simp

text \<open>A verification can only succeed with the agreement of the server: a code it accepted, or a credential it accepted in
  both requests.\<close>

definition agreed :: "answer \<Rightarrow> bool" where
  "agreed a \<longleftrightarrow> (case a of Body b \<Rightarrow> truthy (jprop (lit ''success'') b) | Thrown _ \<Rightarrow> False)"

definition accepted :: "(jstring \<Rightarrow> answer) \<Rightarrow> passkey_env \<Rightarrow> vmethod \<Rightarrow> jstring \<Rightarrow> bool" where
  "accepted post env m code \<longleftrightarrow>
     (case m of
        TwoFA \<Rightarrow> trim code \<noteq> [] \<and> agreed (post (trim code))
      | PasskeyMethod \<Rightarrow>
          agreed (beginAnswer env) \<and> (\<exists>p cred. promptAnswer env p = Credential cred \<and> agreed (finishAnswer env (buildAssertionResult (Some cred)))) \<and>
          agreed (verifyAnswer env))"

lemma post_agreed: "post_success a msg = Inr b \<Longrightarrow> agreed a"
  by (auto simp: post_success_def agreed_def split: answer.splits if_splits)

lemma need_agreed: "need_success a msg = Inr b \<Longrightarrow> agreed a"
  by (auto simp: need_success_def dest: post_agreed split: answer.splits if_splits)

lemma verify_accepted: "snd (verify post env m (Some code)) = Inr () \<Longrightarrow> accepted post env m code"
proof (cases m)
  case TwoFA
  then show "snd (verify post env m (Some code)) = Inr () \<Longrightarrow> ?thesis"
    by (auto simp: verify_def verifyTwoFA_def accepted_def Let_def dest: post_agreed split: if_splits sum.splits)
next
  case PasskeyMethod
  then show "snd (verify post env m (Some code)) = Inr () \<Longrightarrow> ?thesis"
    by (auto simp: verify_def verifyPasskey_def finish_passkey_def accepted_def Let_def dest!: post_agreed need_agreed
        split: if_splits sum.splits prompt.splits)
qed

text \<open>C11: A call that an execution makes comes right after its verification: whatever the user and the server do and in whatever order,
  the log entry before it is the verification of the same execution, with the method and the code that execution was started with
  for this call, the server accepted that code or that credential, and no execution makes its call twice. The only other calls are
  the attempts of \<open>withVerification\<close> (\<open>Tried\<close>), which it makes before any verification.\<close>

theorem protected_call_verified:
  assumes "sv_reach autoReset post h" and "h_log h = later @ Ran n c # earlier"
  shows "(\<exists>m code env rest. earlier = Verified n m code env # rest \<and> Started n c m code \<in> set rest \<and> accepted post env m code) \<and>
    (\<forall>c'. Ran n c' \<notin> set later \<and> Ran n c' \<notin> set earlier)"
proof -
  have "log_ok post (later @ Ran n c # earlier)" using inv_reach [OF assms(1)] assms(2) by (simp add: sv_inv_def)
  note l = log_ok_Ran [OF this]
  have "Ran n c' \<notin> set lg" if "n \<notin> set (ran_ids lg)" for c' lg using that by (force simp: List.map_filter_def)
  moreover from l have "\<exists>m code env rest. earlier = Verified n m code env # rest \<and> Started n c m code \<in> set rest \<and>
      snd (verify post env m (Some code)) = Inr ()"
    by (auto elim: verified_before.elims)
  ultimately show ?thesis using l verify_accepted by blast
qed

definition no_passkey :: passkey_env where
  "no_passkey = \<lparr>credentialsAvailable = False, beginAnswer = Thrown [], promptAnswer = (\<lambda>_. NoCredential),
     finishAnswer = (\<lambda>_. Thrown []), verifyAnswer = Thrown []\<rparr>"

definition sample_run :: "(jstring \<Rightarrow> answer) \<Rightarrow> hook" where
  "sample_run post =
     (let h1 = fst (startVerification \<lparr>has2FA = True, hasPasskey = False, passkeySupported = False\<rparr> 7 None None None init_hook);
          h2 = executeVerification None (Some (lit ''123456'')) h1 in
      onVerified post no_passkey (hd (running h2)) h2)"

definition accepting :: "jstring \<Rightarrow> answer" where
  "accepting code = Body (JObj [(lit ''success'', JBool (code = lit ''123456''))])"

theorem protected_call_verified_witness:
  "\<exists>code rest. h_log (sample_run accepting) = Ran 0 7 # Verified 0 TwoFA code no_passkey # rest \<and>
     Started 0 7 TwoFA code \<in> set rest \<and> agreed (accepting (trim code))"
proof -
  let ?start = "fst (startVerification \<lparr>has2FA = True, hasPasskey = False, passkeySupported = False\<rparr> 7 None None None init_hook)"
  let ?exec = "executeVerification None (Some (lit ''123456'')) ?start"
  have "sv_reach True accepting ?start" by (rule sv_reach.step [OF sv_reach.init sv_step.start])
  then have e: "sv_reach True accepting ?exec" by (rule sv_reach.step [OF _ sv_step.execute])
  have run: "running ?exec \<noteq> []" "ex_stage (hd (running ?exec)) = Verifying" by code_simp+
  have "hd (running ?exec) \<in> set (running ?exec)" using run(1) by simp
  from sv_step.verified [OF this run(2)] have "sv_step True accepting ?exec (sample_run accepting)"
    by (simp add: sample_run_def Let_def del: list.map)
  with e have reach: "sv_reach True accepting (sample_run accepting)" by (rule sv_reach.step)
  have v: "snd (verify accepting no_passkey TwoFA (Some (lit ''123456''))) = Inr ()" by code_simp
  obtain code rest where lg: "h_log (sample_run accepting) = Ran 0 7 # Verified 0 TwoFA code no_passkey # rest"
  proof
    show "h_log (sample_run accepting) =
        Ran 0 7 # Verified 0 TwoFA (lit ''123456'') no_passkey # [Started 0 7 TwoFA (lit ''123456'')]"
      by (simp add: sample_run_def startVerification_def executeVerification_def onVerified_def v
          init_hook_def initialState_def default_method_def Let_def del: list.map)
  qed
  from protected_call_verified [OF reach, of "[]" 0 7] lg show ?thesis by (simp add: accepted_def)
qed

section \<open>The dialog is never stuck\<close>

lemma length_settle: "ex \<in> set (running h) \<Longrightarrow> length (running (settle ex h)) < length (running h)"
  by (simp add: settle_def length_filter_less)

lemma called_fails:
  assumes "ex \<in> set (running h)" and "ex_stage ex = Calling"
  shows "\<exists>h'. sv_step autoReset post h h' \<and> length (running h') < length (running h)"
proof -
  have "sv_step autoReset post h (onCalled autoReset (Inl []) ex h)" using assms by (rule sv_step.called)
  moreover have "length (running (onCalled autoReset (Inl []) ex h)) < length (running h)"
    using length_settle [of ex "h\<lparr>h_log := Failed (ex_id ex) [] # h_log h\<rparr>"] assms(1) by (simp add: onCalled_def)
  ultimately show ?thesis by blast
qed

lemma execution_ends:
  assumes "ex \<in> set (running h)"
  shows "\<exists>h'. (sv_step autoReset post)\<^sup>*\<^sup>* h h' \<and> length (running h') < length (running h)"
proof (cases "ex_stage ex")
  case Calling
  then show ?thesis using called_fails [OF assms] by blast
next
  case Verifying
  have s: "sv_step autoReset post h (onVerified post no_passkey ex h)" using assms Verifying by (rule sv_step.verified)
  show ?thesis
  proof (cases "snd (verify post no_passkey (ex_method ex) (Some (ex_code ex)))")
    case (Inl e)
    have "length (running (onVerified post no_passkey ex h)) < length (running h)"
      using length_settle [of ex "h\<lparr>h_log := Failed (ex_id ex) e # h_log h\<rparr>"] assms Inl by (simp add: onVerified_def)
    then show ?thesis using s by blast
  next
    case (Inr u)
    have "ex\<lparr>ex_stage := Calling\<rparr> \<in> set (running (onVerified post no_passkey ex h))"
      using assms Inr by (force simp: onVerified_def)
    then obtain h' where "sv_step autoReset post (onVerified post no_passkey ex h) h'"
      and "length (running h') < length (running (onVerified post no_passkey ex h))"
      using called_fails [of "ex\<lparr>ex_stage := Calling\<rparr>"] by fastforce
    moreover have "length (running (onVerified post no_passkey ex h)) = length (running h)" using Inr by (simp add: onVerified_def)
    ultimately show ?thesis using s by (metis converse_rtranclp_into_rtranclp r_into_rtranclp)
  qed
qed

lemma executions_end: "\<exists>h'. (sv_step autoReset post)\<^sup>*\<^sup>* h h' \<and> running h' = []"
proof (induction "length (running h)" arbitrary: h rule: less_induct)
  case less
  show ?case
  proof (cases "running h")
    case (Cons ex exs)
    then obtain h1 where "(sv_step autoReset post)\<^sup>*\<^sup>* h h1" "length (running h1) < length (running h)"
      using execution_ends [of ex h] by auto
    with less show ?thesis by (metis rtranclp_trans)
  qed blast
qed

lemma reach_steps: "(sv_step autoReset post)\<^sup>*\<^sup>* h h' \<Longrightarrow> sv_reach autoReset post h \<Longrightarrow> sv_reach autoReset post h'"
  by (induction rule: rtranclp_induct) (auto intro: sv_reach.step)

text \<open>C12: The dialog does not hang: it shows loading only while an execution is running, and from every
  reachable state the answers to the running executions bring it to a state where nothing is loading.\<close>

theorem verification_not_stuck:
  assumes "sv_reach autoReset post h"
  shows "(loading (h_state h) \<longrightarrow> running h \<noteq> []) \<and>
    (\<exists>h'. (sv_step autoReset post)\<^sup>*\<^sup>* h h' \<and> running h' = [] \<and> \<not> loading (h_state h'))"
proof -
  have "loading (h_state h) \<longrightarrow> running h \<noteq> []" using inv_reach [OF assms] by (auto simp: sv_inv_def)
  moreover from executions_end obtain h' where h': "(sv_step autoReset post)\<^sup>*\<^sup>* h h'" "running h' = []" by blast
  from reach_steps [OF h'(1) assms] have "sv_inv post h'" by (rule inv_reach)
  then have "\<not> loading (h_state h')" using h'(2) by (simp add: sv_inv_def)
  ultimately show ?thesis using h' by blast
qed

theorem verification_not_stuck_witness:
  "\<exists>h'. (sv_step True accepting)\<^sup>*\<^sup>*
     (executeVerification (Some TwoFA) None (fst (startVerification \<lparr>has2FA = True, hasPasskey = False, passkeySupported = False\<rparr> 7 None None None init_hook)))
     h' \<and> running h' = [] \<and> \<not> loading (h_state h')"
  using verification_not_stuck [OF sv_reach.step [OF sv_reach.step [OF sv_reach.init sv_step.start] sv_step.execute]] by blast

text \<open>The method chosen without a preference is one the user can use, and it is the recommended one.\<close>

lemma default_method_usable:
  "default_method ms = recommendedMethod ms \<and> (default_method ms = Some m \<longrightarrow> canUseMethod ms m)"
  by (auto simp: default_method_def recommendedMethod_def canUseMethod_def)

end
