(* ===== verification/JS_Bits.thy ===== *)
theory JS_Bits
  imports JS_Json "HOL-Library.Word"
begin

unbundle bit_operations_syntax

text \<open>
  The bitwise operators of JavaScript, which work on 32-bit integers whatever the number: \<open>toInt32\<close> and
  \<open>toUint32\<close> are the conversions, \<open>jxor\<close>, \<open>jshl\<close> and \<open>jor0\<close> (\<^verbatim>\<open>x | 0\<close>) the operators the console uses.
  The lemmas connect double arithmetic on 32-bit values with arithmetic on words, and \<open>dbl_dyadic\<close> shows
  that quotients by powers of two are exact.
\<close>

section \<open>Conversions and operators\<close>

declare of_int_uint [simp del] of_int_sint [simp del]

definition trunc :: "rat \<Rightarrow> int" where
  "trunc x = (if x < 0 then - \<lfloor>- x\<rfloor> else \<lfloor>x\<rfloor>)"

definition word32 :: "jsnum \<Rightarrow> 32 word" where
  "word32 a = (case a of Fin x \<Rightarrow> word_of_int (trunc x) | _ \<Rightarrow> 0)"

definition toInt32 :: "jsnum \<Rightarrow> jsnum" where
  "toInt32 a = jint (sint (word32 a))"

definition toUint32 :: "jsnum \<Rightarrow> jsnum" where
  "toUint32 a = jint (uint (word32 a))"

definition jxor :: "jsnum \<Rightarrow> jsnum \<Rightarrow> jsnum" where
  "jxor a b = jint (sint (word32 a XOR word32 b))"

definition jshl :: "jsnum \<Rightarrow> nat \<Rightarrow> jsnum" where
  "jshl a n = jint (sint (push_bit n (word32 a)))"

definition jor0 :: "jsnum \<Rightarrow> jsnum" where
  "jor0 a = toInt32 a"

lemma trunc_int [simp]: "trunc (of_int n) = n"
  by (simp add: trunc_def flip: of_int_minus)

lemma word32_jint [simp]: "word32 (jint n) = word_of_int n"
  by (simp add: word32_def)

lemma word_of_int_word [simp]: "word_of_int (uint w) = w" "word_of_int (sint w) = w"
  by (simp_all add: of_int_uint of_int_sint)

lemma sint32_bounds: "- (2 ^ 31) \<le> sint (w :: 32 word)" "sint (w :: 32 word) < 2 ^ 31"
  using sint_range_size [of w] by (simp_all add: word_size)

lemma uint32_bounds: "0 \<le> uint (w :: 32 word)" "uint (w :: 32 word) < 2 ^ 32"
  using uint_lt2p [of w] by simp_all

section \<open>Exact quotients by powers of two\<close>

lemma ipow_powi: "ipow 2 e = 2 powi e"
  by (auto simp: ipow_def power_int_def Fract_of_int_quotient field_simps)

lemma bitlen_bounds_rat:
  assumes "0 < n"
  shows "ipow 2 (bitlen n - 1) \<le> of_int n" and "of_int n < ipow 2 (bitlen n)"
proof -
  have b: "0 < bitlen n"
  proof (rule ccontr)
    assume "\<not> 0 < bitlen n"
    then have "n < 1" using bitlen_bounds [OF assms] by simp
    with assms show False by simp
  qed
  have "2 ^ nat (bitlen n - 1) \<le> n" "n < 2 ^ nat (bitlen n)" using bitlen_bounds [OF assms] by auto
  then have "(of_int (2 ^ nat (bitlen n - 1)) :: rat) \<le> of_int n" "(of_int n :: rat) < of_int (2 ^ nat (bitlen n))"
    by (simp_all only: of_int_le_iff of_int_less_iff)
  then show "ipow 2 (bitlen n - 1) \<le> of_int n" and "of_int n < ipow 2 (bitlen n)"
    using b by (simp_all add: ipow_nonneg)
qed

lemma ilog2_lower:
  assumes "0 < x"
  shows "ipow 2 (ilog2 x) \<le> x"
proof -
  obtain a b where q: "quotient_of x = (a, b)" by (cases "quotient_of x")
  have b: "0 < b" using quotient_of_denom_pos [OF q] .
  have x: "x = of_int a / of_int b" using quotient_of_div [OF q] .
  have a: "0 < a" using assms b by (simp add: x zero_less_divide_iff)
  let ?e = "bitlen a - bitlen b"
  have "2 powi (?e - 1) = 2 powi (bitlen a - 1) / (2 powi bitlen b :: rat)"
    by (simp add: power_int_diff)
  also have "\<dots> \<le> of_int a / of_int b"
    using bitlen_bounds_rat [OF a] bitlen_bounds_rat [OF b] a b
    by (intro frac_le) (simp_all add: ipow_powi)
  finally have "ipow 2 (?e - 1) \<le> x" by (simp add: ipow_powi x)
  then show ?thesis by (auto simp: ilog2_def q Let_def)
qed

lemma ilog2_less:
  assumes "0 < x" and "x < 2 powi m"
  shows "ilog2 x < m"
proof (rule ccontr)
  assume "\<not> ilog2 x < m"
  then have "(2 :: rat) powi m \<le> 2 powi (ilog2 x)" by (intro power_int_increasing) auto
  with ilog2_lower [OF assms(1)] assms(2) show False by (simp add: ipow_powi)
qed

lemma dbl_exact:
  assumes "x \<noteq> 0" and "ilog2 \<bar>x\<bar> \<le> 900" and "x * ipow 2 (- max (ilog2 \<bar>x\<bar> - 52) (- 1074)) = of_int m"
  shows "dbl x = Fin x"
proof -
  define q where "q = max (ilog2 \<bar>x\<bar> - 52) (- 1074)"
  have r: "round_even (x * ipow 2 (- q)) = m" using assms(3) by (simp add: q_def)
  have "of_int m * ipow 2 q = x * (ipow 2 (- q) * ipow 2 q)" using assms(3) by (simp add: q_def)
  then have x: "of_int m * ipow 2 q = x" by (simp add: ipow_inverse)
  have q: "q < 971" using assms(2) by (simp add: q_def)
  show ?thesis unfolding dbl_def Let_def q_def [symmetric] r x using assms(1) q by simp
qed

lemma dbl_dyadic:
  assumes "\<bar>n\<bar> < 2 ^ 53" and "k \<le> 1000"
  shows "dbl (of_int n / 2 ^ k) = Fin (of_int n / 2 ^ k)"
proof (cases "n = 0")
  case False
  let ?x = "of_int n / 2 ^ k :: rat"
  define q where "q = max (ilog2 \<bar>?x\<bar> - 52) (- 1074)"
  have "\<bar>?x\<bar> = of_int \<bar>n\<bar> / 2 ^ k" by simp
  also have "of_int \<bar>n\<bar> < (2 ^ 53 :: rat)" using assms(1) by (metis of_int_less_iff of_int_numeral of_int_power)
  then have "of_int \<bar>n\<bar> / 2 ^ k < (2 ^ 53 / 2 ^ k :: rat)" by (simp add: divide_strict_right_mono)
  also have "\<dots> = 2 powi (53 - int k)" by (simp add: power_int_diff)
  finally have "ilog2 \<bar>?x\<bar> < 53 - int k" using False by (intro ilog2_less) auto
  then have q: "q \<le> - int k" using assms(2) by (simp add: q_def)
  have ip: "ipow 2 (- q) = 2 ^ k * of_int (2 ^ nat (- q - int k))"
  proof -
    have "ipow 2 (- q) = (2 :: rat) powi (int k + (- q - int k))" by (simp add: ipow_powi)
    also have "\<dots> = 2 powi int k * 2 powi (- q - int k)" by (rule power_int_add) simp
    also have "(2 :: rat) powi (- q - int k) = of_int (2 ^ nat (- q - int k))" using q by (simp add: power_int_def)
    finally show ?thesis by simp
  qed
  have "?x * ipow 2 (- q) = of_int (n * 2 ^ nat (- q - int k))" by (simp add: ip)
  then have x: "?x * ipow 2 (- max (ilog2 \<bar>?x\<bar> - 52) (- 1074)) = of_int (n * 2 ^ nat (- q - int k))"
    unfolding q_def .
  have "ilog2 \<bar>?x\<bar> \<le> 900" using \<open>ilog2 \<bar>?x\<bar> < 53 - int k\<close> by linarith
  then show ?thesis using False by (intro dbl_exact [OF _ _ x]) auto
qed simp

end
