(* ===== verification/Seed.thy ===== *)
theory Seed
  imports JS_Bits
begin

unbundle bit_operations_syntax

text \<open>
  The deterministic generator of \<^verbatim>\<open>features/pricing/lib/seed.ts\<close>: a string hash that seeds a linear
  congruential generator, computed in doubles and cut to 32 bits after every step. A generator is its
  state; drawing a number returns the number and the next state.

  The specification is arithmetic on 32-bit words; the theorems show that the double computation never
  loses a bit of it.
\<close>

definition hash_step :: "jsnum \<Rightarrow> nat \<Rightarrow> jsnum" where
  "hash_step hash c = jxor (jmul hash (Fin 33)) (Fin (of_nat c))"

definition hashStringToSeed :: "jstring \<Rightarrow> jsnum" where
  "hashStringToSeed input = jabs (jor0 (foldl hash_step (Fin 5381) input))"

definition seededRandom :: "jsnum \<Rightarrow> jsnum" where
  "seededRandom seed = toUint32 (if jtruthy seed then seed else Fin 1)"

definition rand_next :: "jsnum \<Rightarrow> jsnum \<times> jsnum" where
  "rand_next state =
     (let state = toUint32 (jadd (jmul state (Fin 1664525)) (Fin 1013904223)) in
      (jdiv state (Fin 4294967296), state))"

definition randomInRange :: "jsnum \<Rightarrow> jsnum \<Rightarrow> jsnum \<Rightarrow> jsnum \<times> jsnum" where
  "randomInRange state lo hi =
     (let (r, state) = rand_next state in (jadd lo (jmul r (jsub hi lo)), state))"

definition randomIntInRange :: "jsnum \<Rightarrow> jsnum \<Rightarrow> jsnum \<Rightarrow> jsnum \<times> jsnum" where
  "randomIntInRange state lo hi = apfst jfloor (randomInRange state lo (jadd hi (Fin 1)))"

section \<open>The hash\<close>

definition hash_word :: "jstring \<Rightarrow> 32 word" where
  "hash_word s = foldl (\<lambda>w c. (33 * w) XOR of_nat c) 5381 s"

lemma hash_step_word: "hash_step (jint (sint (w :: 32 word))) c = jint (sint ((33 * w) XOR of_nat c))"
proof -
  have "\<bar>sint w * 33\<bar> < 2 ^ 53" using sint32_bounds [of w] by auto
  then have "jmul (jint (sint w)) (Fin 33) = jint (sint w * 33)"
    using jmul_int [of "sint w" 33] by simp
  moreover have "word32 (Fin (of_nat c)) = of_nat c" using word32_jint [of "int c"] by simp
  moreover have "word_of_int (sint w * 33) = 33 * w" by (simp add: mult.commute)
  ultimately show ?thesis by (simp only: hash_step_def jxor_def word32_jint)
qed

lemma foldl_hash: "foldl hash_step (jint (sint (w :: 32 word))) s = jint (sint (foldl (\<lambda>w c. (33 * w) XOR of_nat c) w s))"
  by (induction s arbitrary: w) (simp_all add: hash_step_word)

lemma hashStringToSeed_word: "hashStringToSeed s = jint \<bar>sint (hash_word s)\<bar>"
proof -
  have "sint (5381 :: 32 word) = 5381" by code_simp
  then show ?thesis
    using foldl_hash [of 5381 s] by (simp add: hashStringToSeed_def hash_word_def jor0_def toInt32_def jabs_def flip: of_int_abs)
qed

section \<open>The generator\<close>

definition lcg :: "32 word \<Rightarrow> 32 word" where
  "lcg w = w * 1664525 + 1013904223"

abbreviation state_of :: "32 word \<Rightarrow> jsnum" where
  "state_of w \<equiv> jint (uint w)"

lemma jdiv_dyadic: "\<bar>n\<bar> < 2 ^ 53 \<Longrightarrow> jdiv (jint n) (Fin 4294967296) = Fin (of_int n / 2 ^ 32)"
  using dbl_dyadic [of n 32] by simp

lemma rand_next_word: "rand_next (state_of w) = (Fin (of_int (uint (lcg w)) / 2 ^ 32), state_of (lcg w))"
proof -
  have b: "\<bar>uint w * 1664525\<bar> < 2 ^ 53" "\<bar>uint w * 1664525 + 1013904223\<bar> < 2 ^ 53"
    using uint32_bounds [of w] by auto
  have "jmul (state_of w) (Fin 1664525) = jint (uint w * 1664525)"
    using jmul_int [of "uint w" 1664525] b(1) by simp
  moreover have "jadd (jint (uint w * 1664525)) (Fin 1013904223) = jint (uint w * 1664525 + 1013904223)"
    using jadd_int [of "uint w * 1664525" 1013904223] b(2) by simp
  moreover have "word_of_int (uint w * 1664525 + 1013904223) = lcg w" by (simp add: lcg_def)
  ultimately have s: "toUint32 (jadd (jmul (state_of w) (Fin 1664525)) (Fin 1013904223)) = state_of (lcg w)"
    by (simp only: toUint32_def word32_jint)
  have "\<bar>uint (lcg w)\<bar> < 2 ^ 53" using uint32_bounds [of "lcg w"] by simp
  then show ?thesis unfolding rand_next_def Let_def s by (simp only: jdiv_dyadic)
qed

text \<open>The state after a seed is a 32-bit word.\<close>

lemma seeded_state: "seededRandom (jint n) = state_of (if n = 0 then 1 else word_of_int n)"
  by (simp add: seededRandom_def toUint32_def jtruthy_def word32_def trunc_def)

fun draws :: "nat \<Rightarrow> jsnum \<Rightarrow> jsnum list" where
  "draws 0 st = []"
| "draws (Suc n) st = (let (r, st) = rand_next st in r # draws n st)"

lemma draws_word:
  "draws n (state_of w) = map (\<lambda>k. Fin (of_int (uint ((lcg ^^ Suc k) w)) / 2 ^ 32)) [0..<n]"
proof (induction n arbitrary: w)
  case (Suc n)
  have "[0..<Suc n] = 0 # map Suc [0..<n]" by (simp add: upt_conv_Cons map_Suc_upt del: upt_Suc)
  then show ?case using Suc [of "lcg w"] by (simp add: rand_next_word funpow_swap1 del: upt_Suc)
qed simp

text \<open>C14: The generator seeded by a name is exact 32-bit arithmetic: the seed is the absolute value of the
  32-bit hash, every draw is the next word of the linear congruential sequence over $2^{32}$, and it lies
  in the half-open unit interval.\<close>

theorem seeded_draws_exact:
  "(let w = hash_word name; seed = \<bar>sint w\<bar>; start = (if seed = 0 then 1 else word_of_int seed) in
    hashStringToSeed name = jint seed \<and> 0 \<le> seed \<and> seed \<le> 2 ^ 31 \<and>
    draws n (seededRandom (hashStringToSeed name)) =
      map (\<lambda>k. Fin (of_int (uint ((lcg ^^ Suc k) start)) / 2 ^ 32)) [0..<n] \<and>
    list_all (\<lambda>r. jle (Fin 0) r \<and> jlt r (Fin 1)) (draws n (seededRandom (hashStringToSeed name))))"
proof -
  let ?seed = "\<bar>sint (hash_word name)\<bar>"
  let ?start = "if ?seed = 0 then 1 else word_of_int ?seed :: 32 word"
  have d: "draws n (seededRandom (hashStringToSeed name)) =
      map (\<lambda>k. Fin (of_int (uint ((lcg ^^ Suc k) ?start)) / 2 ^ 32)) [0..<n]"
    by (simp only: hashStringToSeed_word seeded_state draws_word)
  have u: "0 \<le> of_int (uint w) / (2 ^ 32 :: rat) \<and> of_int (uint w) / 2 ^ 32 < (1 :: rat)" for w :: "32 word"
  proof -
    have "of_int (uint w) < (of_int (2 ^ 32) :: rat)" unfolding of_int_less_iff by (rule uint32_bounds(2))
    moreover have "0 \<le> (of_int (uint w) :: rat)" using uint32_bounds(1) [of w] by simp
    ultimately show ?thesis by simp
  qed
  have "jle (Fin 0) r \<and> jlt r (Fin 1)" if "r \<in> set (draws n (seededRandom (hashStringToSeed name)))" for r
  proof -
    from that obtain w :: "32 word" where "r = Fin (of_int (uint w) / 2 ^ 32)" unfolding d by auto
    then show ?thesis using u [of w] by (auto simp: jle_def order.order_iff_strict)
  qed
  moreover have "?seed \<le> 2 ^ 31" using sint32_bounds [of "hash_word name"] by linarith
  ultimately show ?thesis using d hashStringToSeed_word by (simp only: Let_def list_all_iff) simp
qed

lemma zdiv_less_bound: "0 < m \<Longrightarrow> x < m * d \<Longrightarrow> x div m < d" for x m d :: int
proof -
  assume m: "0 < m" and x: "x < m * d"
  have "m * (x div m) + x mod m = x" by (rule mult_div_mod_eq)
  moreover have "0 \<le> x mod m" using m by simp
  ultimately have "m * (x div m) < m * d" using x by linarith
  then show ?thesis using m by simp
qed

text \<open>C15: An integer draw stays in its range: for bounds below $2^{19}$ no rounding happens, the draw is the lower
  bound plus the scaled word, and it lies between the two bounds, both included.\<close>

theorem random_int_in_range:
  assumes "lo \<le> hi" and "\<bar>lo\<bar> < 2 ^ 19" and "\<bar>hi\<bar> < 2 ^ 19"
  shows "\<exists>k. randomIntInRange (state_of w) (jint lo) (jint hi) = (jint k, state_of (lcg w)) \<and>
    k = lo + uint (lcg w) * (hi + 1 - lo) div 2 ^ 32 \<and> lo \<le> k \<and> k \<le> hi"
proof -
  let ?u = "uint (lcg w)" and ?d = "hi + 1 - lo"
  let ?k = "lo + ?u * ?d div 2 ^ 32"
  have u: "0 \<le> ?u" "?u < 2 ^ 32" by (rule uint32_bounds)+
  have d: "1 \<le> ?d" "?d \<le> 2 ^ 20" using assms by auto
  have p: "0 \<le> ?u * ?d" "?u * ?d < 2 ^ 32 * ?d" using u d mult_strict_right_mono [OF u(2), of ?d] by simp_all
  then have p2: "?u * ?d < 2 ^ 52" using d(2) by simp
  have h1: "jadd (jint hi) (Fin 1) = jint (hi + 1)" using jadd_int [of hi 1] assms(3) by simp
  have h2: "jsub (jint (hi + 1)) (jint lo) = jint ?d"
    using jadd_int [of "hi + 1" "- lo"] assms by (simp add: jsub_def)
  have "jmul (Fin (of_int ?u / 2 ^ 32)) (jint ?d) = dbl (of_int (?u * ?d) / 2 ^ 32)" by simp
  also have "\<dots> = Fin (of_int (?u * ?d) / 2 ^ 32)" using p p2 by (intro dbl_dyadic) auto
  finally have h3: "jmul (Fin (of_int ?u / 2 ^ 32)) (jint ?d) = Fin (of_int (?u * ?d) / 2 ^ 32)" .
  have "jadd (jint lo) (Fin (of_int (?u * ?d) / 2 ^ 32)) = dbl (of_int (lo * 2 ^ 32 + ?u * ?d) / 2 ^ 32)"
    by (simp add: add_divide_distrib)
  also have "\<dots> = Fin (of_int (lo * 2 ^ 32 + ?u * ?d) / 2 ^ 32)" using p p2 assms(2) by (intro dbl_dyadic) auto
  finally have h4: "jadd (jint lo) (Fin (of_int (?u * ?d) / 2 ^ 32)) = Fin (of_int (lo * 2 ^ 32 + ?u * ?d) / 2 ^ 32)" .
  have "\<lfloor>of_int (lo * 2 ^ 32 + ?u * ?d) / (2 ^ 32 :: rat)\<rfloor> = (lo * 2 ^ 32 + ?u * ?d) div 2 ^ 32"
    using floor_divide_of_int_eq [of "lo * 2 ^ 32 + ?u * ?d" "2 ^ 32", where ?'a = rat] by simp
  also have "\<dots> = ?k" by simp
  finally have "randomIntInRange (state_of w) (jint lo) (jint hi) = (jint ?k, state_of (lcg w))"
    unfolding randomIntInRange_def randomInRange_def rand_next_word Let_def prod.case h1 h2 h3 h4 by (simp add: jfloor_def)
  moreover have "0 \<le> ?u * ?d div 2 ^ 32" using p by simp
  moreover have "?u * ?d div 2 ^ 32 < ?d" using zdiv_less_bound [OF _ p(2)] by simp
  ultimately show ?thesis by auto
qed

theorem random_int_in_range_witness:
  "\<exists>k. randomIntInRange (state_of 12345) (jint 3) (jint 9) = (jint k, state_of (lcg 12345)) \<and> 3 \<le> k \<and> k \<le> 9"
proof -
  have "(3 :: int) \<le> 9" "\<bar>3 :: int\<bar> < 2 ^ 19" "\<bar>9 :: int\<bar> < 2 ^ 19" by simp_all
  from random_int_in_range [OF this, of 12345] show ?thesis by blast
qed

end
