(* ===== verification/Notifications.thy ===== *)
theory Notifications
  imports JS_Bits
begin

text \<open>
  The notification centre: the store of read marks (\<^verbatim>\<open>stores/notification-store.ts\<close>) and the hook that
  counts what is unread and marks it read (\<^verbatim>\<open>hooks/use-notifications.ts\<close>). The notice and the
  announcements the server sends, and the text of the current day, are arguments. Announcements without
  an id are identified by a 32-bit hash of their contents.
\<close>

section \<open>Keys of announcements\<close>

definition hash_char :: "jsnum \<Rightarrow> nat \<Rightarrow> jsnum" where
  "hash_char hash chr = jor0 (jadd (jsub (jshl hash 5) hash) (Fin (of_nat chr)))"

fun radix_digits :: "nat \<Rightarrow> nat \<Rightarrow> nat \<Rightarrow> jstring" where
  "radix_digits b 0 n = []"
| "radix_digits b (Suc f) n =
     (let d = n mod b; c = (if d < 10 then 48 + d else 87 + d) in
      if n < b then [c] else radix_digits b f (n div b) @ [c])"

text \<open>\<^verbatim>\<open>n.toString(36)\<close> of an integer; the number itself is more than enough fuel for its digits.\<close>

definition int_radix36 :: "int \<Rightarrow> jstring" where
  "int_radix36 i =
     (if i < 0 then 45 # radix_digits 36 (Suc (nat (- i))) (nat (- i)) else radix_digits 36 (Suc (nat i)) (nat i))"

definition hashString :: "jstring \<Rightarrow> jstring" where
  "hashString input =
     (if input = [] then lit ''0''
      else case foldl hash_char (Fin 0) input of Fin x \<Rightarrow> int_radix36 \<lfloor>x\<rfloor> | _ \<Rightarrow> [])"

definition field_or_empty :: "string \<Rightarrow> jval \<Rightarrow> jval" where
  "field_or_empty k item = jor (jprop (lit k) item) (JStr [])"

text \<open>\<open>None\<close>: the field is not a string and has no \<^verbatim>\<open>trim\<close>.\<close>

definition trimmed_field :: "string \<Rightarrow> jval \<Rightarrow> jval option" where
  "trimmed_field k item = (case field_or_empty k item of JStr s \<Rightarrow> Some (JStr (trim s)) | _ \<Rightarrow> None)"

definition fingerprint :: "jval \<Rightarrow> jstring option" where
  "fingerprint item =
     Option.bind (trimmed_field ''content'' item) (\<lambda>content.
     Option.bind (trimmed_field ''extra'' item) (\<lambda>extra.
     Option.bind (trimmed_field ''title'' item) (\<lambda>title.
     Option.bind (trimmed_field ''link'' item) (\<lambda>link.
     Some (json_text (JObj
       [(lit ''publishDate'', field_or_empty ''publishDate'' item), (lit ''content'', content), (lit ''extra'', extra),
        (lit ''type'', field_or_empty ''type'' item), (lit ''title'', title), (lit ''link'', link)]))))))"

definition getAnnouncementKey :: "jval \<Rightarrow> jstring option" where
  "getAnnouncementKey item =
     (if \<not> truthy item then Some []
      else if \<not> nullish (jprop (lit ''id'') item) then Some (lit ''id:'' @ str_of (jprop (lit ''id'') item))
      else map_option (\<lambda>s. lit ''hash:'' @ hashString s) (fingerprint item))"

section \<open>The store\<close>

record notification_store =
  lastReadNotice :: jstring
  readAnnouncementKeys :: "jstring list"
  closedUntilDate :: "jstring option"

definition initial_store :: notification_store where
  "initial_store = \<lparr>lastReadNotice = [], readAnnouncementKeys = [], closedUntilDate = None\<rparr>"

definition markNoticeRead :: "jstring \<Rightarrow> notification_store \<Rightarrow> notification_store" where
  "markNoticeRead noticeContent st = st\<lparr>lastReadNotice := trim noticeContent\<rparr>"

definition markAnnouncementsRead :: "jstring list \<Rightarrow> notification_store \<Rightarrow> notification_store" where
  "markAnnouncementsRead ks st = st\<lparr>readAnnouncementKeys := uniq (readAnnouncementKeys st @ ks)\<rparr>"

definition setClosedUntilDate :: "jstring option \<Rightarrow> notification_store \<Rightarrow> notification_store" where
  "setClosedUntilDate date st = st\<lparr>closedUntilDate := date\<rparr>"

definition isAnnouncementRead :: "notification_store \<Rightarrow> jstring \<Rightarrow> bool" where
  "isAnnouncementRead st k \<longleftrightarrow> k \<in> set (readAnnouncementKeys st)"

definition isNoticeClosed :: "jstring \<Rightarrow> notification_store \<Rightarrow> bool" where
  "isNoticeClosed today st =
     (case closedUntilDate st of None \<Rightarrow> False | Some d \<Rightarrow> if d = [] then False else d = today)"

section \<open>The hook\<close>

datatype tab = NoticeTab | AnnouncementsTab

record center =
  store :: notification_store
  popoverOpen :: bool
  activeTab :: tab

text \<open>What the server sends: the answer to the notice request, if any, and the status; its data is a string and
  its announcements an array.\<close>

record feed =
  noticeResponse :: jval
  status :: jval

definition noticeContent :: "feed \<Rightarrow> jstring" where
  "noticeContent f =
     (if truthy (jprop (lit ''success'') (noticeResponse f))
      then (case jor (jprop (lit ''data'') (noticeResponse f)) (JStr []) of JStr s \<Rightarrow> trim s | _ \<Rightarrow> []) else [])"

definition announcements :: "feed \<Rightarrow> jval list" where
  "announcements f =
     (if truthy (jcoalesce (jprop (lit ''announcements_enabled'') (status f)) (JBool False))
      then (case jor (jprop (lit ''announcements'') (status f)) (JArr []) of JArr vs \<Rightarrow> take 20 vs | _ \<Rightarrow> [])
      else [])"

text \<open>The keys of the announcements shown; \<open>None\<close> when computing one of them throws.\<close>

definition announcement_keys :: "feed \<Rightarrow> jstring list option" where
  "announcement_keys f =
     (let ks = map getAnnouncementKey (announcements f) in if None \<in> set ks then None else Some (map the ks))"

record unread =
  unread_notice :: nat
  unread_announcements :: nat
  unread_total :: nat

definition unreadCounts :: "feed \<Rightarrow> notification_store \<Rightarrow> unread option" where
  "unreadCounts f st =
     map_option (\<lambda>ks.
       let n = (if noticeContent f \<noteq> [] \<and> noticeContent f \<noteq> lastReadNotice st then 1 else 0);
           a = length (filter (\<lambda>k. \<not> isAnnouncementRead st k) ks) in
       \<lparr>unread_notice = n, unread_announcements = a, unread_total = n + a\<rparr>) (announcement_keys f)"

definition markAnnouncementsAsRead :: "feed \<Rightarrow> notification_store \<Rightarrow> notification_store option" where
  "markAnnouncementsAsRead f st =
     (if announcements f = [] then Some st
      else map_option (\<lambda>ks. markAnnouncementsRead ks st) (announcement_keys f))"

definition handleOpenPopover :: "feed \<Rightarrow> tab option \<Rightarrow> center \<Rightarrow> center option" where
  "handleOpenPopover f t c =
     (let nextTab = (case t of Some x \<Rightarrow> x | None \<Rightarrow> activeTab c);
          st = (if noticeContent f \<noteq> [] then markNoticeRead (noticeContent f) (store c) else store c) in
      map_option (\<lambda>st. c\<lparr>store := st, activeTab := nextTab, popoverOpen := True\<rparr>)
        (if nextTab = AnnouncementsTab then markAnnouncementsAsRead f st else Some st))"

definition handlePopoverOpenChange :: "feed \<Rightarrow> bool \<Rightarrow> center \<Rightarrow> center option" where
  "handlePopoverOpenChange f opn c =
     (if opn then handleOpenPopover f (Some (activeTab c)) c else Some (c\<lparr>popoverOpen := False\<rparr>))"

definition handleTabChange :: "feed \<Rightarrow> tab \<Rightarrow> center \<Rightarrow> center option" where
  "handleTabChange f t c =
     (let c = c\<lparr>activeTab := t\<rparr> in
      if t = AnnouncementsTab then map_option (\<lambda>st. c\<lparr>store := st\<rparr>) (markAnnouncementsAsRead f (store c)) else Some c)"

section \<open>The hash\<close>

text \<open>The specification: the polynomial hash with factor 31 on 32-bit words.\<close>

definition poly_hash :: "jstring \<Rightarrow> 32 word" where
  "poly_hash s = foldl (\<lambda>w c. 31 * w + of_nat c) 0 s"

lemma hash_char_word:
  assumes "c < 65536"
  shows "hash_char (jint (sint (w :: 32 word))) c = jint (sint (31 * w + of_nat c))"
proof -
  let ?s = "sint (push_bit 5 w)"
  have b: "\<bar>?s - sint w\<bar> < 2 ^ 53" "\<bar>?s - sint w + int c\<bar> < 2 ^ 53"
    using sint32_bounds [of w] sint32_bounds [of "push_bit 5 w"] assms by auto
  have "jsub (jint ?s) (jint (sint w)) = jint (?s - sint w)"
    using jadd_int [of ?s "- sint w"] b(1) by (simp add: jsub_def)
  moreover have "jadd (jint (?s - sint w)) (Fin (of_nat c)) = jint (?s - sint w + int c)"
    using jadd_int [of "?s - sint w" "int c"] b(2) by simp
  moreover have "word_of_int (?s - sint w + int c) = 31 * w + of_nat c"
    by (simp add: push_bit_eq_mult algebra_simps)
  ultimately show ?thesis
    by (simp only: hash_char_def jor0_def toInt32_def jshl_def word32_jint word_of_int_word)
qed

lemma foldl_hash_char:
  "list_all (\<lambda>c. c < 65536) s \<Longrightarrow>
   foldl hash_char (jint (sint w)) s = jint (sint (foldl (\<lambda>w c. 31 * w + of_nat c) (w :: 32 word) s))"
  by (induction s arbitrary: w) (simp_all add: hash_char_word del: of_int_add)

lemma hashString_poly:
  assumes "unit_str s"
  shows "hashString s = int_radix36 (sint (poly_hash s))"
proof (cases "s = []")
  case True
  then show ?thesis by (simp add: hashString_def poly_hash_def) code_simp
next
  case False
  have "foldl hash_char (jint (sint (0 :: 32 word))) s = jint (sint (poly_hash s))"
    using foldl_hash_char [of s 0] assms by (simp add: unit_str_def poly_hash_def)
  then show ?thesis using False by (simp add: hashString_def)
qed

definition digit_val :: "nat \<Rightarrow> nat" where
  "digit_val c = (if c < 58 then c - 48 else c - 87)"

lemma radix_digits_val:
  "n \<le> f \<Longrightarrow> 2 \<le> b \<Longrightarrow> foldl (\<lambda>a c. b * a + digit_val c) 0 (radix_digits b (Suc f) n) = n"
proof (induction f arbitrary: n)
  case (Suc f)
  have d: "digit_val (if n mod b < 10 then 48 + n mod b else 87 + n mod b) = n mod b" by (simp add: digit_val_def)
  show ?case
  proof (cases "n < b")
    case False
    with Suc.prems have "n div b < n" by (intro div_less_dividend) auto
    then have "n div b \<le> f" using Suc.prems(1) by linarith
    from Suc.IH [OF this Suc.prems(2)] show ?thesis using False d by (simp add: Let_def)
  qed (simp add: Let_def digit_val_def)
qed (simp add: Let_def digit_val_def)

lemma radix_digits_no_sign: "c \<in> set (radix_digits b f n) \<Longrightarrow> 48 \<le> c"
  by (induction b f n rule: radix_digits.induct) (auto simp: Let_def split: if_splits)

lemma radix_digits_hd: "radix_digits b (Suc f) n \<noteq> []"
  by (simp add: Let_def)

lemma int_radix36_inj: "int_radix36 i = int_radix36 j \<longleftrightarrow> i = j"
proof
  assume eq: "int_radix36 i = int_radix36 j"
  define val where "val = foldl (\<lambda>a c. 36 * a + digit_val c) (0 :: nat)"
  have v: "val (radix_digits 36 (Suc n) n) = n" for n unfolding val_def by (rule radix_digits_val) simp_all
  have hd: "hd (radix_digits 36 (Suc n) n) \<noteq> 45" for n
    using radix_digits_no_sign [of "hd (radix_digits 36 (Suc n) n)" 36 "Suc n" n] hd_in_set [OF radix_digits_hd [of 36 n n]]
    by auto
  have sgn: "i < 0 \<longleftrightarrow> j < 0"
    using arg_cong [OF eq, of hd] hd [of "nat i"] hd [of "nat j"] by (auto simp: int_radix36_def split: if_splits)
  show "i = j"
  proof (cases "i < 0")
    case True
    then have "val (radix_digits 36 (Suc (nat (- i))) (nat (- i))) = val (radix_digits 36 (Suc (nat (- j))) (nat (- j)))"
      using eq sgn by (simp add: int_radix36_def del: radix_digits.simps)
    then show ?thesis using True sgn by (simp add: v del: radix_digits.simps)
  next
    case False
    then have "val (radix_digits 36 (Suc (nat i)) (nat i)) = val (radix_digits 36 (Suc (nat j)) (nat j))"
      using eq sgn by (simp add: int_radix36_def del: radix_digits.simps)
    then show ?thesis using False sgn by (simp add: v del: radix_digits.simps)
  qed
qed simp

text \<open>Announcements without an id are told apart by their contents up to a 32-bit hash: two of them have the
  same key exactly when the polynomial hashes, with factor 31 modulo $2^{32}$, of their fingerprints agree;
  the shifts and sums in doubles lose nothing.\<close>

lemma announcement_key_hash:
  assumes "truthy i" "truthy j" and "nullish (jprop (lit ''id'') i)" "nullish (jprop (lit ''id'') j)"
    and "fingerprint i = Some s" "fingerprint j = Some t" and "unit_str s" "unit_str t"
  shows "getAnnouncementKey i = getAnnouncementKey j \<longleftrightarrow> poly_hash s = poly_hash t"
proof -
  have "getAnnouncementKey i = Some (lit ''hash:'' @ int_radix36 (sint (poly_hash s)))"
    unfolding getAnnouncementKey_def hashString_poly [OF assms(7), symmetric] using assms(1,3,5) by (simp del: list.map)
  moreover have "getAnnouncementKey j = Some (lit ''hash:'' @ int_radix36 (sint (poly_hash t)))"
    unfolding getAnnouncementKey_def hashString_poly [OF assms(8), symmetric] using assms(2,4,6) by (simp del: list.map)
  moreover have "sint (poly_hash s) = sint (poly_hash t) \<longleftrightarrow> poly_hash s = poly_hash t"
    by (metis word_of_int_word(2))
  ultimately show ?thesis by (simp add: int_radix36_inj del: list.map)
qed

definition sample_item :: "string \<Rightarrow> jval" where
  "sample_item c = JObj [(lit ''content'', JStr (lit c))]"

lemma announcement_key_hash_witness:
  "getAnnouncementKey (sample_item ''a'') \<noteq> getAnnouncementKey (sample_item ''b'')"
proof -
  have t: "truthy (sample_item c)" for c by (simp add: sample_item_def)
  have n: "nullish (jprop (lit ''id'') (sample_item c))" for c
    by (simp add: sample_item_def jprop_def obj_get_def nullish_def)
  obtain s u where s: "fingerprint (sample_item ''a'') = Some s" and u: "fingerprint (sample_item ''b'') = Some u"
    and su: "unit_str s" "unit_str u" "poly_hash s \<noteq> poly_hash u"
  proof -
    let ?s = "the (fingerprint (sample_item ''a''))" and ?u = "the (fingerprint (sample_item ''b''))"
    have "fingerprint (sample_item ''a'') \<noteq> None" "fingerprint (sample_item ''b'') \<noteq> None" by code_simp+
    then have "fingerprint (sample_item ''a'') = Some ?s" "fingerprint (sample_item ''b'') = Some ?u" by auto
    moreover have "unit_str ?s" "unit_str ?u" "poly_hash ?s \<noteq> poly_hash ?u" by code_simp+
    ultimately show thesis by (rule that)
  qed
  from announcement_key_hash [OF t t n n s u su(1,2)] su(3) show ?thesis by simp
qed

section \<open>Read marks\<close>

text \<open>Opening the centre on the announcements leaves nothing unread: when the keys of the announcements can
  be computed the popover opens and all counts are zero.\<close>

lemma open_reads_everything:
  assumes "announcement_keys f = Some ks"
  shows "\<exists>c'. handleOpenPopover f (Some AnnouncementsTab) c = Some c' \<and> popoverOpen c' \<and> activeTab c' = AnnouncementsTab \<and>
    unreadCounts f (store c') = Some \<lparr>unread_notice = 0, unread_announcements = 0, unread_total = 0\<rparr>"
proof -
  have nt: "trim (noticeContent f) = noticeContent f"
    by (auto simp: noticeContent_def trim_trimmed split: jval.splits)
  have "filter (\<lambda>k. \<not> isAnnouncementRead (markAnnouncementsRead ks st) k) ks = []" for st
    by (simp add: filter_empty_conv isAnnouncementRead_def markAnnouncementsRead_def)
  moreover have "ks = []" if "announcements f = []"
    using that assms by (simp add: announcement_keys_def)
  ultimately show ?thesis
    using assms nt by (auto simp: handleOpenPopover_def markAnnouncementsAsRead_def unreadCounts_def markNoticeRead_def
      markAnnouncementsRead_def Let_def)
qed

lemma open_reads_everything_witness:
  "\<exists>c'. handleOpenPopover \<lparr>noticeResponse = JUndef, status = JObj [(lit ''announcements_enabled'', JBool True),
      (lit ''announcements'', JArr [JObj [(lit ''id'', JNum (Fin 4))]])]\<rparr> (Some AnnouncementsTab)
      \<lparr>store = initial_store, popoverOpen = False, activeTab = NoticeTab\<rparr> = Some c' \<and> popoverOpen c'"
proof -
  let ?f = "\<lparr>noticeResponse = JUndef, status = JObj [(lit ''announcements_enabled'', JBool True),
      (lit ''announcements'', JArr [JObj [(lit ''id'', JNum (Fin 4))]])]\<rparr>"
  have "announcement_keys ?f = Some [lit ''id:4'']" by code_simp
  from open_reads_everything [OF this] show ?thesis by blast
qed

text \<open>No operation forgets a read announcement, and the stored keys stay without duplicates.\<close>

datatype center_event =
    OpenPopover feed "tab option"
  | OpenChange feed bool
  | TabChange feed tab
  | CloseToday "jstring option"

fun center_step :: "center_event \<Rightarrow> center \<Rightarrow> center option" where
  "center_step (OpenPopover f t) c = handleOpenPopover f t c"
| "center_step (OpenChange f b) c = handlePopoverOpenChange f b c"
| "center_step (TabChange f t) c = handleTabChange f t c"
| "center_step (CloseToday d) c = Some (c\<lparr>store := setClosedUntilDate d (store c)\<rparr>)"

fun center_run :: "center_event list \<Rightarrow> center \<Rightarrow> center option" where
  "center_run [] c = Some c"
| "center_run (e # es) c = Option.bind (center_step e c) (center_run es)"

definition keeps_read :: "center \<Rightarrow> center \<Rightarrow> bool" where
  "keeps_read c c' \<longleftrightarrow>
     set (readAnnouncementKeys (store c)) \<subseteq> set (readAnnouncementKeys (store c')) \<and>
     (distinct (readAnnouncementKeys (store c)) \<longrightarrow> distinct (readAnnouncementKeys (store c')))"

lemma keeps_read_open: "handleOpenPopover f t c = Some c' \<Longrightarrow> keeps_read c c'"
  by (auto simp: keeps_read_def handleOpenPopover_def markAnnouncementsAsRead_def markAnnouncementsRead_def markNoticeRead_def
      Let_def split: if_splits)

lemma keeps_read_step: "center_step e c = Some c' \<Longrightarrow> keeps_read c c'"
proof (cases e)
  case (TabChange f t)
  then show "center_step e c = Some c' \<Longrightarrow> keeps_read c c'"
    by (auto simp: keeps_read_def handleTabChange_def markAnnouncementsAsRead_def markAnnouncementsRead_def Let_def split: if_splits)
next
  case (OpenChange f b)
  then show "center_step e c = Some c' \<Longrightarrow> keeps_read c c'"
    by (auto simp: handlePopoverOpenChange_def intro: keeps_read_open split: if_splits) (auto simp: keeps_read_def)
next
  case (CloseToday d)
  then show "center_step e c = Some c' \<Longrightarrow> keeps_read c c'" by (auto simp: keeps_read_def setClosedUntilDate_def)
qed (auto intro: keeps_read_open)

lemma keeps_read_run: "center_run es c = Some c' \<Longrightarrow> keeps_read c c'"
proof (induction es arbitrary: c)
  case (Cons e es)
  then obtain c1 where "center_step e c = Some c1" "center_run es c1 = Some c'" by (auto simp: bind_eq_Some_conv)
  then have "keeps_read c c1" "keeps_read c1 c'" using Cons.IH keeps_read_step by blast+
  then show ?case by (auto simp: keeps_read_def)
qed (simp add: keeps_read_def)

end
