(* ===== verification/Tier_Expr.thy ===== *)
theory Tier_Expr
  imports Billing_Expr_Match
begin

text \<open>
  The visual editor of tiered prices (\<^verbatim>\<open>features/pricing/lib/tier-expr.ts\<close>): tiers with their defaults, the
  printer of a billing expression and the parser that opens an expression in the editor. The local
  evaluation of an expression runs it as JavaScript and is not modelled.

  A tier is an object of which the editor may hold only a part, so it is a property list; a
  configuration is the list of its tiers, \<open>None\<close> when there is none.
\<close>

definition CACHE_MODE_TIMED :: jval where "CACHE_MODE_TIMED = JStr (lit ''timed'')"
definition CACHE_MODE_GENERIC :: jval where "CACHE_MODE_GENERIC = JStr (lit ''generic'')"

section \<open>Tiers and configurations\<close>

definition getTierCacheMode :: "obj \<Rightarrow> jval" where
  "getTierCacheMode tier =
     (if get tier ''cache_mode'' = CACHE_MODE_TIMED then CACHE_MODE_TIMED
      else if get tier ''cache_mode'' = CACHE_MODE_GENERIC then CACHE_MODE_GENERIC
      else if jlt (Fin 0) (num_of (get tier ''cache_create_1h_unit_cost'')) then CACHE_MODE_TIMED
      else CACHE_MODE_GENERIC)"

definition cost_of :: "jval \<Rightarrow> jval" where
  "cost_of v = JNum (or_zero (num_of v))"

definition normalizeVisualTier :: "obj \<Rightarrow> obj" where
  "normalizeVisualTier tier =
     (let base = obj_lit
            [(''label'', jcoalesce (get tier ''label'') (JStr [])),
             (''input_unit_cost'', cost_of (get tier ''input_unit_cost'')),
             (''output_unit_cost'', cost_of (get tier ''output_unit_cost'')),
             (''cache_mode'', getTierCacheMode tier),
             (''conditions'', if is_array (get tier ''conditions'') then get tier ''conditions'' else JArr [])];
          spread = obj_build base tier in
      obj_build spread (map (\<lambda>k. (lit k, cost_of (get tier k)))
        [''cache_read_unit_cost'', ''cache_create_unit_cost'', ''cache_create_1h_unit_cost'', ''image_unit_cost'',
         ''image_output_unit_cost'', ''audio_input_unit_cost'', ''audio_output_unit_cost'']))"

type_synonym visual_config = "obj list"

definition createDefaultVisualConfig :: visual_config where
  "createDefaultVisualConfig =
     [normalizeVisualTier (obj_lit
        [(''conditions'', JArr []), (''input_unit_cost'', JNum (Fin 0)), (''output_unit_cost'', JNum (Fin 0)),
         (''label'', JStr (lit ''base'')), (''cache_mode'', CACHE_MODE_GENERIC)])]"

definition normalizeVisualConfig :: "visual_config option \<Rightarrow> visual_config" where
  "normalizeVisualConfig config =
     (case config of
        None \<Rightarrow> createDefaultVisualConfig
      | Some tiers \<Rightarrow> if tiers = [] then createDefaultVisualConfig else map normalizeVisualTier tiers)"

section \<open>Printing\<close>

definition conditions_of :: "obj \<Rightarrow> jval list" where
  "conditions_of tier = (case get tier ''conditions'' of JArr vs \<Rightarrow> vs | _ \<Rightarrow> [])"

definition buildConditionStr :: "jval list \<Rightarrow> jstring" where
  "buildConditionStr conds =
     (if conds = [] then []
      else join (lit '' && '')
        (map (\<lambda>c. str_of (jprop (lit ''var'') c) @ lit '' '' @ str_of (jprop (lit ''op'') c) @ lit '' '' @ str_of (jprop (lit ''value'') c))
          (filter (\<lambda>c. truthy (jprop (lit ''var'') c) \<and> truthy (jprop (lit ''op'') c) \<and>
                       \<not> nullish (jprop (lit ''value'') c) \<and> jprop (lit ''value'') c \<noteq> JStr []) conds)))"

definition price_part :: "jstring \<Rightarrow> jsnum \<Rightarrow> jstring" where
  "price_part v x = v @ lit '' * '' @ num_str x"

definition buildTierBodyExpr :: "obj \<Rightarrow> jstring" where
  "buildTierBodyExpr tier =
     (let ic = or_zero (num_of (get tier ''input_unit_cost''));
          oc = or_zero (num_of (get tier ''output_unit_cost''));
          extra = filter (\<lambda>(_, x). \<not> jeq x (Fin 0))
            (map (\<lambda>(f, v). (v, or_zero (num_of (obj_get f tier)))) BILLING_CACHE_VAR_MAP) in
      join (lit '' + '') (price_part (lit ''p'') ic # price_part (lit ''c'') oc # map (\<lambda>(v, x). price_part v x) extra))"

definition tier_call :: "jstring \<Rightarrow> obj \<Rightarrow> jstring" where
  "tier_call lb tier = lit ''tier('' @ [34] @ lb @ [34] @ lit '', '' @ buildTierBodyExpr tier @ lit '')''"

text \<open>The label of a tier, which the code takes as a string, with its fallback.\<close>

definition label_or :: "obj \<Rightarrow> jstring \<Rightarrow> jstring" where
  "label_or tier d = str_of (jor (get tier ''label'') (JStr d))"

definition tier_text :: "nat \<Rightarrow> nat \<Rightarrow> obj \<Rightarrow> jstring" where
  "tier_text n i tier =
     (let body = tier_call (label_or tier (lit ''tier_'' @ nat_str (i + 1))) tier;
          cond = buildConditionStr (conditions_of tier) in
      if i + 1 < n \<and> cond \<noteq> [] then cond @ lit '' ? '' @ body else body)"

definition generateExprFromVisualConfig :: "visual_config option \<Rightarrow> jstring" where
  "generateExprFromVisualConfig config =
     (case config of
        None \<Rightarrow> lit ''p * 0 + c * 0''
      | Some [] \<Rightarrow> lit ''p * 0 + c * 0''
      | Some [tier] \<Rightarrow>
          (let body = tier_call (label_or tier (lit ''default'')) tier;
               cond = buildConditionStr (conditions_of tier) in
           if cond \<noteq> [] then cond @ lit '' ? '' @ body @ lit '' : p * 0 + c * 0'' else body)
      | Some tiers \<Rightarrow> join (lit '' : '') (map (\<lambda>(i, tier). tier_text (length tiers) i tier) (enumerate 0 tiers)))"

section \<open>Parsing\<close>

definition re_ver :: re where
  "re_ver = cat [Bol, chr 118, many1 (Cls is_digit), chr 58, Grp 1 (Star (Cls (\<lambda>_. True))), Eol]"

text \<open>\<open>term_re v n\<close>: the price of the variable \<open>v\<close>, in group \<open>n\<close>; \<open>extra_res\<close>: the optional prices.\<close>

definition term_re :: "jstring \<Rightarrow> nat \<Rightarrow> re list" where
  "term_re v n = [str v, sp, chr 42, sp, Grp n (many1 (Cls num_char))]"

definition plus_re :: "re list" where
  "plus_re = [sp, chr 43, sp]"

fun extra_res :: "jstring list \<Rightarrow> nat \<Rightarrow> re list" where
  "extra_res [] n = []"
| "extra_res (v # vs) n = opt (cat (plus_re @ term_re v n)) # extra_res vs (Suc n)"

definition body_re :: "nat \<Rightarrow> re list" where
  "body_re n =
     term_re (lit ''p'') n @ plus_re @ term_re (lit ''c'') (n + 1) @ extra_res (map snd BILLING_CACHE_VAR_MAP) (n + 2)"

definition tier_open :: "nat \<Rightarrow> re list" where
  \<open>tier_open n = [str (lit ''tier("''), Grp n (Star (Cls not_quote)), str (lit ''",''), sp]\<close>

definition singleRe :: re where
  "singleRe = cat (Bol # tier_open 1 @ body_re 2 @ [chr 41, Eol])"

definition tierRe :: re where
  "tierRe = cat (opt (cat [condGroup, sp, chr 63, sp]) # tier_open 2 @ body_re 3 @ [chr 41])"

definition extra_costs :: "(nat \<Rightarrow> jstring option) \<Rightarrow> nat \<Rightarrow> obj \<Rightarrow> obj" where
  "extra_costs m n tier =
     foldl (\<lambda>t (i, f, _). case m (n + i) of None \<Rightarrow> t | Some val \<Rightarrow> obj_put f (JNum (js_Number val)) t) tier
       (enumerate 0 BILLING_CACHE_VAR_MAP)"

definition condition_obj :: "tier_condition \<Rightarrow> jval" where
  "condition_obj c = JObj (obj_lit [(''var'', JStr (tc_var c)), (''op'', JStr (tc_op c)), (''value'', JNum (tc_value c))])"

definition match_tier :: "(nat \<Rightarrow> jstring option) \<Rightarrow> nat \<Rightarrow> jval list \<Rightarrow> obj" where
  "match_tier m n conds =
     extra_costs m (n + 3) (obj_lit
       [(''conditions'', JArr conds), (''input_unit_cost'', JNum (js_Number (cap m (n + 1)))),
        (''output_unit_cost'', JNum (js_Number (cap m (n + 2)))), (''label'', JStr (cap m n))])"

definition strip_ws :: "jstring \<Rightarrow> jstring" where
  "strip_ws s = filter (\<lambda>c. \<not> is_ws c) s"

definition strip_version :: "jstring \<Rightarrow> jstring" where
  "strip_version exprStr = (case re_match re_ver exprStr of Some m \<Rightarrow> cap m 1 | None \<Rightarrow> exprStr)"

definition tryParseVisualConfig :: "jstring \<Rightarrow> visual_config option" where
  "tryParseVisualConfig exprStr =
     (if exprStr = [] then None
      else
        let body = strip_version exprStr in
        case re_match singleRe body of
          Some simple \<Rightarrow> Some (normalizeVisualConfig (Some [normalizeVisualTier (match_tier simple 1 [])]))
        | None \<Rightarrow>
            (let tiers = map (\<lambda>m. normalizeVisualTier (match_tier m 2 (map condition_obj (parse_conditions (cap m 1)))))
                   (exec_all tierRe None body) in
             if tiers = [] then None
             else
               let cfg = normalizeVisualConfig (Some tiers) in
               if strip_ws (generateExprFromVisualConfig (Some cfg)) \<noteq> strip_ws body then None else Some cfg))"

definition ESTIMATOR_VARS :: "(string \<times> string) list" where
  "ESTIMATOR_VARS =
     [(''cr'', ''cacheReadTokens''), (''cc'', ''cacheCreateTokens''), (''cc1h'', ''cacheCreate1hTokens''),
      (''img'', ''imageTokens''), (''img_o'', ''imageOutputTokens''), (''ai'', ''audioInputTokens''), (''ao'', ''audioOutputTokens'')]"

definition exprUsesExtraVars :: "jstring \<Rightarrow> bool" where
  "exprUsesExtraVars exprStr \<longleftrightarrow>
     exprStr \<noteq> [] \<and> re_test (cat [Wordb, Grp 1 (words (map fst ESTIMATOR_VARS)), Wordb]) exprStr"

section \<open>Matching the pieces of a tier\<close>

lemma chr_then: "mt (Seq (chr c) r) (pv, c # s, caps) = mt r (Some c, s, caps)"
  by (simp add: chr_def)

lemma chr_fail: "s = [] \<or> hd s \<noteq> c \<Longrightarrow> mt (Seq (chr c) r) (pv, s, caps) = []"
  by (cases s) (auto simp: chr_def)

lemma sp_none: "s = [] \<or> \<not> is_ws (hd s) \<Longrightarrow> mt (Seq sp r) (pv, s, caps) = mt r (pv, s, caps)"
  using star_cls_then [of is_ws "[]" s "mt r" pv caps] by (simp add: sp_def)

lemma is_ws_space [simp]: "is_ws 32"
  by (simp add: is_ws_def)

lemma sp_one:
  assumes "s = [] \<or> \<not> is_ws (hd s)" and "mt r (pv, 32 # s, caps) = []"
  shows "mt (Seq sp r) (pv, 32 # s, caps) = mt r (Some 32, s, caps)"
  using star_cls_then [of is_ws "[32]" s "mt r" pv caps] assms by (simp add: sp_def adv_def)

definition dd :: "nat \<Rightarrow> bool" where
  "dd c \<longleftrightarrow> is_digit c \<or> c = 46"

lemma dd_num: "dd c \<Longrightarrow> num_char c" and dd_ws: "dd c \<Longrightarrow> \<not> is_ws c" and dd_chars: "dd c \<Longrightarrow> c \<noteq> 43 \<and> c \<noteq> 41 \<and> c \<noteq> 32"
  by (auto simp: dd_def num_char_def is_digit_def is_ws_def)

text \<open>A decimal text: the continuation of the pattern fails inside it.\<close>

lemma decimal_then:
  assumes "list_all dd w" and "w \<noteq> []" and "s = [] \<or> \<not> num_char (hd s)"
    and "\<And>pv c t caps. dd c \<Longrightarrow> mt r (pv, c # t, caps) = []"
  shows "mt (Seq (Grp n (many1 (Cls num_char))) r) (pv, w @ s, caps) = mt r (adv pv w, s, (n, w) # caps)"
proof -
  let ?f = "\<lambda>st. mt r (close_group n (w @ s) st)"
  have "mt (Seq (Grp n (many1 (Cls num_char))) r) (pv, w @ s, caps) =
      concat (map ?f (mt (many1 (Cls num_char)) (pv, w @ s, caps)))"
    by (simp add: comp_def)
  also have "\<dots> = ?f (adv pv w, s, caps)"
  proof (rule many1_cls_then)
    fix k assume "0 < k" "k < length w"
    then obtain c t where d: "drop k w = c # t" by (metis Cons_nth_drop_Suc)
    then have "dd c" using assms(1) by (metis in_set_dropD list.set_intros(1) list_all_iff)
    with d assms(4) show "?f (adv pv (take k w), drop k w @ s, caps) = []" by simp
  qed (use assms dd_num in \<open>auto simp: list_all_iff\<close>)
  finally show ?thesis by simp
qed

definition term_text :: "jstring \<Rightarrow> jstring \<Rightarrow> jstring" where
  "term_text v w = v @ 32 # 42 # 32 # w"

lemma term_cat: "cat (term_re v n @ rs) = Seq (str v) (Seq sp (Seq (chr 42) (Seq sp (Seq (Grp n (many1 (Cls num_char))) (cat rs)))))"
  by (simp add: term_re_def)

lemma plus_cat: "cat (plus_re @ rs) = Seq sp (Seq (chr 43) (Seq sp (cat rs)))"
  by (simp add: plus_re_def)

lemma num_group_fail: "s = [] \<or> \<not> num_char (hd s) \<Longrightarrow> mt (Seq (Grp n (many1 (Cls num_char))) r) (pv, s, caps) = []"
  by (cases s) (auto simp: many1_def)

lemma term_match:
  assumes "list_all dd w" and "w \<noteq> []" and "s = [] \<or> \<not> num_char (hd s)"
    and "\<And>pv c t caps. dd c \<Longrightarrow> mt (cat rs) (pv, c # t, caps) = []"
  shows "\<exists>pv'. mt (cat (term_re v n @ rs)) (pv, term_text v w @ s, caps) = mt (cat rs) (pv', s, (n, w) # caps)"
proof -
  have hw: "\<not> is_ws (hd (w @ s))" "w @ s \<noteq> []" using assms(1,2) dd_ws by (cases w; auto)+
  let ?num = "Seq (Grp n (many1 (Cls num_char))) (cat rs)"
  have 1: "mt (Seq sp ?num) (pv', 32 # w @ s, caps) = mt ?num (Some 32, w @ s, caps)" for pv'
    using hw by (intro sp_one) (simp_all add: num_group_fail num_char_def is_digit_def del: mt.simps)
  have 2: "mt (Seq sp (Seq (chr 42) (Seq sp ?num))) (pv', 32 # 42 # 32 # w @ s, caps) =
      mt (Seq (chr 42) (Seq sp ?num)) (Some 32, 42 # 32 # w @ s, caps)" for pv'
    by (intro sp_one chr_fail) (simp_all add: is_ws_def)
  have "term_text v w @ s = v @ 32 # 42 # 32 # w @ s" by (simp add: term_text_def)
  then have "mt (cat (term_re v n @ rs)) (pv, term_text v w @ s, caps) = mt ?num (Some 32, w @ s, caps)"
    unfolding term_cat by (simp only: seq_str 2 chr_then 1)
  also have "\<dots> = mt (cat rs) (adv (Some 32) w, s, (n, w) # caps)" by (rule decimal_then [OF assms])
  finally show ?thesis by blast
qed

lemma plus_match:
  assumes "s \<noteq> []" and "\<not> is_ws (hd s)" and "\<And>pv. mt (cat rs) (pv, 32 # s, caps) = []"
  shows "mt (cat (plus_re @ rs)) (pv, 32 # 43 # 32 # s, caps) = mt (cat rs) (Some 32, s, caps)"
proof -
  have "mt (Seq sp (cat rs)) (Some 43, 32 # s, caps) = mt (cat rs) (Some 32, s, caps)"
    using assms by (intro sp_one) auto
  moreover have "mt (Seq sp (Seq (chr 43) (Seq sp (cat rs)))) (pv, 32 # 43 # 32 # s, caps) =
      mt (Seq (chr 43) (Seq sp (cat rs))) (Some 32, 43 # 32 # s, caps)"
    by (intro sp_one chr_fail) (simp_all add: is_ws_def)
  ultimately show ?thesis unfolding plus_cat by (simp only: chr_then)
qed

lemma plus_fail: "\<not> is_ws c \<Longrightarrow> c \<noteq> 43 \<Longrightarrow> mt (cat (plus_re @ rs)) (pv, c # s, caps) = []"
  unfolding plus_cat using chr_fail [of "c # s" 43] sp_none [of "c # s"] by (simp del: mt.simps)

text \<open>Variables are words, so a variable does not match the text of another one.\<close>

definition var_name :: "jstring \<Rightarrow> bool" where
  "var_name v \<longleftrightarrow> v \<noteq> [] \<and> list_all is_word v"

lemma is_word_chars: "is_word c \<Longrightarrow> \<not> is_ws c \<and> c \<noteq> 42 \<and> c \<noteq> 32 \<and> c \<noteq> 41"
  by (auto simp: is_word_def is_ws_def)

lemma var_hd: "var_name v \<Longrightarrow> v @ s \<noteq> [] \<and> is_word (hd (v @ s))"
  by (cases v) (auto simp: var_name_def)

lemma term_space_fail: "var_name v \<Longrightarrow> mt (cat (term_re v n @ rs)) (pv, 32 # s, caps) = []"
  unfolding term_cat by (rule seq_str_fail) (auto simp: var_name_def starts_with_iff Cons_eq_append_conv is_word_def)

lemma term_other_fail:
  assumes "var_name v" and "var_name u" and "v \<noteq> u"
  shows "mt (cat (term_re v n @ rs)) (pv, u @ 32 # s, caps) = []"
proof (cases "starts_with (u @ 32 # s) v")
  case True
  then obtain r where r: "u @ 32 # s = v @ r" by (auto simp: starts_with_iff)
  have "takeWhile is_word (u @ 32 # s) = u" using assms(2) by (simp add: var_name_def list_all_iff is_word_def)
  moreover have "takeWhile is_word (v @ r) = v @ takeWhile is_word r" using assms(1) by (simp add: var_name_def list_all_iff)
  ultimately have "takeWhile is_word r \<noteq> []" using assms(3) r by auto
  then have "is_word (hd r)" by (cases r) (auto split: if_splits)
  then have x: "\<not> is_ws (hd r)" "hd r \<noteq> 42" using is_word_chars by auto
  have "mt (cat (term_re v n @ rs)) (pv, u @ 32 # s, caps) =
      mt (Seq sp (Seq (chr 42) (Seq sp (Seq (Grp n (many1 (Cls num_char))) (cat rs))))) (adv pv v, r, caps)"
    by (simp only: term_cat r seq_str)
  also have "\<dots> = mt (Seq (chr 42) (Seq sp (Seq (Grp n (many1 (Cls num_char))) (cat rs)))) (adv pv v, r, caps)"
    using x(1) by (intro sp_none) blast
  also have "\<dots> = []" using x(2) by (intro chr_fail) blast
  finally show ?thesis .
qed (simp add: term_cat seq_str_fail del: mt.simps)

section \<open>The optional prices\<close>

text \<open>The text of the optional prices: \<open>pr\<close> gives the text of the price of a variable that has one.\<close>

definition extra_text :: "(jstring \<Rightarrow> jstring option) \<Rightarrow> jstring list \<Rightarrow> jstring" where
  "extra_text pr vs = concat (map (\<lambda>v. case pr v of None \<Rightarrow> [] | Some w \<Rightarrow> 32 # 43 # 32 # term_text v w) vs)"

lemma extra_text_Cons:
  "extra_text pr (v # vs) = (case pr v of None \<Rightarrow> [] | Some w \<Rightarrow> 32 # 43 # 32 # term_text v w) @ extra_text pr vs"
  by (simp add: extra_text_def)

lemma extra_text_head:
  "extra_text pr vs = [] \<or> (\<exists>v w t. v \<in> set vs \<and> pr v = Some w \<and> extra_text pr vs = 32 # 43 # 32 # v @ 32 # t)"
proof (induction vs)
  case (Cons v vs)
  then show ?case by (cases "pr v") (auto simp: extra_text_Cons term_text_def)
qed (simp add: extra_text_def)

definition close_re :: "re list" where
  "close_re = [chr 41, Eol]"

lemma extra_res_dd: "dd c \<Longrightarrow> mt (cat (extra_res vs n @ close_re)) (pv, c # t, caps) = []"
proof (induction vs arbitrary: n)
  case Nil
  then show ?case using dd_chars [of c] by (simp add: close_re_def chr_def)
next
  case (Cons v vs)
  have "mt (cat (plus_re @ term_re v n)) (pv, c # t, caps) = []"
    using plus_fail [of c "term_re v n" pv t caps] dd_ws dd_chars Cons.prems by simp
  then show ?case using Cons by (simp add: opt_def)
qed

lemma cat_append: "mt (cat (xs @ ys)) st = concat (map (mt (cat ys)) (mt (cat xs) st))"
proof (induction xs arbitrary: st)
  case (Cons x xs)
  have "concat (map (\<lambda>y. concat (map g (f y))) l) = concat (map g (concat (map f l)))" for f :: "rst \<Rightarrow> rst list" and g :: "rst \<Rightarrow> rst list" and l
    by (induction l) auto
  moreover have "mt (cat (xs @ ys)) = (\<lambda>y. concat (map (mt (cat ys)) (mt (cat xs) y)))" using Cons.IH by blast
  ultimately show ?case by simp
qed simp

lemma extra_step:
  "mt (cat (extra_res (v # vs) n @ rs)) st =
   mt (cat (plus_re @ term_re v n @ extra_res vs (Suc n) @ rs)) st @ mt (cat (extra_res vs (Suc n) @ rs)) st"
  using cat_append [of "plus_re @ term_re v n" "extra_res vs (Suc n) @ rs" st] by (simp add: opt_def)

lemma extra_absent:
  assumes "var_name v" and "\<forall>u \<in> set vs. var_name u" and "v \<notin> set vs"
  shows "mt (cat (plus_re @ term_re v n @ rs)) (pv, extra_text pr vs @ 41 # z, caps) = []"
  using extra_text_head [of pr vs]
proof
  assume "extra_text pr vs = []"
  then show ?thesis using plus_fail [of 41] by (simp add: is_ws_def del: cat.simps)
next
  assume "\<exists>u w t. u \<in> set vs \<and> pr u = Some w \<and> extra_text pr vs = 32 # 43 # 32 # u @ 32 # t"
  then obtain u t where u: "u \<in> set vs" and t: "extra_text pr vs = 32 # 43 # 32 # u @ 32 # t" by blast
  have vu: "var_name u" "v \<noteq> u" using assms u by auto
  have h: "u @ 32 # t @ 41 # z \<noteq> []" "\<not> is_ws (hd (u @ 32 # t @ 41 # z))"
    using var_hd [OF vu(1)] is_word_chars by blast+
  have "mt (cat (plus_re @ term_re v n @ rs)) (pv, 32 # 43 # 32 # u @ 32 # t @ 41 # z, caps) =
      mt (cat (term_re v n @ rs)) (Some 32, u @ 32 # t @ 41 # z, caps)"
    by (rule plus_match [OF h]) (rule term_space_fail [OF assms(1)])
  also have "\<dots> = []" by (rule term_other_fail [OF assms(1) vu])
  finally show ?thesis by (simp add: t)
qed

lemma extra_next_not_num: "\<not> num_char (hd (extra_text pr vs @ 41 # z))"
  using extra_text_head [of pr vs] by (auto simp: num_char_def is_digit_def)

text \<open>The captures after the optional prices from group \<open>n\<close> on.\<close>

definition caps_ok ::
  "(jstring \<Rightarrow> jstring option) \<Rightarrow> jstring list \<Rightarrow> nat \<Rightarrow> (nat \<times> jstring) list \<Rightarrow> (nat \<times> jstring) list \<Rightarrow> bool" where
  "caps_ok pr vs n caps caps' \<longleftrightarrow>
     (\<forall>i < length vs. map_of caps' (n + i) = (case pr (vs ! i) of None \<Rightarrow> map_of caps (n + i) | Some w \<Rightarrow> Some w)) \<and>
     (\<forall>k < n. map_of caps' k = map_of caps k)"

lemma caps_ok_Cons:
  assumes "caps_ok pr vs (Suc n) (case pr v of None \<Rightarrow> caps | Some w \<Rightarrow> (n, w) # caps) caps'"
  shows "caps_ok pr (v # vs) n caps caps'"
proof -
  let ?c = "case pr v of None \<Rightarrow> caps | Some w \<Rightarrow> (n, w) # caps"
  have low: "map_of caps' k = map_of ?c k" if "k < Suc n" for k using assms that by (auto simp: caps_ok_def)
  have other: "map_of ?c k = map_of caps k" if "k \<noteq> n" for k using that by (simp split: option.splits)
  have "map_of caps' (n + i) = (case pr ((v # vs) ! i) of None \<Rightarrow> map_of caps (n + i) | Some w \<Rightarrow> Some w)"
    if "i < length (v # vs)" for i
  proof (cases i)
    case 0
    then show ?thesis using low [of n] by (simp split: option.splits)
  next
    case (Suc j)
    then have "j < length vs" using that by simp
    then have "map_of caps' (Suc n + j) = (case pr (vs ! j) of None \<Rightarrow> map_of ?c (Suc n + j) | Some w \<Rightarrow> Some w)"
      using assms by (auto simp: caps_ok_def)
    then show ?thesis using other [of "Suc n + j"] Suc by (cases "pr (vs ! j)") simp_all
  qed
  moreover have "map_of caps' k = map_of caps k" if "k < n" for k using low [of k] other [of k] that by simp
  ultimately show ?thesis by (simp add: caps_ok_def)
qed

lemma extra_match:
  assumes "\<forall>v \<in> set vs. var_name v" and "distinct vs"
    and "\<forall>v \<in> set vs. \<forall>w. pr v = Some w \<longrightarrow> list_all dd w \<and> w \<noteq> []"
  shows "\<exists>pv' caps' rest. mt (cat (extra_res vs n @ close_re)) (pv, extra_text pr vs @ [41], caps) = (pv', [], caps') # rest \<and>
    caps_ok pr vs n caps caps'"
  using assms
proof (induction vs arbitrary: n pv caps)
  case Nil
  then show ?case by (simp add: extra_text_def close_re_def chr_def caps_ok_def)
next
  case (Cons v vs)
  let ?rs = "extra_res vs (Suc n) @ close_re" and ?t = "extra_text pr vs @ [41]"
  have vs: "\<forall>u \<in> set vs. var_name u" "distinct vs" "\<forall>u \<in> set vs. \<forall>w. pr u = Some w \<longrightarrow> list_all dd w \<and> w \<noteq> []"
    and v: "var_name v" "v \<notin> set vs" using Cons.prems by auto
  note IH = Cons.IH [OF vs]
  show ?case
  proof (cases "pr v")
    case None
    have e: "mt (cat (extra_res (v # vs) n @ close_re)) (pv, extra_text pr (v # vs) @ [41], caps) = mt (cat ?rs) (pv, ?t, caps)"
      unfolding extra_step using extra_absent [OF v(1) vs(1) v(2), of n ?rs pv pr "[]" caps] None
      by (simp add: extra_text_Cons del: cat.simps mt.simps)
    obtain pv' caps' rest where "mt (cat ?rs) (pv, ?t, caps) = (pv', [], caps') # rest" "caps_ok pr vs (Suc n) caps caps'"
      using IH [of "Suc n" pv caps] by blast
    then show ?thesis unfolding e using caps_ok_Cons [of pr vs n caps v caps'] None by auto
  next
    case (Some w)
    have w: "list_all dd w" "w \<noteq> []" using Cons.prems(3) Some by auto
    have h: "v @ 32 # 42 # 32 # w @ ?t \<noteq> []" "\<not> is_ws (hd (v @ 32 # 42 # 32 # w @ ?t))"
      using var_hd [OF v(1)] is_word_chars by blast+
    have "mt (cat (plus_re @ term_re v n @ ?rs)) (pv, 32 # 43 # 32 # v @ 32 # 42 # 32 # w @ ?t, caps) =
        mt (cat (term_re v n @ ?rs)) (Some 32, v @ 32 # 42 # 32 # w @ ?t, caps)"
      by (rule plus_match [OF h]) (rule term_space_fail [OF v(1)])
    moreover obtain pv1 where
      "mt (cat (term_re v n @ ?rs)) (Some 32, term_text v w @ ?t, caps) = mt (cat ?rs) (pv1, ?t, (n, w) # caps)"
      using term_match [OF w, of ?t ?rs v n "Some 32" caps] extra_next_not_num extra_res_dd by blast
    ultimately have m: "mt (cat (plus_re @ term_re v n @ ?rs)) (pv, extra_text pr (v # vs) @ [41], caps) =
        mt (cat ?rs) (pv1, ?t, (n, w) # caps)"
      using Some by (simp add: extra_text_Cons term_text_def del: cat.simps mt.simps)
    obtain pv' caps' rest where "mt (cat ?rs) (pv1, ?t, (n, w) # caps) = (pv', [], caps') # rest"
      "caps_ok pr vs (Suc n) ((n, w) # caps) caps'" using IH [of "Suc n" pv1 "(n, w) # caps"] by blast
    then show ?thesis unfolding extra_step m using caps_ok_Cons [of pr vs n caps v caps'] Some by auto
  qed
qed

section \<open>A single tier\<close>

lemma label_then:
  assumes "34 \<notin> set w"
  shows "mt (Seq (Grp n (Star (Cls not_quote))) (Seq (str (34 # u)) r)) (pv, w @ 34 # s, caps) =
    mt (Seq (str (34 # u)) r) (adv pv w, 34 # s, (n, w) # caps)"
proof -
  let ?f = "\<lambda>st. mt (Seq (str (34 # u)) r) (close_group n (w @ 34 # s) st)"
  have "mt (Seq (Grp n (Star (Cls not_quote))) (Seq (str (34 # u)) r)) (pv, w @ 34 # s, caps) =
      concat (map ?f (mt (Star (Cls not_quote)) (pv, w @ 34 # s, caps)))"
    by (simp add: comp_def)
  also have "\<dots> = ?f (adv pv w, 34 # s, caps)"
  proof (rule star_cls_then)
    show "list_all not_quote w" using assms by (auto simp: list_all_iff not_quote_def)
    fix k assume "k < length w"
    then obtain c t where "drop k w = c # t" by (metis Cons_nth_drop_Suc)
    moreover from this have "c \<noteq> 34" using assms by (metis in_set_dropD list.set_intros(1))
    ultimately show "?f (adv pv (take k w), drop k w @ 34 # s, caps) = []"
      by (simp add: mt_str starts_with_def)
  qed (simp add: not_quote_def)
  finally show ?thesis by simp
qed

abbreviation extra_vars :: "jstring list" where
  "extra_vars \<equiv> map snd BILLING_CACHE_VAR_MAP"

lemma extra_vars_ok: "\<forall>v \<in> set extra_vars. var_name v" "distinct extra_vars" "length extra_vars = 7"
  by code_simp+

definition body_text :: "jstring \<Rightarrow> jstring \<Rightarrow> (jstring \<Rightarrow> jstring option) \<Rightarrow> jstring" where
  "body_text x y pr = term_text [112] x @ 32 # 43 # 32 # term_text [99] y @ extra_text pr extra_vars"

definition call_of_tier :: "jstring \<Rightarrow> jstring \<Rightarrow> jstring" where
  "call_of_tier l b = lit ''tier('' @ [34] @ l @ [34] @ lit '', '' @ b @ lit '')''"

lemma body_match:
  assumes x: "list_all dd x" "x \<noteq> []" and y: "list_all dd y" "y \<noteq> []"
    and pr: "\<forall>v \<in> set extra_vars. \<forall>w. pr v = Some w \<longrightarrow> list_all dd w \<and> w \<noteq> []"
  shows "\<exists>pv' caps' rest. mt (cat (body_re n @ close_re)) (pv, body_text x y pr @ [41], caps) = (pv', [], caps') # rest \<and>
    caps_ok pr extra_vars (n + 2) ((n + 1, y) # (n, x) # caps) caps'"
proof -
  let ?e = "extra_res extra_vars (n + 2) @ close_re" and ?t = "extra_text pr extra_vars @ [41]"
  let ?c = "term_re [99] (n + 1) @ ?e"
  have re: "cat (body_re n @ close_re) = cat (term_re [112] n @ plus_re @ ?c)" by (simp add: body_re_def)
  have "mt (cat (plus_re @ ?c)) (pv', a # u, k) = []" if "dd a" for pv' a u k
    using plus_fail [of a] dd_ws dd_chars that by blast
  then obtain pv1 where 1: "mt (cat (term_re [112] n @ plus_re @ ?c)) (pv, term_text [112] x @ 32 # 43 # 32 # term_text [99] y @ ?t, caps) =
      mt (cat (plus_re @ ?c)) (pv1, 32 # 43 # 32 # term_text [99] y @ ?t, (n, x) # caps)"
    using term_match [OF x, of "32 # 43 # 32 # term_text [99] y @ ?t" "plus_re @ ?c" "[112]" n pv caps]
    by (auto simp: num_char_def is_digit_def simp del: cat.simps mt.simps)
  have v: "var_name [99]" by (simp add: var_name_def is_word_def)
  have 2: "mt (cat (plus_re @ ?c)) (pv1, 32 # 43 # 32 # term_text [99] y @ ?t, (n, x) # caps) =
      mt (cat ?c) (Some 32, term_text [99] y @ ?t, (n, x) # caps)"
    by (rule plus_match) (simp_all add: term_text_def is_ws_def term_space_fail [OF v] del: cat.simps mt.simps)
  obtain pv2 where 3: "mt (cat ?c) (Some 32, term_text [99] y @ ?t, (n, x) # caps) =
      mt (cat ?e) (pv2, ?t, (n + 1, y) # (n, x) # caps)"
    using term_match [OF y, of ?t ?e "[99]" "n + 1" "Some 32" "(n, x) # caps"] extra_next_not_num extra_res_dd by blast
  have "body_text x y pr @ [41] = term_text [112] x @ 32 # 43 # 32 # term_text [99] y @ ?t" by (simp add: body_text_def)
  then have "mt (cat (body_re n @ close_re)) (pv, body_text x y pr @ [41], caps) = mt (cat ?e) (pv2, ?t, (n + 1, y) # (n, x) # caps)"
    by (simp only: re 1 2 3)
  then show ?thesis using extra_match [OF extra_vars_ok(1,2) pr, of "n + 2" pv2 "(n + 1, y) # (n, x) # caps"] by simp
qed

lemma single_match:
  assumes "34 \<notin> set l" and "list_all dd x" "x \<noteq> []" and "list_all dd y" "y \<noteq> []"
    and "\<forall>v \<in> set extra_vars. \<forall>w. pr v = Some w \<longrightarrow> list_all dd w \<and> w \<noteq> []"
  shows "\<exists>m. re_match singleRe (call_of_tier l (body_text x y pr)) = Some m \<and> m 1 = Some l \<and> m 2 = Some x \<and> m 3 = Some y \<and>
    (\<forall>i < 7. m (4 + i) = pr (extra_vars ! i))"
proof -
  let ?r = "body_re 2 @ close_re" and ?b = "body_text x y pr @ [41]"
  let ?close = "Seq (str [34, 44]) (Seq sp (cat ?r))"
  have re: "singleRe = Seq Bol (Seq (str (lit ''tier(\"'')) (Seq (Grp 1 (Star (Cls not_quote))) ?close))"
    by (simp add: singleRe_def tier_open_def close_re_def)
  have tx: "call_of_tier l (body_text x y pr) = lit ''tier(\"'' @ l @ 34 # 44 # 32 # ?b" by (simp add: call_of_tier_def)
  have "mt (cat ?r) (pv, 32 # ?b, caps) = []" for pv caps
    unfolding body_re_def append_assoc by (rule term_space_fail) (simp add: var_name_def is_word_def)
  moreover have "\<not> is_ws (hd ?b)" by (simp add: body_text_def term_text_def is_ws_def)
  ultimately have s: "mt (Seq sp (cat ?r)) (pv, 32 # ?b, caps) = mt (cat ?r) (Some 32, ?b, caps)" for pv caps
    by (intro sp_one) auto
  have c: "mt ?close (pv, 34 # 44 # 32 # ?b, caps) = mt (cat ?r) (Some 32, ?b, caps)" for pv caps
    using seq_str [of "[34, 44]" "Seq sp (cat ?r)" pv "32 # ?b" caps] by (simp only: append_Cons append_Nil s)
  have m: "mt (Seq (str (lit ''tier(\"'')) (Seq (Grp 1 (Star (Cls not_quote))) ?close)) (None, call_of_tier l (body_text x y pr), []) =
      mt (cat ?r) (Some 32, ?b, [(1, l)])"
    unfolding tx by (simp only: seq_str label_then [OF assms(1)] c)
  obtain pv' caps' rest where b: "mt (cat ?r) (Some 32, ?b, [(1, l)]) = (pv', [], caps') # rest"
    and ok: "caps_ok pr extra_vars 4 [(3, y), (2, x), (1, l)] caps'"
    using body_match [OF assms(2-6), of 2 "Some 32" "[(1, l)]"] by auto
  have "re_match singleRe (call_of_tier l (body_text x y pr)) = Some (map_of caps')"
    unfolding re match_calc m b by simp
  moreover have "map_of caps' 1 = Some l" "map_of caps' 2 = Some x" "map_of caps' 3 = Some y"
    using ok by (auto simp: caps_ok_def)
  moreover have "map_of caps' (4 + i) = pr (extra_vars ! i)" if "i < 7" for i
    using ok that extra_vars_ok(3) by (auto simp: caps_ok_def split: option.splits)
  ultimately show ?thesis by blast
qed

section \<open>Opening what was saved\<close>

definition cost :: "obj \<Rightarrow> jstring \<Rightarrow> jsnum" where
  "cost t f = or_zero (num_of (obj_get f t))"

text \<open>A price whose decimal text has digits and a point only and reads back as the price.\<close>

definition price_ok :: "jsnum \<Rightarrow> bool" where
  "price_ok x \<longleftrightarrow> num_str x \<noteq> [] \<and> list_all dd (num_str x) \<and> js_Number (num_str x) = x"

lemma cache_map:
  "BILLING_CACHE_VAR_MAP =
     [(lit ''cache_read_unit_cost'', lit ''cr''), (lit ''cache_create_unit_cost'', lit ''cc''),
      (lit ''cache_create_1h_unit_cost'', lit ''cc1h''), (lit ''image_unit_cost'', lit ''img''),
      (lit ''image_output_unit_cost'', lit ''img_o''), (lit ''audio_input_unit_cost'', lit ''ai''),
      (lit ''audio_output_unit_cost'', lit ''ao'')]"
  by code_simp

definition price_fields :: "jstring list" where
  "price_fields = lit ''input_unit_cost'' # lit ''output_unit_cost'' # map fst BILLING_CACHE_VAR_MAP"

definition extra_price :: "obj \<Rightarrow> jstring \<Rightarrow> jstring option" where
  "extra_price t v =
     (case map_of (map (\<lambda>(f, v). (v, f)) BILLING_CACHE_VAR_MAP) v of
        None \<Rightarrow> None | Some f \<Rightarrow> if jeq (cost t f) (Fin 0) then None else Some (num_str (cost t f)))"

lemma join_Cons: "join sep (a # l) = a @ concat (map (\<lambda>x. sep @ x) l)"
proof (induction l arbitrary: a)
  case (Cons b l)
  then show ?case by simp
qed simp

lemma extra_price_map:
  "(f, v) \<in> set BILLING_CACHE_VAR_MAP \<Longrightarrow>
   extra_price t v = (if jeq (cost t f) (Fin 0) then None else Some (num_str (cost t f)))"
proof -
  have "distinct (map fst (map (\<lambda>(f, v). (v, f)) BILLING_CACHE_VAR_MAP))" by code_simp
  moreover assume "(f, v) \<in> set BILLING_CACHE_VAR_MAP"
  ultimately have "map_of (map (\<lambda>(f, v). (v, f)) BILLING_CACHE_VAR_MAP) v = Some f" by (intro map_of_is_SomeI) auto
  then show ?thesis by (simp add: extra_price_def)
qed

lemma extra_price_text:
  "set m \<subseteq> set BILLING_CACHE_VAR_MAP \<Longrightarrow>
   concat (map (\<lambda>x. lit '' + '' @ x) (map (\<lambda>(v, x). price_part v x)
     (filter (\<lambda>(_, x). \<not> jeq x (Fin 0)) (map (\<lambda>(f, v). (v, cost t f)) m)))) = extra_text (extra_price t) (map snd m)"
proof (induction m)
  case (Cons p m)
  obtain f v where p: "p = (f, v)" by force
  then have "extra_price t v = (if jeq (cost t f) (Fin 0) then None else Some (num_str (cost t f)))"
    using Cons.prems by (intro extra_price_map) simp
  then show ?case using Cons p by (simp add: extra_text_Cons price_part_def term_text_def)
qed (simp add: extra_text_def)

lemma tier_body_text:
  "buildTierBodyExpr t =
   body_text (num_str (cost t (lit ''input_unit_cost''))) (num_str (cost t (lit ''output_unit_cost''))) (extra_price t)"
proof -
  let ?l = "map (\<lambda>(v, x). price_part v x) (filter (\<lambda>(_, x). \<not> jeq x (Fin 0)) (map (\<lambda>(f, v). (v, cost t f)) BILLING_CACHE_VAR_MAP))"
  have e: "concat (map (\<lambda>x. lit '' + '' @ x) ?l) = extra_text (extra_price t) extra_vars" by (rule extra_price_text) simp
  have "buildTierBodyExpr t = join (lit '' + '')
      (price_part (lit ''p'') (cost t (lit ''input_unit_cost'')) # price_part (lit ''c'') (cost t (lit ''output_unit_cost'')) # ?l)"
    by (simp only: buildTierBodyExpr_def Let_def cost_def)
  also have "\<dots> = price_part (lit ''p'') (cost t (lit ''input_unit_cost'')) @
      (lit '' + '' @ price_part (lit ''c'') (cost t (lit ''output_unit_cost''))) @ extra_text (extra_price t) extra_vars"
    unfolding join_Cons list.map(2) [of "\<lambda>x. lit '' + '' @ x"] concat.simps(2) e by (rule refl)
  finally show ?thesis by (simp add: body_text_def price_part_def term_text_def)
qed

lemma not_versioned: "strip_version (call_of_tier l b) = call_of_tier l b"
proof -
  have "mt (cat [chr 118, many1 (Cls is_digit), chr 58, Grp 1 (Star (Cls (\<lambda>_. True))), Eol]) (None, call_of_tier l b, []) = []"
    unfolding cat.simps(2) [of "chr 118"] by (rule chr_fail) (simp add: call_of_tier_def)
  then have "re_match re_ver (call_of_tier l b) = None"
    unfolding re_ver_def cat.simps(2) [of Bol] by (rule match_fail)
  then show ?thesis by (simp add: strip_version_def)
qed

lemma get_opt_put:
  "obj_get k (case c of None \<Rightarrow> t | Some v \<Rightarrow> obj_put f (g v) t) =
   (if k = f then (case c of None \<Rightarrow> obj_get k t | Some v \<Rightarrow> g v) else obj_get k t)"
  by (cases c) auto

lemma get_extra_fold:
  "distinct (map (fst \<circ> snd) l) \<Longrightarrow>
   obj_get k (foldl (\<lambda>t (i, f, _). case m (n + i) of None \<Rightarrow> t | Some val \<Rightarrow> obj_put f (JNum (js_Number val)) t) t l) =
   (case map_of (map (\<lambda>(i, f, _). (f, i)) l) k of
      None \<Rightarrow> obj_get k t
    | Some i \<Rightarrow> (case m (n + i) of None \<Rightarrow> obj_get k t | Some w \<Rightarrow> JNum (js_Number w)))"
proof (induction l arbitrary: t)
  case (Cons p l)
  obtain i f v where p: "p = (i, f, v)" by (cases p) auto
  let ?t = "case m (n + i) of None \<Rightarrow> t | Some val \<Rightarrow> obj_put f (JNum (js_Number val)) t"
  have t: "obj_get k ?t = (if k = f then (case m (n + i) of None \<Rightarrow> obj_get k t | Some w \<Rightarrow> JNum (js_Number w)) else obj_get k t)"
    by (rule get_opt_put)
  have "map_of (map (\<lambda>(i, f, _). (f, i)) l) f = None"
    using Cons.prems by (auto simp: p map_of_eq_None_iff image_iff)
  moreover obtain t' where t': "t' = ?t" by blast
  ultimately show ?case
    using Cons.IH [of t'] Cons.prems t unfolding t' [symmetric] p foldl_Cons prod.case
    by (cases "k = f") (simp_all add: p comp_def split: option.splits flip: t')
qed simp

lemma extra_index:
  "distinct (map (fst \<circ> snd) (enumerate 0 BILLING_CACHE_VAR_MAP))"
  "i < 7 \<Longrightarrow> map_of (map (\<lambda>(i, f, _). (f, i)) (enumerate 0 BILLING_CACHE_VAR_MAP)) (fst (BILLING_CACHE_VAR_MAP ! i)) = Some i"
  "k \<notin> fst ` set BILLING_CACHE_VAR_MAP \<Longrightarrow> map_of (map (\<lambda>(i, f, _). (f, i)) (enumerate 0 BILLING_CACHE_VAR_MAP)) k = None"
proof -
  show d: "distinct (map (fst \<circ> snd) (enumerate 0 BILLING_CACHE_VAR_MAP))" by code_simp
  have "length BILLING_CACHE_VAR_MAP = 7" by code_simp
  then have "i < 7 \<Longrightarrow> (i, BILLING_CACHE_VAR_MAP ! i) \<in> set (enumerate 0 BILLING_CACHE_VAR_MAP)"
    by (simp add: in_set_enumerate_eq)
  then have "i < 7 \<Longrightarrow> (fst (BILLING_CACHE_VAR_MAP ! i), i) \<in> set (map (\<lambda>(i, f, _). (f, i)) (enumerate 0 BILLING_CACHE_VAR_MAP))"
    by (force simp: case_prod_beta)
  moreover have "distinct (map fst (map (\<lambda>(i, f, _). (f, i)) (enumerate 0 BILLING_CACHE_VAR_MAP)))"
    using d by (simp add: comp_def case_prod_beta)
  ultimately show "i < 7 \<Longrightarrow> map_of (map (\<lambda>(i, f, _). (f, i)) (enumerate 0 BILLING_CACHE_VAR_MAP)) (fst (BILLING_CACHE_VAR_MAP ! i)) = Some i"
    by (intro map_of_is_SomeI) auto
  have "map fst (map (\<lambda>(i, f, _). (f, i)) (enumerate 0 BILLING_CACHE_VAR_MAP)) = map fst (map snd (enumerate 0 BILLING_CACHE_VAR_MAP))"
    unfolding map_map by (rule map_cong) (auto simp: comp_def)
  then have "fst ` set (map (\<lambda>(i, f, _). (f, i)) (enumerate 0 BILLING_CACHE_VAR_MAP)) = fst ` set BILLING_CACHE_VAR_MAP"
    unfolding map_snd_enumerate by (metis list.set_map)
  then show "k \<notin> fst ` set BILLING_CACHE_VAR_MAP \<Longrightarrow> map_of (map (\<lambda>(i, f, _). (f, i)) (enumerate 0 BILLING_CACHE_VAR_MAP)) k = None"
    unfolding map_of_eq_None_iff by simp
qed

definition match_base :: "(nat \<Rightarrow> jstring option) \<Rightarrow> (string \<times> jval) list" where
  "match_base m = [(''conditions'', JArr []), (''input_unit_cost'', JNum (js_Number (cap m 2))),
     (''output_unit_cost'', JNum (js_Number (cap m 3))), (''label'', JStr (cap m 1))]"

lemma match_tier_base: "match_tier m 1 [] = extra_costs m 4 (obj_lit (match_base m))"
proof -
  have n: "(1 :: nat) + 1 = 2" "(1 :: nat) + 2 = 3" "(1 :: nat) + 3 = 4" by simp_all
  show ?thesis by (simp only: match_tier_def match_base_def n)
qed

lemma get_match_base: "get (obj_lit (match_base m)) k = (case map_of (match_base m) k of None \<Rightarrow> JUndef | Some v \<Rightarrow> v)"
  by (rule get_obj_lit) (simp add: match_base_def)

lemma get_match_tier:
  "lit k \<notin> fst ` set BILLING_CACHE_VAR_MAP \<Longrightarrow> get (match_tier m 1 []) k = (case map_of (match_base m) k of None \<Rightarrow> JUndef | Some v \<Rightarrow> v)"
  "i < 7 \<Longrightarrow> obj_get (fst (BILLING_CACHE_VAR_MAP ! i)) (match_tier m 1 []) =
     (case m (4 + i) of None \<Rightarrow> JUndef | Some w \<Rightarrow> JNum (js_Number w))"
proof -
  show "lit k \<notin> fst ` set BILLING_CACHE_VAR_MAP \<Longrightarrow> get (match_tier m 1 []) k = (case map_of (match_base m) k of None \<Rightarrow> JUndef | Some v \<Rightarrow> v)"
    unfolding match_tier_base extra_costs_def get_extra_fold [OF extra_index(1)]
    by (simp add: extra_index(3) get_match_base del: list.map)
  assume i: "i < 7"
  have "obj_get (fst (BILLING_CACHE_VAR_MAP ! i)) (obj_lit (match_base m)) = JUndef"
  proof -
    have "i \<in> {0, 1, 2, 3, 4, 5, 6}" using i by auto
    then show ?thesis by (auto simp: cache_map get_match_base simp del: list.map) (auto simp: match_base_def)
  qed
  then show "obj_get (fst (BILLING_CACHE_VAR_MAP ! i)) (match_tier m 1 []) = (case m (4 + i) of None \<Rightarrow> JUndef | Some w \<Rightarrow> JNum (js_Number w))"
    unfolding match_tier_base extra_costs_def get_extra_fold [OF extra_index(1)] by (cases "m (4 + i)") (simp_all add: extra_index(2) [OF i])
qed

lemma distinct_match_tier: "distinct (map fst (match_tier m n cs))"
proof -
  have "distinct (map fst t) \<Longrightarrow>
      distinct (map fst (foldl (\<lambda>t (i, f, _). case m (k + i) of None \<Rightarrow> t | Some val \<Rightarrow> obj_put f (JNum (js_Number val)) t) t l))"
    for k t and l :: "(nat \<times> jstring \<times> jstring) list"
    by (induction l arbitrary: t) (auto simp: distinct_obj_put split: option.splits)
  then show ?thesis by (simp only: match_tier_def extra_costs_def distinct_obj_lit)
qed

definition cache_keys :: "string list" where
  "cache_keys = [''cache_read_unit_cost'', ''cache_create_unit_cost'', ''cache_create_1h_unit_cost'', ''image_unit_cost'',
     ''image_output_unit_cost'', ''audio_input_unit_cost'', ''audio_output_unit_cost'']"

lemma map_of_lits: "map_of (map (\<lambda>k. (lit k, g k)) ks) (lit k) = (if k \<in> set ks then Some (g k) else None)"
  by (induction ks) (auto simp: lit_inj)

lemma get_normalize:
  assumes "distinct (map fst t)"
  shows "k \<in> set cache_keys \<Longrightarrow> get (normalizeVisualTier t) k = cost_of (get t k)"
    and "k \<notin> set cache_keys \<Longrightarrow> obj_has (lit k) t \<Longrightarrow> get (normalizeVisualTier t) k = get t k"
proof -
  define g where "g = (\<lambda>k. cost_of (get t k))"
  let ?kv = "map (\<lambda>k. (lit k, g k)) cache_keys"
  have d: "distinct (map fst ?kv)"
    by (simp add: cache_keys_def)
  define base where "base = obj_lit
            [(''label'', jcoalesce (get t ''label'') (JStr [])),
             (''input_unit_cost'', cost_of (get t ''input_unit_cost'')),
             (''output_unit_cost'', cost_of (get t ''output_unit_cost'')),
             (''cache_mode'', getTierCacheMode t),
             (''conditions'', if is_array (get t ''conditions'') then get t ''conditions'' else JArr [])]"
  have n: "normalizeVisualTier t = obj_build (obj_build base t) ?kv"
    by (simp only: normalizeVisualTier_def base_def cache_keys_def Let_def g_def)
  have mk: "map_of ?kv (lit k) = (if k \<in> set cache_keys then Some (g k) else None)" for k
    by (rule map_of_lits)
  have "k \<in> set cache_keys \<Longrightarrow> get (normalizeVisualTier t) k = g k"
    by (simp add: n obj_get_def map_of_obj_build [OF d] mk)
  then show "k \<in> set cache_keys \<Longrightarrow> get (normalizeVisualTier t) k = cost_of (get t k)" by (simp only: g_def)
  show "k \<notin> set cache_keys \<Longrightarrow> obj_has (lit k) t \<Longrightarrow> get (normalizeVisualTier t) k = get t k"
    by (auto simp: n obj_get_def obj_has_def map_of_obj_build [OF d] map_of_obj_build [OF assms] mk map_add_def split: option.splits)
qed

lemma distinct_normalize: "distinct (map fst (normalizeVisualTier t))"
  by (simp only: normalizeVisualTier_def Let_def distinct_obj_build distinct_obj_lit)

lemma has_of_get: "obj_get k t \<noteq> JUndef \<Longrightarrow> obj_has k t"
  by (auto simp: obj_get_def obj_has_def split: option.splits)

lemma or_zero_idem [simp]: "or_zero (or_zero x) = or_zero x"
  by (auto simp: or_zero_def jtruthy_def split: jsnum.splits)

lemma cost_of_idem: "cost_of (cost_of v) = cost_of v"
  by (simp add: cost_of_def num_of_def)

lemma get_normalize_twice:
  assumes "distinct (map fst t)"
  shows "k \<in> set cache_keys \<Longrightarrow> get (normalizeVisualTier (normalizeVisualTier t)) k = cost_of (get t k)"
    and "k \<notin> set cache_keys \<Longrightarrow> get t k \<noteq> JUndef \<Longrightarrow> get (normalizeVisualTier (normalizeVisualTier t)) k = get t k"
proof -
  show "k \<in> set cache_keys \<Longrightarrow> get (normalizeVisualTier (normalizeVisualTier t)) k = cost_of (get t k)"
    by (simp only: get_normalize(1) [OF distinct_normalize] get_normalize(1) [OF assms] cost_of_idem)
  assume k: "k \<notin> set cache_keys" "get t k \<noteq> JUndef"
  have "get (normalizeVisualTier t) k = get t k" using get_normalize(2) [OF assms k(1) has_of_get [OF k(2)]] .
  then show "get (normalizeVisualTier (normalizeVisualTier t)) k = get t k"
    using get_normalize(2) [OF distinct_normalize k(1)] has_of_get k(2) by metis
qed

lemma cache_key_nth: "i < 7 \<Longrightarrow> fst (BILLING_CACHE_VAR_MAP ! i) = lit (cache_keys ! i) \<and> cache_keys ! i \<in> set cache_keys"
proof -
  assume "i < 7"
  then have "i \<in> {0, 1, 2, 3, 4, 5, 6}" by auto
  then show ?thesis by (auto simp: cache_map cache_keys_def)
qed

lemma extra_price_nth:
  assumes "i < 7"
  shows "extra_price t (extra_vars ! i) =
    (let x = cost t (fst (BILLING_CACHE_VAR_MAP ! i)) in if jeq x (Fin 0) then None else Some (num_str x))"
proof -
  have "BILLING_CACHE_VAR_MAP ! i \<in> set BILLING_CACHE_VAR_MAP" "extra_vars ! i = snd (BILLING_CACHE_VAR_MAP ! i)"
    using assms extra_vars_ok(3) by simp_all
  then show ?thesis using extra_price_map [of "fst (BILLING_CACHE_VAR_MAP ! i)" "snd (BILLING_CACHE_VAR_MAP ! i)" t] by (simp add: Let_def)
qed

lemma jeq_zero: "jeq x (Fin 0) \<longleftrightarrow> x = Fin 0"
  by (cases x) auto

text \<open>The editor opens what it saved: the expression printed for a single tier without conditions, whose label
  has no quote and whose prices have an exact decimal text, is parsed to one tier with the same label, no
  conditions and the same price in every field, and that tier prints the same expression again.\<close>

lemma single_tier_reopened:
  assumes "get t ''label'' = JStr l" and "l \<noteq> []" and "34 \<notin> set l" and "buildConditionStr (conditions_of t) = []"
    and "list_all (\<lambda>f. price_ok (cost t f)) price_fields"
  shows "\<exists>u. tryParseVisualConfig (generateExprFromVisualConfig (Some [t])) = Some [u] \<and>
    get u ''label'' = JStr l \<and> conditions_of u = [] \<and> map (\<lambda>f. obj_get f u) price_fields = map (\<lambda>f. JNum (cost t f)) price_fields \<and>
    generateExprFromVisualConfig (Some [u]) = generateExprFromVisualConfig (Some [t])"
proof -
  let ?i = "lit ''input_unit_cost''" and ?o = "lit ''output_unit_cost''"
  let ?b = "body_text (num_str (cost t ?i)) (num_str (cost t ?o)) (extra_price t)"
  have all: "\<forall>f \<in> set price_fields. price_ok (cost t f)" using assms(5) by (simp only: list_all_iff)
  have mem: "?i \<in> set price_fields" "?o \<in> set price_fields" "fst ` set BILLING_CACHE_VAR_MAP \<subseteq> set price_fields"
    unfolding price_fields_def by (simp_all only: list.set set_map) blast+
  note pi = bspec [OF all mem(1)] and po = bspec [OF all mem(2)]
  have pf: "price_ok (cost t f)" if "f \<in> fst ` set BILLING_CACHE_VAR_MAP" for f using all mem(3) that by blast
  have gen: "generateExprFromVisualConfig (Some [x]) = call_of_tier l (buildTierBodyExpr x)"
    if "get x ''label'' = JStr l" "buildConditionStr (conditions_of x) = []" for x
    using that assms(2) by (simp add: generateExprFromVisualConfig_def tier_call_def call_of_tier_def label_or_def jor_def)
  have g: "generateExprFromVisualConfig (Some [t]) = call_of_tier l ?b" using gen [OF assms(1,4)] by (simp only: tier_body_text)
  have ex: "list_all dd w \<and> w \<noteq> []" if "v \<in> set extra_vars" "extra_price t v = Some w" for v w
  proof -
    from that(1) obtain f where f: "(f, v) \<in> set BILLING_CACHE_VAR_MAP" by auto
    then have "price_ok (cost t f)" by (intro pf) force
    then show ?thesis using that(2) extra_price_map [OF f, of t] by (auto simp: price_ok_def split: if_splits)
  qed
  obtain m where m: "re_match singleRe (call_of_tier l ?b) = Some m"
    and c: "m 1 = Some l" "m 2 = Some (num_str (cost t ?i))" "m 3 = Some (num_str (cost t ?o))"
    and x: "\<forall>i < 7. m (4 + i) = extra_price t (extra_vars ! i)"
    using single_match [OF assms(3), of "num_str (cost t ?i)" "num_str (cost t ?o)" "extra_price t"] pi po ex
    unfolding price_ok_def by blast
  define w u where "w = match_tier m 1 []" and "u = normalizeVisualTier (normalizeVisualTier w)"
  have dw: "distinct (map fst w)" unfolding w_def by (rule distinct_match_tier)
  have nz: "call_of_tier l ?b \<noteq> []" by (simp add: call_of_tier_def)
  have parse: "tryParseVisualConfig (generateExprFromVisualConfig (Some [t])) = Some [u]"
    unfolding g tryParseVisualConfig_def Let_def not_versioned m option.case
    using nz by (simp add: u_def w_def normalizeVisualConfig_def)
  have notc: "lit k \<notin> fst ` set BILLING_CACHE_VAR_MAP" if "k \<notin> set cache_keys" for k
    using that by (simp add: cache_map cache_keys_def lit_inj del: list.map)
  have base: "get u k = (case map_of (match_base m) k of None \<Rightarrow> JUndef | Some v \<Rightarrow> v)"
    if "k \<in> {''label'', ''conditions'', ''input_unit_cost'', ''output_unit_cost''}" for k
  proof -
    have k: "k \<notin> set cache_keys" using that by (auto simp: cache_keys_def)
    have wk: "get w k = (case map_of (match_base m) k of None \<Rightarrow> JUndef | Some v \<Rightarrow> v)"
      unfolding w_def by (rule get_match_tier(1) [OF notc [OF k]])
    then have "get w k \<noteq> JUndef" using that by (auto simp: match_base_def)
    then show ?thesis unfolding u_def using get_normalize_twice(2) [OF dw k] wk by simp
  qed
  have ul: "get u ''label'' = JStr l" using base [of "''label''"] c(1) by (simp add: match_base_def cap_def)
  have uc: "conditions_of u = []" using base [of "''conditions''"] by (simp add: conditions_of_def match_base_def)
  have ui: "obj_get ?i u = JNum (cost t ?i)" "obj_get ?o u = JNum (cost t ?o)"
    using base [of "''input_unit_cost''"] base [of "''output_unit_cost''"] pi po
    by (simp_all add: match_base_def cap_def c price_ok_def del: list.map)
  have ue: "obj_get (fst (BILLING_CACHE_VAR_MAP ! i)) u = JNum (cost t (fst (BILLING_CACHE_VAR_MAP ! i)))" if "i < 7" for i
  proof -
    let ?x = "cost t (fst (BILLING_CACHE_VAR_MAP ! i))"
    note ck = cache_key_nth [OF that]
    have "fst (BILLING_CACHE_VAR_MAP ! i) \<in> fst ` set BILLING_CACHE_VAR_MAP" using that extra_vars_ok(3) by simp
    then have ok: "price_ok ?x" by (rule pf)
    have z: "or_zero ?x = ?x" by (simp add: cost_def)
    have "obj_get (fst (BILLING_CACHE_VAR_MAP ! i)) u = cost_of (obj_get (fst (BILLING_CACHE_VAR_MAP ! i)) w)"
      unfolding u_def using get_normalize_twice(1) [OF dw, of "cache_keys ! i"] ck by simp
    also have "obj_get (fst (BILLING_CACHE_VAR_MAP ! i)) w = (case m (4 + i) of None \<Rightarrow> JUndef | Some w \<Rightarrow> JNum (js_Number w))"
      unfolding w_def by (rule get_match_tier(2) [OF that])
    also have "m (4 + i) = (if jeq ?x (Fin 0) then None else Some (num_str ?x))" using x that extra_price_nth [OF that, of t] by (simp add: Let_def)
    finally show ?thesis using ok z by (auto simp: cost_of_def num_of_def price_ok_def jeq_zero or_zero_def jtruthy_def split: if_splits)
  qed
  have fields: "map (\<lambda>f. obj_get f u) price_fields = map (\<lambda>f. JNum (cost t f)) price_fields"
  proof -
    have "obj_get f u = JNum (cost t f)" if "f \<in> fst ` set BILLING_CACHE_VAR_MAP" for f
    proof -
      from that obtain p where "p \<in> set BILLING_CACHE_VAR_MAP" and f: "f = fst p" by blast
      then obtain i where "i < length BILLING_CACHE_VAR_MAP" "p = BILLING_CACHE_VAR_MAP ! i" by (metis in_set_conv_nth)
      then show ?thesis using ue [of i] extra_vars_ok(3) f by simp
    qed
    then have "\<forall>f \<in> set price_fields. obj_get f u = JNum (cost t f)"
      unfolding price_fields_def using ui by (simp only: list.set set_map ball_simps) blast
    then show ?thesis by (simp only: map_eq_conv)
  qed
  have "cost u f = cost t f" if "f \<in> set price_fields" for f
  proof -
    have "obj_get f u = JNum (cost t f)" using fields that by (simp add: map_eq_conv)
    then show ?thesis by (simp add: cost_def [of u] num_of_def) (simp add: cost_def)
  qed
  moreover have "extra_price u = extra_price t"
  proof
    fix v
    show "extra_price u v = extra_price t v"
    proof (cases "map_of (map (\<lambda>(f, v). (v, f)) BILLING_CACHE_VAR_MAP) v")
      case (Some f)
      then have "f \<in> set price_fields" using map_of_SomeD [OF Some] by (force simp: price_fields_def)
      then show ?thesis using Some calculation by (simp add: extra_price_def)
    qed (simp add: extra_price_def)
  qed
  ultimately have "buildTierBodyExpr u = buildTierBodyExpr t" by (simp add: tier_body_text price_fields_def del: list.map)
  then have "generateExprFromVisualConfig (Some [u]) = generateExprFromVisualConfig (Some [t])"
    using gen [OF ul] gen [OF assms(1,4)] uc by (simp add: buildConditionStr_def)
  then show ?thesis using parse ul uc fields by blast
qed

definition sample_tier :: obj where
  "sample_tier = obj_lit
     [(''label'', JStr (lit ''base'')), (''conditions'', JArr []), (''input_unit_cost'', JNum (Fin (5/2))),
      (''output_unit_cost'', JNum (Fin 10)), (''cache_create_1h_unit_cost'', JNum (Fin 3))]"

text \<open>The character class of a price holds a sign, so a sum of numbers is taken for one price; it is not a number
  and becomes zero when the configuration is printed.\<close>

lemma visual_price_not_a_number:
  "obj_get (lit ''input_unit_cost'') (match_tier [1 \<mapsto> lit ''a'', 2 \<mapsto> lit ''3+1'', 3 \<mapsto> lit ''2''] 1 []) = JNum NaN"
  by code_simp

lemma visual_sum_read_as_zero:
  "map_option (\<lambda>cfg. generateExprFromVisualConfig (Some cfg)) (tryParseVisualConfig (lit ''tier(\"a\", p * 3+1 + c * 2)'')) =
   Some (lit ''tier(\"a\", p * 0 + c * 2)'')"
  by code_simp

text \<open>An accepted expression that is not the text of a single tier is the printed form of the configuration, up to
  white space and a version prefix.\<close>

lemma tier_parse_sound:
  assumes "tryParseVisualConfig e = Some cfg" and "re_match singleRe (strip_version e) = None"
  shows "strip_ws (generateExprFromVisualConfig (Some cfg)) = strip_ws (strip_version e)"
  using assms by (auto simp: tryParseVisualConfig_def Let_def split: if_splits)

end
