(* ===== verification/Id_Supply.thy ===== *)
theory Id_Supply
  imports JS_Prelude
begin

text \<open>
  Ids made from a counter: the editors number their rows, rules and conditions this way. The locale
  \<open>id_supply\<close> states what the editors rely on, that different counts give different ids, and proves that ids
  made later are new.
\<close>

text \<open>\<^verbatim>\<open>xs.map(f)\<close> for a function that makes ids and may throw.\<close>

fun map_gen :: "('a \<Rightarrow> nat \<Rightarrow> ('b \<times> nat) option) \<Rightarrow> 'a list \<Rightarrow> nat \<Rightarrow> ('b list \<times> nat) option" where
  "map_gen f [] n = Some ([], n)"
| "map_gen f (x # xs) n =
     (case f x n of
        None \<Rightarrow> None
      | Some (y, m) \<Rightarrow> map_option (\<lambda>(ys, k). (y # ys, k)) (map_gen f xs m))"

text \<open>A supply of ids: the counter decides the id. Functions that make ids from the counter issue new ones.\<close>

locale id_supply =
  fixes issue :: "nat \<Rightarrow> 'id"
  assumes issue_inj: "issue m = issue n \<Longrightarrow> m = n"
begin

definition issued :: "nat \<Rightarrow> 'id set" where
  "issued n = issue ` {..<n}"

definition fresh_keys :: "'id list \<Rightarrow> nat \<Rightarrow> nat \<Rightarrow> bool" where
  "fresh_keys ks n m \<longleftrightarrow> n \<le> m \<and> distinct ks \<and> set ks \<subseteq> issue ` {n..<m}"

lemma issued_mono: "n \<le> m \<Longrightarrow> issued n \<subseteq> issued m"
  by (auto simp: issued_def)

lemma fresh_not_issued: "fresh_keys ks n m \<Longrightarrow> set ks \<inter> issued n = {}"
  unfolding fresh_keys_def issued_def by (force dest: issue_inj)

lemma fresh_issued: "fresh_keys ks n m \<Longrightarrow> set ks \<subseteq> issued m"
  by (auto simp: fresh_keys_def issued_def)

lemma fresh_one [simp]: "fresh_keys [issue n] n (Suc n)"
  by (simp add: fresh_keys_def)

lemma fresh_append: "fresh_keys ks n m \<Longrightarrow> fresh_keys ls m k \<Longrightarrow> fresh_keys (ks @ ls) n k"
  unfolding fresh_keys_def by (force dest: issue_inj)

lemma map_gen_fresh:
  assumes "\<And>x n y m. x \<in> set xs \<Longrightarrow> f x n = Some (y, m) \<Longrightarrow> fresh_keys (keys y) n m" and "map_gen f xs n = Some (ys, k)"
  shows "fresh_keys (concat (map keys ys)) n k"
  using assms
proof (induction xs arbitrary: n ys)
  case Nil
  then show ?case by (simp add: fresh_keys_def)
next
  case (Cons x xs)
  then obtain y m zs where "f x n = Some (y, m)" "map_gen f xs m = Some (zs, k)" "ys = y # zs"
    by (auto split: option.splits)
  moreover have "fresh_keys (keys y) n m" by (rule Cons.prems(1)) (use calculation in simp_all)
  moreover have "fresh_keys (concat (map keys zs)) m k"
    by (rule Cons.IH [OF Cons.prems(1)]) (use calculation in simp_all)
  ultimately show ?case by (simp add: fresh_append)
qed

text \<open>Issuing one id for each element of a list.\<close>

lemma fresh_block: "fresh_keys (map (\<lambda>(i, x). issue (n + i)) (enumerate 0 xs)) n (n + length xs)"
proof -
  have "map (\<lambda>(i, x). issue (n + i)) (enumerate 0 xs) = map (\<lambda>i. issue (n + i)) (map fst (enumerate 0 xs))"
    by (simp only: map_map) (simp add: case_prod_beta comp_def)
  then have e: "map (\<lambda>(i, x). issue (n + i)) (enumerate 0 xs) = map (\<lambda>i. issue (n + i)) [0..<length xs]" by simp
  have "inj_on (\<lambda>i. issue (n + i)) A" for A by (rule inj_onI) (auto dest: issue_inj)
  then show ?thesis unfolding fresh_keys_def e by (auto simp: distinct_map)
qed

lemma fresh_Nil [simp]: "fresh_keys [] n n"
  by (simp add: fresh_keys_def)

lemma issued_Suc: "issued (Suc n) = insert (issue n) (issued n)"
  by (simp add: issued_def lessThan_Suc)

lemma not_issued: "issue n \<notin> issued n"
  by (auto simp: issued_def dest: issue_inj)

end

end
