(* ===== verification/Param_Override.thy ===== *)
theory Param_Override
  imports JS_Json Id_Supply
begin

text \<open>
  The editor of parameter overrides (\<^verbatim>\<open>channels/components/dialogs/param-override-editor-dialog.tsx\<close>), its data:
  rules with their conditions, the values that are text in the form and JSON in the saved text, the
  validation of rules and the printing and loading of a list of rules. The dialog itself is in
  \<open>Param_Override_Editor\<close>.

  A rule, a condition and a prune rule get an id from a counter and the clock; \<open>now n\<close> is the time
  at which the id of number \<open>n\<close> is made. Functions that make ids take the counter and return the next
  value with their result; they return \<open>None\<close> where the code throws a \<^verbatim>\<open>TypeError\<close>.
\<close>

section \<open>Tables\<close>

definition OPERATION_MODE_OPTIONS :: "(string \<times> string) list" where
  "OPERATION_MODE_OPTIONS =
     [(''Set Field'', ''set''), (''Delete Field'', ''delete''), (''Append to End'', ''append''),
      (''Prepend to Start'', ''prepend''), (''Copy Field'', ''copy''), (''Move Field'', ''move''),
      (''String Replace'', ''replace''), (''Regex Replace'', ''regex_replace''), (''Trim Prefix'', ''trim_prefix''),
      (''Trim Suffix'', ''trim_suffix''), (''Ensure Prefix'', ''ensure_prefix''), (''Ensure Suffix'', ''ensure_suffix''),
      (''Trim Space'', ''trim_space''), (''To Lowercase'', ''to_lower''), (''To Uppercase'', ''to_upper''),
      (''Return Custom Error'', ''return_error''), (''Prune Object Items'', ''prune_objects''),
      (''Pass Through Headers'', ''pass_headers''), (''Sync Fields'', ''sync_fields''),
      (''Set Request Header'', ''set_header''), (''Delete Request Header'', ''delete_header''),
      (''Copy Request Header'', ''copy_header''), (''Move Request Header'', ''move_header'')]"

definition OPERATION_MODE_VALUES :: "jstring list" where
  "OPERATION_MODE_VALUES = map (\<lambda>p. lit (snd p)) OPERATION_MODE_OPTIONS"

definition OPERATION_MODE_LABEL_MAP :: "(jstring \<times> jstring) list" where
  "OPERATION_MODE_LABEL_MAP = map (\<lambda>p. (lit (snd p), lit (fst p))) OPERATION_MODE_OPTIONS"

definition CONDITION_MODE_OPTIONS :: "(string \<times> string) list" where
  "CONDITION_MODE_OPTIONS =
     [(''Exact Match'', ''full''), (''Prefix'', ''prefix''), (''Suffix'', ''suffix''), (''Contains'', ''contains''),
      (''Greater Than'', ''gt''), (''Greater Than or Equal'', ''gte''), (''Less Than'', ''lt''),
      (''Less Than or Equal'', ''lte'')]"

definition CONDITION_MODE_VALUES :: "jstring list" where
  "CONDITION_MODE_VALUES = map (\<lambda>p. lit (snd p)) CONDITION_MODE_OPTIONS"

text \<open>Which fields a mode has. The field \<^verbatim>\<open>to\<close> of the table is absent, false or true.\<close>

record mode_meta =
  m_path :: bool
  m_pathOptional :: bool
  m_value :: bool
  m_from :: bool
  m_to :: "bool option"
  m_keepOrigin :: bool
  m_pathAlias :: bool

definition no_meta :: mode_meta where
  "no_meta = \<lparr>m_path = False, m_pathOptional = False, m_value = False, m_from = False, m_to = None,
              m_keepOrigin = False, m_pathAlias = False\<rparr>"

definition MODE_META :: "(string \<times> mode_meta) list" where
  "MODE_META =
     [(''delete'', no_meta\<lparr>m_path := True\<rparr>),
      (''set'', no_meta\<lparr>m_path := True, m_value := True, m_keepOrigin := True\<rparr>),
      (''append'', no_meta\<lparr>m_path := True, m_value := True, m_keepOrigin := True\<rparr>),
      (''prepend'', no_meta\<lparr>m_path := True, m_value := True, m_keepOrigin := True\<rparr>),
      (''copy'', no_meta\<lparr>m_from := True, m_to := Some True\<rparr>),
      (''move'', no_meta\<lparr>m_from := True, m_to := Some True\<rparr>),
      (''replace'', no_meta\<lparr>m_path := True, m_from := True, m_to := Some False\<rparr>),
      (''regex_replace'', no_meta\<lparr>m_path := True, m_from := True, m_to := Some False\<rparr>),
      (''trim_prefix'', no_meta\<lparr>m_path := True, m_value := True\<rparr>),
      (''trim_suffix'', no_meta\<lparr>m_path := True, m_value := True\<rparr>),
      (''ensure_prefix'', no_meta\<lparr>m_path := True, m_value := True\<rparr>),
      (''ensure_suffix'', no_meta\<lparr>m_path := True, m_value := True\<rparr>),
      (''trim_space'', no_meta\<lparr>m_path := True\<rparr>),
      (''to_lower'', no_meta\<lparr>m_path := True\<rparr>),
      (''to_upper'', no_meta\<lparr>m_path := True\<rparr>),
      (''return_error'', no_meta\<lparr>m_value := True\<rparr>),
      (''prune_objects'', no_meta\<lparr>m_pathOptional := True, m_value := True\<rparr>),
      (''pass_headers'', no_meta\<lparr>m_value := True, m_keepOrigin := True\<rparr>),
      (''sync_fields'', no_meta\<lparr>m_from := True, m_to := Some True\<rparr>),
      (''set_header'', no_meta\<lparr>m_path := True, m_value := True, m_keepOrigin := True\<rparr>),
      (''delete_header'', no_meta\<lparr>m_path := True\<rparr>),
      (''copy_header'', no_meta\<lparr>m_from := True, m_to := Some True, m_keepOrigin := True, m_pathAlias := True\<rparr>),
      (''move_header'', no_meta\<lparr>m_from := True, m_to := Some True, m_keepOrigin := True, m_pathAlias := True\<rparr>)]"

definition set_meta :: mode_meta where
  "set_meta = no_meta\<lparr>m_path := True, m_value := True, m_keepOrigin := True\<rparr>"

definition meta_of :: "jstring \<Rightarrow> mode_meta" where
  "meta_of mode =
     (case map_of (map (\<lambda>p. (lit (fst p), snd p)) MODE_META) mode of Some m \<Rightarrow> m | None \<Rightarrow> set_meta)"

definition VALUE_REQUIRED_MODES :: "jstring list" where
  "VALUE_REQUIRED_MODES =
     map lit [''trim_prefix'', ''trim_suffix'', ''ensure_prefix'', ''ensure_suffix'', ''set_header'', ''return_error'',
              ''prune_objects'', ''pass_headers'']"

definition FROM_REQUIRED_MODES :: "jstring list" where
  "FROM_REQUIRED_MODES =
     map lit [''copy'', ''move'', ''replace'', ''regex_replace'', ''copy_header'', ''move_header'', ''sync_fields'']"

definition TO_REQUIRED_MODES :: "jstring list" where
  "TO_REQUIRED_MODES = map lit [''copy'', ''move'', ''copy_header'', ''move_header'', ''sync_fields'']"

section \<open>Rules and conditions\<close>

record condition =
  c_id :: jstring
  c_path :: jstring
  c_mode :: jstring
  c_value_text :: jstring
  c_invert :: bool
  c_pass_missing_key :: bool

record operation =
  o_id :: jstring
  o_description :: jstring
  o_path :: jstring
  o_mode :: jstring
  o_from :: jstring
  o_to :: jstring
  o_value_text :: jstring
  o_keep_origin :: bool
  o_logic :: jstring
  o_conditions :: "condition list"

type_synonym clock = "nat \<Rightarrow> nat"

definition nextLocalId :: "clock \<Rightarrow> nat \<Rightarrow> jstring" where
  "nextLocalId now n = lit ''po_'' @ nat_str (now n) @ lit ''_'' @ nat_str n"

definition toValueText :: "jval \<Rightarrow> jstring" where
  "toValueText v = (case v of JUndef \<Rightarrow> [] | JStr s \<Rightarrow> s | _ \<Rightarrow> json_text v)"

definition parseLooseValue :: "jstring \<Rightarrow> jval" where
  "parseLooseValue valueText =
     (let raw = trim valueText in
      if raw = [] then JStr [] else case json_parse raw of Some v \<Rightarrow> v | None \<Rightarrow> JStr raw)"

definition verifyJSON :: "jstring \<Rightarrow> bool" where
  "verifyJSON text \<longleftrightarrow> json_parse text \<noteq> None"

text \<open>
  The named properties of a value: \<^verbatim>\<open>null\<close> throws, and values that are not objects have none of the
  properties read here.
\<close>

definition fields_of :: "jval \<Rightarrow> obj option" where
  "fields_of v = (case v of JNull \<Rightarrow> None | JObj ps \<Rightarrow> Some ps | _ \<Rightarrow> Some [])"

definition str_field :: "obj \<Rightarrow> string \<Rightarrow> jstring" where
  "str_field ps k = (case get ps k of JStr s \<Rightarrow> s | _ \<Rightarrow> [])"

definition mode_field :: "jstring list \<Rightarrow> string \<Rightarrow> obj \<Rightarrow> jstring" where
  "mode_field values d ps = (case get ps ''mode'' of JStr m \<Rightarrow> if m \<in> set values then m else lit d | _ \<Rightarrow> lit d)"

definition condition_of :: "jstring \<Rightarrow> obj \<Rightarrow> condition" where
  "condition_of i ps =
     \<lparr>c_id = i, c_path = str_field ps ''path'', c_mode = mode_field CONDITION_MODE_VALUES ''full'' ps,
      c_value_text = toValueText (get ps ''value''), c_invert = (get ps ''invert'' = JBool True),
      c_pass_missing_key = (get ps ''pass_missing_key'' = JBool True)\<rparr>"

definition normalizeCondition :: "clock \<Rightarrow> jval \<Rightarrow> nat \<Rightarrow> (condition \<times> nat) option" where
  "normalizeCondition now v n = map_option (\<lambda>ps. (condition_of (nextLocalId now n) ps, Suc n)) (fields_of v)"

definition createDefaultCondition :: "clock \<Rightarrow> nat \<Rightarrow> condition \<times> nat" where
  "createDefaultCondition now n = (condition_of (nextLocalId now n) [], Suc n)"

text \<open>\<^verbatim>\<open>s.toUpperCase()\<close> and \<^verbatim>\<open>s.toLowerCase()\<close> on ASCII letters, which decides the comparisons made here: no other
  character maps to a letter of the words compared with.\<close>

definition upper_ascii :: "jstring \<Rightarrow> jstring" where
  "upper_ascii s = map (\<lambda>c. if 97 \<le> c \<and> c \<le> 122 then c - 32 else c) s"

definition lower_ascii :: "jstring \<Rightarrow> jstring" where
  "lower_ascii s = map (\<lambda>c. if 65 \<le> c \<and> c \<le> 90 then c + 32 else c) s"

definition logic_field :: "obj \<Rightarrow> jstring" where
  "logic_field ps =
     (if upper_ascii (str_of (jor (get ps ''logic'') (jstr_lit ''OR''))) = lit ''AND'' then lit ''AND'' else lit ''OR'')"

definition operation_of :: "jstring \<Rightarrow> obj \<Rightarrow> condition list \<Rightarrow> operation" where
  "operation_of i ps cs =
     \<lparr>o_id = i, o_description = str_field ps ''description'', o_path = str_field ps ''path'',
      o_mode = mode_field OPERATION_MODE_VALUES ''set'' ps, o_from = str_field ps ''from'', o_to = str_field ps ''to'',
      o_value_text = toValueText (get ps ''value''), o_keep_origin = (get ps ''keep_origin'' = JBool True),
      o_logic = logic_field ps, o_conditions = cs\<rparr>"

definition normalizeOperation :: "clock \<Rightarrow> jval \<Rightarrow> nat \<Rightarrow> (operation \<times> nat) option" where
  "normalizeOperation now v n =
     (case fields_of v of
        None \<Rightarrow> None
      | Some ps \<Rightarrow>
          map_option (\<lambda>(cs, m). (operation_of (nextLocalId now n) ps cs, m))
            (case get ps ''conditions'' of JArr vs \<Rightarrow> map_gen (normalizeCondition now) vs (Suc n) | _ \<Rightarrow> Some ([], Suc n)))"

definition createDefaultOperation :: "clock \<Rightarrow> nat \<Rightarrow> operation \<times> nat" where
  "createDefaultOperation now n = (operation_of (nextLocalId now n) (obj_lit [(''mode'', jstr_lit ''set'')]) [], Suc n)"

datatype drop_position = Before | After

definition index_of :: "jstring \<Rightarrow> operation list \<Rightarrow> nat option" where
  "index_of i ops = (if i \<in> o_id ` set ops then Some (length (takeWhile (\<lambda>op. o_id op \<noteq> i) ops)) else None)"

definition reorderOperations :: "operation list \<Rightarrow> jstring \<Rightarrow> jstring \<Rightarrow> drop_position \<Rightarrow> operation list" where
  "reorderOperations ops sourceId targetId position =
     (if sourceId = [] \<or> targetId = [] \<or> sourceId = targetId then ops
      else
        case index_of sourceId ops of
          None \<Rightarrow> ops
        | Some srcIdx \<Rightarrow>
            (let moved = ops ! srcIdx; nxt = take srcIdx ops @ drop (Suc srcIdx) ops in
             case index_of targetId nxt of
               None \<Rightarrow> ops
             | Some t \<Rightarrow>
                 (let i = (if position = After then t + 1 else t) in take i nxt @ moved # drop i nxt)))"

definition isOperationBlank :: "operation \<Rightarrow> bool" where
  "isOperationBlank op \<longleftrightarrow>
     o_mode op = lit ''set'' \<and> trim (o_path op) = [] \<and> trim (o_from op) = [] \<and> trim (o_to op) = [] \<and>
     trim (o_value_text op) = [] \<and> \<not> o_keep_origin op \<and>
     \<not> list_ex (\<lambda>c. trim (c_path c) \<noteq> [] \<or> trim (c_value_text c) \<noteq> [] \<or> c_mode c \<noteq> lit ''full'' \<or>
                     c_invert c \<or> c_pass_missing_key c) (o_conditions op)"

text \<open>\<open>a || b\<close> on strings, and the summary line of a rule; 183 is the middle dot.\<close>

definition sor :: "jstring \<Rightarrow> jstring \<Rightarrow> jstring" where
  "sor a b = (if a = [] then b else a)"

definition mode_label :: "jstring \<Rightarrow> jstring" where
  "mode_label mode = (case map_of OPERATION_MODE_LABEL_MAP mode of Some l \<Rightarrow> sor l mode | None \<Rightarrow> mode)"

definition getOperationSummary :: "operation \<Rightarrow> nat \<Rightarrow> jstring" where
  "getOperationSummary op index =
     (let mode = sor (o_mode op) (lit ''set''); from = trim (o_from op); to = trim (o_to op); path = trim (o_path op);
          head = nat_str (index + 1) @ lit ''. '' @ mode_label mode @ [32, 183, 32] in
      if mode = lit ''sync_fields'' then head @ sor from (sor to (lit ''-''))
      else head @ sor path (sor from (sor to (lit ''-''))))"

section \<open>Texts of the form\<close>

definition getModeTagTailwind :: "jstring \<Rightarrow> jstring" where
  "getModeTagTailwind mode =
     (if includes_str mode (lit ''header'') then lit ''bg-cyan-500/15 text-cyan-700 dark:text-cyan-300 border-cyan-500/20''
      else if includes_str mode (lit ''replace'') \<or> includes_str mode (lit ''trim'')
        then lit ''bg-violet-500/15 text-violet-700 dark:text-violet-300 border-violet-500/20''
      else if includes_str mode (lit ''copy'') \<or> includes_str mode (lit ''move'')
        then lit ''bg-blue-500/15 text-blue-700 dark:text-blue-300 border-blue-500/20''
      else if includes_str mode (lit ''error'') \<or> includes_str mode (lit ''prune'')
        then lit ''bg-red-500/15 text-red-700 dark:text-red-300 border-red-500/20''
      else if includes_str mode (lit ''sync'')
        then lit ''bg-green-500/15 text-green-700 dark:text-green-300 border-green-500/20''
      else lit ''bg-muted text-muted-foreground'')"

definition is_mode :: "jstring \<Rightarrow> string list \<Rightarrow> bool" where
  "is_mode mode ms \<longleftrightarrow> mode \<in> set (map lit ms)"

definition getModePathLabel :: "jstring \<Rightarrow> string" where
  "getModePathLabel mode =
     (if is_mode mode [''set_header'', ''delete_header''] then ''Header Name''
      else if is_mode mode [''prune_objects''] then ''Target Path (optional)''
      else ''Target Field Path'')"

definition getModePathPlaceholder :: "jstring \<Rightarrow> string" where
  "getModePathPlaceholder mode =
     (if is_mode mode [''set_header''] then ''Authorization''
      else if is_mode mode [''delete_header''] then ''X-Debug-Mode''
      else if is_mode mode [''prune_objects''] then ''messages''
      else ''temperature'')"

definition getModeFromLabel :: "jstring \<Rightarrow> string" where
  "getModeFromLabel mode =
     (if is_mode mode [''replace''] then ''Match Text''
      else if is_mode mode [''regex_replace''] then ''Regex Pattern''
      else if is_mode mode [''copy_header'', ''move_header''] then ''Source Header''
      else ''Source Field'')"

definition getModeFromPlaceholder :: "jstring \<Rightarrow> string" where
  "getModeFromPlaceholder mode =
     (if is_mode mode [''replace''] then ''openai/''
      else if is_mode mode [''regex_replace''] then ''^gpt-''
      else if is_mode mode [''copy_header'', ''move_header''] then ''Authorization''
      else ''model'')"

definition getModeToLabel :: "jstring \<Rightarrow> string" where
  "getModeToLabel mode =
     (if is_mode mode [''replace'', ''regex_replace''] then ''Replace With''
      else if is_mode mode [''copy_header'', ''move_header''] then ''Target Header''
      else ''Target Field'')"

definition getModeToPlaceholder :: "jstring \<Rightarrow> string" where
  "getModeToPlaceholder mode =
     (if is_mode mode [''replace''] then ''(leave empty to delete)''
      else if is_mode mode [''regex_replace''] then ''openai/gpt-''
      else if is_mode mode [''copy_header'', ''move_header''] then ''X-Upstream-Auth''
      else ''original_model'')"

definition getModeValueLabel :: "jstring \<Rightarrow> string" where
  "getModeValueLabel mode =
     (if is_mode mode [''set_header''] then ''Header Value (supports string or JSON mapping)''
      else if is_mode mode [''pass_headers''] then ''Pass-through Headers (comma-separated or JSON array)''
      else if is_mode mode [''trim_prefix'', ''trim_suffix'', ''ensure_prefix'', ''ensure_suffix''] then ''Prefix/Suffix Text''
      else if is_mode mode [''prune_objects''] then ''Prune Rule (string or JSON object)''
      else ''Value (supports JSON or plain text)'')"

definition getModeValuePlaceholder :: "jstring \<Rightarrow> string" where
  "getModeValuePlaceholder mode =
     (if is_mode mode [''set_header''] then ''Bearer sk-xxx''
      else if is_mode mode [''pass_headers''] then ''Authorization, X-Request-Id''
      else if is_mode mode [''trim_prefix'', ''trim_suffix'', ''ensure_prefix'', ''ensure_suffix''] then ''openai/''
      else if is_mode mode [''prune_objects''] then ''{\"type\":\"redacted_thinking\"}''
      else ''0.7'')"

section \<open>Values with an editor of their own\<close>

text \<open>A synchronisation target: a field of the body or a header.\<close>

definition parseSyncTargetSpec :: "jstring \<Rightarrow> jstring \<times> jstring" where
  "parseSyncTargetSpec spec =
     (let raw = trim spec in
      if raw = [] then (lit ''json'', [])
      else if 58 \<notin> set raw then (lit ''json'', raw)
      else
        let prefix = lower_ascii (trim (takeWhile (\<lambda>c. c \<noteq> 58) raw)); key = trim (tl (dropWhile (\<lambda>c. c \<noteq> 58) raw)) in
        if prefix = lit ''header'' then (lit ''header'', key) else (lit ''json'', key))"

definition buildSyncTargetSpec :: "jstring \<Rightarrow> jstring \<Rightarrow> jstring" where
  "buildSyncTargetSpec type key =
     (let normalizedType = (if type = lit ''header'' then lit ''header'' else lit ''json''); normalizedKey = trim key in
      if normalizedKey = [] then [] else normalizedType @ lit '':'' @ normalizedKey)"

text \<open>The custom error of the mode \<^verbatim>\<open>return_error\<close>.\<close>

record return_error_draft =
  r_message :: jstring
  r_statusCode :: jsnum
  r_code :: jstring
  r_type :: jstring
  r_skipRetry :: bool
  r_simpleMode :: bool

definition status_or_400 :: "jsnum \<Rightarrow> jsnum" where
  "status_or_400 x = (if is_integer x \<and> jle (Fin 100) x \<and> jle x (Fin 599) then x else Fin 400)"

definition return_error_defaults :: return_error_draft where
  "return_error_defaults =
     \<lparr>r_message = [], r_statusCode = Fin 400, r_code = [], r_type = [], r_skipRetry = True, r_simpleMode = True\<rparr>"

definition text_or_empty :: "jval \<Rightarrow> jstring" where
  "text_or_empty v = trim (str_of (jor v (JStr [])))"

definition parseReturnErrorDraft :: "jstring \<Rightarrow> return_error_draft" where
  "parseReturnErrorDraft valueText =
     (let raw = trim valueText in
      if raw = [] then return_error_defaults
      else
        case Option.bind (json_parse raw) as_object of
          Some parsed \<Rightarrow>
            (let statusRaw = (if get parsed ''status_code'' \<noteq> JUndef then get parsed ''status_code'' else get parsed ''status'') in
             \<lparr>r_message = text_or_empty (jor (get parsed ''message'') (get parsed ''msg'')),
              r_statusCode = status_or_400 (num_of statusRaw),
              r_code = text_or_empty (get parsed ''code''), r_type = text_or_empty (get parsed ''type''),
              r_skipRetry = (get parsed ''skip_retry'' \<noteq> JBool False), r_simpleMode = False\<rparr>)
        | None \<Rightarrow> return_error_defaults\<lparr>r_message := raw, r_simpleMode := True\<rparr>)"

definition put_if :: "bool \<Rightarrow> string \<Rightarrow> jval \<Rightarrow> obj \<Rightarrow> obj" where
  "put_if b k v ps = (if b then obj_put (lit k) v ps else ps)"

definition return_error_payload :: "return_error_draft \<Rightarrow> obj" where
  "return_error_payload draft =
     put_if (\<not> r_skipRetry draft) ''skip_retry'' (JBool False)
       (put_if (trim (r_type draft) \<noteq> []) ''type'' (JStr (trim (r_type draft)))
         (put_if (trim (r_code draft) \<noteq> []) ''code'' (JStr (trim (r_code draft)))
           (obj_lit [(''message'', JStr (trim (r_message draft))), (''status_code'', JNum (status_or_400 (r_statusCode draft)))])))"

definition buildReturnErrorValueText :: "return_error_draft \<Rightarrow> jstring" where
  "buildReturnErrorValueText draft =
     (if r_simpleMode draft then trim (r_message draft) else json_text (JObj (return_error_payload draft)))"

text \<open>The rules of the mode \<^verbatim>\<open>prune_objects\<close>; a prune rule has the fields of a condition.\<close>

record prune_draft =
  p_simpleMode :: bool
  p_typeText :: jstring
  p_logic :: jstring
  p_recursive :: bool
  p_rules :: "condition list"

definition prune_defaults :: prune_draft where
  "prune_defaults = \<lparr>p_simpleMode = True, p_typeText = [], p_logic = lit ''AND'', p_recursive = True, p_rules = []\<rparr>"

definition normalizePruneRule :: "clock \<Rightarrow> obj \<Rightarrow> nat \<Rightarrow> (condition \<times> nat) option" where
  "normalizePruneRule now rule n = Some (condition_of (nextLocalId now n) rule, Suc n)"

text \<open>The objects from which \<^verbatim>\<open>parsePruneObjectsDraft\<close> makes rules, in order.\<close>

definition entry_rules :: "jval \<Rightarrow> obj list" where
  "entry_rules v =
     (case v of JObj ps \<Rightarrow> map (\<lambda>(path, w). obj_lit [(''path'', JStr path), (''mode'', jstr_lit ''full''), (''value'', w)]) ps
      | _ \<Rightarrow> [])"

definition item_rules :: "jval list \<Rightarrow> obj list" where
  "item_rules items = List.map_filter (\<lambda>v. case v of JObj ps \<Rightarrow> Some ps | JArr _ \<Rightarrow> Some [] | _ \<Rightarrow> None) items"

definition rule_objects :: "obj \<Rightarrow> obj list" where
  "rule_objects parsed =
     entry_rules (get parsed ''where'') @
     (case get parsed ''conditions'' of JArr items \<Rightarrow> item_rules items | v \<Rightarrow> entry_rules v)"

definition or_logic :: "jval \<Rightarrow> jstring" where
  "or_logic v = (if upper_ascii (str_of (jor v (jstr_lit ''AND''))) = lit ''OR'' then lit ''OR'' else lit ''AND'')"

definition prune_draft_of :: "obj \<Rightarrow> condition list \<Rightarrow> prune_draft" where
  "prune_draft_of parsed rules =
     \<lparr>p_simpleMode = (\<not> list_ex (\<lambda>k. get parsed k \<noteq> JUndef) [''logic'', ''recursive'', ''where'', ''conditions'']),
      p_typeText = (if get parsed ''type'' = JUndef then [] else trim (str_of (get parsed ''type''))),
      p_logic = or_logic (get parsed ''logic''), p_recursive = (get parsed ''recursive'' \<noteq> JBool False), p_rules = rules\<rparr>"

definition parsePruneObjectsDraft :: "clock \<Rightarrow> jstring \<Rightarrow> nat \<Rightarrow> (prune_draft \<times> nat) option" where
  "parsePruneObjectsDraft now valueText n =
     (let raw = trim valueText in
      if raw = [] then Some (prune_defaults, n)
      else
        case json_parse raw of
          None \<Rightarrow> Some (prune_defaults\<lparr>p_typeText := raw\<rparr>, n)
        | Some (JStr s) \<Rightarrow> Some (prune_defaults\<lparr>p_typeText := trim s\<rparr>, n)
        | Some (JObj parsed) \<Rightarrow>
            map_option (\<lambda>(rules, m). (prune_draft_of parsed rules, m)) (map_gen (normalizePruneRule now) (rule_objects parsed) n)
        | Some v \<Rightarrow> Some (prune_defaults\<lparr>p_typeText := trim (str_of (jcoalesce v (JStr [])))\<rparr>, n))"

definition prune_rule_payload :: "condition \<Rightarrow> obj" where
  "prune_rule_payload rule =
     put_if (c_pass_missing_key rule) ''pass_missing_key'' (JBool True)
       (put_if (c_invert rule) ''invert'' (JBool True)
         (put_if (trim (c_value_text rule) \<noteq> []) ''value'' (parseLooseValue (trim (c_value_text rule)))
           (obj_lit [(''path'', JStr (trim (c_path rule))),
                     (''mode'', JStr (if c_mode rule \<in> set CONDITION_MODE_VALUES then c_mode rule else lit ''full''))])))"

definition prune_payload :: "prune_draft \<Rightarrow> obj" where
  "prune_payload draft =
     (let typeText = trim (p_typeText draft);
          conditions = map (\<lambda>r. JObj (prune_rule_payload r)) (filter (\<lambda>r. trim (c_path r) \<noteq> []) (p_rules draft)) in
      put_if (conditions \<noteq> []) ''conditions'' (JArr conditions)
        (put_if (\<not> p_recursive draft) ''recursive'' (JBool False)
          (put_if (upper_ascii (sor (p_logic draft) (lit ''AND'')) = lit ''OR'') ''logic'' (jstr_lit ''OR'')
            (put_if (typeText \<noteq> []) ''type'' (JStr typeText) []))))"

definition buildPruneObjectsValueText :: "prune_draft \<Rightarrow> jstring" where
  "buildPruneObjectsValueText draft =
     (if p_simpleMode draft then trim (p_typeText draft)
      else
        let payload = prune_payload draft in
        if \<not> truthy (get payload ''type'') \<and> \<not> truthy (get payload ''conditions'')
        then json_text (JObj (obj_lit [(''logic'', jstr_lit ''AND'')]))
        else json_text (JObj payload))"

section \<open>Validation\<close>

text \<open>The messages carry the number of the rule.\<close>

datatype rule_error =
    MissingTargetPath nat
  | MissingSourceField nat
  | MissingTargetField nat
  | MissingValue nat
  | ReturnErrorNeedsMessage nat
  | PruneNeedsConditions nat
  | PassHeadersMissing nat
  | PassHeadersInvalid nat

definition trimmed_names :: "jval list \<Rightarrow> jstring list" where
  "trimmed_names vs = filter (\<lambda>s. s \<noteq> []) (map (\<lambda>v. trim (str_of (jcoalesce v (JStr [])))) vs)"

definition parsePassHeaderNames :: "jval \<Rightarrow> jstring list" where
  "parsePassHeaderNames rawValue =
     (case rawValue of
        JArr vs \<Rightarrow> trimmed_names vs
      | JObj ps \<Rightarrow>
          (case get ps ''headers'' of
             JArr vs \<Rightarrow> trimmed_names vs
           | _ \<Rightarrow> if get ps ''header'' \<noteq> JUndef then trimmed_names [get ps ''header''] else [])
      | JStr s \<Rightarrow> split_trim 44 s
      | _ \<Rightarrow> [])"

fun first_some :: "'a option list \<Rightarrow> 'a option" where
  "first_some [] = None"
| "first_some (x # xs) = (case x of None \<Rightarrow> first_some xs | Some a \<Rightarrow> Some a)"

definition err_if :: "bool \<Rightarrow> 'e \<Rightarrow> 'e option" where
  "err_if b e = (if b then Some e else None)"

definition alias_path :: "operation \<Rightarrow> bool" where
  "alias_path op \<longleftrightarrow> m_pathAlias (meta_of (sor (o_mode op) (lit ''set''))) \<and> trim (o_path op) \<noteq> []"

definition lacks_message :: "jstring \<Rightarrow> bool" where
  "lacks_message raw =
     (case Option.bind (json_parse raw) as_object of Some ps \<Rightarrow> text_or_empty (get ps ''message'') = [] | None \<Rightarrow> False)"

definition validate_rule :: "nat \<Rightarrow> operation \<Rightarrow> rule_error option" where
  "validate_rule line op =
     (let mode = sor (o_mode op) (lit ''set''); meta = meta_of mode; raw = trim (o_value_text op) in
      first_some
        [err_if (m_path meta \<and> trim (o_path op) = []) (MissingTargetPath line),
         err_if (mode \<in> set FROM_REQUIRED_MODES \<and> trim (o_from op) = [] \<and> \<not> alias_path op) (MissingSourceField line),
         err_if (mode \<in> set TO_REQUIRED_MODES \<and> trim (o_to op) = [] \<and> \<not> alias_path op) (MissingTargetField line),
         err_if (mode \<in> set VALUE_REQUIRED_MODES \<and> raw = []) (MissingValue line),
         err_if (mode = lit ''return_error'' \<and> raw = []) (MissingValue line),
         err_if (mode = lit ''return_error'' \<and> lacks_message raw) (ReturnErrorNeedsMessage line),
         err_if (mode = lit ''prune_objects'' \<and> raw = []) (PruneNeedsConditions line),
         err_if (mode = lit ''pass_headers'' \<and> raw = []) (PassHeadersMissing line),
         err_if (mode = lit ''pass_headers'' \<and> parsePassHeaderNames (parseLooseValue raw) = []) (PassHeadersInvalid line)])"

definition validateOperations :: "operation list \<Rightarrow> rule_error option" where
  "validateOperations ops = first_some (map (\<lambda>(i, op). validate_rule (i + 1) op) (enumerate 0 ops))"

section \<open>The saved text\<close>

definition buildConditionPayload :: "condition \<Rightarrow> obj option" where
  "buildConditionPayload c =
     (let path = trim (c_path c) in
      if path = [] then None
      else Some
        (put_if (c_pass_missing_key c) ''pass_missing_key'' (JBool True)
          (put_if (c_invert c) ''invert'' (JBool True)
            (obj_lit [(''path'', JStr path), (''mode'', JStr (sor (c_mode c) (lit ''full''))),
                      (''value'', parseLooseValue (c_value_text c))]))))"

definition rule_fields :: "operation \<Rightarrow> obj" where
  "rule_fields op =
     (let mode = sor (o_mode op) (lit ''set''); meta = meta_of mode; path = trim (o_path op); to = trim (o_to op) in
      put_if (m_to meta = Some True) ''to'' (JStr to)
       (put_if (m_to meta \<noteq> Some True \<and> to \<noteq> []) ''to'' (JStr to)
        (put_if (m_from meta) ''from'' (JStr (trim (o_from op)))
         (put_if (m_keepOrigin meta \<and> o_keep_origin op) ''keep_origin'' (JBool True)
          (put_if (m_value meta) ''value'' (parseLooseValue (o_value_text op))
           (put_if (m_pathOptional meta \<and> path \<noteq> []) ''path'' (JStr path)
            (put_if (m_path meta) ''path'' (JStr path)
             (put_if (trim (o_description op) \<noteq> []) ''description'' (JStr (trim (o_description op)))
              (obj_lit [(''mode'', JStr mode)])))))))))"

definition apply_alias :: "operation \<Rightarrow> obj \<Rightarrow> obj" where
  "apply_alias op ps =
     (let path = trim (o_path op);
          ps1 = put_if (\<not> truthy (get ps ''from'') \<and> path \<noteq> []) ''from'' (JStr path) ps in
      put_if (\<not> truthy (get ps1 ''to'') \<and> path \<noteq> []) ''to'' (JStr path) ps1)"

definition operation_payload :: "operation \<Rightarrow> obj" where
  "operation_payload op =
     (let ps = rule_fields op;
          ps1 = (if m_pathAlias (meta_of (sor (o_mode op) (lit ''set''))) then apply_alias op ps else ps);
          conditions = map JObj (List.map_filter buildConditionPayload (o_conditions op)) in
      if conditions = [] then ps1
      else obj_put (lit ''logic'') (JStr (if o_logic op = lit ''AND'' then lit ''AND'' else lit ''OR''))
             (obj_put (lit ''conditions'') (JArr conditions) ps1))"

definition rules_text :: "operation list \<Rightarrow> jstring" where
  "rules_text ops = json_pretty (JObj (obj_lit [(''operations'', JArr (map (\<lambda>op. JObj (operation_payload op)) ops))]))"

definition buildOperationsJson :: "bool \<Rightarrow> operation list \<Rightarrow> rule_error + jstring" where
  "buildOperationsJson validate sourceOperations =
     (let filteredOps = filter (\<lambda>op. \<not> isOperationBlank op) sourceOperations in
      if filteredOps = [] then Inr []
      else
        case (if validate then validateOperations filteredOps else None) of
          Some e \<Rightarrow> Inl e
        | None \<Rightarrow> Inr (rules_text filteredOps))"

section \<open>Loading\<close>

datatype edit_mode = Visual | Json
datatype visual_mode = Operations | Legacy

datatype editor_msg =
    InvalidJsonFormat
  | JsonFormatError
  | MustBeValidJson
  | LegacyMustBeObject
  | LegacyAppendInvalid
  | MustBeJsonObject
  | RuleMsg rule_error

record editor_state =
  s_editMode :: edit_mode
  s_visualMode :: visual_mode
  s_legacyValue :: jstring
  s_operations :: "operation list"
  s_jsonText :: jstring
  s_jsonError :: "editor_msg option"

text \<open>The rules of a parsed list, or a single default rule when it is empty.\<close>

definition load_rules :: "clock \<Rightarrow> jval list \<Rightarrow> nat \<Rightarrow> (operation list \<times> nat) option" where
  "load_rules now vs n =
     (if vs = [] then Some (apfst (\<lambda>op. [op]) (createDefaultOperation now n)) else map_gen (normalizeOperation now) vs n)"

definition parseInitialState :: "clock \<Rightarrow> jstring \<Rightarrow> nat \<Rightarrow> (editor_state \<times> nat) option" where
  "parseInitialState now text n =
     (let trimmed = trim text; (dflt, m) = createDefaultOperation now n in
      if trimmed = [] then
        Some (\<lparr>s_editMode = Visual, s_visualMode = Operations, s_legacyValue = [], s_operations = [dflt],
               s_jsonText = [], s_jsonError = None\<rparr>, m)
      else
        case json_parse trimmed of
          None \<Rightarrow>
            Some (\<lparr>s_editMode = Json, s_visualMode = Operations, s_legacyValue = [], s_operations = [dflt],
                   s_jsonText = text, s_jsonError = Some InvalidJsonFormat\<rparr>, m)
        | Some parsed \<Rightarrow>
            (let pretty = json_pretty parsed in
             case parsed of
               JObj ps \<Rightarrow>
                 (case get ps ''operations'' of
                    JArr vs \<Rightarrow>
                      map_option (\<lambda>(ops, k).
                          (\<lparr>s_editMode = Visual, s_visualMode = Operations, s_legacyValue = [], s_operations = ops,
                            s_jsonText = pretty, s_jsonError = None\<rparr>, k))
                        (load_rules now vs n)
                  | _ \<Rightarrow>
                      Some (\<lparr>s_editMode = Visual, s_visualMode = Legacy, s_legacyValue = pretty, s_operations = [dflt],
                             s_jsonText = pretty, s_jsonError = None\<rparr>, m))
             | _ \<Rightarrow>
                 Some (\<lparr>s_editMode = Json, s_visualMode = Operations, s_legacyValue = [], s_operations = [dflt],
                        s_jsonText = pretty, s_jsonError = None\<rparr>, m)))"

end
