(* ===== verification/Param_Override_Props.thy ===== *)
theory Param_Override_Props
  imports Param_Override
begin

text \<open>
  Properties of the rules of the parameter override editor: what is saved is loaded again, what the validation
  accepts, drag and drop, and the editors of single values.
\<close>

section \<open>Reading a payload\<close>

lemma get_put_if: "get (put_if b k v ps) k' = (if b \<and> k' = k then v else get ps k')"
  by (simp add: put_if_def lit_inj del: list.map)

lemma get_put_lit: "get (obj_put (lit k) v ps) k' = (if k' = k then v else get ps k')"
  by (simp add: lit_inj del: list.map)

primrec names :: "(string \<times> jval) list \<Rightarrow> string list" where
  "names [] = []"
| "names (kv # kvs) = fst kv # names kvs"

lemma get_lit: "distinct (names kvs) \<Longrightarrow> get (obj_lit kvs) k = (case map_of kvs k of None \<Rightarrow> JUndef | Some v \<Rightarrow> v)"
proof -
  have "names kvs = map fst kvs" by (induction kvs) auto
  then show "distinct (names kvs) \<Longrightarrow> ?thesis" by (simp add: get_obj_lit)
qed

lemmas payload_get = get_put_if get_put_lit get_lit lit_inj

text \<open>The keys the editor writes are not array indices.\<close>

lemma key_oks:
  "key_ok (lit ''mode'')"
  "key_ok (lit ''description'')"
  "key_ok (lit ''path'')"
  "key_ok (lit ''value'')"
  "key_ok (lit ''keep_origin'')"
  "key_ok (lit ''from'')"
  "key_ok (lit ''to'')"
  "key_ok (lit ''conditions'')"
  "key_ok (lit ''logic'')"
  "key_ok (lit ''invert'')"
  "key_ok (lit ''pass_missing_key'')"
  "key_ok (lit ''operations'')"
  "key_ok (lit ''message'')"
  "key_ok (lit ''status_code'')"
  "key_ok (lit ''code'')"
  "key_ok (lit ''type'')"
  "key_ok (lit ''skip_retry'')"
  "key_ok (lit ''recursive'')"
  by code_simp+

lemma put_if_ok: "json_ok (JObj ps) \<Longrightarrow> key_ok (lit k) \<Longrightarrow> b \<longrightarrow> json_ok v \<Longrightarrow> json_ok (JObj (put_if b k v ps))"
  by (cases b) (simp_all only: put_if_def json_ok_put if_True if_False simp_thms)

section \<open>Rules the editor can represent\<close>

definition trimmed_unit :: "jstring \<Rightarrow> bool" where
  "trimmed_unit s \<longleftrightarrow> trim s = s \<and> unit_str s"

text \<open>A value text is the text of the value it stands for.\<close>

definition value_ok :: "jstring \<Rightarrow> bool" where
  "value_ok vt \<longleftrightarrow> json_ok (parseLooseValue vt) \<and> toValueText (parseLooseValue vt) = vt"

definition cond_ok :: "condition \<Rightarrow> bool" where
  "cond_ok c \<longleftrightarrow> trimmed_unit (c_path c) \<and> c_path c \<noteq> [] \<and> c_mode c \<in> set CONDITION_MODE_VALUES \<and> value_ok (c_value_text c)"

definition op_ok :: "operation \<Rightarrow> bool" where
  "op_ok op \<longleftrightarrow>
     (let meta = meta_of (o_mode op) in
      o_mode op \<in> set OPERATION_MODE_VALUES \<and> trimmed_unit (o_description op) \<and> trimmed_unit (o_path op) \<and>
      trimmed_unit (o_from op) \<and> trimmed_unit (o_to op) \<and>
      (m_path meta \<or> m_pathOptional meta \<or> o_path op = []) \<and> (m_from meta \<or> o_from op = []) \<and>
      (if m_value meta then value_ok (o_value_text op) else o_value_text op = []) \<and>
      (m_keepOrigin meta \<or> \<not> o_keep_origin op) \<and>
      (o_logic op = lit ''OR'' \<or> o_logic op = lit ''AND'' \<and> o_conditions op \<noteq> []) \<and> list_all cond_ok (o_conditions op))"

definition erase_cond :: "condition \<Rightarrow> condition" where
  "erase_cond c = c\<lparr>c_id := []\<rparr>"

definition erase_ids :: "operation \<Rightarrow> operation" where
  "erase_ids op = op\<lparr>o_id := [], o_conditions := map erase_cond (o_conditions op)\<rparr>"

lemma modes_ok:
  "list_all (\<lambda>m. m \<noteq> [] \<and> unit_str m) (OPERATION_MODE_VALUES @ CONDITION_MODE_VALUES)"
  by code_simp

lemma mode_not_Nil:
  "m \<in> set OPERATION_MODE_VALUES \<Longrightarrow> m \<noteq> [] \<and> unit_str m" "m \<in> set CONDITION_MODE_VALUES \<Longrightarrow> m \<noteq> [] \<and> unit_str m"
  using modes_ok by (auto simp: list_all_iff)

lemma sor_id: "m \<noteq> [] \<Longrightarrow> sor m d = m"
  by (simp add: sor_def)

lemma cond_payload:
  assumes "cond_ok c"
  obtains ps where "buildConditionPayload c = Some ps" and "json_ok (JObj ps)"
    and "\<forall>i. condition_of i ps = c\<lparr>c_id := i\<rparr>"
proof -
  from assms have c: "trim (c_path c) = c_path c" "unit_str (c_path c)" "c_path c \<noteq> []" "c_mode c \<in> set CONDITION_MODE_VALUES"
    "json_ok (parseLooseValue (c_value_text c))" "toValueText (parseLooseValue (c_value_text c)) = c_value_text c"
    by (auto simp: cond_ok_def trimmed_unit_def value_ok_def)
  note m = mode_not_Nil(2) [OF c(4)]
  let ?base = "obj_lit [(''path'', JStr (c_path c)), (''mode'', JStr (c_mode c)), (''value'', parseLooseValue (c_value_text c))]"
  define ps where "ps = put_if (c_pass_missing_key c) ''pass_missing_key'' (JBool True) (put_if (c_invert c) ''invert'' (JBool True) ?base)"
  have "buildConditionPayload c = Some ps" using c m by (simp add: buildConditionPayload_def Let_def ps_def sor_id)
  moreover have "json_ok (JObj ?base)" using c m key_oks by (intro json_ok_lit) (simp del: list.map)
  then have "json_ok (JObj ps)" unfolding ps_def using key_oks by (intro put_if_ok) (simp_all del: list.map json_ok.simps(7))
  moreover have "condition_of i ps = c\<lparr>c_id := i\<rparr>" for i
    using c(4,6)
    by (cases c) (simp add: condition_of_def ps_def str_field_def mode_field_def payload_get del: list.map)
  ultimately show thesis using that by blast
qed

lemma conditions_payload:
  assumes "list_all cond_ok cs"
  obtains pss where "List.map_filter buildConditionPayload cs = pss" and "length pss = length cs"
    and "json_ok (JArr (map JObj pss))"
    and "\<forall>n. \<exists>cs'. map_gen (normalizeCondition now) (map JObj pss) n = Some (cs', n + length cs) \<and> map erase_cond cs' = map erase_cond cs"
  using assms
proof (induction cs arbitrary: thesis)
  case Nil
  show ?case by (rule Nil.prems(1) [of "[]"]) (simp_all add: List.map_filter_def)
next
  case (Cons c cs)
  from Cons.prems(2) have c: "cond_ok c" and cs: "list_all cond_ok cs" by simp_all
  from c obtain ps where p: "buildConditionPayload c = Some ps" "json_ok (JObj ps)" "\<forall>i. condition_of i ps = c\<lparr>c_id := i\<rparr>"
    by (rule cond_payload)
  from Cons.IH [OF _ cs] obtain pss where q: "List.map_filter buildConditionPayload cs = pss" "length pss = length cs"
    "json_ok (JArr (map JObj pss))"
    "\<forall>n. \<exists>cs'. map_gen (normalizeCondition now) (map JObj pss) n = Some (cs', n + length cs) \<and> map erase_cond cs' = map erase_cond cs"
    by blast
  show ?case
  proof (rule Cons.prems(1) [of "ps # pss"])
    show "List.map_filter buildConditionPayload (c # cs) = ps # pss" using p q by (simp add: map_filter_simps)
    show "length (ps # pss) = length (c # cs)" using q by simp
    show "json_ok (JArr (map JObj (ps # pss)))" using p(2) q(3) by simp
    show "\<forall>n. \<exists>cs'. map_gen (normalizeCondition now) (map JObj (ps # pss)) n = Some (cs', n + length (c # cs)) \<and>
        map erase_cond cs' = map erase_cond (c # cs)"
    proof
      fix n
      obtain cs' where "map_gen (normalizeCondition now) (map JObj pss) (Suc n) = Some (cs', Suc n + length cs)"
        "map erase_cond cs' = map erase_cond cs" using q(4) by blast
      then show "\<exists>cs'. map_gen (normalizeCondition now) (map JObj (ps # pss)) n = Some (cs', n + length (c # cs)) \<and>
        map erase_cond cs' = map erase_cond (c # cs)"
      by (simp add: normalizeCondition_def fields_of_def p(3) erase_cond_def)
    qed
  qed
qed

lemma op_okD:
  assumes "op_ok op"
  shows "o_mode op \<in> set OPERATION_MODE_VALUES" "sor (o_mode op) d = o_mode op" "unit_str (o_mode op)"
    "trim (o_description op) = o_description op" "trim (o_path op) = o_path op" "trim (o_from op) = o_from op" "trim (o_to op) = o_to op"
    "unit_str (o_description op)" "unit_str (o_path op)" "unit_str (o_from op)" "unit_str (o_to op)"
    "list_all cond_ok (o_conditions op)"
    "m_path (meta_of (o_mode op)) \<or> m_pathOptional (meta_of (o_mode op)) \<or> o_path op = []"
    "m_from (meta_of (o_mode op)) \<or> o_from op = []"
    "if m_value (meta_of (o_mode op)) then value_ok (o_value_text op) else o_value_text op = []"
    "m_keepOrigin (meta_of (o_mode op)) \<or> \<not> o_keep_origin op"
    "o_logic op = lit ''OR'' \<or> o_logic op = lit ''AND'' \<and> o_conditions op \<noteq> []"
  using assms mode_not_Nil(1) [of "o_mode op"] by (auto simp: op_ok_def Let_def trimmed_unit_def sor_def)

text \<open>The modes whose source and target fall back on the path have no path field.\<close>

lemma alias_no_path: "list_all (\<lambda>m. m_pathAlias (meta_of m) \<longrightarrow> \<not> m_path (meta_of m) \<and> \<not> m_pathOptional (meta_of m)) OPERATION_MODE_VALUES"
  by code_simp

lemma payload_no_alias:
  assumes "op_ok op"
  shows "operation_payload op =
    (let conditions = map JObj (List.map_filter buildConditionPayload (o_conditions op)) in
     if conditions = [] then rule_fields op
     else obj_put (lit ''logic'') (JStr (o_logic op)) (obj_put (lit ''conditions'') (JArr conditions) (rule_fields op)))"
proof -
  note d = op_okD [OF assms]
  have "(if m_pathAlias (meta_of (o_mode op)) then apply_alias op (rule_fields op) else rule_fields op) = rule_fields op"
  proof (cases "m_pathAlias (meta_of (o_mode op))")
    case True
    then have "o_path op = []" using alias_no_path d(1,13) by (auto simp: list_all_iff)
    then show ?thesis by (simp add: apply_alias_def put_if_def)
  qed simp
  moreover have "(if o_logic op = lit ''AND'' then lit ''AND'' else lit ''OR'') = o_logic op" using d(17) by auto
  ultimately show ?thesis by (simp only: operation_payload_def Let_def d(2))
qed

lemma rule_fields_ok:
  assumes "op_ok op"
  shows "json_ok (JObj (rule_fields op))"
proof -
  note d = op_okD [OF assms]
  have v: "m_value (meta_of (o_mode op)) \<longrightarrow> json_ok (parseLooseValue (o_value_text op))"
    using d(15) by (auto simp: value_ok_def)
  have "json_ok (JObj (obj_lit [(''mode'', JStr (o_mode op))]))"
    using d(3) key_oks by (intro json_ok_lit) (simp del: list.map)
  then show ?thesis
    unfolding rule_fields_def Let_def d(2,4-7) using d(8-11) v key_oks
    by (intro put_if_ok) (simp_all del: list.map json_ok.simps(7))
qed

text \<open>Reading the fields of the payload of a rule gives the rule.\<close>

lemma rule_fields_read:
  assumes "op_ok op"
  shows "str_field (rule_fields op) ''description'' = o_description op" "str_field (rule_fields op) ''path'' = o_path op"
    "str_field (rule_fields op) ''from'' = o_from op" "str_field (rule_fields op) ''to'' = o_to op"
    "mode_field OPERATION_MODE_VALUES ''set'' (rule_fields op) = o_mode op"
    "toValueText (get (rule_fields op) ''value'') = o_value_text op"
    "get (rule_fields op) ''keep_origin'' = JBool True \<longleftrightarrow> o_keep_origin op"
    "get (rule_fields op) ''logic'' = JUndef" "get (rule_fields op) ''conditions'' = JUndef"
proof -
  note d = op_okD [OF assms]
  note f = rule_fields_def Let_def d(2,4-7) payload_get str_field_def mode_field_def
  show "str_field (rule_fields op) ''description'' = o_description op" by (simp add: f del: list.map)
  show "str_field (rule_fields op) ''path'' = o_path op" using d(13) by (auto simp: f simp del: list.map)
  show "str_field (rule_fields op) ''from'' = o_from op" using d(14) by (auto simp: f simp del: list.map)
  show "str_field (rule_fields op) ''to'' = o_to op" by (simp add: f del: list.map)
  show "mode_field OPERATION_MODE_VALUES ''set'' (rule_fields op) = o_mode op" using d(1) by (simp add: f del: list.map)
  show "toValueText (get (rule_fields op) ''value'') = o_value_text op"
    using d(15) by (auto simp: f value_ok_def toValueText_def [of JUndef] simp del: list.map split: if_splits)
  show "get (rule_fields op) ''keep_origin'' = JBool True \<longleftrightarrow> o_keep_origin op"
    using d(16) by (auto simp: f simp del: list.map)
  show "get (rule_fields op) ''logic'' = JUndef" "get (rule_fields op) ''conditions'' = JUndef"
    by (simp_all add: f del: list.map)
qed

lemma normalize_payload:
  assumes "op_ok op"
  shows "json_ok (JObj (operation_payload op))"
    and "\<exists>op' m. normalizeOperation now (JObj (operation_payload op)) n = Some (op', m) \<and> erase_ids op' = erase_ids op"
proof -
  note d = op_okD [OF assms] and r = rule_fields_read [OF assms] and ok = rule_fields_ok [OF assms]
  obtain pss where c: "List.map_filter buildConditionPayload (o_conditions op) = pss" "length pss = length (o_conditions op)"
    "json_ok (JArr (map JObj pss))"
    "\<forall>n. \<exists>cs'. map_gen (normalizeCondition now) (map JObj pss) n = Some (cs', n + length (o_conditions op)) \<and>
        map erase_cond cs' = map erase_cond (o_conditions op)"
    using d(12) by (rule conditions_payload)
  let ?P = "obj_put (lit ''logic'') (JStr (o_logic op)) (obj_put (lit ''conditions'') (JArr (map JObj pss)) (rule_fields op))"
  have P: "operation_payload op = (if pss = [] then rule_fields op else ?P)"
    unfolding payload_no_alias [OF assms] Let_def c(1) by simp
  have "json_ok (JStr (o_logic op))" using d(17) by (auto simp: unit_str_def)
  then have "json_ok (JObj ?P)" using ok c(3) key_oks by (intro json_ok_put)
  with ok show "json_ok (JObj (operation_payload op))" unfolding P by simp
  show "\<exists>op' m. normalizeOperation now (JObj (operation_payload op)) n = Some (op', m) \<and> erase_ids op' = erase_ids op"
  proof (cases "pss = []")
    case True
    then have e: "o_conditions op = []" using c(2) by simp
    then have "logic_field (rule_fields op) = o_logic op" using d(17) r(8) by (simp add: logic_field_def jor_def) code_simp
    moreover have "normalizeOperation now (JObj (rule_fields op)) n = Some (operation_of (nextLocalId now n) (rule_fields op) [], Suc n)"
      by (simp add: normalizeOperation_def fields_of_def r(9) del: list.map)
    ultimately show ?thesis
      unfolding P using True r(1-7) e by (cases op) (simp add: operation_of_def erase_ids_def del: list.map)
  next
    case False
    define Q where "Q = ?P"
    have g: "get Q k = (if k = ''logic'' then JStr (o_logic op) else if k = ''conditions'' then JArr (map JObj pss)
        else get (rule_fields op) k)" for k unfolding Q_def by (simp add: payload_get lit_inj del: list.map)
    then have s: "str_field Q k = str_field (rule_fields op) k" if "k \<noteq> ''logic''" "k \<noteq> ''conditions''" for k
      using that by (simp add: str_field_def del: list.map)
    have lc: "logic_field Q = o_logic op"
      using d(17) unfolding logic_field_def g by (auto simp: jor_def upper_ascii_def)
    have md: "mode_field OPERATION_MODE_VALUES ''set'' Q = o_mode op" using r(5) by (simp add: mode_field_def g del: list.map)
    obtain cs' where cs': "map_gen (normalizeCondition now) (map JObj pss) (Suc n) = Some (cs', Suc n + length (o_conditions op))"
      "map erase_cond cs' = map erase_cond (o_conditions op)" using c(4) by blast
    have "normalizeOperation now (JObj Q) n = Some (operation_of (nextLocalId now n) Q cs', Suc n + length (o_conditions op))"
      by (simp add: normalizeOperation_def fields_of_def g cs'(1) del: list.map)
    moreover have "operation_of (nextLocalId now n) Q cs' = op\<lparr>o_id := nextLocalId now n, o_conditions := cs'\<rparr>"
      unfolding operation_of_def by (simp add: s g lc md r(1-7) del: list.map)
    ultimately show ?thesis unfolding P using False cs'(2) by (simp add: erase_ids_def Q_def del: list.map)
  qed
qed

lemma map_gen_erase:
  assumes "list_all (\<lambda>x. \<forall>n. \<exists>y m. f (g x) n = Some (y, m) \<and> e y = e x) xs"
  shows "\<exists>ys m. map_gen f (map g xs) n = Some (ys, m) \<and> map e ys = map e xs"
  using assms
proof (induction xs arbitrary: n)
  case (Cons x xs)
  then have "\<exists>y m. f (g x) n = Some (y, m) \<and> e y = e x" by (simp only: list.pred_inject(2))
  then obtain y m where y: "f (g x) n = Some (y, m)" "e y = e x" by blast
  moreover obtain ys k where "map_gen f (map g xs) m = Some (ys, k)" "map e ys = map e xs"
    using Cons.IH [of m] Cons.prems by auto
  ultimately show ?case by simp
qed simp

lemma rules_text_read:
  assumes "list_all op_ok ops"
  shows "trim (rules_text ops) = rules_text ops" "rules_text ops \<noteq> []"
    "json_parse (rules_text ops) = Some (JObj (obj_lit [(''operations'', JArr (map (\<lambda>op. JObj (operation_payload op)) ops))]))"
proof -
  let ?v = "JObj (obj_lit [(''operations'', JArr (map (\<lambda>op. JObj (operation_payload op)) ops))])"
  have "list_all json_ok (map (\<lambda>op. JObj (operation_payload op)) ops)"
    using assms normalize_payload(1) by (simp add: list_all_iff del: json_ok.simps)
  then have ok: "json_ok ?v" using key_oks by (intro json_ok_lit) (simp add: list.pred_map del: list.map json_ok.simps(7))
  show "json_parse (rules_text ops) = Some ?v" unfolding rules_text_def by (rule json_pp.dec_enc [OF ok])
  show ne: "rules_text ops \<noteq> []" unfolding rules_text_def by (rule json_pp.enc_not_Nil [OF ok])
  have "\<exists>s. json_pretty (JObj ps) = 123 # s @ [125]" for ps
    by (simp add: json_pretty_def Let_def)
  then obtain s where "rules_text ops = 123 # s @ [125]" unfolding rules_text_def by blast
  then show "trim (rules_text ops) = rules_text ops" by (intro trim_trimmed) (simp add: trimmed_def is_ws_def)
qed

text \<open>C16: Saving and loading rules: when the rules of the editor are in the form it can represent, none of them
  blank, then the text that is saved is loaded in visual mode as the same rules with the same conditions; only the
  internal ids are new.\<close>

theorem param_override_roundtrip:
  assumes "list_all op_ok ops" and "list_all (\<lambda>op. \<not> isOperationBlank op) ops" and "ops \<noteq> []"
    and "validateOperations ops = None"
  shows "\<exists>text st m. buildOperationsJson True ops = Inr text \<and> parseInitialState now text n = Some (st, m) \<and>
    s_editMode st = Visual \<and> s_visualMode st = Operations \<and> s_jsonText st = text \<and> s_jsonError st = None \<and>
    map erase_ids (s_operations st) = map erase_ids ops"
proof -
  have f: "filter (\<lambda>op. \<not> isOperationBlank op) ops = ops" using assms(2) by (simp add: list_all_iff)
  have b: "buildOperationsJson True ops = Inr (rules_text ops)"
    using assms(3,4) by (simp add: buildOperationsJson_def f)
  obtain os m where os: "map_gen (normalizeOperation now) (map (\<lambda>op. JObj (operation_payload op)) ops) n = Some (os, m)"
    "map erase_ids os = map erase_ids ops"
    using map_gen_erase [of "normalizeOperation now" "\<lambda>op. JObj (operation_payload op)" erase_ids ops n] assms(1) normalize_payload(2)
    by (auto simp: list_all_iff)
  note t = rules_text_read [OF assms(1)]
  have "parseInitialState now (rules_text ops) n =
      Some (\<lparr>s_editMode = Visual, s_visualMode = Operations, s_legacyValue = [], s_operations = os,
             s_jsonText = rules_text ops, s_jsonError = None\<rparr>, m)"
    using assms(3) os(1) t
    by (simp add: parseInitialState_def load_rules_def case_prod_beta Let_def get_lit rules_text_def del: list.map(2))
  with b os(2) show ?thesis by simp
qed

definition sample_rules :: "operation list" where
  "sample_rules =
     [\<lparr>o_id = lit ''po_7_0'', o_description = lit ''default temperature'', o_path = lit ''temperature'', o_mode = lit ''set'',
       o_from = [], o_to = [], o_value_text = lit ''0.7'', o_keep_origin = True, o_logic = lit ''AND'',
       o_conditions = [\<lparr>c_id = lit ''po_7_1'', c_path = lit ''model'', c_mode = lit ''prefix'', c_value_text = lit ''openai/'',
                        c_invert = True, c_pass_missing_key = False\<rparr>]\<rparr>,
      \<lparr>o_id = lit ''po_7_2'', o_description = [], o_path = [], o_mode = lit ''copy_header'', o_from = lit ''X-A'',
       o_to = lit ''X-B'', o_value_text = [], o_keep_origin = False, o_logic = lit ''OR'', o_conditions = []\<rparr>]"

theorem param_override_roundtrip_witness:
  "\<exists>text st m. buildOperationsJson True sample_rules = Inr text \<and> parseInitialState (\<lambda>_. 7) text 3 = Some (st, m) \<and>
    s_editMode st = Visual \<and> s_visualMode st = Operations \<and> s_jsonText st = text \<and> s_jsonError st = None \<and>
    map erase_ids (s_operations st) = map erase_ids sample_rules"
proof (rule param_override_roundtrip)
  show "list_all op_ok sample_rules" by code_simp
  show "list_all (\<lambda>op. \<not> isOperationBlank op) sample_rules" by code_simp
  show "sample_rules \<noteq> []" by code_simp
  show "validateOperations sample_rules = None" by code_simp
qed

text \<open>A string that reads as JSON is not in that form: it is loaded as its bare text and saved as the value it reads as.\<close>

lemma string_value_becomes_number:
  "parseLooseValue (toValueText (jstr_lit ''123'')) = JNum (Fin 123)"
  "parseLooseValue (toValueText (jstr_lit ''true'')) = JBool True"
  by code_simp+

section \<open>What the validation guarantees\<close>

definition has_text :: "obj \<Rightarrow> string \<Rightarrow> bool" where
  "has_text ps k \<longleftrightarrow> (case get ps k of JStr s \<Rightarrow> s \<noteq> [] | _ \<Rightarrow> False)"

text \<open>The payload of a rule has every field its mode needs.\<close>

definition payload_complete :: "jstring \<Rightarrow> obj \<Rightarrow> bool" where
  "payload_complete mode ps \<longleftrightarrow>
     get ps ''mode'' = JStr mode \<and>
     (m_path (meta_of mode) \<longrightarrow> has_text ps ''path'') \<and>
     (mode \<in> set FROM_REQUIRED_MODES \<longrightarrow> has_text ps ''from'') \<and>
     (mode \<in> set TO_REQUIRED_MODES \<longrightarrow> has_text ps ''to'') \<and>
     (mode \<in> set VALUE_REQUIRED_MODES \<longrightarrow> get ps ''value'' \<noteq> JUndef)"

lemma first_some_None: "first_some xs = None \<longleftrightarrow> (\<forall>x \<in> set xs. x = None)"
  by (induction xs) (auto split: option.splits)

lemma err_if_None [simp]: "err_if b e = None \<longleftrightarrow> \<not> b"
  by (simp add: err_if_def)

lemma validate_None:
  "validateOperations ops = None \<longleftrightarrow> (\<forall>i < length ops. validate_rule (Suc i) (ops ! i) = None)"
  by (auto simp: validateOperations_def first_some_None all_set_conv_all_nth nth_enumerate_eq)

text \<open>The tables agree: a required source or target has its field, and the value of a mode that needs one is printed.\<close>

lemma required_fields:
  "list_all (\<lambda>m. (m \<in> set FROM_REQUIRED_MODES \<longrightarrow> m_from (meta_of m)) \<and>
                 (m \<in> set TO_REQUIRED_MODES \<longrightarrow> m_to (meta_of m) = Some True) \<and>
                 (m \<in> set VALUE_REQUIRED_MODES \<longrightarrow> m_value (meta_of m))) OPERATION_MODE_VALUES"
  by code_simp

lemma parse_loose_defined: "parseLooseValue s \<noteq> JUndef" if "\<And>t. json_parse t \<noteq> Some JUndef"
  using that by (auto simp: parseLooseValue_def Let_def split: option.splits)

lemma pval_defined:
  "pval f s = Some (v, r) \<Longrightarrow> v \<noteq> JUndef"
proof (cases f)
  case (Suc g)
  then show "pval f s = Some (v, r) \<Longrightarrow> v \<noteq> JUndef"
    by (auto simp: pnum_cases split: list.splits if_splits)
qed simp

lemma json_parse_defined: "json_parse s \<noteq> Some JUndef"
  using pval_defined [of "2 * length s + 2" s] by (auto simp: json_parse_def simp del: pval.simps split: option.splits if_splits)

text \<open>Conditions and logic are added last and change no other field.\<close>

lemma payload_frame:
  assumes "k \<noteq> ''conditions''" and "k \<noteq> ''logic''"
  shows "get (operation_payload op) k =
    get (if m_pathAlias (meta_of (sor (o_mode op) (lit ''set''))) then apply_alias op (rule_fields op) else rule_fields op) k"
  using assms by (simp add: operation_payload_def Let_def payload_get del: list.map)

lemma rule_complete:
  assumes "o_mode op \<in> set OPERATION_MODE_VALUES" and "validate_rule line op = None"
  shows "payload_complete (o_mode op) (operation_payload op)"
proof -
  let ?m = "o_mode op"
  have m: "sor ?m (lit ''set'') = ?m" using mode_not_Nil(1) [OF assms(1)] by (simp add: sor_id)
  have v: "m_path (meta_of ?m) \<longrightarrow> trim (o_path op) \<noteq> []"
    "?m \<in> set FROM_REQUIRED_MODES \<longrightarrow> trim (o_from op) \<noteq> [] \<or> alias_path op"
    "?m \<in> set TO_REQUIRED_MODES \<longrightarrow> trim (o_to op) \<noteq> [] \<or> alias_path op"
    using assms(2) unfolding validate_rule_def Let_def first_some_None m by (auto simp del: list.map)
  note t = required_fields [unfolded list_all_iff, rule_format, OF assms(1)]
  have al: "m_pathAlias (meta_of ?m) \<and> trim (o_path op) \<noteq> []" if "alias_path op" using that by (simp add: alias_path_def m del: list.map)
  note f = payload_frame rule_fields_def Let_def payload_get m apply_alias_def has_text_def
  have "get (operation_payload op) ''mode'' = JStr ?m" by (simp add: f del: list.map)
  moreover have "m_path (meta_of ?m) \<longrightarrow> has_text (operation_payload op) ''path''"
    using v by (simp add: f del: list.map)
  moreover have "?m \<in> set FROM_REQUIRED_MODES \<longrightarrow> has_text (operation_payload op) ''from''"
    using v t al by (auto simp: f simp del: list.map)
  moreover have "?m \<in> set TO_REQUIRED_MODES \<longrightarrow> has_text (operation_payload op) ''to''"
    using v t al by (auto simp: f simp del: list.map)
  moreover have "?m \<in> set VALUE_REQUIRED_MODES \<longrightarrow> get (operation_payload op) ''value'' \<noteq> JUndef"
    using t parse_loose_defined [OF json_parse_defined] by (simp add: f del: list.map)
  ultimately show ?thesis by (simp add: payload_complete_def)
qed

text \<open>C17: Only complete rules are saved: when the editor produces a text, every rule in it that is not blank has
  the fields its mode needs, each with a text; source and target of the header modes may come from the path.\<close>

theorem saved_rules_complete:
  assumes "list_all (\<lambda>op. o_mode op \<in> set OPERATION_MODE_VALUES) ops" and "buildOperationsJson True ops = Inr text"
  shows "list_all (\<lambda>op. payload_complete (o_mode op) (operation_payload op)) (filter (\<lambda>op. \<not> isOperationBlank op) ops) \<and>
    text = (if list_all isOperationBlank ops then [] else rules_text (filter (\<lambda>op. \<not> isOperationBlank op) ops))"
proof -
  let ?ops = "filter (\<lambda>op. \<not> isOperationBlank op) ops"
  have e: "?ops = [] \<longleftrightarrow> list_all isOperationBlank ops" by (simp add: filter_empty_conv list_all_iff)
  show ?thesis
  proof (cases "?ops = []")
    case False
    then have "validateOperations ?ops = None" and t: "text = rules_text ?ops"
      using assms(2) by (auto simp: buildOperationsJson_def Let_def split: option.splits if_splits)
    then have "validate_rule (Suc i) (?ops ! i) = None" if "i < length ?ops" for i using that by (simp add: validate_None)
    moreover have "o_mode (?ops ! i) \<in> set OPERATION_MODE_VALUES" if "i < length ?ops" for i
      using nth_mem [OF that] assms(1) by (auto simp: list_all_iff)
    ultimately have "list_all (\<lambda>op. payload_complete (o_mode op) (operation_payload op)) ?ops"
      unfolding list_all_length using rule_complete by blast
    with t False e show ?thesis by simp
  qed (use assms(2) e in \<open>auto simp: buildOperationsJson_def list_all_iff\<close>)
qed

theorem saved_rules_complete_witness:
  "list_all (\<lambda>op. payload_complete (o_mode op) (operation_payload op)) (filter (\<lambda>op. \<not> isOperationBlank op) sample_rules) \<and>
   rules_text sample_rules = (if list_all isOperationBlank sample_rules then [] else rules_text (filter (\<lambda>op. \<not> isOperationBlank op) sample_rules))"
proof (rule saved_rules_complete)
  show "list_all (\<lambda>op. o_mode op \<in> set OPERATION_MODE_VALUES) sample_rules" by code_simp
  show "buildOperationsJson True sample_rules = Inr (rules_text sample_rules)" by code_simp
qed

section \<open>Drag and drop\<close>

lemma takeWhile_split: "i \<in> f ` set xs \<Longrightarrow> \<exists>a x b. xs = a @ x # b \<and> f x = i \<and> i \<notin> f ` set a \<and> takeWhile (\<lambda>y. f y \<noteq> i) xs = a"
proof (induction xs)
  case (Cons y ys)
  show ?case
  proof (cases "f y = i")
    case False
    then have "i \<in> f ` set ys" using Cons.prems by auto
    from Cons.IH [OF this] obtain a x b where "ys = a @ x # b" "f x = i" "i \<notin> f ` set a" "takeWhile (\<lambda>y. f y \<noteq> i) ys = a" by blast
    with False show ?thesis by (intro exI [of _ "y # a"] exI [of _ x] exI [of _ b]) auto
  qed force
qed simp

lemma index_of_split:
  assumes "index_of i ops = Some k"
  obtains a x b where "ops = a @ x # b" and "o_id x = i" and "i \<notin> o_id ` set a" and "length a = k"
  using assms takeWhile_split [of i o_id ops] by (auto simp: index_of_def split: if_splits)

lemma index_of_None: "index_of i ops = None \<longleftrightarrow> i \<notin> o_id ` set ops"
  by (simp add: index_of_def)

lemma reorder_eq:
  assumes "[] \<notin> {s, t}" and "s \<noteq> t" and "index_of s ops = Some k" and "take k ops @ drop (Suc k) ops = r" and "ops ! k = m"
  shows "reorderOperations ops s t p =
    (case index_of t r of None \<Rightarrow> ops | Some j \<Rightarrow> (let i = (if p = After then j + 1 else j) in take i r @ m # drop i r))"
  using assms by (auto simp: reorderOperations_def Let_def)

text \<open>Dropping a rule on another one moves it directly before or after that rule and changes nothing else: the
  other rules keep their order, and no rule is lost or doubled.\<close>

lemma reorder_moves:
  assumes "distinct (map o_id ops)" and "s \<in> o_id ` set ops" and "t \<in> o_id ` set ops" and "s \<noteq> t" and "[] \<notin> {s, t}"
  shows "\<exists>xs m d ys. o_id m = s \<and> o_id d = t \<and> filter (\<lambda>op. o_id op \<noteq> s) ops = xs @ d # ys \<and>
    reorderOperations ops s t position = xs @ (if position = After then [d, m] else [m, d]) @ ys \<and>
    mset (reorderOperations ops s t position) = mset ops"
proof -
  from assms(2) obtain k where k: "index_of s ops = Some k" by (simp add: index_of_def)
  then obtain a m b where ops: "ops = a @ m # b" "o_id m = s" "s \<notin> o_id ` set a" "length a = k" by (rule index_of_split)
  from assms(1) ops have b: "s \<notin> o_id ` set b" by auto
  have rest: "take k ops @ drop (Suc k) ops = a @ b" "ops ! k = m" using ops by auto
  have "filter (\<lambda>op. o_id op \<noteq> s) a = a" "filter (\<lambda>op. o_id op \<noteq> s) b = b" using ops(3) b by (auto intro!: filter_True)
  then have f: "filter (\<lambda>op. o_id op \<noteq> s) ops = a @ b" using ops(1,2) by simp
  have "t \<in> o_id ` set (a @ b)" using assms(3,4) ops(1,2) by auto
  then obtain j where j: "index_of t (a @ b) = Some j" by (simp add: index_of_def)
  then obtain xs d ys where ab: "a @ b = xs @ d # ys" "o_id d = t" "length xs = j" by (rule index_of_split) blast
  have r: "reorderOperations ops s t position = xs @ (if position = After then [d, m] else [m, d]) @ ys"
    unfolding reorder_eq [OF assms(5,4) k rest] j option.case Let_def unfolding ab(1) using ab(3) by auto
  have "mset ops = mset (a @ b) + {#m#}" using ops(1) by simp
  then have "mset (reorderOperations ops s t position) = mset ops" unfolding r ab(1) by simp
  then show ?thesis using ops(2) ab f r by (intro exI conjI) (assumption | simp only:)+
qed

lemma reorder_moves_witness:
  "\<exists>xs m d ys. o_id m = lit ''po_7_0'' \<and> o_id d = lit ''po_7_2'' \<and> filter (\<lambda>op. o_id op \<noteq> lit ''po_7_0'') sample_rules = xs @ d # ys \<and>
    reorderOperations sample_rules (lit ''po_7_0'') (lit ''po_7_2'') After = xs @ (if After = After then [d, m] else [m, d]) @ ys \<and>
    mset (reorderOperations sample_rules (lit ''po_7_0'') (lit ''po_7_2'') After) = mset sample_rules"
  by (rule reorder_moves) (simp_all add: sample_rules_def)

lemma reorder_mset: "mset (reorderOperations ops s t position) = mset ops"
proof (cases "s = [] \<or> t = [] \<or> s = t \<or> index_of s ops = None")
  case False
  then obtain k where k: "index_of s ops = Some k" by blast
  then obtain a m b where ops: "ops = a @ m # b" "length a = k" by (rule index_of_split) blast
  then have rest: "take k ops @ drop (Suc k) ops = a @ b" "ops ! k = m" by auto
  have "mset (take i (a @ b)) + mset (drop i (a @ b)) = mset (a @ b)" for i
    by (simp only: append_take_drop_id flip: mset_append)
  moreover have "reorderOperations ops s t position =
      (case index_of t (a @ b) of None \<Rightarrow> ops | Some j \<Rightarrow> (let i = (if position = After then j + 1 else j) in take i (a @ b) @ m # drop i (a @ b)))"
    by (rule reorder_eq [OF _ _ k rest]) (use False in auto)
  ultimately show ?thesis using ops by (simp add: Let_def del: take_append drop_append split: option.split)
qed (auto simp: reorderOperations_def)

section \<open>Editors of single values\<close>

text \<open>The printers and parsers of the values with an editor of their own are text codecs.\<close>

definition sync_ok :: "jstring \<times> jstring \<Rightarrow> bool" where
  "sync_ok p \<longleftrightarrow> (fst p = lit ''json'' \<or> fst p = lit ''header'') \<and> trimmed_unit (snd p) \<and> snd p \<noteq> []"

lemma trim_prefix: "w \<noteq> [] \<Longrightarrow> \<forall>c \<in> set w. \<not> is_ws c \<Longrightarrow> trim k = k \<Longrightarrow> k \<noteq> [] \<Longrightarrow> trim (w @ k) = w @ k"
proof (rule trim_trimmed)
  assume "w \<noteq> []" "\<forall>c \<in> set w. \<not> is_ws c" "trim k = k" "k \<noteq> []"
  moreover have "trimmed k" using \<open>trim k = k\<close> trimmed_trim [of k] by simp
  ultimately show "trimmed (w @ k)" by (auto simp: trimmed_def)
qed

interpretation sync: text_codec "\<lambda>(t, k). buildSyncTargetSpec t k" "\<lambda>s. Some (parseSyncTargetSpec s)" sync_ok
proof
  fix p :: "jstring \<times> jstring" assume ok: "sync_ok p"
  obtain t k where p: "p = (t, k)" by force
  from ok have k: "trim k = k" "k \<noteq> []" and t: "t = lit ''json'' \<or> t = lit ''header''"
    by (auto simp: sync_ok_def trimmed_unit_def p)
  have b: "buildSyncTargetSpec t k = (t @ [58]) @ k" using t k by (auto simp: buildSyncTargetSpec_def)
  have "trim ((t @ [58]) @ k) = (t @ [58]) @ k" using t k by (intro trim_prefix) (auto simp: is_ws_def)
  moreover have "takeWhile (\<lambda>c. c \<noteq> 58) ((t @ [58]) @ k) = t" "dropWhile (\<lambda>c. c \<noteq> 58) ((t @ [58]) @ k) = 58 # k"
    using t by auto
  moreover have "lower_ascii (trim (lit ''json'')) = lit ''json''" "lower_ascii (trim (lit ''header'')) = lit ''header''"
    by code_simp+
  then have "lower_ascii (trim t) = t" using t by metis
  ultimately show "(\<lambda>s. Some (parseSyncTargetSpec s)) ((\<lambda>(t, k). buildSyncTargetSpec t k) p) = Some p"
    using t k unfolding p prod.case b parseSyncTargetSpec_def Let_def by auto
  show "(\<lambda>(t, k). buildSyncTargetSpec t k) p \<noteq> []" by (simp add: p b)
qed

definition draft_ok :: "return_error_draft \<Rightarrow> bool" where
  "draft_ok d \<longleftrightarrow> \<not> r_simpleMode d \<and> trimmed_unit (r_message d) \<and> trimmed_unit (r_code d) \<and> trimmed_unit (r_type d) \<and>
     json_num (r_statusCode d) \<and> status_or_400 (r_statusCode d) = r_statusCode d"

interpretation return_error: text_codec buildReturnErrorValueText "\<lambda>s. Some (parseReturnErrorDraft s)" draft_ok
proof
  fix d assume ok: "draft_ok d"
  then have d: "\<not> r_simpleMode d" "trim (r_message d) = r_message d" "trim (r_code d) = r_code d" "trim (r_type d) = r_type d"
    "unit_str (r_message d)" "unit_str (r_code d)" "unit_str (r_type d)" "json_num (r_statusCode d)"
    "status_or_400 (r_statusCode d) = r_statusCode d" by (auto simp: draft_ok_def trimmed_unit_def)
  let ?P = "return_error_payload d"
  have base: "json_ok (JObj (obj_lit [(''message'', JStr (r_message d)), (''status_code'', JNum (r_statusCode d))]))"
    using d key_oks by (intro json_ok_lit) (simp del: list.map)
  have P: "json_ok (JObj ?P)" unfolding return_error_payload_def d(2-4,9) using base d key_oks
    by (intro put_if_ok) (simp_all del: list.map json_ok.simps(7))
  have b: "buildReturnErrorValueText d = json_text (JObj ?P)" using d(1) by (simp add: buildReturnErrorValueText_def)
  have "\<exists>s. json_text (JObj ps) = 123 # s @ [125]" for ps by simp
  then obtain s where s: "json_text (JObj ?P) = 123 # s @ [125]" by blast
  then have tr: "trim (json_text (JObj ?P)) = json_text (JObj ?P)" by (intro trim_trimmed) (simp add: trimmed_def is_ws_def)
  have ne: "json_text (JObj ?P) \<noteq> []" using s by simp
  then show "buildReturnErrorValueText d \<noteq> []" using b by simp
  have "parseReturnErrorDraft (json_text (JObj ?P)) = d"
    unfolding parseReturnErrorDraft_def tr Let_def json.dec_enc [OF P]
    using ne d
    by (cases d) (simp add: as_object_def return_error_payload_def payload_get text_or_empty_def jor_def num_of_def del: list.map json_text.simps)
  then show "(\<lambda>s. Some (parseReturnErrorDraft s)) (buildReturnErrorValueText d) = Some d" using b by simp
qed

end
