(* ===== verification/Param_Override_Editor.thy ===== *)
theory Param_Override_Editor
  imports Param_Override_Props
begin

text \<open>
  The dialog of the parameter override editor (\<^verbatim>\<open>ParamOverrideEditorDialog\<close>): its state, one function per handler,
  and the states it can reach. A handler is a function of the state it is called in; what React does after it, the
  effect that keeps the selection valid, is \<open>syncSelection\<close>. Messages shown to the user are collected in
  \<open>ed_toasts\<close>, texts handed to \<^verbatim>\<open>onSave\<close> in \<open>ed_saved\<close>. Search is display only and not modelled.
\<close>

section \<open>Templates\<close>

definition LEGACY_TEMPLATE :: obj where
  "LEGACY_TEMPLATE = obj_lit [(''temperature'', JNum (Fin 0)), (''max_tokens'', JNum (Fin 1000))]"

definition OPERATION_TEMPLATE :: "jval list" where
  "OPERATION_TEMPLATE =
     [JObj (obj_lit
       [(''description'', jstr_lit ''Set default temperature for openai/* models.''), (''path'', jstr_lit ''temperature''),
        (''mode'', jstr_lit ''set''), (''value'', JNum (dbl (7/10))),
        (''conditions'', JArr [JObj (obj_lit [(''path'', jstr_lit ''model''), (''mode'', jstr_lit ''prefix''), (''value'', jstr_lit ''openai/'')])]),
        (''logic'', jstr_lit ''AND'')])]"

definition HEADER_PASSTHROUGH_TEMPLATE :: "jval list" where
  "HEADER_PASSTHROUGH_TEMPLATE =
     [JObj (obj_lit
       [(''description'', jstr_lit ''Pass through X-Request-Id header to upstream.''), (''mode'', jstr_lit ''pass_headers''),
        (''value'', JArr [jstr_lit ''X-Request-Id'']), (''keep_origin'', JBool True)])]"

definition model_condition :: "string \<Rightarrow> string \<Rightarrow> jval" where
  "model_condition mode value =
     JObj (obj_lit [(''path'', jstr_lit ''original_model''), (''mode'', jstr_lit mode), (''value'', jstr_lit value)])"

definition GEMINI_IMAGE_4K_TEMPLATE :: "jval list" where
  "GEMINI_IMAGE_4K_TEMPLATE =
     [JObj (obj_lit
       [(''description'', jstr_lit ''Set imageSize to 4K when model contains gemini/image and ends with 4k.''),
        (''mode'', jstr_lit ''set''), (''path'', jstr_lit ''generationConfig.imageConfig.imageSize''), (''value'', jstr_lit ''4K''),
        (''conditions'', JArr [model_condition ''contains'' ''gemini'', model_condition ''contains'' ''image'', model_condition ''suffix'' ''4k'']),
        (''logic'', jstr_lit ''AND'')])]"

definition CODEX_CLI_HEADER_PASSTHROUGH_HEADERS :: "string list" where
  "CODEX_CLI_HEADER_PASSTHROUGH_HEADERS =
     [''Originator'', ''Session_id'', ''User-Agent'', ''X-Codex-Beta-Features'', ''X-Codex-Turn-Metadata'']"

definition CLAUDE_CLI_HEADER_PASSTHROUGH_HEADERS :: "string list" where
  "CLAUDE_CLI_HEADER_PASSTHROUGH_HEADERS =
     [''X-Stainless-Arch'', ''X-Stainless-Lang'', ''X-Stainless-Os'', ''X-Stainless-Package-Version'',
      ''X-Stainless-Retry-Count'', ''X-Stainless-Runtime'', ''X-Stainless-Runtime-Version'', ''X-Stainless-Timeout'',
      ''User-Agent'', ''X-App'', ''Anthropic-Beta'', ''Anthropic-Dangerous-Direct-Browser-Access'', ''Anthropic-Version'']"

definition buildPassHeadersTemplate :: "string list \<Rightarrow> jval list" where
  "buildPassHeadersTemplate headers =
     [JObj (obj_lit [(''mode'', jstr_lit ''pass_headers''), (''value'', JArr (map (\<lambda>h. jstr_lit h) headers)), (''keep_origin'', JBool True)])]"

text \<open>The header tokens the last template maps to another token, and those it removes.\<close>

definition beta_tokens :: "(string \<times> string option) list" where
  "beta_tokens =
     [(''advanced-tool-use-2025-11-20'', Some ''tool-search-tool-2025-10-19''), (''bash_20241022'', None), (''bash_20250124'', None),
      (''code-execution-2025-08-25'', None), (''compact-2026-01-12'', Some ''compact-2026-01-12''),
      (''computer-use-2025-01-24'', Some ''computer-use-2025-01-24''), (''computer-use-2025-11-24'', Some ''computer-use-2025-11-24''),
      (''context-1m-2025-08-07'', Some ''context-1m-2025-08-07''), (''context-management-2025-06-27'', Some ''context-management-2025-06-27''),
      (''effort-2025-11-24'', None), (''fast-mode-2026-02-01'', None), (''files-api-2025-04-14'', None),
      (''fine-grained-tool-streaming-2025-05-14'', None), (''interleaved-thinking-2025-05-14'', Some ''interleaved-thinking-2025-05-14''),
      (''mcp-client-2025-11-20'', None), (''mcp-client-2025-04-04'', None), (''mcp-servers-2025-12-04'', None),
      (''output-128k-2025-02-19'', None), (''structured-output-2024-03-01'', None), (''prompt-caching-scope-2026-01-05'', None),
      (''skills-2025-10-02'', None), (''structured-outputs-2025-11-13'', None), (''text_editor_20241022'', None),
      (''text_editor_20250124'', None), (''token-efficient-tools-2025-02-19'', None),
      (''tool-search-tool-2025-10-19'', Some ''tool-search-tool-2025-10-19''), (''web-fetch-2025-09-10'', None),
      (''web-search-2025-03-05'', None), (''oauth-2025-04-20'', None)]"

definition AWS_BEDROCK_ANTHROPIC_COMPAT_TEMPLATE :: "jval list" where
  "AWS_BEDROCK_ANTHROPIC_COMPAT_TEMPLATE =
     [JObj (obj_lit
       [(''description'', jstr_lit ''Normalize anthropic-beta header tokens for Bedrock compatibility.''),
        (''mode'', jstr_lit ''set_header''), (''path'', jstr_lit ''anthropic-beta''),
        (''value'', JObj (obj_lit (map (\<lambda>(k, v). (k, case v of Some s \<Rightarrow> jstr_lit s | None \<Rightarrow> JNull)) beta_tokens)))]),
      JObj (obj_lit
       [(''description'', jstr_lit ''Remove all tools[*].custom.input_examples before upstream relay.''),
        (''mode'', jstr_lit ''delete''), (''path'', jstr_lit ''tools.*.custom.input_examples'')])]"

text \<open>A preset is a list of rules or an object of the legacy format.\<close>

datatype preset = OperationsPreset "jval list" | LegacyPreset obj

definition TEMPLATE_PRESET_CONFIG :: "(string \<times> preset) list" where
  "TEMPLATE_PRESET_CONFIG =
     [(''operations_default'', OperationsPreset OPERATION_TEMPLATE),
      (''legacy_default'', LegacyPreset LEGACY_TEMPLATE),
      (''pass_headers_auth'', OperationsPreset HEADER_PASSTHROUGH_TEMPLATE),
      (''gemini_image_4k'', OperationsPreset GEMINI_IMAGE_4K_TEMPLATE),
      (''claude_cli_headers_passthrough'', OperationsPreset (buildPassHeadersTemplate CLAUDE_CLI_HEADER_PASSTHROUGH_HEADERS)),
      (''codex_cli_headers_passthrough'', OperationsPreset (buildPassHeadersTemplate CODEX_CLI_HEADER_PASSTHROUGH_HEADERS)),
      (''aws_bedrock_anthropic_beta_override'', OperationsPreset AWS_BEDROCK_ANTHROPIC_COMPAT_TEMPLATE)]"

definition preset_of :: "jstring \<Rightarrow> preset" where
  "preset_of key =
     (case map_of (map (\<lambda>p. (lit (fst p), snd p)) TEMPLATE_PRESET_CONFIG) key of
        Some p \<Rightarrow> p | None \<Rightarrow> OperationsPreset OPERATION_TEMPLATE)"

section \<open>State\<close>

record editor =
  ed_editMode :: edit_mode
  ed_visualMode :: visual_mode
  ed_legacyValue :: jstring
  ed_operations :: "operation list"
  ed_jsonText :: jstring
  ed_jsonError :: "editor_msg option"
  ed_selected :: jstring
  ed_expanded :: "jstring \<rightharpoonup> bool"
  ed_dragged :: jstring
  ed_dragOver :: jstring
  ed_dropPos :: drop_position
  ed_template :: jstring
  ed_seed :: nat
  ed_toasts :: "editor_msg list"
  ed_saved :: "jstring list"
  ed_open :: bool

definition first_id :: "operation list \<Rightarrow> jstring" where
  "first_id ops = (case ops of [] \<Rightarrow> [] | op # _ \<Rightarrow> o_id op)"

text \<open>The dialog opens: the effect that loads the value. The second effect keeps the selection valid.\<close>

definition openEditor :: "clock \<Rightarrow> jstring \<Rightarrow> editor \<Rightarrow> editor option" where
  "openEditor now value st =
     map_option (\<lambda>(s, m).
       st\<lparr>ed_open := True, ed_seed := m, ed_editMode := s_editMode s, ed_visualMode := s_visualMode s,
          ed_legacyValue := s_legacyValue s, ed_operations := s_operations s, ed_jsonText := s_jsonText s,
          ed_jsonError := s_jsonError s, ed_selected := first_id (s_operations s), ed_expanded := Map.empty,
          ed_dragged := [], ed_dragOver := [], ed_dropPos := Before,
          ed_template := lit (if s_visualMode s = Legacy then ''legacy_default'' else ''operations_default'')\<rparr>)
     (parseInitialState now value (ed_seed st))"

definition syncSelection :: "editor \<Rightarrow> editor" where
  "syncSelection st =
     (if ed_operations st = [] then st\<lparr>ed_selected := []\<rparr>
      else if list_ex (\<lambda>op. o_id op = ed_selected st) (ed_operations st) then st
      else st\<lparr>ed_selected := first_id (ed_operations st)\<rparr>)"

definition selectedOperation :: "editor \<Rightarrow> operation option" where
  "selectedOperation st = List.find (\<lambda>op. o_id op = ed_selected st) (ed_operations st)"

definition operationCount :: "editor \<Rightarrow> nat" where
  "operationCount st = length (filter (\<lambda>op. \<not> isOperationBlank op) (ed_operations st))"

text \<open>The modes with their numbers, at most four, by descending number.\<close>

fun count_modes :: "operation list \<Rightarrow> (jstring \<times> nat) list \<Rightarrow> (jstring \<times> nat) list" where
  "count_modes [] counts = counts"
| "count_modes (op # ops) counts =
     (let mode = sor (o_mode op) (lit ''set'') in
      count_modes ops (obj_put mode ((case map_of counts mode of Some k \<Rightarrow> k | None \<Rightarrow> 0) + 1) counts))"

definition topOperationModes :: "editor \<Rightarrow> (jstring \<times> nat) list" where
  "topOperationModes st = take 4 (js_sort (\<lambda>a b. int (snd b) - int (snd a)) (count_modes (ed_operations st) []))"

section \<open>Rules\<close>

text \<open>The partial updates the dialog makes.\<close>

datatype op_patch =
    PPath jstring | PMode jstring | PDescription jstring | PValueText jstring | PKeepOrigin bool
  | PFrom jstring | PTo jstring | PFromTo jstring jstring | PLogic jstring

fun patch_op :: "op_patch \<Rightarrow> operation \<Rightarrow> operation" where
  "patch_op (PPath s) op = op\<lparr>o_path := s\<rparr>"
| "patch_op (PMode s) op = op\<lparr>o_mode := s\<rparr>"
| "patch_op (PDescription s) op = op\<lparr>o_description := s\<rparr>"
| "patch_op (PValueText s) op = op\<lparr>o_value_text := s\<rparr>"
| "patch_op (PKeepOrigin b) op = op\<lparr>o_keep_origin := b\<rparr>"
| "patch_op (PFrom s) op = op\<lparr>o_from := s\<rparr>"
| "patch_op (PTo s) op = op\<lparr>o_to := s\<rparr>"
| "patch_op (PFromTo f t) op = op\<lparr>o_from := f, o_to := t\<rparr>"
| "patch_op (PLogic s) op = op\<lparr>o_logic := s\<rparr>"

datatype cond_patch = CPath jstring | CMode jstring | CValueText jstring | CInvert bool | CPassMissing bool

fun patch_cond :: "cond_patch \<Rightarrow> condition \<Rightarrow> condition" where
  "patch_cond (CPath s) c = c\<lparr>c_path := s\<rparr>"
| "patch_cond (CMode s) c = c\<lparr>c_mode := s\<rparr>"
| "patch_cond (CValueText s) c = c\<lparr>c_value_text := s\<rparr>"
| "patch_cond (CInvert b) c = c\<lparr>c_invert := b\<rparr>"
| "patch_cond (CPassMissing b) c = c\<lparr>c_pass_missing_key := b\<rparr>"

definition map_op :: "jstring \<Rightarrow> (operation \<Rightarrow> operation) \<Rightarrow> operation list \<Rightarrow> operation list" where
  "map_op i f ops = map (\<lambda>op. if o_id op = i then f op else op) ops"

definition updateOperation :: "jstring \<Rightarrow> op_patch \<Rightarrow> editor \<Rightarrow> editor" where
  "updateOperation i patch st = st\<lparr>ed_operations := map_op i (patch_op patch) (ed_operations st)\<rparr>"

definition addOperation :: "clock \<Rightarrow> editor \<Rightarrow> editor" where
  "addOperation now st =
     (let (created, m) = createDefaultOperation now (ed_seed st) in
      st\<lparr>ed_seed := m, ed_operations := ed_operations st @ [created], ed_selected := o_id created\<rparr>)"

definition copy_condition :: "condition \<Rightarrow> jval" where
  "copy_condition c =
     JObj (obj_lit [(''path'', JStr (c_path c)), (''mode'', JStr (c_mode c)), (''value'', parseLooseValue (c_value_text c)),
                    (''invert'', JBool (c_invert c)), (''pass_missing_key'', JBool (c_pass_missing_key c))])"

definition copy_operation :: "operation \<Rightarrow> jval" where
  "copy_operation op =
     JObj (obj_lit [(''description'', JStr (o_description op)), (''path'', JStr (o_path op)), (''mode'', JStr (o_mode op)),
                    (''value'', parseLooseValue (o_value_text op)), (''keep_origin'', JBool (o_keep_origin op)),
                    (''from'', JStr (o_from op)), (''to'', JStr (o_to op)), (''logic'', JStr (o_logic op)),
                    (''conditions'', JArr (map copy_condition (o_conditions op)))])"

text \<open>React runs the updater at once when no update is pending (\<open>eager\<close>); otherwise the new id is not known yet when
  the selection is set.\<close>

definition duplicateOperation :: "clock \<Rightarrow> bool \<Rightarrow> jstring \<Rightarrow> editor \<Rightarrow> editor option" where
  "duplicateOperation now eager i st =
     (case index_of i (ed_operations st) of
        None \<Rightarrow> Some st
      | Some idx \<Rightarrow>
          map_option (\<lambda>(cloned, m).
            st\<lparr>ed_seed := m,
               ed_operations := take (idx + 1) (ed_operations st) @ cloned # drop (idx + 1) (ed_operations st),
               ed_selected := (if eager then o_id cloned else ed_selected st)\<rparr>)
          (normalizeOperation now (copy_operation (ed_operations st ! idx)) (ed_seed st)))"

definition removeOperation :: "clock \<Rightarrow> jstring \<Rightarrow> editor \<Rightarrow> editor" where
  "removeOperation now i st =
     (if length (ed_operations st) \<le> 1
      then (let (dflt, m) = createDefaultOperation now (ed_seed st) in st\<lparr>ed_seed := m, ed_operations := [dflt]\<rparr>)
      else st\<lparr>ed_operations := filter (\<lambda>op. o_id op \<noteq> i) (ed_operations st)\<rparr>)"

definition addCondition :: "clock \<Rightarrow> jstring \<Rightarrow> editor \<Rightarrow> editor" where
  "addCondition now i st =
     (let (created, m) = createDefaultCondition now (ed_seed st) in
      st\<lparr>ed_seed := m,
         ed_operations := map_op i (\<lambda>op. op\<lparr>o_conditions := o_conditions op @ [created]\<rparr>) (ed_operations st),
         ed_expanded := (ed_expanded st)(c_id created \<mapsto> True)\<rparr>)"

definition updateCondition :: "jstring \<Rightarrow> jstring \<Rightarrow> cond_patch \<Rightarrow> editor \<Rightarrow> editor" where
  "updateCondition i ci patch st =
     st\<lparr>ed_operations := map_op i
       (\<lambda>op. op\<lparr>o_conditions := map (\<lambda>c. if c_id c = ci then patch_cond patch c else c) (o_conditions op)\<rparr>) (ed_operations st)\<rparr>"

definition removeCondition :: "jstring \<Rightarrow> jstring \<Rightarrow> editor \<Rightarrow> editor" where
  "removeCondition i ci st =
     st\<lparr>ed_operations := map_op i (\<lambda>op. op\<lparr>o_conditions := filter (\<lambda>c. c_id c \<noteq> ci) (o_conditions op)\<rparr>) (ed_operations st)\<rparr>"

section \<open>Values with an editor of their own\<close>

datatype error_patch =
    RMessage jstring | RStatusCode jsnum | RCode jstring | RType jstring | RSkipRetry bool | RSimpleMode bool
  | RPreset jsnum jstring jstring

fun patch_error :: "error_patch \<Rightarrow> return_error_draft \<Rightarrow> return_error_draft" where
  "patch_error (RMessage s) d = d\<lparr>r_message := s\<rparr>"
| "patch_error (RStatusCode x) d = d\<lparr>r_statusCode := x\<rparr>"
| "patch_error (RCode s) d = d\<lparr>r_code := s\<rparr>"
| "patch_error (RType s) d = d\<lparr>r_type := s\<rparr>"
| "patch_error (RSkipRetry b) d = d\<lparr>r_skipRetry := b\<rparr>"
| "patch_error (RSimpleMode b) d = d\<lparr>r_simpleMode := b\<rparr>"
| "patch_error (RPreset x c t) d = d\<lparr>r_statusCode := x, r_code := c, r_type := t\<rparr>"

definition updateReturnErrorDraft :: "jstring \<Rightarrow> error_patch \<Rightarrow> editor \<Rightarrow> editor" where
  "updateReturnErrorDraft i patch st =
     st\<lparr>ed_operations := map_op i
       (\<lambda>op. op\<lparr>o_value_text := buildReturnErrorValueText (patch_error patch (parseReturnErrorDraft (o_value_text op)))\<rparr>)
       (ed_operations st)\<rparr>"

text \<open>An update of the prune draft parses the value text of the rule, changes the draft, possibly making ids, and
  prints it again.\<close>

type_synonym draft_update = "prune_draft \<Rightarrow> nat \<Rightarrow> (prune_draft \<times> nat) option"

definition update_prune_text :: "clock \<Rightarrow> jstring \<Rightarrow> draft_update \<Rightarrow> operation \<Rightarrow> nat \<Rightarrow> (operation \<times> nat) option" where
  "update_prune_text now i updater op n =
     (if o_id op \<noteq> i then Some (op, n)
      else
        Option.bind (parsePruneObjectsDraft now (o_value_text op) n) (\<lambda>(draft, m).
          map_option (\<lambda>(nextDraft, k). (op\<lparr>o_value_text := buildPruneObjectsValueText nextDraft\<rparr>, k)) (updater draft m)))"

definition updatePruneObjectsDraft :: "clock \<Rightarrow> jstring \<Rightarrow> draft_update \<Rightarrow> editor \<Rightarrow> editor option" where
  "updatePruneObjectsDraft now i updater st =
     map_option (\<lambda>(ops, m). st\<lparr>ed_seed := m, ed_operations := ops\<rparr>)
       (map_gen (update_prune_text now i updater) (ed_operations st) (ed_seed st))"

datatype prune_patch = QSimpleMode bool | QTypeText jstring | QLogic jstring | QRecursive bool

fun patch_prune :: "prune_patch \<Rightarrow> prune_draft \<Rightarrow> prune_draft" where
  "patch_prune (QSimpleMode b) d = d\<lparr>p_simpleMode := b\<rparr>"
| "patch_prune (QTypeText s) d = d\<lparr>p_typeText := s\<rparr>"
| "patch_prune (QLogic s) d = d\<lparr>p_logic := s\<rparr>"
| "patch_prune (QRecursive b) d = d\<lparr>p_recursive := b\<rparr>"

definition pure_update :: "(prune_draft \<Rightarrow> prune_draft) \<Rightarrow> draft_update" where
  "pure_update f draft n = Some (f draft, n)"

definition addPruneRule :: "clock \<Rightarrow> jstring \<Rightarrow> editor \<Rightarrow> editor option" where
  "addPruneRule now i st =
     updatePruneObjectsDraft now i (\<lambda>draft n.
       map_option (\<lambda>(r, m). (draft\<lparr>p_simpleMode := False, p_rules := p_rules draft @ [r]\<rparr>, m)) (normalizePruneRule now [] n)) st"

definition updatePruneRule :: "clock \<Rightarrow> jstring \<Rightarrow> jstring \<Rightarrow> cond_patch \<Rightarrow> editor \<Rightarrow> editor option" where
  "updatePruneRule now i ri patch st =
     updatePruneObjectsDraft now i
       (pure_update (\<lambda>d. d\<lparr>p_rules := map (\<lambda>r. if c_id r = ri then patch_cond patch r else r) (p_rules d)\<rparr>)) st"

definition removePruneRule :: "clock \<Rightarrow> jstring \<Rightarrow> jstring \<Rightarrow> editor \<Rightarrow> editor option" where
  "removePruneRule now i ri st =
     updatePruneObjectsDraft now i (pure_update (\<lambda>d. d\<lparr>p_rules := filter (\<lambda>r. c_id r \<noteq> ri) (p_rules d)\<rparr>)) st"

text \<open>What is shown for the selected rule; making the prune draft takes ids each time it is computed.\<close>

definition returnErrorDraft :: "editor \<Rightarrow> return_error_draft option" where
  "returnErrorDraft st =
     (case selectedOperation st of
        Some op \<Rightarrow> if o_mode op = lit ''return_error'' then Some (parseReturnErrorDraft (o_value_text op)) else None
      | None \<Rightarrow> None)"

definition pruneObjectsDraft :: "clock \<Rightarrow> editor \<Rightarrow> (prune_draft option \<times> editor) option" where
  "pruneObjectsDraft now st =
     (case selectedOperation st of
        Some op \<Rightarrow>
          if o_mode op = lit ''prune_objects''
          then map_option (\<lambda>(d, m). (Some d, st\<lparr>ed_seed := m\<rparr>)) (parsePruneObjectsDraft now (o_value_text op) (ed_seed st))
          else Some (None, st)
      | None \<Rightarrow> Some (None, st))"

section \<open>Drag and drop\<close>

definition resetDragState :: "editor \<Rightarrow> editor" where
  "resetDragState st = st\<lparr>ed_dragged := [], ed_dragOver := [], ed_dropPos := Before\<rparr>"

definition handleDragStart :: "jstring \<Rightarrow> editor \<Rightarrow> editor" where
  "handleDragStart i st = st\<lparr>ed_dragged := i, ed_selected := i\<rparr>"

text \<open>\<open>below\<close>: the pointer is in the lower half of the rule.\<close>

definition handleDragOver :: "jstring \<Rightarrow> bool \<Rightarrow> editor \<Rightarrow> editor" where
  "handleDragOver i below st =
     (if ed_dragged st = [] \<or> ed_dragged st = i then st
      else st\<lparr>ed_dragOver := i, ed_dropPos := (if below then After else Before)\<rparr>)"

text \<open>\<open>data\<close>: the text the browser carries with the drag.\<close>

definition handleDrop :: "jstring \<Rightarrow> jstring \<Rightarrow> editor \<Rightarrow> editor" where
  "handleDrop data i st =
     (let sourceId = sor (ed_dragged st) data; position = (if ed_dragOver st = i then ed_dropPos st else Before) in
      resetDragState
        (if sourceId \<noteq> [] \<and> i \<noteq> [] \<and> sourceId \<noteq> i
         then st\<lparr>ed_operations := reorderOperations (ed_operations st) sourceId i position, ed_selected := sourceId\<rparr>
         else st))"

section \<open>Modes, templates and saving\<close>

definition toast :: "editor_msg \<Rightarrow> editor \<Rightarrow> editor" where
  "toast msg st = st\<lparr>ed_toasts := msg # ed_toasts st\<rparr>"

definition build_rules :: "bool \<Rightarrow> operation list \<Rightarrow> editor_msg + jstring" where
  "build_rules validate ops = (case buildOperationsJson validate ops of Inl e \<Rightarrow> Inl (RuleMsg e) | Inr t \<Rightarrow> Inr t)"

definition buildVisualJson :: "editor \<Rightarrow> editor_msg + jstring" where
  "buildVisualJson st =
     (if ed_visualMode st = Legacy then
        (let trimmed = trim (ed_legacyValue st) in
         if trimmed = [] then Inr []
         else
           case json_parse trimmed of
             None \<Rightarrow> Inl MustBeValidJson
           | Some (JObj ps) \<Rightarrow> Inr (json_pretty (JObj ps))
           | Some _ \<Rightarrow> Inl LegacyMustBeObject)
      else build_rules True (ed_operations st))"

definition switchToJsonMode :: "editor \<Rightarrow> editor" where
  "switchToJsonMode st =
     (if ed_editMode st = Json then st
      else
        (case buildVisualJson st of
           Inr text \<Rightarrow> st\<lparr>ed_jsonText := text, ed_jsonError := None\<rparr>
         | Inl e \<Rightarrow>
             (let text = (if ed_visualMode st = Legacy then ed_legacyValue st
                          else case buildOperationsJson False (ed_operations st) of Inr t \<Rightarrow> t | Inl _ \<Rightarrow> ed_jsonText st) in
              toast e (st\<lparr>ed_jsonText := text, ed_jsonError := Some e\<rparr>)))\<lparr>ed_editMode := Json\<rparr>)"

definition switchToVisualMode :: "clock \<Rightarrow> editor \<Rightarrow> editor option" where
  "switchToVisualMode now st =
     (let trimmed = trim (ed_jsonText st); (fallback, m) = createDefaultOperation now (ed_seed st) in
      if ed_editMode st = Visual then Some st
      else if trimmed = [] then
        Some (st\<lparr>ed_seed := m, ed_visualMode := Operations, ed_operations := [fallback], ed_selected := o_id fallback,
                 ed_legacyValue := [], ed_jsonError := None, ed_editMode := Visual\<rparr>)
      else
        case json_parse trimmed of
          None \<Rightarrow> Some (toast MustBeValidJson st)
        | Some (JObj ps) \<Rightarrow>
            (case get ps ''operations'' of
               JArr vs \<Rightarrow>
                 map_option (\<lambda>(nextOps, k).
                   st\<lparr>ed_seed := k, ed_visualMode := Operations, ed_operations := nextOps, ed_selected := first_id nextOps,
                      ed_legacyValue := [], ed_jsonError := None, ed_editMode := Visual, ed_template := lit ''operations_default''\<rparr>)
                 (load_rules now vs (ed_seed st))
             | _ \<Rightarrow>
                 Some (st\<lparr>ed_seed := m, ed_visualMode := Legacy, ed_legacyValue := json_pretty (JObj ps), ed_operations := [fallback],
                          ed_selected := o_id fallback, ed_jsonError := None, ed_editMode := Visual,
                          ed_template := lit ''legacy_default''\<rparr>))
        | Some _ \<Rightarrow> Some (toast MustBeJsonObject st))"

text \<open>The properties \<^verbatim>\<open>...v\<close> copies: those of an object, the elements of an array or a string under their indices.\<close>

definition spread_props :: "jval \<Rightarrow> obj" where
  "spread_props v =
     (case v of JObj ps \<Rightarrow> ps
      | JArr vs \<Rightarrow> map (\<lambda>(i, w). (nat_str i, w)) (enumerate 0 vs)
      | JStr s \<Rightarrow> map (\<lambda>(i, c). (nat_str i, JStr [c])) (enumerate 0 s)
      | _ \<Rightarrow> [])"

definition fill_legacy :: "clock \<Rightarrow> jval \<Rightarrow> editor \<Rightarrow> editor" where
  "fill_legacy now payload st =
     (let text = json_pretty payload; (dflt, m) = createDefaultOperation now (ed_seed st) in
      st\<lparr>ed_seed := m, ed_visualMode := Legacy, ed_legacyValue := text, ed_operations := [dflt], ed_jsonText := text,
         ed_jsonError := None, ed_editMode := Visual\<rparr>)"

definition fillTemplate :: "clock \<Rightarrow> bool \<Rightarrow> editor \<Rightarrow> editor option" where
  "fillTemplate now appending st =
     (case preset_of (ed_template st) of
        LegacyPreset payload \<Rightarrow>
          (if appending \<and> ed_visualMode st = Legacy then
             (let trimmed = trim (ed_legacyValue st) in
              if trimmed = [] then Some (fill_legacy now (JObj (obj_build payload [])) st)
              else
                case json_parse trimmed of
                  None \<Rightarrow> Some (toast LegacyAppendInvalid st)
                | Some parsedCurrent \<Rightarrow> Some (fill_legacy now (JObj (obj_build payload (spread_props parsedCurrent))) st))
           else Some (fill_legacy now (JObj payload) st))
      | OperationsPreset payload \<Rightarrow>
          (if appending then
             map_option (\<lambda>(appended, m).
                let existing = (if ed_visualMode st = Operations then filter (\<lambda>op. \<not> isOperationBlank op) (ed_operations st) else []);
                    nextOps = existing @ appended in
                st\<lparr>ed_seed := m, ed_visualMode := Operations, ed_operations := (if nextOps \<noteq> [] then nextOps else appended),
                   ed_selected := first_id nextOps, ed_legacyValue := [], ed_jsonError := None, ed_editMode := Visual,
                   ed_jsonText := []\<rparr>)
              (map_gen (normalizeOperation now) payload (ed_seed st))
           else
             map_option (\<lambda>(finalOps, m).
                st\<lparr>ed_seed := m, ed_visualMode := Operations, ed_operations := finalOps, ed_selected := first_id finalOps,
                   ed_jsonText := json_pretty (JObj (obj_lit [(''operations'', JArr payload)])), ed_jsonError := None,
                   ed_editMode := Visual\<rparr>)
              (load_rules now payload (ed_seed st))))"

definition resetEditorState :: "clock \<Rightarrow> editor \<Rightarrow> editor" where
  "resetEditorState now st =
     (let (fallback, m) = createDefaultOperation now (ed_seed st) in
      st\<lparr>ed_seed := m, ed_visualMode := Operations, ed_legacyValue := [], ed_operations := [fallback],
         ed_selected := o_id fallback, ed_jsonText := [], ed_jsonError := None, ed_template := lit ''operations_default'',
         ed_editMode := Visual\<rparr>)"

definition handleJsonChange :: "jstring \<Rightarrow> editor \<Rightarrow> editor" where
  "handleJsonChange nextValue st =
     (let trimmed = trim nextValue in
      st\<lparr>ed_jsonText := nextValue,
         ed_jsonError := (if trimmed = [] \<or> verifyJSON trimmed then None else Some JsonFormatError)\<rparr>)"

definition formatJson :: "editor \<Rightarrow> editor" where
  "formatJson st =
     (let trimmed = trim (ed_jsonText st) in
      if trimmed = [] then st
      else
        case json_parse trimmed of
          None \<Rightarrow> toast MustBeValidJson st
        | Some v \<Rightarrow> st\<lparr>ed_jsonText := json_pretty v, ed_jsonError := None\<rparr>)"

definition visualValidationError :: "editor \<Rightarrow> editor_msg option" where
  "visualValidationError st =
     (if ed_editMode st \<noteq> Visual then None else case buildVisualJson st of Inl e \<Rightarrow> Some e | Inr _ \<Rightarrow> None)"

definition save_result :: "editor \<Rightarrow> editor_msg + jstring" where
  "save_result st =
     (if ed_editMode st = Json then
        (let trimmed = trim (ed_jsonText st) in
         if trimmed = [] then Inr []
         else case json_parse trimmed of None \<Rightarrow> Inl MustBeValidJson | Some v \<Rightarrow> Inr (json_pretty v))
      else buildVisualJson st)"

definition handleSave :: "editor \<Rightarrow> editor" where
  "handleSave st =
     (case save_result st of
        Inr result \<Rightarrow> st\<lparr>ed_saved := result # ed_saved st, ed_open := False\<rparr>
      | Inl e \<Rightarrow> toast e st)"

definition set_all_conditions :: "bool \<Rightarrow> editor \<Rightarrow> editor" where
  "set_all_conditions b st =
     (case selectedOperation st of
        None \<Rightarrow> st
      | Some op \<Rightarrow> st\<lparr>ed_expanded := foldl (\<lambda>m c. m(c_id c \<mapsto> b)) (ed_expanded st) (o_conditions op)\<rparr>)"

section \<open>Events\<close>

datatype ed_event =
    Open jstring | Select jstring | UpdateOperation jstring op_patch | AddOperation | DuplicateOperation bool jstring
  | RemoveOperation jstring | AddCondition jstring | UpdateCondition jstring jstring cond_patch | RemoveCondition jstring jstring
  | UpdateReturnError jstring error_patch | UpdatePrune jstring prune_patch | AddPruneRule jstring
  | UpdatePruneRule jstring jstring cond_patch | RemovePruneRule jstring jstring | ShowPrune
  | DragStart jstring | DragOver jstring bool | DragEnd | Drop jstring jstring
  | ToJson | ToVisual | ChooseTemplate jstring | FillTemplate bool | Reset | EditLegacy jstring | EditJson jstring | FormatJson
  | ExpandCondition jstring bool | ExpandAll bool | Save | Close

fun handle :: "clock \<Rightarrow> ed_event \<Rightarrow> editor \<Rightarrow> editor option" where
  "handle now (Open v) st = openEditor now v st"
| "handle now (Select i) st = Some (st\<lparr>ed_selected := i\<rparr>)"
| "handle now (UpdateOperation i p) st = Some (updateOperation i p st)"
| "handle now AddOperation st = Some (addOperation now st)"
| "handle now (DuplicateOperation eager i) st = duplicateOperation now eager i st"
| "handle now (RemoveOperation i) st = Some (removeOperation now i st)"
| "handle now (AddCondition i) st = Some (addCondition now i st)"
| "handle now (UpdateCondition i ci p) st = Some (updateCondition i ci p st)"
| "handle now (RemoveCondition i ci) st = Some (removeCondition i ci st)"
| "handle now (UpdateReturnError i p) st = Some (updateReturnErrorDraft i p st)"
| "handle now (UpdatePrune i p) st = updatePruneObjectsDraft now i (pure_update (patch_prune p)) st"
| "handle now (AddPruneRule i) st = addPruneRule now i st"
| "handle now (UpdatePruneRule i ri p) st = updatePruneRule now i ri p st"
| "handle now (RemovePruneRule i ri) st = removePruneRule now i ri st"
| "handle now ShowPrune st = map_option snd (pruneObjectsDraft now st)"
| "handle now (DragStart i) st = Some (handleDragStart i st)"
| "handle now (DragOver i below) st = Some (handleDragOver i below st)"
| "handle now DragEnd st = Some (resetDragState st)"
| "handle now (Drop data i) st = Some (handleDrop data i st)"
| "handle now ToJson st = Some (switchToJsonMode st)"
| "handle now ToVisual st = switchToVisualMode now st"
| "handle now (ChooseTemplate k) st = Some (st\<lparr>ed_template := sor k (lit ''operations_default'')\<rparr>)"
| "handle now (FillTemplate appending) st = fillTemplate now appending st"
| "handle now Reset st = Some (resetEditorState now st)"
| "handle now (EditLegacy v) st = Some (st\<lparr>ed_legacyValue := v\<rparr>)"
| "handle now (EditJson v) st = Some (handleJsonChange v st)"
| "handle now FormatJson st = Some (formatJson st)"
| "handle now (ExpandCondition ci b) st = Some (st\<lparr>ed_expanded := (ed_expanded st)(ci \<mapsto> b)\<rparr>)"
| "handle now (ExpandAll b) st = Some (set_all_conditions b st)"
| "handle now Save st = Some (handleSave st)"
| "handle now Close st = Some (st\<lparr>ed_open := False\<rparr>)"

text \<open>The values the controls of the form can take: a mode or logic is chosen from its list.\<close>

definition event_ok :: "ed_event \<Rightarrow> bool" where
  "event_ok ev \<longleftrightarrow>
     (case ev of
        UpdateOperation _ (PMode m) \<Rightarrow> m \<in> set OPERATION_MODE_VALUES
      | UpdateOperation _ (PLogic l) \<Rightarrow> l = lit ''OR'' \<or> l = lit ''AND''
      | UpdateCondition _ _ (CMode m) \<Rightarrow> m \<in> set CONDITION_MODE_VALUES
      | _ \<Rightarrow> True)"

definition dispatch :: "clock \<Rightarrow> ed_event \<Rightarrow> editor \<Rightarrow> editor option" where
  "dispatch now ev st = map_option syncSelection (handle now ev st)"

definition initial_editor :: "clock \<Rightarrow> nat \<Rightarrow> editor" where
  "initial_editor now n =
     (let (dflt, m) = createDefaultOperation now n in
      syncSelection \<lparr>ed_editMode = Visual, ed_visualMode = Operations, ed_legacyValue = [], ed_operations = [dflt], ed_jsonText = [],
       ed_jsonError = None, ed_selected = [], ed_expanded = Map.empty, ed_dragged = [], ed_dragOver = [],
       ed_dropPos = Before, ed_template = lit ''operations_default'', ed_seed = m, ed_toasts = [], ed_saved = [], ed_open = False\<rparr>)"

inductive ed_reachable :: "clock \<Rightarrow> editor \<Rightarrow> bool" for now where
  init: "ed_reachable now (initial_editor now n)"
| step: "ed_reachable now st \<Longrightarrow> event_ok ev \<Longrightarrow> dispatch now ev st = Some st' \<Longrightarrow> ed_reachable now st'"

end
