(* ===== verification/Param_Override_Safety.thy ===== *)
theory Param_Override_Safety
  imports Param_Override_Editor
begin

text \<open>
  Properties of the parameter override dialog: every reachable state is well-formed, switching modes keeps the
  rules, and what the editor of prune rules does.
\<close>

section \<open>Ids\<close>

lemma last_segment: "a @ 95 # b = c @ 95 # d \<Longrightarrow> 95 \<notin> set b \<Longrightarrow> 95 \<notin> set d \<Longrightarrow> b = (d :: nat list)"
proof -
  assume e: "a @ 95 # b = c @ 95 # d" and n: "95 \<notin> set b" "95 \<notin> set d"
  have t: "takeWhile (\<lambda>x. x \<noteq> 95) (rev (u @ 95 # v)) = rev v" if "95 \<notin> set v" for u v :: "nat list"
    using that by (simp, subst takeWhile_append2) auto
  from t [OF n(1), of a] t [OF n(2), of c] e show "b = d" by simp
qed

interpretation ids: id_supply "nextLocalId now" for now
proof
  fix m n assume "nextLocalId now m = nextLocalId now n"
  then have "(lit ''po_'' @ nat_str (now m)) @ 95 # nat_str m = (lit ''po_'' @ nat_str (now n)) @ 95 # nat_str n"
    by (simp add: nextLocalId_def)
  then have "nat_str m = nat_str n" by (rule last_segment) (auto dest: nat_str_digits simp: is_digit_def)
  then show "m = n" by simp
qed

section \<open>Well-formed lists of rules\<close>

definition op_typed :: "operation \<Rightarrow> bool" where
  "op_typed op \<longleftrightarrow>
     o_mode op \<in> set OPERATION_MODE_VALUES \<and> (o_logic op = lit ''OR'' \<or> o_logic op = lit ''AND'') \<and>
     list_all (\<lambda>c. c_mode c \<in> set CONDITION_MODE_VALUES) (o_conditions op)"

definition all_ids :: "operation \<Rightarrow> jstring list" where
  "all_ids op = o_id op # map c_id (o_conditions op)"

definition wf_rules :: "clock \<Rightarrow> operation list \<Rightarrow> nat \<Rightarrow> bool" where
  "wf_rules now ops n \<longleftrightarrow>
     ops \<noteq> [] \<and> list_all op_typed ops \<and> distinct (concat (map all_ids ops)) \<and> set (concat (map all_ids ops)) \<subseteq> ids.issued now n"

lemma mode_field_in: "lit d \<in> set values \<Longrightarrow> mode_field values d ps \<in> set values"
  by (auto simp: mode_field_def split: jval.splits)

lemma default_modes: "lit ''set'' \<in> set OPERATION_MODE_VALUES" "lit ''full'' \<in> set CONDITION_MODE_VALUES"
  by code_simp+

lemma condition_of_mode: "c_mode (condition_of i ps) \<in> set CONDITION_MODE_VALUES"
  by (simp add: condition_of_def mode_field_in default_modes del: list.map)

lemma operation_of_typed: "list_all (\<lambda>c. c_mode c \<in> set CONDITION_MODE_VALUES) cs \<Longrightarrow> op_typed (operation_of i ps cs)"
  by (simp add: operation_of_def op_typed_def logic_field_def mode_field_in default_modes del: list.map)

lemma map_gen_all:
  assumes "\<And>x n y m. f x n = Some (y, m) \<Longrightarrow> P y" and "map_gen f xs n = Some (ys, k)"
  shows "list_all P ys"
  using assms(2)
proof (induction xs arbitrary: n ys)
  case (Cons x xs)
  then show ?case using assms(1) by (auto split: option.splits)
qed simp

lemma normalizeCondition_ok:
  assumes "normalizeCondition now v n = Some (c, m)"
  shows "c_mode c \<in> set CONDITION_MODE_VALUES" "ids.fresh_keys now [c_id c] n m"
  using assms condition_of_mode by (auto simp: normalizeCondition_def) (simp_all add: condition_of_def)

lemma normalizeOperation_ok:
  assumes "normalizeOperation now v n = Some (op, m)"
  shows "op_typed op" "ids.fresh_keys now (all_ids op) n m"
proof -
  obtain ps where ps: "fields_of v = Some ps" using assms by (auto simp: normalizeOperation_def split: option.splits)
  define r where "r = (case get ps ''conditions'' of JArr vs \<Rightarrow> map_gen (normalizeCondition now) vs (Suc n) | _ \<Rightarrow> Some ([], Suc n))"
  from assms obtain cs where r: "r = Some (cs, m)" and o: "op = operation_of (nextLocalId now n) ps cs"
    unfolding normalizeOperation_def ps option.case r_def [symmetric] by auto
  have cs: "(\<exists>vs. map_gen (normalizeCondition now) vs (Suc n) = Some (cs, m)) \<or> cs = [] \<and> m = Suc n"
    using r unfolding r_def by (cases "get ps ''conditions''") auto
  have "list_all (\<lambda>c. c_mode c \<in> set CONDITION_MODE_VALUES) cs"
    using cs
  proof
    assume "\<exists>vs. map_gen (normalizeCondition now) vs (Suc n) = Some (cs, m)"
    then obtain vs where "map_gen (normalizeCondition now) vs (Suc n) = Some (cs, m)" by blast
    then show ?thesis by (rule map_gen_all [rotated]) (rule normalizeCondition_ok(1))
  qed simp
  then show "op_typed op" unfolding o by (rule operation_of_typed)
  have "ids.fresh_keys now (concat (map (\<lambda>c. [c_id c]) cs)) (Suc n) m"
    using cs
  proof
    assume "\<exists>vs. map_gen (normalizeCondition now) vs (Suc n) = Some (cs, m)"
    then obtain vs where "map_gen (normalizeCondition now) vs (Suc n) = Some (cs, m)" by blast
    then show ?thesis by (rule ids.map_gen_fresh [rotated]) (rule normalizeCondition_ok(2))
  qed (simp add: ids.fresh_keys_def)
  moreover have "concat (map (\<lambda>c. [c_id c]) cs) = map c_id cs" by (induction cs) auto
  ultimately have "ids.fresh_keys now ([nextLocalId now n] @ map c_id cs) n m"
    by (intro ids.fresh_append [OF ids.fresh_one]) simp
  then show "ids.fresh_keys now (all_ids op) n m" unfolding o by (simp add: all_ids_def operation_of_def)
qed

lemma wf_fresh:
  assumes "ids.fresh_keys now (concat (map all_ids ops)) n m" and "list_all op_typed ops" and "ops \<noteq> []"
  shows "wf_rules now ops m"
  using assms ids.fresh_issued [OF assms(1)] by (simp add: wf_rules_def ids.fresh_keys_def)

lemma wf_default: "createDefaultOperation now n = (op, m) \<Longrightarrow> wf_rules now [op] m \<and> n \<le> m"
proof -
  assume "createDefaultOperation now n = (op, m)"
  then have o: "op = operation_of (nextLocalId now n) (obj_lit [(''mode'', jstr_lit ''set'')]) []" and m: "m = Suc n"
    by (simp_all add: createDefaultOperation_def)
  have "concat (map all_ids [op]) = [nextLocalId now n]" unfolding o by (simp add: all_ids_def operation_of_def)
  moreover have "op_typed op" unfolding o by (rule operation_of_typed) simp
  ultimately have "wf_rules now [op] (Suc n)" by (intro wf_fresh [where n = n]) simp_all
  with m show ?thesis by simp
qed

lemma map_gen_normalize:
  assumes "map_gen (normalizeOperation now) vs n = Some (ops, m)"
  shows "ids.fresh_keys now (concat (map all_ids ops)) n m" "list_all op_typed ops" "length ops = length vs"
proof -
  show "ids.fresh_keys now (concat (map all_ids ops)) n m"
    by (rule ids.map_gen_fresh [OF _ assms]) (rule normalizeOperation_ok(2))
  show "list_all op_typed ops" by (rule map_gen_all [OF _ assms]) (rule normalizeOperation_ok(1))
  have "map_gen f vs n = Some (ys, m) \<Longrightarrow> length ys = length vs" for f :: "jval \<Rightarrow> nat \<Rightarrow> (operation \<times> nat) option" and ys
    by (induction vs arbitrary: n ys) (auto split: option.splits)
  with assms show "length ops = length vs" by blast
qed

lemma wf_load: "load_rules now vs n = Some (ops, m) \<Longrightarrow> wf_rules now ops m \<and> n \<le> m"
proof (cases "vs = []")
  case True
  obtain d k where "createDefaultOperation now n = (d, k)" by force
  with True wf_default [OF this] show "load_rules now vs n = Some (ops, m) \<Longrightarrow> ?thesis" by (simp add: load_rules_def)
next
  case False
  assume "load_rules now vs n = Some (ops, m)"
  with False have g: "map_gen (normalizeOperation now) vs n = Some (ops, m)" by (simp add: load_rules_def)
  have "ops \<noteq> []" using map_gen_normalize(3) [OF g] False by auto
  with wf_fresh [OF map_gen_normalize(1,2) [OF g]] map_gen_normalize(1) [OF g] show ?thesis by (simp add: ids.fresh_keys_def)
qed

lemma wf_mono: "wf_rules now ops n \<Longrightarrow> n \<le> m \<Longrightarrow> wf_rules now ops m"
  using ids.issued_mono [of n m] unfolding wf_rules_def by blast

lemma mset_all_ids: "mset xs = mset ys \<Longrightarrow> mset (concat (map all_ids xs)) = mset (concat (map all_ids ys))"
proof -
  have "mset (concat (map all_ids zs)) = sum_mset (image_mset (\<lambda>op. mset (all_ids op)) (mset zs))" for zs
    by (induction zs) auto
  then show "mset xs = mset ys \<Longrightarrow> ?thesis" by simp
qed

lemma wf_perm: "wf_rules now xs n \<Longrightarrow> mset ys = mset xs \<Longrightarrow> wf_rules now ys n"
proof -
  assume w: "wf_rules now xs n" and m: "mset ys = mset xs"
  from m have "ys = [] \<longleftrightarrow> xs = []" "set ys = set xs" by (auto dest: mset_eq_setD)
  moreover have "set (concat (map all_ids ys)) = set (concat (map all_ids xs))" "distinct (concat (map all_ids ys)) = distinct (concat (map all_ids xs))"
    using mset_eq_setD [OF mset_all_ids [OF m]] mset_eq_imp_distinct_iff [OF mset_all_ids [OF m]] by blast+
  ultimately show ?thesis using w by (simp add: wf_rules_def list_all_iff)
qed

lemma wf_append:
  assumes "wf_rules now ops n" and "ids.fresh_keys now (concat (map all_ids new)) n m" and "list_all op_typed new"
  shows "wf_rules now (ops @ new) m"
proof -
  have "n \<le> m" using assms(2) by (simp add: ids.fresh_keys_def)
  then have "ids.issued now n \<subseteq> ids.issued now m" by (rule ids.issued_mono)
  moreover have "set (concat (map all_ids ops)) \<inter> set (concat (map all_ids new)) = {}"
    using assms(1) ids.fresh_not_issued [OF assms(2)] unfolding wf_rules_def by blast
  moreover have "concat (map all_ids (ops @ new)) = concat (map all_ids ops) @ concat (map all_ids new)" by simp
  moreover have "distinct (concat (map all_ids ops))" "distinct (concat (map all_ids new))"
    using assms(1,2) by (simp_all add: wf_rules_def ids.fresh_keys_def)
  moreover have "set (concat (map all_ids ops)) \<subseteq> ids.issued now n" "set (concat (map all_ids new)) \<subseteq> ids.issued now m"
    using assms(1) ids.fresh_issued [OF assms(2)] by (simp_all add: wf_rules_def)
  ultimately have "distinct (concat (map all_ids (ops @ new))) \<and> set (concat (map all_ids (ops @ new))) \<subseteq> ids.issued now m"
    by (simp only: distinct_append set_append) blast
  then show ?thesis using assms(1,3) unfolding wf_rules_def by simp
qed

lemma wf_filter: "wf_rules now ops n \<Longrightarrow> filter P ops \<noteq> [] \<Longrightarrow> wf_rules now (filter P ops) n"
proof -
  have "set (concat (map all_ids (filter P xs))) \<subseteq> set (concat (map all_ids xs))" for xs by auto
  moreover have "distinct (concat (map all_ids xs)) \<Longrightarrow> distinct (concat (map all_ids (filter P xs)))" for xs
    by (induction xs) auto
  ultimately show "wf_rules now ops n \<Longrightarrow> filter P ops \<noteq> [] \<Longrightarrow> ?thesis"
    unfolding wf_rules_def by (force simp: list_all_iff)
qed

lemma wf_distinct: "wf_rules now ops n \<Longrightarrow> distinct (map o_id ops)"
proof -
  have "distinct (concat (map all_ids xs)) \<Longrightarrow> distinct (map o_id xs)" for xs
    by (induction xs) (auto simp: all_ids_def)
  then show "wf_rules now ops n \<Longrightarrow> ?thesis" by (simp add: wf_rules_def)
qed

text \<open>A change of one rule that keeps its ids, or adds new ones.\<close>

lemma map_op_absent: "i \<notin> o_id ` set ops \<Longrightarrow> map_op i f ops = ops"
  by (induction ops) (auto simp: map_op_def)

lemma map_op_split:
  assumes "distinct (map o_id ops)"
  shows "map_op i f ops = ops \<or> (\<exists>a x b. ops = a @ x # b \<and> o_id x = i \<and> map_op i f ops = a @ f x # b)"
proof (cases "i \<in> o_id ` set ops")
  case True
  then obtain a x b where s: "ops = a @ x # b" "o_id x = i" by (auto dest: split_list)
  with assms have "map_op i f a = a" "map_op i f b = b" by (auto intro!: map_op_absent)
  with s have "map_op i f ops = a @ f x # b" by (simp add: map_op_def)
  with s show ?thesis by blast
qed (simp add: map_op_absent)

lemma wf_map_op:
  assumes "wf_rules now ops n" and "n \<le> m"
    and "\<And>x. op_typed x \<Longrightarrow> distinct (all_ids x) \<Longrightarrow> set (all_ids x) \<subseteq> ids.issued now n \<Longrightarrow>
      op_typed (f x) \<and> distinct (all_ids (f x)) \<and> set (all_ids (f x)) \<subseteq> set (all_ids x) \<union> nextLocalId now ` {n..<m}"
  shows "wf_rules now (map_op i f ops) m"
  using map_op_split [OF wf_distinct [OF assms(1)], of i f]
proof
  assume "\<exists>a x b. ops = a @ x # b \<and> o_id x = i \<and> map_op i f ops = a @ f x # b"
  then obtain a x b where s: "ops = a @ x # b" "map_op i f ops = a @ f x # b" by blast
  have mono: "ids.issued now n \<subseteq> ids.issued now m" using assms(2) by (rule ids.issued_mono)
  have new: "nextLocalId now ` {n..<m} \<subseteq> ids.issued now m" by (auto simp: ids.issued_def)
  have dis: "nextLocalId now ` {n..<m} \<inter> ids.issued now n = {}" using ids.issue_inj [of now] by (force simp: ids.issued_def)
  have w: "list_all op_typed (a @ x # b)" "distinct (concat (map all_ids (a @ x # b)))"
    "set (concat (map all_ids (a @ x # b))) \<subseteq> ids.issued now n" using assms(1) by (simp_all add: wf_rules_def s)
  then have x: "op_typed x" "distinct (all_ids x)" "set (all_ids x) \<subseteq> ids.issued now n" by auto
  note fx = assms(3) [OF x]
  let ?A = "set (concat (map all_ids a))" and ?B = "set (concat (map all_ids b))"
  have sub: "?A \<subseteq> ids.issued now n" "?B \<subseteq> ids.issued now n" "?A \<inter> set (all_ids x) = {}" "?B \<inter> set (all_ids x) = {}" "?A \<inter> ?B = {}"
    using w(2,3) by auto
  have "set (all_ids (f x)) \<inter> ?A = {}" "set (all_ids (f x)) \<inter> ?B = {}" using sub fx dis by blast+
  moreover have "distinct (concat (map all_ids a))" "distinct (concat (map all_ids b))" using w(2) by auto
  moreover have "concat (map all_ids (a @ f x # b)) = concat (map all_ids a) @ all_ids (f x) @ concat (map all_ids b)" by simp
  ultimately have "distinct (concat (map all_ids (a @ f x # b)))" using fx sub(5) by (simp only: distinct_append set_append) blast
  moreover have "?A \<subseteq> ids.issued now m" "?B \<subseteq> ids.issued now m"
    using subset_trans [OF sub(1) mono] subset_trans [OF sub(2) mono] by auto
  moreover have "set (all_ids (f x)) \<subseteq> ids.issued now m"
    by (rule subset_trans [OF conjunct2 [OF conjunct2 [OF fx]] Un_least [OF subset_trans [OF x(3) mono] new]])
  then have "set (concat (map all_ids (a @ f x # b))) \<subseteq> ids.issued now m" using calculation by simp
  ultimately show ?thesis using fx w(1) by (simp add: wf_rules_def s(2))
qed (use wf_mono [OF assms(1,2)] in simp)

section \<open>Every handler keeps the rules well-formed\<close>

abbreviation wf_editor :: "clock \<Rightarrow> editor \<Rightarrow> bool" where
  "wf_editor now st \<equiv> wf_rules now (ed_operations st) (ed_seed st)"

lemma wf_default': "wf_rules now [fst (createDefaultOperation now n)] (snd (createDefaultOperation now n))"
  using wf_default [of now n] by (cases "createDefaultOperation now n") auto

lemma wf_parse:
  assumes "parseInitialState now v n = Some (s, m)"
  shows "wf_rules now (s_operations s) m"
  using assms wf_default' [of now n] wf_load
  by (auto simp: parseInitialState_def Let_def case_prod_beta split: if_splits option.splits jval.splits)

lemma wf_open: "handle now (Open v) st = Some st' \<Longrightarrow> wf_editor now st'"
  using wf_parse by (auto simp: openEditor_def)

lemma patch_op_ids: "all_ids (patch_op p op) = all_ids op"
  by (cases p) (simp_all add: all_ids_def)

lemma patch_op_typed: "event_ok (UpdateOperation i p) \<Longrightarrow> op_typed op \<Longrightarrow> op_typed (patch_op p op)"
  by (cases p) (auto simp: event_ok_def op_typed_def simp del: list.map)

lemma wf_update_op: "wf_editor now st \<Longrightarrow> event_ok (UpdateOperation i p) \<Longrightarrow> wf_editor now (updateOperation i p st)"
  using wf_map_op [of now "ed_operations st" "ed_seed st" "ed_seed st" "patch_op p" i]
  by (simp add: updateOperation_def patch_op_ids patch_op_typed)

lemma wf_edit:
  assumes "wf_editor now st"
    and "\<And>x. op_typed x \<Longrightarrow> distinct (all_ids x) \<Longrightarrow>
      op_typed (f x) \<and> distinct (all_ids (f x)) \<and> set (all_ids (f x)) \<subseteq> set (all_ids x)"
  shows "wf_editor now (st\<lparr>ed_operations := map_op i f (ed_operations st)\<rparr>)"
  using wf_map_op [OF assms(1), of "ed_seed st" f i] assms(2) by simp

lemma wf_return_error: "wf_editor now st \<Longrightarrow> wf_editor now (updateReturnErrorDraft i p st)"
  unfolding updateReturnErrorDraft_def by (erule wf_edit) (auto simp: op_typed_def all_ids_def)

lemma patch_cond_id: "c_id (patch_cond p c) = c_id c"
  by (cases p) auto

lemma wf_update_cond:
  assumes "wf_editor now st" and "event_ok (UpdateCondition i ci p)"
  shows "wf_editor now (updateCondition i ci p st)"
proof -
  let ?g = "\<lambda>c. if c_id c = ci then patch_cond p c else c"
  have i: "c_id (?g c) = c_id c" for c by (simp add: patch_cond_id)
  have m: "c_mode c \<in> set CONDITION_MODE_VALUES \<Longrightarrow> c_mode (patch_cond p c) \<in> set CONDITION_MODE_VALUES" for c
    using assms(2) by (cases p) (auto simp: event_ok_def)
  show ?thesis unfolding updateCondition_def
    by (intro wf_edit [OF assms(1)]) (auto simp: op_typed_def all_ids_def comp_def list_all_iff i m simp del: list.map(2) split: if_splits)
qed

lemma wf_remove_cond: "wf_editor now st \<Longrightarrow> wf_editor now (removeCondition i ci st)"
  unfolding removeCondition_def by (erule wf_edit) (auto simp: op_typed_def all_ids_def list_all_iff distinct_map_filter)

lemma wf_add_cond: "wf_editor now st \<Longrightarrow> wf_editor now (addCondition now i st)"
proof -
  assume w: "wf_editor now st"
  let ?c = "condition_of (nextLocalId now (ed_seed st)) []"
  have new: "nextLocalId now (ed_seed st) \<notin> ids.issued now (ed_seed st)"
    using ids.fresh_not_issued [OF ids.fresh_one [of now "ed_seed st"]] by simp
  have "c_id ?c = nextLocalId now (ed_seed st)" by (simp add: condition_of_def)
  then have "wf_rules now (map_op i (\<lambda>op. op\<lparr>o_conditions := o_conditions op @ [?c]\<rparr>) (ed_operations st)) (Suc (ed_seed st))"
    using new by (intro wf_map_op [OF w]) (auto simp: op_typed_def all_ids_def condition_of_mode)
  then show ?thesis by (simp add: addCondition_def createDefaultCondition_def)
qed

lemma wf_add: "wf_editor now st \<Longrightarrow> wf_editor now (addOperation now st)"
proof -
  assume w: "wf_editor now st"
  obtain op m where c: "createDefaultOperation now (ed_seed st) = (op, m)" by force
  have "ids.fresh_keys now (concat (map all_ids [op])) (ed_seed st) m" "list_all op_typed [op]"
    using c by (auto simp: createDefaultOperation_def all_ids_def operation_of_def)
      (use operation_of_typed [of "[]"] in \<open>simp add: operation_of_def\<close>)
  then show ?thesis using wf_append [OF w] by (simp add: addOperation_def c)
qed

lemma wf_duplicate: "wf_editor now st \<Longrightarrow> duplicateOperation now eager i st = Some st' \<Longrightarrow> wf_editor now st'"
proof (cases "index_of i (ed_operations st)")
  case (Some k)
  let ?ops = "ed_operations st"
  assume w: "wf_editor now st" and d: "duplicateOperation now eager i st = Some st'"
  from d Some obtain op m where n: "normalizeOperation now (copy_operation (?ops ! k)) (ed_seed st) = Some (op, m)"
    and st': "ed_seed st' = m" "ed_operations st' = take (k + 1) ?ops @ op # drop (k + 1) ?ops"
    by (auto simp: duplicateOperation_def)
  have "wf_rules now (?ops @ [op]) m" using normalizeOperation_ok [OF n] by (intro wf_append [OF w]) simp_all
  moreover have "mset (take (k + 1) ?ops) + mset (drop (k + 1) ?ops) = mset ?ops"
    by (simp only: append_take_drop_id flip: mset_append)
  then have "mset (ed_operations st') = mset (?ops @ [op])" unfolding st' by simp
  ultimately show ?thesis unfolding st'(1) by (rule wf_perm)
qed (simp add: duplicateOperation_def)

lemma wf_remove: "wf_editor now st \<Longrightarrow> wf_editor now (removeOperation now i st)"
proof (cases "length (ed_operations st) \<le> 1")
  case True
  then show ?thesis using wf_default' [of now "ed_seed st"] by (simp add: removeOperation_def case_prod_beta Let_def)
next
  case False
  assume w: "wf_editor now st"
  obtain a b r where ops: "ed_operations st = a # b # r" using False by (metis One_nat_def length_Cons list.size(3) list.exhaust not_less_eq_eq zero_le)
  have "o_id a \<noteq> o_id b" using wf_distinct [OF w] by (simp add: ops)
  then have "filter (\<lambda>op. o_id op \<noteq> i) (ed_operations st) \<noteq> []" by (auto simp: ops)
  with wf_filter [OF w] False show ?thesis by (simp add: removeOperation_def)
qed

lemma map_gen_keep:
  assumes "\<And>x n y m. f x n = Some (y, m) \<Longrightarrow> n \<le> m \<and> g y = g x" and "map_gen f xs n = Some (ys, k)"
  shows "n \<le> k \<and> map g ys = map g xs"
  using assms(2)
proof (induction xs arbitrary: n ys)
  case (Cons x xs)
  then obtain y m zs where "f x n = Some (y, m)" "map_gen f xs m = Some (zs, k)" "ys = y # zs"
    by (auto split: option.splits)
  with Cons.IH [of m zs] assms(1) [of x n y m] show ?case by auto
qed simp

lemma prune_rules_fresh:
  assumes "map_gen (normalizePruneRule now) os n = Some (rs, m)"
  shows "ids.fresh_keys now (map c_id rs) n m"
proof -
  have "ids.fresh_keys now (concat (map (\<lambda>c. [c_id c]) rs)) n m"
    by (rule ids.map_gen_fresh [OF _ assms]) (auto simp: normalizePruneRule_def condition_of_def)
  moreover have "concat (map (\<lambda>c. [c_id c]) rs) = map c_id rs" by (induction rs) auto
  ultimately show ?thesis by simp
qed

lemma prune_draft_fresh:
  assumes "parsePruneObjectsDraft now s n = Some (d, m)"
  shows "ids.fresh_keys now (map c_id (p_rules d)) n m"
proof -
  have nil: "ids.fresh_keys now (map c_id (p_rules prune_defaults)) n n" by (simp add: prune_defaults_def ids.fresh_keys_def)
  show ?thesis
  proof (cases "\<exists>ps. trim s \<noteq> [] \<and> json_parse (trim s) = Some (JObj ps)")
    case True
    then obtain ps rs where "map_gen (normalizePruneRule now) (rule_objects ps) n = Some (rs, m)" "d = prune_draft_of ps rs"
      using assms by (auto simp: parsePruneObjectsDraft_def)
    with prune_rules_fresh show ?thesis by (simp add: prune_draft_of_def)
  next
    case False
    then have "p_rules d = p_rules prune_defaults \<and> m = n"
      using assms by (auto simp: parsePruneObjectsDraft_def Let_def split: if_splits option.splits jval.splits)
    with nil show ?thesis by simp
  qed
qed

lemma wf_prune:
  assumes "wf_editor now st" and "\<And>d n d' m. updater d n = Some (d', m) \<Longrightarrow> n \<le> m"
    and "updatePruneObjectsDraft now i updater st = Some st'"
  shows "wf_editor now st'"
proof -
  from assms(3) obtain ops m where g: "map_gen (update_prune_text now i updater) (ed_operations st) (ed_seed st) = Some (ops, m)"
    and st': "st' = st\<lparr>ed_seed := m, ed_operations := ops\<rparr>" by (auto simp: updatePruneObjectsDraft_def)
  have keep: "n \<le> m \<and> (all_ids op', op_typed op') = (all_ids op, op_typed op)"
    if u: "update_prune_text now i updater op n = Some (op', m)" for op n op' m
  proof (cases "o_id op = i")
    case True
    with u obtain d k d' where p: "parsePruneObjectsDraft now (o_value_text op) n = Some (d, k)" "updater d k = Some (d', m)"
      "op' = op\<lparr>o_value_text := buildPruneObjectsValueText d'\<rparr>"
      by (auto simp: update_prune_text_def Option.bind_eq_Some_conv)
    then show ?thesis using prune_draft_fresh [OF p(1)] assms(2) [OF p(2)] by (auto simp: ids.fresh_keys_def all_ids_def op_typed_def)
  qed (use u in \<open>simp add: update_prune_text_def\<close>)
  have k: "ed_seed st \<le> m" "map (\<lambda>op. (all_ids op, op_typed op)) ops = map (\<lambda>op. (all_ids op, op_typed op)) (ed_operations st)"
    using map_gen_keep [of _ "\<lambda>op. (all_ids op, op_typed op)", OF keep g] by auto
  then have "map (fst \<circ> (\<lambda>op. (all_ids op, op_typed op))) ops = map (fst \<circ> (\<lambda>op. (all_ids op, op_typed op))) (ed_operations st)"
    "map (snd \<circ> (\<lambda>op. (all_ids op, op_typed op))) ops = map (snd \<circ> (\<lambda>op. (all_ids op, op_typed op))) (ed_operations st)"
    by (simp_all only: flip: list.map_comp)
  then have e: "map all_ids ops = map all_ids (ed_operations st)" "map op_typed ops = map op_typed (ed_operations st)"
    by (simp_all add: comp_def)
  have "list_all op_typed xs = list_all id (map op_typed xs)" for xs by (simp add: list.pred_map comp_def)
  then have "list_all op_typed ops = list_all op_typed (ed_operations st)" using e(2) by metis
  moreover have "ops = [] \<longleftrightarrow> ed_operations st = []" using e(1) by (metis map_is_Nil_conv)
  ultimately have "wf_rules now ops (ed_seed st)" using assms(1) unfolding wf_rules_def e(1) by blast
  then show ?thesis using k(1) by (simp add: st' wf_mono)
qed

lemma wf_drop: "wf_editor now st \<Longrightarrow> wf_editor now (handleDrop data i st)"
proof -
  assume w: "wf_editor now st"
  have "wf_rules now (reorderOperations (ed_operations st) a b p) (ed_seed st)" for a b p
    by (rule wf_perm [OF w reorder_mset])
  with w show ?thesis by (simp add: handleDrop_def Let_def resetDragState_def)
qed

lemma wf_to_visual:
  assumes "wf_editor now st" and "switchToVisualMode now st = Some st'"
  shows "wf_editor now st'"
  using assms wf_default' [of now "ed_seed st"] wf_load
  by (auto simp: switchToVisualMode_def Let_def case_prod_beta toast_def split: if_splits option.splits jval.splits)

lemma wf_legacy: "wf_editor now (fill_legacy now payload st)"
  using wf_default' [of now "ed_seed st"] by (simp add: fill_legacy_def Let_def case_prod_beta)

lemma wf_fill_rules:
  assumes "wf_editor now st" and "map_gen (normalizeOperation now) payload (ed_seed st) = Some (appended, m)" and "payload \<noteq> []"
  shows "wf_rules now ((if b then filter P (ed_operations st) else []) @ appended) m"
proof -
  note g = map_gen_normalize [OF assms(2)]
  have a: "appended \<noteq> []" using g(3) assms(3) by auto
  have fresh: "wf_rules now appended m" by (rule wf_fresh [OF g(1,2) a])
  show ?thesis
  proof (cases "b \<and> filter P (ed_operations st) \<noteq> []")
    case True
    then have "wf_rules now (filter P (ed_operations st)) (ed_seed st)" using wf_filter [OF assms(1)] by blast
    from wf_append [OF this g(1,2)] True show ?thesis by simp
  qed (use fresh in auto)
qed

text \<open>The rule templates are not empty.\<close>

lemma presets_not_empty:
  "list_all (\<lambda>p. case snd p of OperationsPreset vs \<Rightarrow> vs \<noteq> [] | LegacyPreset _ \<Rightarrow> True) TEMPLATE_PRESET_CONFIG"
  by code_simp

lemma preset_not_empty: "preset_of key = OperationsPreset vs \<Longrightarrow> vs \<noteq> []"
proof -
  assume p: "preset_of key = OperationsPreset vs"
  have "(k, OperationsPreset vs) \<in> set TEMPLATE_PRESET_CONFIG \<Longrightarrow> vs \<noteq> []" for k
    using presets_not_empty by (auto simp: list_all_iff)
  moreover have "OPERATION_TEMPLATE \<noteq> []" by (simp add: OPERATION_TEMPLATE_def)
  ultimately show ?thesis using p by (fastforce simp: preset_of_def split: option.splits dest!: map_of_SomeD)
qed

lemma wf_fill_template:
  assumes "wf_editor now st" and "fillTemplate now appending st = Some st'"
  shows "wf_editor now st'"
proof (cases "preset_of (ed_template st)")
  case (LegacyPreset payload)
  have "wf_editor now (toast msg st)" for msg using assms(1) by (simp add: toast_def)
  with assms(2) wf_legacy show ?thesis unfolding fillTemplate_def LegacyPreset
    by (auto simp: Let_def split: if_splits option.splits)
next
  case (OperationsPreset payload)
  note ne = preset_not_empty [OF OperationsPreset]
  show ?thesis
  proof (cases appending)
    case True
    then obtain new m where g: "map_gen (normalizeOperation now) payload (ed_seed st) = Some (new, m)"
      using assms(2) by (auto simp: fillTemplate_def OperationsPreset)
    define ops where "ops = (if ed_visualMode st = Operations then filter (\<lambda>op. \<not> isOperationBlank op) (ed_operations st) else []) @ new"
    have "wf_rules now ops m" unfolding ops_def by (rule wf_fill_rules [OF assms(1) g ne])
    moreover from this have "ops \<noteq> []" by (simp add: wf_rules_def)
    ultimately show ?thesis using assms(2) True g
      by (auto simp: fillTemplate_def OperationsPreset Let_def ops_def simp del: append_is_Nil_conv)
  next
    case False
    then show ?thesis using assms(2) wf_load by (auto simp: fillTemplate_def OperationsPreset)
  qed
qed

lemma wf_reset: "wf_editor now (resetEditorState now st)"
  using wf_default' [of now "ed_seed st"] by (simp add: resetEditorState_def Let_def case_prod_beta)

lemma wf_handle:
  assumes "wf_editor now st" and "event_ok ev" and "handle now ev st = Some st'"
  shows "wf_editor now st'"
  using assms(3)
proof (cases ev)
  case (Open v)
  then show ?thesis using wf_open assms(3) by blast
next
  case (UpdatePrune i p)
  then show ?thesis using wf_prune [OF assms(1) _ assms(3) [unfolded UpdatePrune handle.simps]] by (auto simp: pure_update_def)
next
  case (AddPruneRule i)
  then show ?thesis using assms(3) unfolding AddPruneRule handle.simps addPruneRule_def
    by (intro wf_prune [OF assms(1)]) (auto simp: normalizePruneRule_def)
next
  case (UpdatePruneRule i ri p)
  then show ?thesis using assms(3) unfolding UpdatePruneRule handle.simps updatePruneRule_def
    by (intro wf_prune [OF assms(1)]) (auto simp: pure_update_def)
next
  case (RemovePruneRule i ri)
  then show ?thesis using assms(3) unfolding RemovePruneRule handle.simps removePruneRule_def
    by (intro wf_prune [OF assms(1)]) (auto simp: pure_update_def)
next
  case ShowPrune
  with assms(1,3) show ?thesis using wf_mono prune_draft_fresh
    by (auto simp: pruneObjectsDraft_def ids.fresh_keys_def simp del: list.map split: option.splits if_splits)
next
  case ToJson
  with assms(1,3) show ?thesis by (auto simp: switchToJsonMode_def toast_def Let_def split: sum.splits)
next
  case (ExpandAll b)
  with assms(1,3) show ?thesis by (auto simp: set_all_conditions_def split: option.splits)
next
  case FormatJson
  with assms(1,3) show ?thesis by (auto simp: formatJson_def toast_def Let_def split: option.splits if_splits)
next
  case Save
  with assms(1,3) show ?thesis by (auto simp: handleSave_def toast_def split: sum.splits)
next
  case (UpdateOperation i p)
  then show ?thesis using assms wf_update_op by auto
next
  case (DuplicateOperation eager i)
  then show ?thesis using assms wf_duplicate by simp
next
  case (UpdateCondition i ci p)
  then show ?thesis using assms wf_update_cond by auto
next
  case (RemoveOperation i)
  then show ?thesis using assms(1,3) wf_remove by auto
next
  case (AddOperation)
  then show ?thesis using assms(1,3) wf_add by auto
next
  case (AddCondition i)
  then show ?thesis using assms(1,3) wf_add_cond by auto
next
  case (RemoveCondition i ci)
  then show ?thesis using assms(1,3) wf_remove_cond by auto
next
  case (UpdateReturnError i p)
  then show ?thesis using assms(1,3) wf_return_error by auto
next
  case (Drop data i)
  then show ?thesis using assms(1,3) wf_drop by auto
next
  case (ToVisual)
  then show ?thesis using assms(1,3) wf_to_visual by simp
next
  case (FillTemplate appending)
  then show ?thesis using assms(1,3) wf_fill_template by simp
next
  case (Reset)
  then show ?thesis using assms(1,3) wf_reset by auto
next
  case (DragOver i below)
  then show ?thesis using assms(1,3) by (auto simp: handleDragOver_def)
next
  case (DragEnd)
  then show ?thesis using assms(1,3) by (auto simp: resetDragState_def)
next
  case (DragStart i)
  then show ?thesis using assms(1,3) by (auto simp: handleDragStart_def)
next
  case (EditJson v)
  then show ?thesis using assms(1,3) by (auto simp: handleJsonChange_def Let_def)
next
  case (Select i)
  then show ?thesis using assms(1,3) by auto
next
  case (ChooseTemplate k)
  then show ?thesis using assms(1,3) by auto
next
  case (EditLegacy v)
  then show ?thesis using assms(1,3) by auto
next
  case (ExpandCondition ci b)
  then show ?thesis using assms(1,3) by auto
next
  case (Close)
  then show ?thesis using assms(1,3) by auto
qed

lemma sync_ops: "ed_operations (syncSelection st) = ed_operations st" "ed_seed (syncSelection st) = ed_seed st"
  by (simp_all add: syncSelection_def)

lemma sync_selected: "ed_operations st \<noteq> [] \<Longrightarrow> ed_selected (syncSelection st) \<in> o_id ` set (ed_operations st)"
proof (cases "list_ex (\<lambda>op. o_id op = ed_selected st) (ed_operations st)")
  case True
  then show "ed_operations st \<noteq> [] \<Longrightarrow> ?thesis" by (force simp: syncSelection_def list_ex_iff)
next
  case False
  then show "ed_operations st \<noteq> [] \<Longrightarrow> ?thesis" by (cases "ed_operations st") (simp_all add: syncSelection_def first_id_def)
qed

lemma reachable_wf:
  assumes "ed_reachable now st"
  shows "wf_editor now st" "ed_selected st \<in> o_id ` set (ed_operations st)"
proof -
  have "wf_editor now st \<and> ed_selected st \<in> o_id ` set (ed_operations st)"
    using assms
  proof (induction rule: ed_reachable.induct)
    case (init n)
    have "wf_editor now (initial_editor now n)"
      using wf_default' [of now n] by (simp add: initial_editor_def Let_def case_prod_beta sync_ops)
    moreover have "ed_selected (initial_editor now n) \<in> o_id ` set (ed_operations (initial_editor now n))"
      unfolding initial_editor_def Let_def case_prod_beta sync_ops by (rule sync_selected) simp
    ultimately show ?case by simp
  next
    case (step st ev st')
    then obtain s where s: "handle now ev st = Some s" "st' = syncSelection s" by (auto simp: dispatch_def)
    have w: "wf_editor now s" using step s by (intro wf_handle [OF _ _ s(1)]) auto
    then have "ed_operations s \<noteq> []" by (simp add: wf_rules_def)
    with w sync_selected show ?case by (simp add: s(2) sync_ops)
  qed
  then show "wf_editor now st" "ed_selected st \<in> o_id ` set (ed_operations st)" by auto
qed

lemma find_id: "i \<in> o_id ` set ops \<Longrightarrow> \<exists>op. List.find (\<lambda>op. o_id op = i) ops = Some op"
  by (induction ops) auto

text \<open>C18: The dialog stays well-formed: in every state it can reach, whatever is loaded, typed, dragged or chosen,
  there is a rule, the ids of all rules and all their conditions are pairwise different and each was issued by the counter of the
  dialog, every rule has a known mode and a known logic and its conditions known modes, and the selected rule exists.\<close>

theorem editor_well_formed:
  assumes "ed_reachable now st"
  shows "ed_operations st \<noteq> [] \<and> list_all op_typed (ed_operations st) \<and>
    distinct (concat (map (\<lambda>op. o_id op # map c_id (o_conditions op)) (ed_operations st))) \<and>
    (\<forall>op \<in> set (ed_operations st). \<forall>i \<in> set (o_id op # map c_id (o_conditions op)). \<exists>n < ed_seed st. i = nextLocalId now n) \<and>
    (\<exists>op. selectedOperation st = Some op)"
proof -
  note w = reachable_wf [OF assms]
  have "\<exists>op. selectedOperation st = Some op"
    using find_id [OF w(2)] by (simp add: selectedOperation_def)
  moreover have "all_ids = (\<lambda>op. o_id op # map c_id (o_conditions op))" by (simp add: fun_eq_iff all_ids_def)
  moreover have "\<exists>n < ed_seed st. i = nextLocalId now n" if "op \<in> set (ed_operations st)" "i \<in> set (all_ids op)" for op i
  proof -
    have "i \<in> ids.issued now (ed_seed st)" using w(1) that by (auto simp: wf_rules_def)
    then show ?thesis by (auto simp: ids.issued_def)
  qed
  ultimately show ?thesis using w(1) unfolding wf_rules_def by metis
qed

text \<open>A sequence of events.\<close>

fun run :: "clock \<Rightarrow> ed_event list \<Rightarrow> editor \<Rightarrow> editor option" where
  "run now [] st = Some st"
| "run now (ev # evs) st = Option.bind (dispatch now ev st) (run now evs)"

lemma run_reachable:
  "ed_reachable now st \<Longrightarrow> list_all event_ok evs \<Longrightarrow> run now evs st = Some st' \<Longrightarrow> ed_reachable now st'"
proof (induction evs arbitrary: st)
  case (Cons ev evs)
  then obtain s where "dispatch now ev st = Some s" "run now evs s = Some st'" by (auto simp: Option.bind_eq_Some_conv)
  with Cons ed_reachable.step [of now st ev s] show ?case by auto
qed simp

lemma some_the: "x \<noteq> None \<Longrightarrow> x = Some (the x)"
  by auto

definition sample_events :: "ed_event list" where
  "sample_events =
     [Open (lit ''{\"operations\":[{\"mode\":\"set\",\"path\":\"a\",\"value\":1},{\"mode\":\"nope\",\"path\":\"b\"}]}''),
      AddOperation, AddCondition (lit ''po_5_1''), DuplicateOperation True (lit ''po_5_1''), RemoveOperation (lit ''po_5_2''), Drop (lit ''po_5_3'') (lit ''po_5_1'')]"

definition sample_editor :: editor where
  "sample_editor = the (run (\<lambda>_. 5) sample_events (initial_editor (\<lambda>_. 5) 0))"

lemma sample_editor_reachable: "ed_reachable (\<lambda>_. 5) sample_editor"
proof -
  have "run (\<lambda>_. 5) sample_events (initial_editor (\<lambda>_. 5) 0) = Some sample_editor"
    unfolding sample_editor_def by (rule some_the) code_simp
  moreover have "list_all event_ok sample_events" by code_simp
  ultimately show ?thesis using run_reachable [OF ed_reachable.init] by blast
qed

theorem editor_well_formed_witness:
  "2 \<le> length (ed_operations sample_editor) \<and>
   distinct (concat (map (\<lambda>op. o_id op # map c_id (o_conditions op)) (ed_operations sample_editor))) \<and>
   (\<exists>op \<in> set (ed_operations sample_editor). o_conditions op \<noteq> []) \<and> (\<exists>op. selectedOperation sample_editor = Some op)"
proof -
  have "2 \<le> length (ed_operations sample_editor)" "list_ex (\<lambda>op. o_conditions op \<noteq> []) (ed_operations sample_editor)" by code_simp+
  with editor_well_formed [OF sample_editor_reachable] show ?thesis by (auto simp: list_ex_iff)
qed

section \<open>Switching modes\<close>

lemma load_saved:
  assumes "list_all op_ok ops" and "ops \<noteq> []"
  shows "\<exists>os m. load_rules now (map (\<lambda>op. JObj (operation_payload op)) ops) n = Some (os, m) \<and> map erase_ids os = map erase_ids ops"
  using map_gen_erase [of "normalizeOperation now" "\<lambda>op. JObj (operation_payload op)" erase_ids ops n] assms normalize_payload(2)
  by (auto simp: list_all_iff load_rules_def)

text \<open>Switching from the visual to the text mode and back keeps the rules: every rule that is not blank comes
  back with all its fields and conditions, only the ids are new, and no error is shown.\<close>

lemma mode_switch_keeps_rules:
  assumes "ed_editMode st = Visual" and "ed_visualMode st = Operations"
    and "list_all (\<lambda>op. isOperationBlank op \<or> op_ok op) (ed_operations st)" and "\<not> list_all isOperationBlank (ed_operations st)"
    and "visualValidationError st = None"
  shows "\<exists>st'. switchToVisualMode now (switchToJsonMode st) = Some st' \<and> ed_editMode st' = Visual \<and> ed_visualMode st' = Operations \<and>
    map erase_ids (ed_operations st') = map erase_ids (filter (\<lambda>op. \<not> isOperationBlank op) (ed_operations st)) \<and>
    ed_toasts st' = ed_toasts st \<and> ed_jsonError st' = None"
proof -
  let ?ops = "filter (\<lambda>op. \<not> isOperationBlank op) (ed_operations st)"
  have ok: "list_all op_ok ?ops" using assms(3) by (auto simp: list_all_iff)
  have ne: "?ops \<noteq> []" using assms(4) by (auto simp: filter_empty_conv list_all_iff)
  have b: "buildVisualJson st = Inr (rules_text ?ops)"
    using assms(1,2,5) ne
    by (auto simp: visualValidationError_def buildVisualJson_def build_rules_def buildOperationsJson_def Let_def split: option.splits sum.splits)
  note t = rules_text_read [OF ok]
  have j: "switchToJsonMode st = st\<lparr>ed_jsonText := rules_text ?ops, ed_jsonError := None, ed_editMode := Json\<rparr>"
    using assms(1) by (simp add: switchToJsonMode_def b)
  obtain os m where l: "load_rules now (map (\<lambda>op. JObj (operation_payload op)) ?ops) (ed_seed st) = Some (os, m)"
    "map erase_ids os = map erase_ids ?ops" using load_saved [OF ok ne] by blast
  have g: "get (obj_lit [(''operations'', JArr xs)]) ''operations'' = JArr xs" for xs by (simp add: get_lit del: list.map)
  show ?thesis
    unfolding j switchToVisualMode_def Let_def case_prod_beta using t l by (simp add: g del: list.map)
qed

definition mixed_editor :: editor where
  "mixed_editor = (initial_editor (\<lambda>_. 5) 0)\<lparr>ed_operations := sample_rules @ [fst (createDefaultOperation (\<lambda>_. 5) 9)], ed_seed := 10\<rparr>"

lemma mode_switch_keeps_rules_witness:
  "\<exists>st'. switchToVisualMode (\<lambda>_. 8) (switchToJsonMode mixed_editor) = Some st' \<and> ed_editMode st' = Visual \<and> ed_visualMode st' = Operations \<and>
    map erase_ids (ed_operations st') = map erase_ids (filter (\<lambda>op. \<not> isOperationBlank op) (ed_operations mixed_editor)) \<and>
    ed_toasts st' = ed_toasts mixed_editor \<and> ed_jsonError st' = None"
proof (rule mode_switch_keeps_rules)
  show "ed_editMode mixed_editor = Visual" by code_simp
  show "ed_visualMode mixed_editor = Operations" by code_simp
  show "list_all (\<lambda>op. isOperationBlank op \<or> op_ok op) (ed_operations mixed_editor)" by code_simp
  show "\<not> list_all isOperationBlank (ed_operations mixed_editor)" by code_simp
  show "visualValidationError mixed_editor = None" by code_simp
qed

section \<open>The editor of prune rules\<close>

text \<open>The ids of prune rules are made anew whenever the value text is parsed.\<close>

lemma map_gen_cong:
  assumes "\<And>x m. n \<le> m \<Longrightarrow> f x m = g x m" and "\<And>x m y k. f x m = Some (y, k) \<Longrightarrow> m \<le> k"
  shows "map_gen f xs n = map_gen g xs n"
  using assms(1)
proof (induction xs arbitrary: n)
  case (Cons x xs)
  have "f x n = g x n" using Cons.prems by simp
  moreover have "map_gen f xs m = map_gen g xs m" if "f x n = Some (y, m)" for y m
    using Cons.IH [of m] Cons.prems assms(2) [OF that] by force
  ultimately show ?case by (auto split: option.splits)
qed simp

lemma update_prune_mono:
  "(\<And>d n d' m. updater d n = Some (d', m) \<Longrightarrow> n \<le> m) \<Longrightarrow> update_prune_text now i updater op n = Some (op', k) \<Longrightarrow> n \<le> k"
  using prune_draft_fresh [of now "o_value_text op" n]
  by (fastforce simp: update_prune_text_def Option.bind_eq_Some_conv ids.fresh_keys_def split: if_splits)

lemma old_id_ignored:
  assumes "ri \<in> ids.issued now (ed_seed st)"
    and "\<And>d. ri \<notin> set (map c_id (p_rules d)) \<Longrightarrow> h d = d"
  shows "updatePruneObjectsDraft now i (pure_update h) st = updatePruneObjectsDraft now i (pure_update id) st"
proof -
  have "map_gen (update_prune_text now i (pure_update h)) (ed_operations st) (ed_seed st) =
      map_gen (update_prune_text now i (pure_update id)) (ed_operations st) (ed_seed st)"
  proof (rule map_gen_cong)
    fix op :: operation and m assume m: "ed_seed st \<le> m"
    have "h d = d" if "parsePruneObjectsDraft now (o_value_text op) m = Some (d, k)" for d k
      using ids.fresh_not_issued [OF prune_draft_fresh [OF that]] ids.issued_mono [OF m] assms(1) by (intro assms(2)) blast
    then show "update_prune_text now i (pure_update h) op m = update_prune_text now i (pure_update id) op m"
      by (cases "parsePruneObjectsDraft now (o_value_text op) m") (auto simp: update_prune_text_def pure_update_def)
  qed (rule update_prune_mono; auto simp: pure_update_def)
  then show ?thesis by (simp add: updatePruneObjectsDraft_def)
qed

lemma no_such_rule:
  assumes "k \<notin> set (map c_id (p_rules d))"
  shows "d\<lparr>p_rules := map (\<lambda>r. if c_id r = k then g r else r) (p_rules d)\<rparr> = d"
    and "d\<lparr>p_rules := filter (\<lambda>r. c_id r \<noteq> k) (p_rules d)\<rparr> = d"
proof -
  have "map (\<lambda>r. if c_id r = k then g r else r) rs = rs" "filter (\<lambda>r. c_id r \<noteq> k) rs = rs" if "k \<notin> set (map c_id rs)" for rs
    using that by (induction rs) auto
  from this [OF assms] show "d\<lparr>p_rules := map (\<lambda>r. if c_id r = k then g r else r) (p_rules d)\<rparr> = d"
    and "d\<lparr>p_rules := filter (\<lambda>r. c_id r \<noteq> k) (p_rules d)\<rparr> = d" by simp_all
qed

text \<open>The edits of a prune rule are lost: changing or deleting a rule that is shown has the same effect as
  parsing and printing the value again, whatever the change is, because the ids that are compared are never the
  same.\<close>

lemma prune_rule_edit_ignored:
  assumes "pruneObjectsDraft now st = Some (Some d, st1)" and "r \<in> set (p_rules d)"
  shows "updatePruneRule now i (c_id r) patch st1 = updatePruneObjectsDraft now i (pure_update id) st1 \<and>
    removePruneRule now i (c_id r) st1 = updatePruneObjectsDraft now i (pure_update id) st1"
proof -
  from assms(1) obtain op where o: "selectedOperation st = Some op" "o_mode op = lit ''prune_objects''"
    by (auto simp: pruneObjectsDraft_def simp del: list.map split: option.splits if_splits)
  obtain m where p: "parsePruneObjectsDraft now (o_value_text op) (ed_seed st) = Some (d, m)" "st1 = st\<lparr>ed_seed := m\<rparr>"
    using assms(1) by (cases "parsePruneObjectsDraft now (o_value_text op) (ed_seed st)") (auto simp: pruneObjectsDraft_def o simp del: list.map)
  have "c_id r \<in> ids.issued now (ed_seed st1)"
    using ids.fresh_issued [OF prune_draft_fresh [OF p(1)]] assms(2) by (auto simp: p(2))
  then show ?thesis
    unfolding updatePruneRule_def removePruneRule_def
    by (intro conjI old_id_ignored no_such_rule)
qed

definition prune_editor :: editor where
  "prune_editor = the (run (\<lambda>_. 5)
     [Open (lit ''{\"operations\":[{\"mode\":\"prune_objects\",\"value\":{\"conditions\":[{\"path\":\"a\",\"value\":1}]}}]}'')]
     (initial_editor (\<lambda>_. 5) 0))"

lemma prune_rule_edit_ignored_witness:
  "let (d, st1) = the (pruneObjectsDraft (\<lambda>_. 5) prune_editor); r = hd (p_rules (the d)) in
   updatePruneRule (\<lambda>_. 5) (lit ''po_5_1'') (c_id r) (CPath (lit ''b'')) st1 =
     updatePruneObjectsDraft (\<lambda>_. 5) (lit ''po_5_1'') (pure_update id) st1 \<and>
   removePruneRule (\<lambda>_. 5) (lit ''po_5_1'') (c_id r) st1 =
     updatePruneObjectsDraft (\<lambda>_. 5) (lit ''po_5_1'') (pure_update id) st1"
proof -
  have "\<exists>d st1. pruneObjectsDraft (\<lambda>_. 5) prune_editor = Some (Some d, st1) \<and> p_rules d \<noteq> []"
  proof (rule exI, rule exI, rule conjI)
    have "case pruneObjectsDraft (\<lambda>_. 5) prune_editor of Some (Some d, _) \<Rightarrow> p_rules d \<noteq> [] | _ \<Rightarrow> False" by code_simp
    then show "pruneObjectsDraft (\<lambda>_. 5) prune_editor =
        Some (Some (the (fst (the (pruneObjectsDraft (\<lambda>_. 5) prune_editor)))), snd (the (pruneObjectsDraft (\<lambda>_. 5) prune_editor)))"
      and "p_rules (the (fst (the (pruneObjectsDraft (\<lambda>_. 5) prune_editor)))) \<noteq> []"
      by (auto split: option.splits prod.splits)
  qed
  then obtain d st1 where d: "pruneObjectsDraft (\<lambda>_. 5) prune_editor = Some (Some d, st1)" "hd (p_rules d) \<in> set (p_rules d)"
    by (auto intro: hd_in_set)
  show ?thesis using prune_rule_edit_ignored [OF d, of "lit ''po_5_1''" "CPath (lit ''b'')"] by (simp add: d(1) del: list.map)
qed

text \<open>The printed text does not depend on the ids of the rules, so the text an update produces does not depend on the
  counter.\<close>

definition erase_draft :: "prune_draft \<Rightarrow> prune_draft" where
  "erase_draft d = d\<lparr>p_rules := map erase_cond (p_rules d)\<rparr>"

lemma build_erase: "buildPruneObjectsValueText (erase_draft d) = buildPruneObjectsValueText d"
proof -
  have "c_path (erase_cond r) = c_path r" "prune_rule_payload (erase_cond r) = prune_rule_payload r" for r
    by (simp_all add: erase_cond_def prune_rule_payload_def)
  then have "prune_payload (erase_draft d) = prune_payload d"
    by (simp add: prune_payload_def erase_draft_def filter_map comp_def)
  then show ?thesis by (simp add: buildPruneObjectsValueText_def erase_draft_def)
qed

lemma prune_rules_erase: "\<exists>rs m. map_gen (normalizePruneRule now) os n = Some (rs, m) \<and> map erase_cond rs = map (\<lambda>ob. condition_of [] ob) os"
proof (induction os arbitrary: n)
  case (Cons ob os)
  from Cons [of "Suc n"] obtain rs m where "map_gen (normalizePruneRule now) os (Suc n) = Some (rs, m)"
    "map erase_cond rs = map (\<lambda>ob. condition_of [] ob) os" by blast
  moreover have "normalizePruneRule now ob n = Some (condition_of (nextLocalId now n) ob, Suc n)" by (simp add: normalizePruneRule_def)
  moreover have "erase_cond (condition_of (nextLocalId now n) ob) = condition_of [] ob" by (simp add: erase_cond_def condition_of_def)
  ultimately show ?case by simp
qed simp

lemma parse_erase: "\<exists>d m. parsePruneObjectsDraft now s n = Some (d, m) \<and>
    erase_draft d = erase_draft (fst (the (parsePruneObjectsDraft now s k)))"
proof (cases "\<exists>ps. trim s \<noteq> [] \<and> json_parse (trim s) = Some (JObj ps)")
  case True
  then obtain ps where ps: "trim s \<noteq> []" "json_parse (trim s) = Some (JObj ps)" by blast
  obtain rs m where "map_gen (normalizePruneRule now) (rule_objects ps) n = Some (rs, m)"
    "map erase_cond rs = map (\<lambda>ob. condition_of [] ob) (rule_objects ps)" using prune_rules_erase by blast
  moreover obtain rs' m' where "map_gen (normalizePruneRule now) (rule_objects ps) k = Some (rs', m')"
    "map erase_cond rs' = map (\<lambda>ob. condition_of [] ob) (rule_objects ps)" using prune_rules_erase by blast
  ultimately show ?thesis using ps by (simp add: parsePruneObjectsDraft_def erase_draft_def prune_draft_of_def)
next
  case False
  then show ?thesis by (auto simp: parsePruneObjectsDraft_def Let_def split: option.splits jval.splits)
qed

lemma map_gen_fst:
  assumes "\<And>x n k. map_option fst (f x n) = map_option fst (g x k)"
  shows "map_option fst (map_gen f xs n) = map_option fst (map_gen g xs k)"
proof (induction xs arbitrary: n k)
  case (Cons x xs)
  show ?case
  proof (cases "f x n")
    case None
    then have "g x k = None" using assms [of x n k] by (cases "g x k") auto
    with None show ?thesis by simp
  next
    case (Some p)
    then obtain y m m' where "f x n = Some (y, m)" "g x k = Some (y, m')" using assms [of x n k] by (cases p; cases "g x k") auto
    moreover have "map_option fst (map_gen f xs m) = map_option fst (map_gen g xs m')" by (rule Cons.IH)
    ultimately show ?thesis by (cases "map_gen f xs m"; cases "map_gen g xs m'") auto
  qed
qed simp

lemma update_fst:
  assumes "\<And>d n d' m. u d n = Some (d', m) \<Longrightarrow> buildPruneObjectsValueText d' = buildPruneObjectsValueText (h (erase_draft d))"
    and "\<And>d n d' m. v d n = Some (d', m) \<Longrightarrow> buildPruneObjectsValueText d' = buildPruneObjectsValueText (h (erase_draft d))"
    and "\<And>d n. u d n \<noteq> None" "\<And>d n. v d n \<noteq> None"
  shows "map_option ed_operations (updatePruneObjectsDraft now i u st) = map_option ed_operations (updatePruneObjectsDraft now i v st)"
proof -
  have "map_option fst (update_prune_text now i u op n) = map_option fst (update_prune_text now i v op k)" for op n k
  proof (cases "o_id op = i")
    case True
    let ?s = "o_value_text op"
    obtain d m where d: "parsePruneObjectsDraft now ?s n = Some (d, m)" "erase_draft d = erase_draft (fst (the (parsePruneObjectsDraft now ?s 0)))"
      using parse_erase by blast
    obtain e l where e: "parsePruneObjectsDraft now ?s k = Some (e, l)" "erase_draft e = erase_draft (fst (the (parsePruneObjectsDraft now ?s 0)))"
      using parse_erase by blast
    obtain d' m' e' l' where "u d m = Some (d', m')" "v e l = Some (e', l')" using assms(3) [of d m] assms(4) [of e l] by auto
    with assms(1) [of d m] assms(2) [of e l] d e True show ?thesis by (simp add: update_prune_text_def)
  qed (simp add: update_prune_text_def)
  then have "map_option fst (map_gen (update_prune_text now i u) (ed_operations st) (ed_seed st)) =
      map_option fst (map_gen (update_prune_text now i v) (ed_operations st) (ed_seed st))" by (rule map_gen_fst)
  then show ?thesis
    unfolding updatePruneObjectsDraft_def
    by (cases "map_gen (update_prune_text now i u) (ed_operations st) (ed_seed st)";
        cases "map_gen (update_prune_text now i v) (ed_operations st) (ed_seed st)") auto
qed

lemma blank_rule_dropped:
  "trim (c_path r) = [] \<Longrightarrow> buildPruneObjectsValueText (d\<lparr>p_rules := p_rules d @ [r]\<rparr>) = buildPruneObjectsValueText d"
  by (simp add: buildPruneObjectsValueText_def prune_payload_def)

text \<open>No prune rule can be added: the rule the button adds has no path and is dropped when the value is printed,
  so the rules of the editor are the same as after switching the value to its advanced form.\<close>

lemma prune_rule_add_ignored:
  "map_option ed_operations (addPruneRule now i st) =
   map_option ed_operations (updatePruneObjectsDraft now i (pure_update (patch_prune (QSimpleMode False))) st)"
  unfolding addPruneRule_def
proof (rule update_fst [where h = "\<lambda>d. d\<lparr>p_simpleMode := False\<rparr>"])
  have e: "buildPruneObjectsValueText (d\<lparr>p_simpleMode := False\<rparr>) = buildPruneObjectsValueText ((erase_draft d)\<lparr>p_simpleMode := False\<rparr>)" for d
    using build_erase [of "d\<lparr>p_simpleMode := False\<rparr>"] by (cases d) (simp add: erase_draft_def)
  fix d n d' m
  show "pure_update (patch_prune (QSimpleMode False)) d n = Some (d', m) \<Longrightarrow>
      buildPruneObjectsValueText d' = buildPruneObjectsValueText ((erase_draft d)\<lparr>p_simpleMode := False\<rparr>)"
    using e by (auto simp: pure_update_def)
  have "trim (c_path (condition_of (nextLocalId now n) [])) = []" by (simp add: condition_of_def str_field_def obj_get_def)
  from blank_rule_dropped [OF this, of "d\<lparr>p_simpleMode := False\<rparr>"] e
  show "map_option (\<lambda>(r, m). (d\<lparr>p_simpleMode := False, p_rules := p_rules d @ [r]\<rparr>, m)) (normalizePruneRule now [] n) = Some (d', m) \<Longrightarrow>
      buildPruneObjectsValueText d' = buildPruneObjectsValueText ((erase_draft d)\<lparr>p_simpleMode := False\<rparr>)"
    by (auto simp: normalizePruneRule_def)
qed (simp_all add: pure_update_def normalizePruneRule_def)

text \<open>With a type and no other setting even that form is not kept: the printed text is read as the simple form.\<close>

lemma prune_advanced_lost:
  "let d = prune_defaults\<lparr>p_simpleMode := False, p_typeText := lit ''redacted_thinking''\<rparr> in
   map_option (\<lambda>(d', _). p_simpleMode d') (parsePruneObjectsDraft (\<lambda>_. 5) (buildPruneObjectsValueText d) 0) = Some True"
  by code_simp

text \<open>A list with a null element, or rules next to other settings, as the text form accepts it.\<close>

lemma null_rule_throws: "parseInitialState now (lit ''{\"operations\":[null]}'') n = None"
proof -
  have "json_parse (trim (lit ''{\"operations\":[null]}'')) = Some (JObj [(lit ''operations'', JArr [JNull])])"
    "trim (lit ''{\"operations\":[null]}'') \<noteq> []" by code_simp+
  then show ?thesis
    by (simp add: parseInitialState_def Let_def case_prod_beta obj_get_def load_rules_def normalizeOperation_def fields_of_def del: list.map)
qed

end
