(* ===== verification/JSON_Text.thy ===== *)
theory JSON_Text
  imports JS_Regex JS_Json
begin

text \<open>
  The JSON text fields of the system settings: \<^verbatim>\<open>features/system-settings/utils/json-parser.ts\<close> (reading with a
  fallback, locating an error in the text) and \<^verbatim>\<open>features/system-settings/models/utils.ts\<close> (validation and
  layout of a text field).

  The message of the \<^verbatim>\<open>SyntaxError\<close> of a text that does not parse depends on the engine: it is the parameter
  \<open>err\<close>, a function of the text. Console output in development builds is left out.
\<close>

section \<open>Where an error is\<close>

record error_position =
  ep_line :: "jsnum option"
  ep_column :: "jsnum option"
  ep_position :: "jsnum option"

text \<open>A letter of a pattern with the flag \<^verbatim>\<open>i\<close>, and digits read by \<^verbatim>\<open>parseInt(s, 10)\<close>.\<close>

definition ci_char :: "nat \<Rightarrow> re" where
  "ci_char c = Cls (\<lambda>x. x = c \<or> 97 \<le> c \<and> c \<le> 122 \<and> x + 32 = c)"

definition ci :: "string \<Rightarrow> re" where
  "ci w = cat (map ci_char (lit w))"

definition position_re :: re where
  "position_re = Seq (ci ''at position '') (Grp 1 (many1 (Cls is_digit)))"

definition line_column_re :: re where
  "line_column_re =
     cat [ci ''at line '', Grp 1 (many1 (Cls is_digit)), ci '' column '', Grp 2 (many1 (Cls is_digit))]"

definition int_of_digits :: "jstring \<Rightarrow> jsnum" where
  "int_of_digits ds = dbl (of_nat (digits_val ds))"

text \<open>\<^verbatim>\<open>text.substring(0, position)\<close> of a position that is a whole number.\<close>

fun prefix_upto :: "jsnum \<Rightarrow> jstring \<Rightarrow> jstring" where
  "prefix_upto (Fin x) s = take (nat \<lfloor>x\<rfloor>) s"
| "prefix_upto PInf s = s"
| "prefix_upto _ s = []"

definition getLineAndColumn :: "jstring \<Rightarrow> jsnum \<Rightarrow> nat \<times> nat" where
  "getLineAndColumn text position =
     (let lines = split1 10 (prefix_upto position text) in (length lines, length (last lines) + 1))"

definition extractErrorPosition :: "jstring \<Rightarrow> jstring \<Rightarrow> error_position" where
  "extractErrorPosition message jsonString =
     (case Option.bind (re_match position_re message) (\<lambda>m. m 1) of
        Some ds \<Rightarrow>
          (let position = int_of_digits ds; (line, column) = getLineAndColumn jsonString position in
           \<lparr>ep_line = Some (Fin (of_nat line)), ep_column = Some (Fin (of_nat column)), ep_position = Some position\<rparr>)
      | None \<Rightarrow>
          (case re_match line_column_re message of
             Some m \<Rightarrow> \<lparr>ep_line = map_option int_of_digits (m 1), ep_column = map_option int_of_digits (m 2), ep_position = None\<rparr>
           | None \<Rightarrow> \<lparr>ep_line = None, ep_column = None, ep_position = None\<rparr>))"

definition isMissingCommaError :: "jstring \<Rightarrow> bool" where
  "isMissingCommaError message \<longleftrightarrow>
     includes_str message (lit ''Expected '' @ [39, 44, 39]) \<or> includes_str message (lit ''Expected property name'') \<or>
     includes_str message (lit ''Unexpected string'')"

definition given :: "jsnum option \<Rightarrow> bool" where
  "given x \<longleftrightarrow> (case x of None \<Rightarrow> False | Some n \<Rightarrow> jtruthy n)"

definition comma_hint :: "jstring \<Rightarrow> jsnum \<Rightarrow> jstring" where
  "comma_hint message line =
     (if isMissingCommaError message \<and> jlt (Fin 1) line
      then lit '' (check line '' @ num_str (jsub line (Fin 1)) @ lit '' for missing comma)'' else [])"

definition formatErrorDescription :: "jstring \<Rightarrow> jstring \<Rightarrow> jstring" where
  "formatErrorDescription message jsonString =
     (let position = extractErrorPosition message jsonString in
      if given (ep_line position) \<and> given (ep_column position) then
        lit ''Error at line '' @ num_str (the (ep_line position)) @ lit '', column '' @ num_str (the (ep_column position)) @
        lit '': '' @ message @ comma_hint message (the (ep_line position))
      else case ep_position position of
        Some p \<Rightarrow> lit ''Error at position '' @ num_str p @ lit '': '' @ message
      | None \<Rightarrow> message)"

section \<open>Reading\<close>

text \<open>The fallback is \<^verbatim>\<open>null\<close> when the caller gives none.\<close>

definition safeJsonParse :: "jval \<Rightarrow> jstring \<Rightarrow> jval" where
  "safeJsonParse fallback value =
     (if value = [] \<or> trim value = [] then jcoalesce fallback JNull
      else case json_parse (trim value) of Some v \<Rightarrow> v | None \<Rightarrow> jcoalesce fallback JNull)"

definition safeJsonParseWithValidation :: "jval \<Rightarrow> (jval \<Rightarrow> bool) \<Rightarrow> jstring \<Rightarrow> jval" where
  "safeJsonParseWithValidation fallback validator value =
     (let parsed = safeJsonParse fallback value in if validator parsed then parsed else fallback)"

definition tryJsonParse :: "(jstring \<Rightarrow> jstring) \<Rightarrow> jstring \<Rightarrow> jstring + jval" where
  "tryJsonParse err value =
     (if value = [] \<or> trim value = [] then Inl (lit ''Empty value'')
      else case json_parse (trim value) of Some v \<Rightarrow> Inr v | None \<Rightarrow> Inl (err (trim value)))"

section \<open>Text fields\<close>

definition formatJsonForTextarea :: "jstring \<Rightarrow> jstring" where
  "formatJsonForTextarea value =
     (if value = [] \<or> trim value = [] then []
      else case json_parse value of Some parsed \<Rightarrow> json_pretty parsed | None \<Rightarrow> value)"

definition normalizeJsonString :: "jstring \<Rightarrow> jstring" where
  "normalizeJsonString value =
     (let trimmed = trim value in
      if trimmed = [] then []
      else case json_parse trimmed of Some parsed \<Rightarrow> json_text parsed | None \<Rightarrow> trimmed)"

text \<open>The result of a validation: \<open>Some message\<close> for an invalid text. \<open>predicate\<close> and its message are optional.\<close>

definition validateJsonString ::
    "(jstring \<Rightarrow> jstring) \<Rightarrow> bool \<Rightarrow> (jval \<Rightarrow> bool) option \<Rightarrow> jstring \<Rightarrow> jstring \<Rightarrow> jstring option" where
  "validateJsonString err allowEmpty predicate predicateMessage value =
     (let trimmed = trim value in
      if trimmed = [] then (if allowEmpty then None else Some (lit ''Value is required''))
      else case json_parse trimmed of
        Some parsed \<Rightarrow>
          (case predicate of
             Some p \<Rightarrow> if p parsed then None
               else Some (if predicateMessage = [] then lit ''JSON structure is invalid'' else predicateMessage)
           | None \<Rightarrow> None)
      | None \<Rightarrow> Some (formatErrorDescription (err trimmed) trimmed))"

section \<open>Lemmas\<close>

lemma safe_parse_text: "json_ok v \<Longrightarrow> trim s = s \<Longrightarrow> s \<noteq> [] \<Longrightarrow> json_parse s = Some v \<Longrightarrow> safeJsonParse f s = v"
  by (simp add: safeJsonParse_def)

lemma split1_append:
  "split1 d (x @ y) = butlast (split1 d x) @ (last (split1 d x) @ hd (split1 d y)) # tl (split1 d y)"
proof (induction x)
  case Nil
  then show ?case by (cases "split1 d y") auto
next
  case (Cons c x)
  then show ?case
    by (cases "split1 d x"; cases "tl (split1 d x)") (auto simp: neq_Nil_conv)
qed

text \<open>The line and column reported for an offset into a text lead back to that offset: in the text split into
  lines, that line has that column, and the character there is the one at the offset.\<close>

lemma error_position_points:
  assumes "p < length s" and "s ! p \<noteq> 10" and "getLineAndColumn s (Fin (of_nat p)) = (line, column)"
  shows "0 < line \<and> line \<le> length (split1 10 s) \<and> 0 < column \<and> column \<le> length (split1 10 s ! (line - 1)) \<and>
    split1 10 s ! (line - 1) ! (column - 1) = s ! p"
proof -
  let ?x = "take p s" and ?y = "drop p s"
  obtain c t where y: "?y = c # t" using assms(1) by (cases ?y) auto
  then have c: "c = s ! p" using assms(1) by (metis hd_drop_conv_nth list.sel(1))
  have lc: "line = length (split1 10 ?x)" "column = length (last (split1 10 ?x)) + 1"
    using assms(3) by (auto simp: getLineAndColumn_def Let_def)
  have h: "hd (split1 10 ?y) = c # hd (split1 10 t)"
    using assms(2) by (cases "split1 10 t") (auto simp: y c)
  have e: "split1 10 s = butlast (split1 10 ?x) @ (last (split1 10 ?x) @ hd (split1 10 ?y)) # tl (split1 10 ?y)"
    using split1_append [of 10 ?x ?y] by simp
  have "split1 10 s ! (line - 1) = last (split1 10 ?x) @ hd (split1 10 ?y)"
    unfolding e lc(1) by (simp add: nth_append)
  moreover have "length (split1 10 ?x) \<le> length (split1 10 ?x) - Suc 0 + length (split1 10 ?y)"
    using split1_not_Nil [of 10 ?y] by (cases "split1 10 ?y") auto
  ultimately show ?thesis using h unfolding lc by (simp add: e nth_append c)
qed

lemma error_position_points_witness:
  "split1 10 (lit ''{'' @ [10] @ lit ''x}'') ! 1 ! 0 = 120"
  using error_position_points [of 2 "lit ''{'' @ [10] @ lit ''x}''" 2 1] by code_simp

lemma error_at_line: "formatErrorDescription (lit ''Unexpected token x in JSON at position 2'') (lit ''{'' @ [10] @ lit ''x}'') =
    lit ''Error at line 2, column 1: Unexpected token x in JSON at position 2''"
  by code_simp

lemma error_hint: "formatErrorDescription (lit ''Unexpected string in JSON at position 2'') (lit ''{'' @ [10] @ lit ''x}'') =
    lit ''Error at line 2, column 1: Unexpected string in JSON at position 2 (check line 1 for missing comma)''"
  by code_simp

text \<open>Normalising the text of a JSON field keeps its value and is idempotent: what is saved reads as the same value.\<close>

lemma normalize_keeps_value:
  assumes "json_parse (trim s) = Some v" and "json_ok v" and "trim (json_text v) = json_text v"
  shows "json_parse (normalizeJsonString s) = Some v \<and>
    normalizeJsonString (normalizeJsonString s) = normalizeJsonString s"
proof -
  have ne: "trim s \<noteq> []" using assms(1) by (auto simp: json_parse_def)
  then have n: "normalizeJsonString s = json_text v" by (simp add: normalizeJsonString_def assms(1))
  have "json_parse (json_text v) = Some v" "json_text v \<noteq> []"
    using json.dec_enc json.enc_not_Nil assms(2) by blast+
  then show ?thesis by (simp add: n) (simp add: normalizeJsonString_def assms(3))
qed

end
