(* ===== verification/JS_Object.thy ===== *)
theory JS_Object
  imports JS_Json
begin

text \<open>
  Objects used as maps from names a user types: assignment and deletion of a computed property, the entries
  of a value, and the names every object inherits from \<^verbatim>\<open>Object.prototype\<close>. Reading such a name yields a
  function (or the prototype itself), which is truthy, although the object has no property of that name.
\<close>

definition object_proto :: "jstring list" where
  "object_proto =
     map lit [''constructor'', ''__defineGetter__'', ''__defineSetter__'', ''hasOwnProperty'', ''__lookupGetter__'',
              ''__lookupSetter__'', ''isPrototypeOf'', ''propertyIsEnumerable'', ''toString'', ''valueOf'', ''__proto__'',
              ''toLocaleString'']"

definition inherited :: "jstring \<Rightarrow> bool" where
  "inherited k \<longleftrightarrow> k \<in> set object_proto"

text \<open>\<^verbatim>\<open>!ob[k]\<close> of a computed name.\<close>

definition prop_falsy :: "jstring \<Rightarrow> obj \<Rightarrow> bool" where
  "prop_falsy k ps \<longleftrightarrow> (case map_of ps k of Some v \<Rightarrow> \<not> truthy v | None \<Rightarrow> \<not> inherited k)"

text \<open>\<^verbatim>\<open>ob[k] = v\<close>: without a property of that name \<^verbatim>\<open>__proto__\<close> sets the prototype (or nothing), not a property.\<close>

definition assign :: "jstring \<Rightarrow> jval \<Rightarrow> obj \<Rightarrow> obj" where
  "assign k v ps = (if map_of ps k = None \<and> k = lit ''__proto__'' then ps else obj_put k v ps)"

definition array_index :: "jstring \<Rightarrow> nat option" where
  "array_index = index_key"

text \<open>The new length of an array, \<open>None\<close> for a \<^verbatim>\<open>RangeError\<close>.\<close>

definition new_length :: "jval \<Rightarrow> nat option" where
  "new_length v =
     (case num_of v of
        Fin x \<Rightarrow> (if x \<in> \<int> \<and> 0 \<le> x \<and> x < 4294967296 then Some (nat \<lfloor>x\<rfloor>) else None)
      | _ \<Rightarrow> None)"

definition resize :: "nat \<Rightarrow> jval list \<Rightarrow> jval list" where
  "resize n vs = take n vs @ replicate (n - length vs) JUndef"

text \<open>The same assignment on any value, \<open>None\<close> where it throws (strict mode). An array prints only its elements, so other
  properties of it are not recorded.\<close>

definition put_prop :: "jstring \<Rightarrow> jval \<Rightarrow> jval \<Rightarrow> jval option" where
  "put_prop k x v =
     (case v of
        JObj ps \<Rightarrow> Some (JObj (assign k x ps))
      | JArr vs \<Rightarrow>
          (case array_index k of
             Some i \<Rightarrow> Some (JArr ((resize (max (length vs) (Suc i)) vs)[i := x]))
           | None \<Rightarrow> if k = lit ''length'' then map_option (\<lambda>n. JArr (resize n vs)) (new_length x) else Some v)
      | _ \<Rightarrow> None)"

text \<open>\<^verbatim>\<open>delete ob[k]\<close> on any value.\<close>

definition del_prop :: "jstring \<Rightarrow> jval \<Rightarrow> jval option" where
  "del_prop k v =
     (case v of
        JObj ps \<Rightarrow> Some (JObj (obj_del k ps))
      | JArr vs \<Rightarrow>
          (if k = lit ''length'' then None
           else case array_index k of Some i \<Rightarrow> Some (JArr (vs[i := JUndef])) | None \<Rightarrow> Some v)
      | JStr s \<Rightarrow>
          (if k = lit ''length'' \<or> (case array_index k of Some i \<Rightarrow> i < length s | None \<Rightarrow> False) then None else Some v)
      | JNull \<Rightarrow> None
      | JUndef \<Rightarrow> None
      | _ \<Rightarrow> Some v)"

text \<open>\<^verbatim>\<open>Object.entries(v)\<close>; the elements a deletion left empty are skipped.\<close>

definition entries :: "jval \<Rightarrow> obj option" where
  "entries v =
     (case v of
        JObj ps \<Rightarrow> Some ps
      | JArr vs \<Rightarrow> Some (filter (\<lambda>(_, w). w \<noteq> JUndef) (map (\<lambda>(i, w). (nat_str i, w)) (enumerate 0 vs)))
      | JStr s \<Rightarrow> Some (map (\<lambda>(i, c). (nat_str i, JStr [c])) (enumerate 0 s))
      | JNull \<Rightarrow> None
      | JUndef \<Rightarrow> None
      | _ \<Rightarrow> Some [])"

section \<open>Lemmas\<close>

lemma assign_put: "k \<noteq> lit ''__proto__'' \<Longrightarrow> assign k v ps = obj_put k v ps"
  by (simp add: assign_def)

lemma not_inherited_proto: "\<not> inherited k \<Longrightarrow> k \<noteq> lit ''__proto__''"
  by (auto simp: inherited_def object_proto_def)

lemma prop_falsy_own: "\<not> inherited k \<Longrightarrow> prop_falsy k ps \<longleftrightarrow> \<not> truthy (obj_get k ps)"
  by (auto simp: prop_falsy_def obj_get_def split: option.splits)

lemma json_ok_lookup: "json_ok (JObj ps) \<Longrightarrow> map_of ps k = Some v \<Longrightarrow> json_ok v"
  by (auto simp: list_all_iff dest!: map_of_SomeD)

lemma json_ok_del: "json_ok (JObj ps) \<Longrightarrow> list_all (\<lambda>(k, _). index_key k = None) ps \<Longrightarrow> json_ok (JObj (obj_del k ps))"
proof -
  assume a: "json_ok (JObj ps)" "list_all (\<lambda>(k, _). index_key k = None) ps"
  then have d: "distinct (map fst ps)" using distinct_obj_build [of "[]" ps] by simp
  have plain: "list_all (\<lambda>(k, _). index_key k = None) qs \<Longrightarrow> distinct (map fst (acc @ qs)) \<Longrightarrow> obj_build acc qs = acc @ qs"
    for acc qs :: obj
  proof (induction qs arbitrary: acc)
    case (Cons kv qs)
    obtain k v where kv: "kv = (k, v)" by force
    have "map_of acc k = None" using Cons.prems by (auto simp: kv map_of_eq_None_iff)
    then have "obj_put k v acc = acc @ [(k, v)]" using Cons.prems by (simp add: obj_put_def kv)
    then show ?case using Cons by (simp add: kv obj_build_def)
  qed (simp add: obj_build_def)
  have "distinct (map fst (obj_del k ps))" using d by (simp add: obj_del_def distinct_map_filter)
  then have "obj_build [] (obj_del k ps) = obj_del k ps"
    using a(2) plain [of "obj_del k ps" "[]"] by (simp add: obj_del_def list_all_iff)
  with a show ?thesis by (auto simp: obj_del_def list_all_iff)
qed

end
