(* ===== verification/JSON_Maps.thy ===== *)
theory JSON_Maps
  imports JSON_Text JS_Object
begin

text \<open>
  Settings that are maps written as JSON text: reading one as an object (\<open>None\<close> is any other JSON value), changing it
  and writing it back with the layout of \<^verbatim>\<open>JSON.stringify(map, null, 2)\<close>.
\<close>

definition parse_map :: "jstring \<Rightarrow> obj option" where
  "parse_map s = as_object (safeJsonParse (JObj []) s)"

text \<open>A text that holds an object with plain keys, and what reading it gives.\<close>

definition map_text_ok :: "jstring \<Rightarrow> bool" where
  "map_text_ok s \<longleftrightarrow> (case parse_map s of Some m \<Rightarrow> json_ok (JObj m) \<and> list_all (\<lambda>(k, _). index_key k = None) m | None \<Rightarrow> False)"

definition map_value :: "jstring \<Rightarrow> jstring \<Rightarrow> jval option" where
  "map_value s k = Option.bind (parse_map s) (\<lambda>m. map_of m k)"

section \<open>Lemmas\<close>

lemma plain_build: "list_all (\<lambda>(k, _). key_ok k) kvs \<Longrightarrow> distinct (map fst kvs) \<Longrightarrow> obj_build [] kvs = kvs"
proof (induction kvs rule: rev_induct)
  case (snoc kv kvs)
  obtain k v where kv: "kv = (k, v)" by force
  with snoc.prems have "map_of kvs k = None" "index_key k = None" by (auto simp: map_of_eq_None_iff key_ok_def)
  with snoc show ?case by (simp add: kv obj_build_def) (simp add: obj_put_def)
qed (simp add: obj_build_def)

lemma parse_pretty: "json_ok (JObj ps) \<Longrightarrow> parse_map (json_pretty (JObj ps)) = Some ps"
proof -
  assume ok: "json_ok (JObj ps)"
  have p: "json_parse (json_pretty (JObj ps)) = Some (JObj ps)" by (rule json_pp.dec_enc [OF ok])
  have hd: "\<exists>t. json_pretty (JObj ps) = 123 # t @ [125]"
    by (auto simp: json_pretty_def Let_def intro: exI [of _ "[]"])
  then have "trim (json_pretty (JObj ps)) = json_pretty (JObj ps)"
    by (auto intro!: trim_trimmed simp: trimmed_def is_ws_def)
  with p hd show ?thesis by (auto simp: parse_map_def safeJsonParse_def as_object_def)
qed

lemma map_text_okE:
  assumes "map_text_ok s"
  obtains m where "parse_map s = Some m" "json_ok (JObj m)" "list_all (\<lambda>(k, _). index_key k = None) m"
  using assms by (auto simp: map_text_ok_def simp del: json_ok.simps split: option.splits)

lemma map_text_written:
  assumes "json_ok (JObj m)" and "list_all (\<lambda>(k, _). index_key k = None) m"
  shows "map_text_ok (json_pretty (JObj m))" and "map_value (json_pretty (JObj m)) = map_of m"
  using assms parse_pretty [OF assms(1)] by (auto simp: map_text_ok_def map_value_def fun_eq_iff)

lemma plain_dom: "list_all (\<lambda>(k, _). P k) m \<longleftrightarrow> (\<forall>k \<in> dom (map_of m). P k)"
  by (auto simp: dom_map_of_conv_image_fst list_all_iff)

lemma plain_put: "list_all (\<lambda>(k, _). index_key k = None) m \<Longrightarrow> index_key k = None \<Longrightarrow>
    list_all (\<lambda>(k, _). index_key k = None) (obj_put k v m)"
  by (simp add: plain_dom)

lemma plain_del: "list_all (\<lambda>(k, _). index_key k = None) m \<Longrightarrow> list_all (\<lambda>(k, _). index_key k = None) (obj_del k m)"
  by (auto simp: obj_del_def list_all_iff)

end
