(* ===== verification/Group_Ratio.thy ===== *)
theory Group_Ratio
  imports JSON_Maps
begin

text \<open>
  The visual editor of the group ratios, \<^verbatim>\<open>features/system-settings/models/group-ratio-visual-editor.tsx\<close>: the
  pricing table, the dialogs for top-up ratios, overrides between groups and automatic groups. The form holds
  the settings as JSON texts; every edit reads a text, changes it and writes it back.

  The texts are modelled where they hold a JSON object (or are empty or unreadable, when the code goes on with an
  empty object); \<open>None\<close> is any other JSON value, or an exception.
  \<open>native k\<close> is the text \<^verbatim>\<open>String(f)\<close> of the function every object inherits under the name \<open>k\<close>.
\<close>

section \<open>The pricing table\<close>

record pricing_row =
  p_id :: jstring
  p_name :: jstring
  p_ratio :: jsnum
  p_selectable :: bool
  p_description :: jstring

definition createGroupPricingId :: "nat \<Rightarrow> jstring \<times> nat" where
  "createGroupPricingId n = (lit ''gpr_'' @ nat_str (n + 1), n + 1)"

definition normalizeRatio :: "jval \<Rightarrow> jsnum" where
  "normalizeRatio value = (let parsed = num_of value in if is_finite parsed then parsed else Fin 1)"

definition description_of :: "(jstring \<Rightarrow> jstring) \<Rightarrow> obj \<Rightarrow> jstring \<Rightarrow> jstring" where
  "description_of native usableMap name =
     (case map_of usableMap name of
        Some v \<Rightarrow> if nullish v then [] else str_of v
      | None \<Rightarrow> if inherited name then native name else [])"

definition pricing_row_of :: "(jstring \<Rightarrow> jstring) \<Rightarrow> obj \<Rightarrow> obj \<Rightarrow> jstring \<Rightarrow> nat \<Rightarrow> pricing_row" where
  "pricing_row_of native ratioMap usableMap name n =
     \<lparr>p_id = fst (createGroupPricingId n), p_name = name, p_ratio = normalizeRatio (obj_get name ratioMap),
      p_selectable = obj_has name usableMap, p_description = description_of native usableMap name\<rparr>"

definition buildGroupPricingRows ::
    "(jstring \<Rightarrow> jstring) \<Rightarrow> jstring \<Rightarrow> jstring \<Rightarrow> nat \<Rightarrow> (pricing_row list \<times> nat) option" where
  "buildGroupPricingRows native groupRatio userUsableGroups n =
     Option.bind (parse_map groupRatio) (\<lambda>ratioMap.
     Option.bind (parse_map userUsableGroups) (\<lambda>usableMap.
       let names = uniq (map fst ratioMap @ map fst usableMap) in
       Some (map (\<lambda>(i, name). pricing_row_of native ratioMap usableMap name (n + i)) (enumerate 0 names), n + length names)))"

definition serialize_row :: "obj \<times> obj \<Rightarrow> pricing_row \<Rightarrow> obj \<times> obj" where
  "serialize_row maps row =
     (let name = trim (p_name row) in
      if name = [] then maps
      else (assign name (JNum (normalizeRatio (JNum (p_ratio row)))) (fst maps),
            if p_selectable row then assign name (JStr (p_description row)) (snd maps) else snd maps))"

definition serialized_maps :: "pricing_row list \<Rightarrow> obj \<times> obj" where
  "serialized_maps rows = foldl serialize_row ([], []) rows"

definition serializeGroupPricingRows :: "pricing_row list \<Rightarrow> jstring \<times> jstring" where
  "serializeGroupPricingRows rows =
     (let maps = serialized_maps rows in (json_pretty (JObj (fst maps)), json_pretty (JObj (snd maps))))"

definition sourceGroupPricingSignature :: "jstring \<Rightarrow> jstring \<Rightarrow> jstring" where
  "sourceGroupPricingSignature groupRatio userUsableGroups =
     json_text (JObj [(lit ''groupRatio'', safeJsonParse (JObj []) groupRatio),
                      (lit ''userUsableGroups'', safeJsonParse (JObj []) userUsableGroups)])"

definition groupPricingSignature :: "pricing_row list \<Rightarrow> jstring" where
  "groupPricingSignature rows =
     (let (groupRatio, userUsableGroups) = serializeGroupPricingRows rows in
      json_text (JObj [(lit ''groupRatio'', safeJsonParse (JObj []) groupRatio),
                       (lit ''userUsableGroups'', safeJsonParse (JObj []) userUsableGroups)]))"

section \<open>The state of the editor\<close>

text \<open>The five texts of the form, the table with its id counter, and the dialogs with what is typed in them.\<close>

datatype ratio_type = GroupRatioType | TopupRatioType

record group_editor =
  g_groupRatio :: jstring
  g_topupGroupRatio :: jstring
  g_userUsableGroups :: jstring
  g_groupGroupRatio :: jstring
  g_autoGroups :: jstring
  g_rows :: "pricing_row list"
  g_counter :: nat
  g_simpleOpen :: bool
  g_simpleType :: "ratio_type option"
  g_simpleEdit :: "(jstring \<times> jstring) option"
  g_simpleName :: jstring
  g_simpleValue :: jstring
  g_autoOpen :: bool
  g_autoInput :: jstring
  g_overrideOpen :: bool
  g_overrideUser :: "jstring option"
  g_overrideEdit :: "(jstring \<times> jval) option"
  g_overrideTarget :: jstring
  g_overrideRatio :: jstring
  g_userOpen :: bool
  g_userInput :: jstring

section \<open>Edits of the table\<close>

definition emitRows :: "pricing_row list \<Rightarrow> group_editor \<Rightarrow> group_editor" where
  "emitRows nextRows st =
     (let (gr, us) = serializeGroupPricingRows nextRows in
      st\<lparr>g_rows := nextRows, g_groupRatio := gr, g_userUsableGroups := us\<rparr>)"

text \<open>The effect that follows the texts: it runs when one of the two has changed.\<close>

definition syncRows :: "(jstring \<Rightarrow> jstring) \<Rightarrow> group_editor \<Rightarrow> group_editor option" where
  "syncRows native st =
     (if groupPricingSignature (g_rows st) = sourceGroupPricingSignature (g_groupRatio st) (g_userUsableGroups st)
      then Some st
      else map_option (\<lambda>(rows, n). st\<lparr>g_rows := rows, g_counter := n\<rparr>)
        (buildGroupPricingRows native (g_groupRatio st) (g_userUsableGroups st) (g_counter st)))"

datatype row_patch = RName jstring | RRatio jstring | RSelectable bool | RDescription jstring

fun patch_row :: "row_patch \<Rightarrow> pricing_row \<Rightarrow> pricing_row" where
  "patch_row (RName s) row = row\<lparr>p_name := s\<rparr>"
| "patch_row (RRatio s) row = row\<lparr>p_ratio := normalizeRatio (JStr s)\<rparr>"
| "patch_row (RSelectable b) row = row\<lparr>p_selectable := b\<rparr>"
| "patch_row (RDescription s) row = row\<lparr>p_description := s\<rparr>"

definition updateRow :: "jstring \<Rightarrow> row_patch \<Rightarrow> group_editor \<Rightarrow> group_editor" where
  "updateRow i p st = emitRows (map (\<lambda>row. if p_id row = i then patch_row p row else row) (g_rows st)) st"

text \<open>The loop that looks for a name that is not taken yet.\<close>

definition group_name :: "nat \<Rightarrow> jstring" where
  "group_name index = lit ''group_'' @ nat_str index"

partial_function (option) free_name :: "jstring list \<Rightarrow> nat \<Rightarrow> jstring option" where
  "free_name existing index =
     (if group_name index \<in> set existing then free_name existing (index + 1) else Some (group_name index))"

definition addRow :: "group_editor \<Rightarrow> group_editor option" where
  "addRow st =
     map_option (\<lambda>name.
        let (i, n) = createGroupPricingId (g_counter st) in
        emitRows (g_rows st @ [\<lparr>p_id = i, p_name = name, p_ratio = Fin 1, p_selectable = True, p_description = []\<rparr>])
          (st\<lparr>g_counter := n\<rparr>))
      (free_name (map p_name (g_rows st)) 1)"

definition removeRow :: "jstring \<Rightarrow> group_editor \<Rightarrow> group_editor" where
  "removeRow i st = emitRows (filter (\<lambda>row. p_id row \<noteq> i) (g_rows st)) st"

fun count_names :: "pricing_row list \<Rightarrow> (jstring \<times> nat) list \<Rightarrow> (jstring \<times> nat) list" where
  "count_names [] counts = counts"
| "count_names (row # rows) counts =
     (let name = trim (p_name row) in
      count_names rows
        (if name = [] then counts
         else case map_of counts name of
           Some c \<Rightarrow> map (\<lambda>(k, x). if k = name then (k, c + 1) else (k, x)) counts
         | None \<Rightarrow> counts @ [(name, 1)]))"

definition duplicateNames :: "pricing_row list \<Rightarrow> jstring list" where
  "duplicateNames rows = map fst (filter (\<lambda>(_, count). 1 < count) (count_names rows []))"

section \<open>The dialog for a ratio\<close>

definition topupRatioList :: "group_editor \<Rightarrow> (jstring \<times> jstring) list option" where
  "topupRatioList st = map_option (map (\<lambda>(name, v). (name, str_of v))) (parse_map (g_topupGroupRatio st))"

definition simple_field :: "ratio_type \<Rightarrow> group_editor \<Rightarrow> jstring" where
  "simple_field ty st = (case ty of GroupRatioType \<Rightarrow> g_groupRatio st | TopupRatioType \<Rightarrow> g_topupGroupRatio st)"

definition set_simple :: "ratio_type \<Rightarrow> obj \<Rightarrow> group_editor \<Rightarrow> group_editor" where
  "set_simple ty ps st =
     (case ty of GroupRatioType \<Rightarrow> st\<lparr>g_groupRatio := json_pretty (JObj ps)\<rparr>
      | TopupRatioType \<Rightarrow> st\<lparr>g_topupGroupRatio := json_pretty (JObj ps)\<rparr>)"

text \<open>Opening sets the fields of the dialog from the entry to edit, closing clears them.\<close>

definition open_simple :: "ratio_type \<Rightarrow> (jstring \<times> jstring) option \<Rightarrow> group_editor \<Rightarrow> group_editor" where
  "open_simple ty edit st =
     st\<lparr>g_simpleType := Some ty, g_simpleEdit := edit, g_simpleOpen := True,
        g_simpleName := (case edit of Some (name, _) \<Rightarrow> name | None \<Rightarrow> []),
        g_simpleValue := (case edit of Some (_, value) \<Rightarrow> value | None \<Rightarrow> [])\<rparr>"

definition handleSimpleAdd :: "ratio_type \<Rightarrow> group_editor \<Rightarrow> group_editor" where
  "handleSimpleAdd ty = open_simple ty None"

definition handleSimpleEdit :: "ratio_type \<Rightarrow> jstring \<times> jstring \<Rightarrow> group_editor \<Rightarrow> group_editor" where
  "handleSimpleEdit ty entry = open_simple ty (Some entry)"

definition handleSimpleSave :: "jstring \<Rightarrow> jstring \<Rightarrow> group_editor \<Rightarrow> group_editor option" where
  "handleSimpleSave name value st =
     (case g_simpleType st of
        None \<Rightarrow> Some st
      | Some ty \<Rightarrow>
          map_option (\<lambda>m.
             let m1 = (case g_simpleEdit st of Some (old, _) \<Rightarrow> if old \<noteq> name then obj_del old m else m | None \<Rightarrow> m);
                 m2 = assign name (JNum (parseFloat value)) m1 in
             (set_simple ty m2 st)\<lparr>g_simpleOpen := False, g_simpleName := [], g_simpleValue := []\<rparr>)
           (parse_map (simple_field ty st)))"

text \<open>A typed value is taken when it is empty or starts with a number.\<close>

definition type_value :: "jstring \<Rightarrow> group_editor \<Rightarrow> group_editor" where
  "type_value val st = (if val = [] \<or> parseFloat val \<noteq> NaN then st\<lparr>g_simpleValue := val\<rparr> else st)"

definition simple_dialog_save :: "group_editor \<Rightarrow> group_editor option" where
  "simple_dialog_save st =
     (if trim (g_simpleName st) = [] \<or> trim (g_simpleValue st) = [] then Some st
      else map_option (\<lambda>s. s\<lparr>g_simpleName := [], g_simpleValue := []\<rparr>)
        (handleSimpleSave (trim (g_simpleName st)) (trim (g_simpleValue st)) st))"

definition close_simple :: "group_editor \<Rightarrow> group_editor" where
  "close_simple st = st\<lparr>g_simpleOpen := False, g_simpleName := [], g_simpleValue := []\<rparr>"

definition handleSimpleDelete :: "ratio_type \<Rightarrow> jstring \<Rightarrow> group_editor \<Rightarrow> group_editor option" where
  "handleSimpleDelete ty name st = map_option (\<lambda>m. set_simple ty (obj_del name m) st) (parse_map (simple_field ty st))"

section \<open>Automatic groups\<close>

definition autoGroupsList :: "group_editor \<Rightarrow> jval list option" where
  "autoGroupsList st = (case safeJsonParse (JArr []) (g_autoGroups st) of JArr vs \<Rightarrow> Some vs | _ \<Rightarrow> None)"

definition set_auto :: "jval list \<Rightarrow> group_editor \<Rightarrow> group_editor" where
  "set_auto vs st = st\<lparr>g_autoGroups := json_pretty (JArr vs)\<rparr>"

definition handleAutoGroupAdd :: "group_editor \<Rightarrow> group_editor" where
  "handleAutoGroupAdd st = st\<lparr>g_autoInput := [], g_autoOpen := True\<rparr>"

definition handleAutoGroupSave :: "group_editor \<Rightarrow> group_editor option" where
  "handleAutoGroupSave st =
     (if trim (g_autoInput st) = [] then Some st
      else map_option (\<lambda>vs. (set_auto (vs @ [JStr (trim (g_autoInput st))]) st)\<lparr>g_autoOpen := False\<rparr>) (autoGroupsList st))"

definition handleAutoGroupDelete :: "nat \<Rightarrow> group_editor \<Rightarrow> group_editor option" where
  "handleAutoGroupDelete index st =
     map_option (\<lambda>vs. set_auto (take index vs @ drop (Suc index) vs) st) (autoGroupsList st)"

datatype move_direction = Up | Down

definition handleAutoGroupMove :: "nat \<Rightarrow> move_direction \<Rightarrow> group_editor \<Rightarrow> group_editor option" where
  "handleAutoGroupMove index direction st =
     map_option (\<lambda>vs.
        let newIndex = (case direction of Up \<Rightarrow> int index - 1 | Down \<Rightarrow> int index + 1) in
        if newIndex < 0 \<or> int (length vs) \<le> newIndex then st
        else set_auto (vs[index := vs ! nat newIndex, nat newIndex := vs ! index]) st)
      (autoGroupsList st)"

section \<open>Overrides between groups\<close>

definition override_entries :: "jstring \<times> jval \<Rightarrow> (jstring \<times> obj) option" where
  "override_entries e = map_option (Pair (fst e)) (entries (snd e))"

definition groupGroupRatioList :: "group_editor \<Rightarrow> (jstring \<times> obj) list option" where
  "groupGroupRatioList st =
     Option.bind (parse_map (g_groupGroupRatio st)) (\<lambda>m.
       let es = map override_entries m in if None \<in> set es then None else Some (map the es))"

definition set_overrides :: "obj \<Rightarrow> group_editor \<Rightarrow> group_editor" where
  "set_overrides m st = st\<lparr>g_groupGroupRatio := json_pretty (JObj m)\<rparr>"

definition handleUserGroupAdd :: "group_editor \<Rightarrow> group_editor" where
  "handleUserGroupAdd st = st\<lparr>g_userInput := [], g_userOpen := True\<rparr>"

definition ensure_group :: "jstring \<Rightarrow> obj \<Rightarrow> obj" where
  "ensure_group k m = (if prop_falsy k m then assign k (JObj []) m else m)"

definition handleUserGroupSave :: "group_editor \<Rightarrow> group_editor option" where
  "handleUserGroupSave st =
     (if trim (g_userInput st) = [] then Some st
      else map_option (\<lambda>m. (set_overrides (ensure_group (trim (g_userInput st)) m) st)\<lparr>g_userOpen := False\<rparr>)
        (parse_map (g_groupGroupRatio st)))"

definition handleUserGroupDelete :: "jstring \<Rightarrow> group_editor \<Rightarrow> group_editor option" where
  "handleUserGroupDelete userGroup st =
     map_option (\<lambda>m. set_overrides (obj_del userGroup m) st) (parse_map (g_groupGroupRatio st))"

definition open_override :: "jstring \<Rightarrow> (jstring \<times> jval) option \<Rightarrow> group_editor \<Rightarrow> group_editor" where
  "open_override userGroup edit st =
     st\<lparr>g_overrideUser := Some userGroup, g_overrideEdit := edit, g_overrideOpen := True,
        g_overrideTarget := (case edit of Some (target, _) \<Rightarrow> target | None \<Rightarrow> []),
        g_overrideRatio := (case edit of Some (_, ratio) \<Rightarrow> str_of ratio | None \<Rightarrow> [])\<rparr>"

definition handleOverrideAdd :: "jstring \<Rightarrow> group_editor \<Rightarrow> group_editor" where
  "handleOverrideAdd userGroup = open_override userGroup None"

definition handleOverrideEdit :: "jstring \<Rightarrow> jstring \<times> jval \<Rightarrow> group_editor \<Rightarrow> group_editor" where
  "handleOverrideEdit userGroup ov = open_override userGroup (Some ov)"

text \<open>\<open>set_override g t x m\<close>: \<^verbatim>\<open>map[g][t] = x\<close> after the group was ensured. An inherited name is no property of the map, so
  the assignment changes an object outside it.\<close>

definition set_override :: "jstring \<Rightarrow> jstring option \<Rightarrow> jstring \<Rightarrow> jval \<Rightarrow> obj \<Rightarrow> obj option" where
  "set_override g old t x m0 =
     (let m = ensure_group g m0 in
      case map_of m g of
        None \<Rightarrow> Some m
      | Some inner \<Rightarrow>
          (let inner1 = (case old of Some o' \<Rightarrow> if o' \<noteq> [] \<and> o' \<noteq> t then del_prop o' inner else Some inner | None \<Rightarrow> Some inner) in
           map_option (\<lambda>v. obj_put g v m) (Option.bind inner1 (put_prop t x))))"

definition handleOverrideSave :: "jstring \<Rightarrow> jsnum \<Rightarrow> jstring option \<Rightarrow> group_editor \<Rightarrow> group_editor option" where
  "handleOverrideSave targetGroup ratio oldTargetGroup st =
     (case g_overrideUser st of
        None \<Rightarrow> Some st
      | Some g \<Rightarrow>
          if g = [] then Some st
          else map_option (\<lambda>m. (set_overrides m st)\<lparr>g_overrideOpen := False, g_overrideTarget := [], g_overrideRatio := []\<rparr>)
            (Option.bind (parse_map (g_groupGroupRatio st)) (set_override g oldTargetGroup targetGroup (JNum ratio))))"

definition type_ratio :: "jstring \<Rightarrow> group_editor \<Rightarrow> group_editor" where
  "type_ratio val st = (if val = [] \<or> parseFloat val \<noteq> NaN then st\<lparr>g_overrideRatio := val\<rparr> else st)"

definition override_dialog_save :: "group_editor \<Rightarrow> group_editor option" where
  "override_dialog_save st =
     (if trim (g_overrideTarget st) = [] \<or> trim (g_overrideRatio st) = [] then Some st
      else let parsedRatio = parseFloat (g_overrideRatio st) in
        if parsedRatio = NaN then Some st
        else map_option (\<lambda>s. s\<lparr>g_overrideTarget := [], g_overrideRatio := []\<rparr>)
          (handleOverrideSave (trim (g_overrideTarget st)) parsedRatio (map_option fst (g_overrideEdit st)) st))"

definition close_override :: "group_editor \<Rightarrow> group_editor" where
  "close_override st = st\<lparr>g_overrideOpen := False, g_overrideTarget := [], g_overrideRatio := []\<rparr>"

text \<open>\<open>Object.keys(v).length === 0\<close>.\<close>

definition no_keys :: "jval \<Rightarrow> bool" where
  "no_keys v \<longleftrightarrow> (case entries v of Some es \<Rightarrow> es = [] | None \<Rightarrow> False)"

definition delete_override :: "jstring \<Rightarrow> jstring \<Rightarrow> obj \<Rightarrow> obj option" where
  "delete_override g t m =
     (case map_of m g of
        None \<Rightarrow> Some m
      | Some inner \<Rightarrow>
          if \<not> truthy inner then Some m
          else map_option (\<lambda>v. if no_keys v then obj_del g m else obj_put g v m) (del_prop t inner))"

definition handleOverrideDelete :: "jstring \<Rightarrow> jstring \<Rightarrow> group_editor \<Rightarrow> group_editor option" where
  "handleOverrideDelete userGroup targetGroup st =
     map_option (\<lambda>m. set_overrides m st) (Option.bind (parse_map (g_groupGroupRatio st)) (delete_override userGroup targetGroup))"

section \<open>The editor as a machine\<close>

datatype group_event =
    UpdateRow jstring row_patch | AddRow | RemoveRow jstring | Reload jstring jstring
  | SimpleAdd ratio_type | SimpleEdit ratio_type "jstring \<times> jstring" | SimpleName jstring | SimpleValue jstring
  | SimpleSave | SimpleClose | SimpleDelete ratio_type jstring
  | AutoAdd | AutoInput jstring | AutoSave | AutoClose | AutoDelete nat | AutoMove nat move_direction
  | UserAdd | UserInput jstring | UserSave | UserClose | UserDelete jstring
  | OverrideAdd jstring | OverrideEdit jstring "jstring \<times> jval" | OverrideTarget jstring | OverrideRatio jstring
  | OverrideSave | OverrideClose | OverrideDelete jstring jstring

text \<open>\<open>Reload\<close> is a change of the two texts from outside the table: the JSON mode of the form, or fresh settings. The name
  fields of the dialogs are disabled while an entry is edited.\<close>

fun group_handle :: "group_event \<Rightarrow> group_editor \<Rightarrow> group_editor option" where
  "group_handle (UpdateRow i p) st = Some (updateRow i p st)"
| "group_handle AddRow st = addRow st"
| "group_handle (RemoveRow i) st = Some (removeRow i st)"
| "group_handle (Reload gr us) st = Some (st\<lparr>g_groupRatio := gr, g_userUsableGroups := us\<rparr>)"
| "group_handle (SimpleAdd ty) st = Some (handleSimpleAdd ty st)"
| "group_handle (SimpleEdit ty entry) st = Some (handleSimpleEdit ty entry st)"
| "group_handle (SimpleName s) st = Some (if g_simpleEdit st = None then st\<lparr>g_simpleName := s\<rparr> else st)"
| "group_handle (SimpleValue s) st = Some (type_value s st)"
| "group_handle SimpleSave st = simple_dialog_save st"
| "group_handle SimpleClose st = Some (close_simple st)"
| "group_handle (SimpleDelete ty name) st = handleSimpleDelete ty name st"
| "group_handle AutoAdd st = Some (handleAutoGroupAdd st)"
| "group_handle (AutoInput s) st = Some (st\<lparr>g_autoInput := s\<rparr>)"
| "group_handle AutoSave st = handleAutoGroupSave st"
| "group_handle AutoClose st = Some (st\<lparr>g_autoOpen := False\<rparr>)"
| "group_handle (AutoDelete i) st = handleAutoGroupDelete i st"
| "group_handle (AutoMove i d) st = handleAutoGroupMove i d st"
| "group_handle UserAdd st = Some (handleUserGroupAdd st)"
| "group_handle (UserInput s) st = Some (st\<lparr>g_userInput := s\<rparr>)"
| "group_handle UserSave st = handleUserGroupSave st"
| "group_handle UserClose st = Some (st\<lparr>g_userOpen := False\<rparr>)"
| "group_handle (UserDelete g) st = handleUserGroupDelete g st"
| "group_handle (OverrideAdd g) st = Some (handleOverrideAdd g st)"
| "group_handle (OverrideEdit g ov) st = Some (handleOverrideEdit g ov st)"
| "group_handle (OverrideTarget s) st = Some (if g_overrideEdit st = None then st\<lparr>g_overrideTarget := s\<rparr> else st)"
| "group_handle (OverrideRatio s) st = Some (type_ratio s st)"
| "group_handle OverrideSave st = override_dialog_save st"
| "group_handle OverrideClose st = Some (close_override st)"
| "group_handle (OverrideDelete g t) st = handleOverrideDelete g t st"

definition group_step :: "(jstring \<Rightarrow> jstring) \<Rightarrow> group_event \<Rightarrow> group_editor \<Rightarrow> group_editor option" where
  "group_step native ev st =
     Option.bind (group_handle ev st) (\<lambda>st'.
       if g_groupRatio st' = g_groupRatio st \<and> g_userUsableGroups st' = g_userUsableGroups st then Some st'
       else syncRows native st')"

end
