(* ===== verification/Group_Ratio_Props.thy ===== *)
theory Group_Ratio_Props
  imports Group_Ratio Id_Supply
begin

text \<open>
  Properties of the group ratio editor: the search for a free name ends, the table is what is saved, ids stay
  distinct, an override is changed without touching the others.
\<close>

section \<open>Adding a row\<close>

lemma group_name_inj: "group_name i = group_name j \<Longrightarrow> i = j"
  by (simp add: group_name_def)

text \<open>The names from an index on that are taken: each turn of the loop leaves one fewer.\<close>

definition taken_from :: "jstring list \<Rightarrow> nat \<Rightarrow> nat set" where
  "taken_from existing index = {i. index \<le> i \<and> group_name i \<in> set existing}"

lemma finite_taken: "finite (taken_from existing index)"
proof -
  have "finite (group_name -` set existing)" by (rule finite_vimageI) (auto intro: injI group_name_inj)
  then show ?thesis by (rule rev_finite_subset) (auto simp: taken_from_def)
qed

lemma free_name_ends:
  "\<exists>k. free_name existing index = Some (group_name (index + k)) \<and> group_name (index + k) \<notin> set existing \<and>
     (\<forall>j<k. group_name (index + j) \<in> set existing)"
proof (induction "card (taken_from existing index)" arbitrary: index rule: less_induct)
  case less
  show ?case
  proof (cases "group_name index \<in> set existing")
    case False
    then show ?thesis by (intro exI [of _ 0]) (simp add: free_name.simps)
  next
    case True
    then have "index \<in> taken_from existing index" "index \<notin> taken_from existing (index + 1)"
        "taken_from existing (index + 1) \<subseteq> taken_from existing index"
      by (auto simp: taken_from_def)
    then have "taken_from existing (index + 1) \<subset> taken_from existing index" by blast
    then have "card (taken_from existing (index + 1)) < card (taken_from existing index)"
      by (rule psubset_card_mono [OF finite_taken])
    from less [OF this] obtain k where k: "free_name existing (index + 1) = Some (group_name (index + 1 + k))"
        "group_name (index + 1 + k) \<notin> set existing" "\<forall>j<k. group_name (index + 1 + j) \<in> set existing"
      by blast
    have "group_name (index + j) \<in> set existing" if "j < Suc k" for j
      using that True k(3) by (cases j) auto
    then show ?thesis using True k by (intro exI [of _ "Suc k"]) (simp add: free_name.simps [of existing index])
  qed
qed

lemma emit_rows [simp]: "g_rows (emitRows rows st) = rows" "g_counter (emitRows rows st) = g_counter st"
  by (simp_all add: emitRows_def case_prod_beta)

text \<open>C22: Adding a row always ends: the search finds the first number from 1 on whose name is free, and the new row is
  appended with that name to the rows as they were.\<close>

theorem add_row_ends:
  "\<exists>st' k. addRow st = Some st' \<and> g_rows st' = g_rows st @ [last (g_rows st')] \<and>
     p_name (last (g_rows st')) = group_name (k + 1) \<and> group_name (k + 1) \<notin> p_name ` set (g_rows st) \<and>
     {group_name (j + 1) |j. j < k} \<subseteq> p_name ` set (g_rows st)"
proof -
  obtain k where k: "free_name (map p_name (g_rows st)) 1 = Some (group_name (1 + k))"
      "group_name (1 + k) \<notin> set (map p_name (g_rows st))" "\<forall>j<k. group_name (1 + j) \<in> set (map p_name (g_rows st))"
    using free_name_ends by blast
  then show ?thesis
    by (intro exI [of _ "the (addRow st)"] exI [of _ k]) (auto simp: addRow_def createGroupPricingId_def)
qed

section \<open>The table and its texts\<close>

definition row_ok :: "pricing_row \<Rightarrow> bool" where
  "row_ok row \<longleftrightarrow>
     p_name row \<noteq> [] \<and> trim (p_name row) = p_name row \<and> key_ok (p_name row) \<and> \<not> inherited (p_name row) \<and>
     json_num (p_ratio row) \<and> unit_str (p_description row)"

definition erase_row :: "pricing_row \<Rightarrow> pricing_row" where
  "erase_row row = row\<lparr>p_id := []\<rparr>"

text \<open>What the texts keep of a row: the description only if the group is selectable.\<close>

definition saved_row :: "pricing_row \<Rightarrow> pricing_row" where
  "saved_row row = row\<lparr>p_id := [], p_description := (if p_selectable row then p_description row else [])\<rparr>"

definition ratio_entry :: "pricing_row \<Rightarrow> jstring \<times> jval" where
  "ratio_entry row = (p_name row, JNum (p_ratio row))"

definition usable_entry :: "pricing_row \<Rightarrow> jstring \<times> jval" where
  "usable_entry row = (p_name row, JStr (p_description row))"

lemma json_num_finite: "json_num x \<Longrightarrow> normalizeRatio (JNum x) = x"
  by (simp add: json_num_def normalizeRatio_def num_of_def)

lemma serialized_rows:
  assumes "list_all row_ok rows" and "distinct (map p_name rows)"
  shows "serialized_maps rows = (map ratio_entry rows, map usable_entry (filter p_selectable rows))"
  using assms
proof (induction rows rule: rev_induct)
  case Nil
  then show ?case by (simp add: serialized_maps_def)
next
  case (snoc row rows)
  have r: "p_name row \<noteq> []" "trim (p_name row) = p_name row" "index_key (p_name row) = None" "p_name row \<noteq> lit ''__proto__''"
      "normalizeRatio (JNum (p_ratio row)) = p_ratio row"
    using snoc.prems not_inherited_proto json_num_finite by (auto simp: row_ok_def key_ok_def)
  have "map_of (map ratio_entry rows) (p_name row) = None" "map_of (map usable_entry (filter p_selectable rows)) (p_name row) = None"
    using snoc.prems(2) by (force simp: map_of_eq_None_iff ratio_entry_def usable_entry_def)+
  then have "serialize_row (map ratio_entry rows, map usable_entry (filter p_selectable rows)) row =
      (map ratio_entry (rows @ [row]), map usable_entry (filter p_selectable (rows @ [row])))"
    using r by (simp add: serialize_row_def Let_def assign_put obj_put_def ratio_entry_def usable_entry_def)
  with snoc show ?case by (simp add: serialized_maps_def)
qed

text \<open>C23: The table survives being saved, but for the descriptions of groups users cannot choose: for rows with distinct, trimmed
  names that are not empty, not integers and not names every object inherits, finite ratios whose text reads back exactly and
  well-formed descriptions, the two texts written by an edit give back the same rows in the same order, with new ids and
  without those descriptions.\<close>

theorem group_rows_roundtrip:
  assumes "list_all row_ok rows" and "distinct (map p_name rows)"
  shows "\<exists>loaded m. buildGroupPricingRows native (fst (serializeGroupPricingRows rows)) (snd (serializeGroupPricingRows rows)) n
      = Some (loaded, m) \<and> map erase_row loaded = map saved_row rows"
proof -
  let ?rm = "map ratio_entry rows" and ?um = "map usable_entry (filter p_selectable rows)"
  have keys: "map fst ?rm = map p_name rows" "map fst ?um = map p_name (filter p_selectable rows)"
    by (simp_all add: ratio_entry_def usable_entry_def)
  have du: "distinct (map fst ?um)" using assms(2) by (simp only: keys) (simp add: distinct_map_filter)
  have "list_all (\<lambda>(k, _). key_ok k) ?rm" "list_all (\<lambda>(k, _). key_ok k) ?um"
    using assms(1) by (auto simp: list_all_iff row_ok_def ratio_entry_def usable_entry_def)
  then have "obj_build [] ?rm = ?rm" "obj_build [] ?um = ?um"
    using plain_build keys(1) assms(2) du by metis+
  then have "json_ok (JObj ?rm)" "json_ok (JObj ?um)"
    using assms(1) by (auto simp: list_all_iff row_ok_def key_ok_def ratio_entry_def usable_entry_def)
  then have parsed: "parse_map (fst (serializeGroupPricingRows rows)) = Some ?rm"
      "parse_map (snd (serializeGroupPricingRows rows)) = Some ?um"
    by (simp_all add: serializeGroupPricingRows_def serialized_rows [OF assms] parse_pretty)
  have names: "uniq (map fst ?rm @ map fst ?um) = map p_name rows"
    unfolding keys using assms(2) by (simp add: uniq_append uniq_distinct)
  have row: "erase_row (pricing_row_of native ?rm ?um (p_name row) i) = saved_row row" if "row \<in> set rows" for row i
  proof -
    have d: "distinct (map fst ?rm)" using assms(2) by (simp only: keys)
    have "map_of ?rm (p_name row) = Some (JNum (p_ratio row))"
      by (rule map_of_is_SomeI [OF d]) (use that in \<open>force simp: ratio_entry_def\<close>)
    moreover have "map_of ?um (p_name row) = (if p_selectable row then Some (JStr (p_description row)) else None)"
    proof (cases "p_selectable row")
      case True
      then have "(p_name row, JStr (p_description row)) \<in> set ?um" using that by (force simp: usable_entry_def)
      then show ?thesis using map_of_is_SomeI [OF du] True by simp
    next
      case False
      have "p_name x \<noteq> p_name row" if "x \<in> set rows" "p_selectable x" for x
        using that False \<open>row \<in> set rows\<close> assms(2) by (metis (mono_tags, lifting) distinct_map inj_onD)
      then have "p_name row \<notin> fst ` set ?um" by (force simp: usable_entry_def)
      then show ?thesis using False by (simp add: map_of_eq_None_iff)
    qed
    moreover have "row_ok row" using assms(1) that by (simp add: list_all_iff)
    ultimately show ?thesis
      by (auto simp: pricing_row_of_def erase_row_def saved_row_def row_ok_def obj_get_def obj_has_def description_of_def nullish_def json_num_finite)
  qed
  let ?loaded = "map (\<lambda>(i, name). pricing_row_of native ?rm ?um name (n + i)) (enumerate 0 (map p_name rows))"
  have "map erase_row (map (\<lambda>(i, name). pricing_row_of native ?rm ?um name (n + i)) (enumerate k (map p_name qs))) = map saved_row qs"
    if "set qs \<subseteq> set rows" for k qs
    using that by (induction qs arbitrary: k) (simp_all add: row)
  then have "map erase_row ?loaded = map saved_row rows" by blast
  moreover have "buildGroupPricingRows native (fst (serializeGroupPricingRows rows)) (snd (serializeGroupPricingRows rows)) n =
      Some (?loaded, n + length rows)"
    by (simp only: buildGroupPricingRows_def parsed names Option.bind.simps Let_def) simp
  ultimately show ?thesis by blast
qed

definition sample_rows :: "pricing_row list" where
  "sample_rows =
     [\<lparr>p_id = lit ''gpr_1'', p_name = lit ''default'', p_ratio = Fin 1, p_selectable = True, p_description = lit ''Default''\<rparr>,
      \<lparr>p_id = lit ''gpr_2'', p_name = lit ''vip'', p_ratio = Fin (1/2), p_selectable = False, p_description = lit ''Hidden''\<rparr>]"

theorem group_rows_roundtrip_witness:
  "\<exists>loaded m. buildGroupPricingRows (\<lambda>k. k) (fst (serializeGroupPricingRows sample_rows)) (snd (serializeGroupPricingRows sample_rows)) 2
      = Some (loaded, m) \<and> map p_description loaded = [lit ''Default'', []]"
proof -
  have ok: "list_all row_ok sample_rows" "distinct (map p_name sample_rows)" by code_simp+
  have d: "map (p_description \<circ> saved_row) sample_rows = [lit ''Default'', []]" by code_simp
  have e: "p_description \<circ> erase_row = p_description" by (simp add: fun_eq_iff erase_row_def)
  obtain loaded m where l: "buildGroupPricingRows (\<lambda>k. k) (fst (serializeGroupPricingRows sample_rows))
      (snd (serializeGroupPricingRows sample_rows)) 2 = Some (loaded, m)" "map erase_row loaded = map saved_row sample_rows"
    using group_rows_roundtrip [OF ok, of "\<lambda>k. k" 2] by blast
  have "map p_description loaded = map p_description (map erase_row loaded)" by (simp add: e)
  also have "\<dots> = [lit ''Default'', []]" unfolding l(2) using d by simp
  finally have "map p_description loaded = [lit ''Default'', []]" .
  with l(1) show ?thesis by (intro exI [of _ loaded] exI [of _ m] conjI)
qed

section \<open>Edits keep the rows\<close>

text \<open>After an edit of the table the effect finds the texts it wrote and keeps the rows, with ids and blank or repeated names.\<close>

lemma emit_in_sync: "syncRows native (emitRows rows st) = Some (emitRows rows st)"
  by (simp add: syncRows_def emitRows_def groupPricingSignature_def sourceGroupPricingSignature_def case_prod_beta)

lemma row_edit_kept:
  "group_step native (UpdateRow i p) st = Some (updateRow i p st)"
  "group_step native (RemoveRow i) st = Some (removeRow i st)"
  by (simp_all add: group_step_def updateRow_def removeRow_def emit_in_sync)

lemma add_row_kept: "group_step native AddRow st = addRow st"
proof -
  obtain rows st' where "addRow st = Some (emitRows rows st')"
    using add_row_ends [of st] by (auto simp: addRow_def case_prod_beta)
  then show ?thesis by (simp add: group_step_def emit_in_sync)
qed

section \<open>Ids\<close>

interpretation row_ids: id_supply "\<lambda>n. fst (createGroupPricingId n)"
  by unfold_locales (simp add: createGroupPricingId_def)

definition rows_inv :: "group_editor \<Rightarrow> bool" where
  "rows_inv st \<longleftrightarrow> distinct (map p_id (g_rows st)) \<and> set (map p_id (g_rows st)) \<subseteq> row_ids.issued (g_counter st)"

lemma built_rows_fresh:
  "buildGroupPricingRows native gr us n = Some (rows, m) \<Longrightarrow> row_ids.fresh_keys (map p_id rows) n m"
proof -
  assume "buildGroupPricingRows native gr us n = Some (rows, m)"
  then obtain rm um names where "rows = map (\<lambda>(i, name). pricing_row_of native rm um name (n + i)) (enumerate 0 names)"
      and m: "m = n + length names"
    by (auto simp: buildGroupPricingRows_def Let_def bind_eq_Some_conv)
  then have "map p_id rows = map (\<lambda>(i, name). fst (createGroupPricingId (n + i))) (enumerate 0 names)"
    by (simp add: case_prod_beta pricing_row_of_def)
  then show ?thesis using row_ids.fresh_block [of n names] m by simp
qed

lemma rows_inv_sync:
  assumes "rows_inv st" and "syncRows native st = Some st'"
  shows "rows_inv st'"
proof (cases "groupPricingSignature (g_rows st) = sourceGroupPricingSignature (g_groupRatio st) (g_userUsableGroups st)")
  case False
  with assms(2) obtain rows m where b: "buildGroupPricingRows native (g_groupRatio st) (g_userUsableGroups st) (g_counter st) = Some (rows, m)"
      and st': "st' = st\<lparr>g_rows := rows, g_counter := m\<rparr>"
    by (auto simp: syncRows_def)
  have f: "row_ids.fresh_keys (map p_id rows) (g_counter st) m" by (rule built_rows_fresh [OF b])
  then have "distinct (map p_id rows)" by (simp add: row_ids.fresh_keys_def)
  with row_ids.fresh_issued [OF f] show ?thesis by (simp add: rows_inv_def st')
qed (use assms in \<open>simp add: syncRows_def\<close>)

lemma rows_inv_emit:
  "distinct (map p_id rows) \<Longrightarrow> set (map p_id rows) \<subseteq> row_ids.issued (g_counter st) \<Longrightarrow> rows_inv (emitRows rows st)"
  by (simp add: rows_inv_def)

lemma rows_inv_update: "rows_inv st \<Longrightarrow> rows_inv (updateRow i p st)"
proof -
  assume inv: "rows_inv st"
  have "p_id (patch_row p row) = p_id row" for row by (cases p) simp_all
  then have ids: "map p_id (map (\<lambda>row. if p_id row = i then patch_row p row else row) (g_rows st)) = map p_id (g_rows st)" by simp
  show ?thesis unfolding updateRow_def by (rule rows_inv_emit) (use inv in \<open>simp_all only: rows_inv_def ids\<close>)
qed

lemma rows_inv_remove: "rows_inv st \<Longrightarrow> rows_inv (removeRow i st)"
  unfolding removeRow_def by (rule rows_inv_emit) (auto simp: rows_inv_def distinct_map_filter)

lemma rows_inv_add: "rows_inv st \<Longrightarrow> addRow st = Some st' \<Longrightarrow> rows_inv st'"
proof -
  assume inv: "rows_inv st" and "addRow st = Some st'"
  moreover have "snd (createGroupPricingId n) = Suc n" for n by (simp add: createGroupPricingId_def)
  ultimately obtain name where "st' = emitRows (g_rows st @ [\<lparr>p_id = fst (createGroupPricingId (g_counter st)), p_name = name,
      p_ratio = Fin 1, p_selectable = True, p_description = []\<rparr>]) (st\<lparr>g_counter := Suc (g_counter st)\<rparr>)"
    by (auto simp: addRow_def Let_def case_prod_beta)
  then show "rows_inv st'"
    using inv row_ids.not_issued [of "g_counter st"] by (auto simp: rows_inv_def row_ids.issued_Suc)
qed

text \<open>The other handlers leave the rows alone.\<close>

lemma simple_rows [simp]: "g_rows (set_simple ty ps st) = g_rows st" "g_counter (set_simple ty ps st) = g_counter st"
  by (cases ty; simp add: set_simple_def)+

lemmas dialog_defs = handleSimpleAdd_def handleSimpleEdit_def open_simple_def type_value_def simple_dialog_save_def handleSimpleSave_def
  close_simple_def handleSimpleDelete_def handleAutoGroupAdd_def handleAutoGroupSave_def handleAutoGroupDelete_def
  handleAutoGroupMove_def set_auto_def handleUserGroupAdd_def handleUserGroupSave_def handleUserGroupDelete_def set_overrides_def
  handleOverrideAdd_def handleOverrideEdit_def open_override_def type_ratio_def override_dialog_save_def handleOverrideSave_def
  close_override_def handleOverrideDelete_def

lemma dialog_frame:
  assumes "group_handle ev st = Some st'" and "\<nexists>i p. ev = UpdateRow i p" and "ev \<noteq> AddRow" and "\<nexists>i. ev = RemoveRow i"
  shows "g_rows st' = g_rows st \<and> g_counter st' = g_counter st"
  using assms by (cases ev) (auto simp: dialog_defs Let_def split: if_splits option.splits)

lemma rows_inv_step:
  assumes "rows_inv st" and "group_step native ev st = Some st'"
  shows "rows_inv st'"
proof -
  from assms(2) obtain s where s: "group_handle ev st = Some s" by (auto simp: group_step_def bind_eq_Some_conv)
  have "rows_inv s"
  proof (cases "(\<exists>i p. ev = UpdateRow i p) \<or> ev = AddRow \<or> (\<exists>i. ev = RemoveRow i)")
    case True
    then show ?thesis using s assms(1) rows_inv_update rows_inv_remove rows_inv_add by auto
  next
    case False
    then show ?thesis using dialog_frame [OF s] assms(1) by (auto simp: rows_inv_def)
  qed
  then show ?thesis using assms(2) rows_inv_sync [of s native st'] by (auto simp: group_step_def s split: if_splits)
qed

section \<open>Overrides between groups\<close>

text \<open>C24: Saving an override writes exactly that one: in the text read back, the group's ratio for the target is the one
  saved, the renamed target is gone, and every other target and group is as before.\<close>

theorem override_saved:
  assumes "parse_map (g_groupGroupRatio st) = Some m" and "json_ok (JObj m)" and "g_overrideUser st = Some g" and "g \<noteq> []"
    and "\<not> inherited g" and "key_ok g" and "obj_get g m \<in> {JUndef, JObj inner}" and "obj_get g m = JUndef \<longrightarrow> inner = []"
    and "key_ok target" and "target \<noteq> lit ''__proto__''" and "json_num ratio" and "list_all (\<lambda>(k, _). index_key k = None) inner"
  shows "\<exists>st' m' inner'. handleOverrideSave target ratio old st = Some st' \<and> parse_map (g_groupGroupRatio st') = Some m' \<and>
      map_of m' = (map_of m)(g \<mapsto> JObj inner') \<and>
      map_of inner' = (case old of Some k \<Rightarrow> (map_of inner)(k := if k = [] \<or> k = target then map_of inner k else None) | None \<Rightarrow> map_of inner)
        (target \<mapsto> JNum ratio)"
proof -
  let ?inner1 = "case old of Some k \<Rightarrow> if k \<noteq> [] \<and> k \<noteq> target then obj_del k inner else inner | None \<Rightarrow> inner"
  let ?inner' = "obj_put target (JNum ratio) ?inner1"
  let ?m = "ensure_group g m"
  have own: "map_of m g = Some (JObj inner) \<or> (map_of m g = None \<or> map_of m g = Some JUndef) \<and> inner = []"
    using assms(7,8) by (auto simp: obj_get_def split: option.splits)
  have okm: "json_ok (JObj ?m)"
    using assms(2,5,6) not_inherited_proto by (simp add: ensure_group_def assign_put json_ok_put del: json_ok.simps)
  have inner: "map_of ?m g = Some (JObj inner)" "map_of ?m = (map_of m)(g \<mapsto> JObj inner)"
    using own assms(5) not_inherited_proto by (auto simp: ensure_group_def prop_falsy_def assign_put fun_eq_iff)
  have oki: "json_ok (JObj inner)" by (rule json_ok_lookup [OF okm inner(1)])
  have "json_ok (JObj ?inner1)"
    using oki assms(12) json_ok_del by (auto split: option.splits simp del: json_ok.simps)
  then have oki': "json_ok (JObj ?inner')" by (rule json_ok_put [OF _ assms(9)]) (simp add: assms(11))
  have set: "set_override g old target (JNum ratio) m = Some (obj_put g (JObj ?inner') ?m)"
    using inner(1) assms(10) by (auto simp: set_override_def Let_def del_prop_def put_prop_def assign_put split: option.splits)
  let ?st' = "(set_overrides (obj_put g (JObj ?inner') ?m) st)\<lparr>g_overrideOpen := False, g_overrideTarget := [], g_overrideRatio := []\<rparr>"
  have ok': "json_ok (JObj (obj_put g (JObj ?inner') ?m))" by (rule json_ok_put [OF okm assms(6) oki'])
  have "handleOverrideSave target ratio old st = Some ?st'"
    using assms(1,3,4) set by (simp add: handleOverrideSave_def)
  moreover have "parse_map (g_groupGroupRatio ?st') = Some (obj_put g (JObj ?inner') ?m)"
    using parse_pretty [OF ok'] by (simp add: set_overrides_def)
  moreover have "map_of (obj_put g (JObj ?inner') ?m) = (map_of m)(g \<mapsto> JObj ?inner')" by (simp add: inner(2))
  moreover have "map_of ?inner' = (case old of Some k \<Rightarrow> (map_of inner)(k := if k = [] \<or> k = target then map_of inner k else None)
        | None \<Rightarrow> map_of inner) (target \<mapsto> JNum ratio)"
    by (auto simp: fun_eq_iff split: option.splits)
  ultimately show ?thesis by blast
qed

definition sample_groups :: group_editor where
  "sample_groups =
     \<lparr>g_groupRatio = [], g_topupGroupRatio = [], g_userUsableGroups = [],
      g_groupGroupRatio = json_pretty (JObj [(lit ''vip'', JObj [(lit ''fast'', JNum (Fin 1))]), (lit ''free'', JObj [])]),
      g_autoGroups = [], g_rows = [], g_counter = 0, g_simpleOpen = False, g_simpleType = None, g_simpleEdit = None,
      g_simpleName = [], g_simpleValue = [], g_autoOpen = False, g_autoInput = [], g_overrideOpen = True,
      g_overrideUser = Some (lit ''vip''), g_overrideEdit = Some (lit ''fast'', JNum (Fin 1)), g_overrideTarget = [],
      g_overrideRatio = [], g_userOpen = False, g_userInput = []\<rparr>"

theorem override_saved_witness:
  "\<exists>st' m' inner'. handleOverrideSave (lit ''slow'') (Fin 2) (Some (lit ''fast'')) sample_groups = Some st' \<and>
      parse_map (g_groupGroupRatio st') = Some m' \<and> map_of m' (lit ''vip'') = Some (JObj inner') \<and>
      map_of inner' (lit ''slow'') = Some (JNum (Fin 2)) \<and> map_of inner' (lit ''fast'') = None \<and> map_of m' (lit ''free'') = Some (JObj [])"
proof -
  let ?m = "[(lit ''vip'', JObj [(lit ''fast'', JNum (Fin 1))]), (lit ''free'', JObj [])]"
  have ok: "json_ok (JObj ?m)" by code_simp
  then have p: "parse_map (g_groupGroupRatio sample_groups) = Some ?m"
    using parse_pretty [OF ok] by (simp add: sample_groups_def)
  have user: "g_overrideUser sample_groups = Some (lit ''vip'')" by (simp add: sample_groups_def)
  have in_set: "obj_get (lit ''vip'') ?m \<in> {JUndef, JObj [(lit ''fast'', JNum (Fin 1))]}" by (simp add: obj_get_def)
  have "\<exists>st' m' inner'. handleOverrideSave (lit ''slow'') (Fin 2) (Some (lit ''fast'')) sample_groups = Some st' \<and>
      parse_map (g_groupGroupRatio st') = Some m' \<and> map_of m' = (map_of ?m)(lit ''vip'' \<mapsto> JObj inner') \<and>
      map_of inner' = (case Some (lit ''fast'') of Some k \<Rightarrow> (map_of [(lit ''fast'', JNum (Fin 1))])
          (k := if k = [] \<or> k = lit ''slow'' then map_of [(lit ''fast'', JNum (Fin 1))] k else None)
        | None \<Rightarrow> map_of [(lit ''fast'', JNum (Fin 1))]) (lit ''slow'' \<mapsto> JNum (Fin 2))"
    by (rule override_saved [OF p ok user _ _ _ in_set]) (code_simp+)
  then show ?thesis by (auto simp: fun_eq_iff)
qed

text \<open>A group named like an inherited function cannot be created: the text stays as it was.\<close>

lemma inherited_user_group: "ensure_group (lit ''constructor'') m = m" if "map_of m (lit ''constructor'') = None" for m
  using that by (simp add: ensure_group_def prop_falsy_def inherited_def object_proto_def)

text \<open>A ratio typed as \<^verbatim>\<open>Infinity\<close> is saved as \<^verbatim>\<open>null\<close>.\<close>

lemma infinite_ratio_null:
  "parseFloat (lit ''Infinity'') = PInf" "json_text (JObj [(lit ''vip'', JNum (parseFloat (lit ''Infinity'')))]) = lit ''{\"vip\":null}''"
  by code_simp+

end
