(* ===== verification/Group_Special.thy ===== *)
theory Group_Special
  imports JS_Object Id_Supply
begin

text \<open>
  The editor of the special usable groups, \<^verbatim>\<open>features/system-settings/models/group-special-usable-editor.tsx\<close>:
  a nested JSON object from user group to prefixed group name (\<^verbatim>\<open>+:\<close> add, \<^verbatim>\<open>-:\<close> remove, otherwise
  append), edited as a flat list of rules shown in one section per user group. \<open>None\<close> is an exception.
\<close>

datatype op_type = OpAdd | OpRemove | OpAppend

record special_rule =
  s_id :: jstring
  s_userGroup :: jstring
  s_op :: op_type
  s_targetGroup :: jstring
  s_description :: jstring

definition uid :: "nat \<Rightarrow> jstring" where
  "uid n = lit ''gsu_'' @ nat_str (n + 1)"

definition parsePrefix :: "jstring \<Rightarrow> op_type \<times> jstring" where
  "parsePrefix rawKey =
     (if starts_with rawKey (lit ''+:'') then (OpAdd, drop 2 rawKey)
      else if starts_with rawKey (lit ''-:'') then (OpRemove, drop 2 rawKey)
      else (OpAppend, rawKey))"

definition toRawKey :: "op_type \<Rightarrow> jstring \<Rightarrow> jstring" where
  "toRawKey op groupName =
     (case op of OpAdd \<Rightarrow> lit ''+:'' @ groupName | OpRemove \<Rightarrow> lit ''-:'' @ groupName | OpAppend \<Rightarrow> groupName)"

definition safeParseJson :: "jstring \<Rightarrow> jval" where
  "safeParseJson s =
     (if s = [] \<or> trim s = [] then JObj [] else case json_parse s of Some v \<Rightarrow> v | None \<Rightarrow> JObj [])"

definition rule_of :: "jstring \<Rightarrow> nat \<Rightarrow> jstring \<times> jval \<Rightarrow> special_rule" where
  "rule_of userGroup n e =
     (let (op, groupName) = parsePrefix (fst e) in
      \<lparr>s_id = uid n, s_userGroup = userGroup, s_op = op, s_targetGroup = groupName,
       s_description = (if op = OpRemove then lit ''remove'' else case snd e of JStr d \<Rightarrow> d | _ \<Rightarrow> [])\<rparr>)"

text \<open>Only objects and arrays have their entries read.\<close>

definition inner_entries :: "jval \<Rightarrow> obj" where
  "inner_entries v = (case v of JObj ps \<Rightarrow> ps | JArr vs \<Rightarrow> the (entries (JArr vs)) | _ \<Rightarrow> [])"

fun flatten_entries :: "obj \<Rightarrow> nat \<Rightarrow> special_rule list \<times> nat" where
  "flatten_entries [] n = ([], n)"
| "flatten_entries ((userGroup, inner) # rest) n =
     (let es = inner_entries inner;
          (rules, m) = flatten_entries rest (n + length es) in
      (map (\<lambda>(i, e). rule_of userGroup (n + i) e) (enumerate 0 es) @ rules, m))"

definition flattenRules :: "jval \<Rightarrow> nat \<Rightarrow> (special_rule list \<times> nat) option" where
  "flattenRules nested n = map_option (\<lambda>es. flatten_entries es n) (entries nested)"

text \<open>One step of the loop that nests the rules. A user group with an inherited name finds a function in the result,
  and the description is stored in that function.\<close>

definition nest_step :: "obj \<Rightarrow> special_rule \<Rightarrow> obj" where
  "nest_step res r =
     (if s_userGroup r = [] \<or> s_targetGroup r = [] then res
      else
        let res1 = (if prop_falsy (s_userGroup r) res then assign (s_userGroup r) (JObj []) res else res) in
        case map_of res1 (s_userGroup r) of
          Some (JObj inner) \<Rightarrow>
            obj_put (s_userGroup r)
              (JObj (assign (toRawKey (s_op r) (s_targetGroup r)) (JStr (s_description r)) inner)) res1
        | _ \<Rightarrow> res1)"

definition nestRules :: "special_rule list \<Rightarrow> obj" where
  "nestRules rules = foldl nest_step [] rules"

definition serializeRules :: "special_rule list \<Rightarrow> jstring" where
  "serializeRules rules =
     (let nested = nestRules rules in if nested = [] then lit ''{}'' else json_pretty (JObj nested))"

section \<open>The editor\<close>

record special_editor =
  e_rules :: "special_rule list"
  e_newGroup :: jstring
  e_counter :: nat
  e_value :: jstring

text \<open>The rules are read from the text once, when the editor appears.\<close>

definition open_special :: "jstring \<Rightarrow> nat \<Rightarrow> special_editor option" where
  "open_special value n =
     map_option (\<lambda>(rules, m). \<lparr>e_rules = rules, e_newGroup = [], e_counter = m, e_value = value\<rparr>)
       (flattenRules (safeParseJson value) n)"

definition emitChange :: "special_rule list \<Rightarrow> special_editor \<Rightarrow> special_editor" where
  "emitChange newRules st = st\<lparr>e_rules := newRules, e_value := serializeRules newRules\<rparr>"

datatype rule_patch = SOp op_type | STarget jstring | SDescription jstring

definition patch_rule :: "rule_patch \<Rightarrow> special_rule \<Rightarrow> special_rule" where
  "patch_rule p r =
     (case p of
        STarget s \<Rightarrow> r\<lparr>s_targetGroup := s\<rparr>
      | SDescription s \<Rightarrow> r\<lparr>s_description := s\<rparr>
      | SOp op \<Rightarrow>
          if op = OpRemove then r\<lparr>s_op := op, s_description := lit ''remove''\<rparr>
          else if s_op r = OpRemove \<and> s_description r = lit ''remove'' then r\<lparr>s_op := op, s_description := []\<rparr>
          else r\<lparr>s_op := op\<rparr>)"

definition updateRule :: "jstring \<Rightarrow> rule_patch \<Rightarrow> special_editor \<Rightarrow> special_editor" where
  "updateRule i p st = emitChange (map (\<lambda>r. if s_id r = i then patch_rule p r else r) (e_rules st)) st"

definition removeRule :: "jstring \<Rightarrow> special_editor \<Rightarrow> special_editor" where
  "removeRule i st = emitChange (filter (\<lambda>r. s_id r \<noteq> i) (e_rules st)) st"

definition removeGroup :: "jstring \<Rightarrow> special_editor \<Rightarrow> special_editor" where
  "removeGroup groupName st = emitChange (filter (\<lambda>r. s_userGroup r \<noteq> groupName) (e_rules st)) st"

definition new_rule :: "nat \<Rightarrow> jstring \<Rightarrow> special_rule" where
  "new_rule n groupName =
     \<lparr>s_id = uid n, s_userGroup = groupName, s_op = OpAppend, s_targetGroup = [], s_description = []\<rparr>"

definition addRuleToGroup :: "jstring \<Rightarrow> special_editor \<Rightarrow> special_editor" where
  "addRuleToGroup groupName st =
     emitChange (e_rules st @ [new_rule (e_counter st) groupName]) (st\<lparr>e_counter := e_counter st + 1\<rparr>)"

definition addNewGroup :: "special_editor \<Rightarrow> special_editor" where
  "addNewGroup st =
     (let name = trim (e_newGroup st) in
      if name = [] then st
      else (emitChange (e_rules st @ [new_rule (e_counter st) name]) (st\<lparr>e_counter := e_counter st + 1\<rparr>))\<lparr>e_newGroup := []\<rparr>)"

text \<open>The sections. For an inherited name the map yields a function, which has no \<^verbatim>\<open>push\<close>: an exception.\<close>

definition group_push :: "(jstring \<times> special_rule list) list \<Rightarrow> special_rule \<Rightarrow> (jstring \<times> special_rule list) list" where
  "group_push sections r =
     (if s_userGroup r = [] then sections
      else if s_userGroup r \<in> fst ` set sections
      then map (\<lambda>(k, rs). if k = s_userGroup r then (k, rs @ [r]) else (k, rs)) sections
      else sections @ [(s_userGroup r, [r])])"

definition grouped :: "special_rule list \<Rightarrow> (jstring \<times> special_rule list) list option" where
  "grouped rules =
     (if list_ex (\<lambda>r. s_userGroup r \<noteq> [] \<and> inherited (s_userGroup r)) rules then None
      else Some (foldl group_push [] rules))"

datatype special_event =
    SUpdate jstring rule_patch | SRemove jstring | SRemoveGroup jstring | SAdd jstring | SNewGroup jstring | SAddGroup

fun special_handle :: "special_event \<Rightarrow> special_editor \<Rightarrow> special_editor" where
  "special_handle (SUpdate i p) st = updateRule i p st"
| "special_handle (SRemove i) st = removeRule i st"
| "special_handle (SRemoveGroup g) st = removeGroup g st"
| "special_handle (SAdd g) st = addRuleToGroup g st"
| "special_handle (SNewGroup s) st = st\<lparr>e_newGroup := s\<rparr>"
| "special_handle SAddGroup st = addNewGroup st"

text \<open>The description of a rule that removes a group has no input.\<close>

definition special_event_ok :: "special_editor \<Rightarrow> special_event \<Rightarrow> bool" where
  "special_event_ok st ev \<longleftrightarrow>
     (case ev of SUpdate i (SDescription _) \<Rightarrow> list_all (\<lambda>r. s_id r = i \<longrightarrow> s_op r \<noteq> OpRemove) (e_rules st) | _ \<Rightarrow> True)"

inductive special_reachable :: "special_editor \<Rightarrow> bool" where
  init: "open_special value n = Some st \<Longrightarrow> special_reachable st"
| step: "special_reachable st \<Longrightarrow> special_event_ok st ev \<Longrightarrow> special_reachable (special_handle ev st)"

section \<open>Lemmas\<close>

lemma parse_toRawKey:
  "parsePrefix (toRawKey op g) = (op, g)"
  if "op = OpAppend \<longrightarrow> \<not> starts_with g (lit ''+:'') \<and> \<not> starts_with g (lit ''-:'')"
  using that by (cases op) (auto simp: parsePrefix_def toRawKey_def starts_with_def)

lemma toRawKey_parse: "toRawKey (fst (parsePrefix k)) (snd (parsePrefix k)) = k"
  by (auto simp: parsePrefix_def toRawKey_def starts_with_iff)

section \<open>What is saved is what is shown\<close>

text \<open>A rule the text can hold: its names are not blank, not inherited, not array indices, and an appended group does
  not carry a prefix itself.\<close>

definition raw_key :: "special_rule \<Rightarrow> jstring" where
  "raw_key r = toRawKey (s_op r) (s_targetGroup r)"

definition rule_ok :: "special_rule \<Rightarrow> bool" where
  "rule_ok r \<longleftrightarrow>
     s_userGroup r \<noteq> [] \<and> s_targetGroup r \<noteq> [] \<and> \<not> inherited (s_userGroup r) \<and> raw_key r \<noteq> lit ''__proto__'' \<and>
     key_ok (s_userGroup r) \<and> key_ok (raw_key r) \<and> unit_str (s_description r) \<and>
     (s_op r = OpAppend \<longrightarrow> \<not> starts_with (s_targetGroup r) (lit ''+:'') \<and> \<not> starts_with (s_targetGroup r) (lit ''-:'')) \<and>
     (s_op r = OpRemove \<longrightarrow> s_description r = lit ''remove'')"

definition rule_entry :: "special_rule \<Rightarrow> jstring \<times> jval" where
  "rule_entry r = (raw_key r, JStr (s_description r))"

definition section_obj :: "(jstring \<times> special_rule list) list \<Rightarrow> obj" where
  "section_obj secs = map (\<lambda>(g, rs). (g, JObj (map rule_entry rs))) secs"

definition erase_id :: "special_rule \<Rightarrow> special_rule" where
  "erase_id r = r\<lparr>s_id := []\<rparr>"

text \<open>The sections of a list of rules.\<close>

definition secs_ok :: "(jstring \<times> special_rule list) list \<Rightarrow> special_rule list \<Rightarrow> bool" where
  "secs_ok secs rules \<longleftrightarrow>
     distinct (map fst secs) \<and>
     list_all (\<lambda>(g, rs). rs \<noteq> [] \<and> rs = filter (\<lambda>r. s_userGroup r = g) rules) secs \<and>
     s_userGroup ` set rules \<subseteq> fst ` set secs"

lemma secs_push:
  assumes "secs_ok secs rules" and "s_userGroup r \<noteq> []"
  shows "secs_ok (group_push secs r) (rules @ [r])"
proof (cases "s_userGroup r \<in> fst ` set secs")
  case True
  let ?f = "\<lambda>(k, rs). if k = s_userGroup r then (k, rs @ [r]) else (k, rs)"
  let ?P = "\<lambda>rules (g, rs). rs \<noteq> [] \<and> rs = filter (\<lambda>r. s_userGroup r = g) rules"
  have keys: "map fst (map ?f secs) = map fst secs" by (induction secs) auto
  have "?P (rules @ [r]) (?f s)" if "?P rules s" for s using that by (cases s) auto
  then have "list_all (?P (rules @ [r])) (map ?f secs)"
    using assms(1) by (simp add: secs_ok_def list.pred_map list_all_iff)
  moreover have "distinct (map fst (map ?f secs))" using assms(1) unfolding keys secs_ok_def by simp
  moreover have "s_userGroup ` set (rules @ [r]) \<subseteq> fst ` set (map ?f secs)"
  proof -
    have "fst ` set (map ?f secs) = fst ` set secs" using keys by (metis list.set_map)
    with assms(1) True show ?thesis by (simp only: secs_ok_def) simp
  qed
  moreover have "group_push secs r = map ?f secs" using assms(2) True by (simp add: group_push_def)
  ultimately show ?thesis unfolding secs_ok_def by simp
next
  case False
  then have "filter (\<lambda>x. s_userGroup x = s_userGroup r) rules = []"
    using assms(1) by (metis (mono_tags, lifting) filter_False image_eqI secs_ok_def subset_iff)
  with assms False show ?thesis by (auto simp: secs_ok_def group_push_def list_all_iff)
qed

lemma secs_grouped: "list_all rule_ok rules \<Longrightarrow> secs_ok (foldl group_push [] rules) rules"
  by (induction rules rule: rev_induct) (simp_all add: secs_ok_def [of "[]"] secs_push rule_ok_def)

lemma map_of_section: "map_of (section_obj secs) g = map_option (\<lambda>rs. JObj (map rule_entry rs)) (map_of secs g)"
  by (induction secs) (auto simp: section_obj_def)

lemma nest_section:
  assumes "secs_ok secs rules" and "rule_ok r" and "raw_key r \<notin> raw_key ` {x \<in> set rules. s_userGroup x = s_userGroup r}"
  shows "nest_step (section_obj secs) r = section_obj (group_push secs r)"
proof -
  let ?g = "s_userGroup r" and ?e = "rule_entry r"
  have r: "?g \<noteq> []" "s_targetGroup r \<noteq> []" "\<not> inherited ?g" "raw_key r \<noteq> lit ''__proto__''" "index_key ?g = None" "index_key (raw_key r) = None"
    using assms(2) by (auto simp: rule_ok_def key_ok_def)
  show ?thesis
  proof (cases "map_of secs ?g")
    case None
    then have new: "?g \<notin> fst ` set secs" by (simp add: map_of_eq_None_iff)
    have falsy: "prop_falsy ?g (section_obj secs)" using r None by (simp add: prop_falsy_def map_of_section)
    have created: "assign ?g (JObj []) (section_obj secs) = section_obj secs @ [(?g, JObj [])]"
      using r None not_inherited_proto by (simp add: assign_put obj_put_def map_of_section)
    have found: "map_of (section_obj secs @ [(?g, JObj [])]) ?g = Some (JObj [])"
      using None by (simp add: map_of_section map_add_def)
    have inner: "assign (raw_key r) (JStr (s_description r)) [] = [?e]"
      using r by (simp add: assign_def obj_put_def rule_entry_def)
    have "(k, v) \<in> set (section_obj secs) \<Longrightarrow> k \<noteq> ?g" for k v using new by (force simp: section_obj_def)
    then have "map (\<lambda>(k', v'). if k' = ?g then (k', JObj [?e]) else (k', v')) (section_obj secs) = section_obj secs"
      by (intro map_idI) auto
    then have put: "obj_put ?g (JObj [?e]) (section_obj secs @ [(?g, JObj [])]) = section_obj secs @ [(?g, JObj [?e])]"
      using found by (simp add: obj_put_def)
    have "nest_step (section_obj secs) r = section_obj secs @ [(?g, JObj [?e])]"
      using r falsy created found inner put by (simp add: nest_step_def raw_key_def [symmetric])
    then show ?thesis using r new by (simp add: group_push_def section_obj_def)
  next
    case (Some rs)
    then have e: "(?g, rs) \<in> set secs" by (rule map_of_SomeD)
    then have mem: "?g \<in> fst ` set secs" by force
    have rs: "rs = filter (\<lambda>x. s_userGroup x = ?g) rules" using assms(1) e by (auto simp: secs_ok_def list_all_iff)
    have "map_of (map rule_entry rs) (raw_key r) = None"
      using assms(3) by (auto simp: rs map_of_eq_None_iff rule_entry_def)
    then have inner: "assign (raw_key r) (JStr (s_description r)) (map rule_entry rs) = map rule_entry (rs @ [r])"
      using r by (simp add: assign_def obj_put_def rule_entry_def)
    have "\<not> prop_falsy ?g (section_obj secs)" using Some by (simp add: prop_falsy_def map_of_section)
    then have "nest_step (section_obj secs) r = obj_put ?g (JObj (map rule_entry (rs @ [r]))) (section_obj secs)"
      using r Some by (simp add: nest_step_def map_of_section raw_key_def [symmetric] inner [simplified])
    also have "\<dots> = section_obj (map (\<lambda>(k, qs). if k = ?g then (k, qs @ [r]) else (k, qs)) secs)"
    proof -
      have d: "distinct (map fst secs)" using assms(1) by (simp add: secs_ok_def)
      have "(k, qs) \<in> set secs \<Longrightarrow> k = ?g \<Longrightarrow> qs = rs" for k qs
        using Some d by (metis map_of_eq_Some_iff option.inject)
      moreover have "map_of (section_obj secs) ?g \<noteq> None" using Some by (simp add: map_of_section)
      ultimately show ?thesis by (simp only: obj_put_def if_True not_False_eq_True) (auto simp: section_obj_def)
    qed
    finally show ?thesis using r mem by (simp add: group_push_def)
  qed
qed

lemma nest_sections:
  assumes "list_all rule_ok rules" and "distinct (map (\<lambda>r. (s_userGroup r, raw_key r)) rules)"
  shows "nestRules rules = section_obj (foldl group_push [] rules)"
  using assms
proof (induction rules rule: rev_induct)
  case Nil
  then show ?case by (simp add: nestRules_def section_obj_def)
next
  case (snoc r rules)
  have "nest_step (section_obj (foldl group_push [] rules)) r = section_obj (group_push (foldl group_push [] rules) r)"
    by (rule nest_section [OF secs_grouped]) (use snoc.prems in \<open>auto simp: image_iff\<close>)
  with snoc show ?case by (simp add: nestRules_def)
qed

lemma flatten_section:
  assumes "list_all (\<lambda>(g, rs). list_all (\<lambda>r. rule_ok r \<and> s_userGroup r = g) rs) secs"
  shows "map erase_id (fst (flatten_entries (section_obj secs) n)) = map erase_id (concat (map snd secs))"
  using assms
proof (induction secs arbitrary: n)
  case Nil
  then show ?case by (simp add: section_obj_def)
next
  case (Cons s secs)
  obtain g rs where s: "s = (g, rs)" by force
  have one: "erase_id (rule_of g i (rule_entry r)) = erase_id r" if "rule_ok r" "s_userGroup r = g" for i r
    using that by (auto simp: rule_of_def rule_entry_def raw_key_def erase_id_def parse_toRawKey rule_ok_def)
  have "map erase_id (map (\<lambda>(i, e). rule_of g (n + i) e) (enumerate k (map rule_entry rs))) = map erase_id rs" for k
  proof -
    have "list_all (\<lambda>r. rule_ok r \<and> s_userGroup r = g) rs" using Cons.prems by (simp add: s)
    then show ?thesis by (induction rs arbitrary: k) (simp_all add: one)
  qed
  moreover obtain x m where "flatten_entries (section_obj secs) (n + length rs) = (x, m)" by force
  ultimately show ?case
    using Cons.IH [of "n + length rs"] Cons.prems by (simp add: s section_obj_def inner_entries_def case_prod_beta)
qed

lemma set_group_push: "concat (map snd secs) = xs \<Longrightarrow> mset (concat (map snd (group_push secs r))) = mset xs + (if s_userGroup r = [] then {#} else {#r#})"
  if "distinct (map fst secs)" for xs
proof -
  have "mset (concat (map snd (map (\<lambda>(k, rs). if k = g then (k, rs @ [r]) else (k, rs)) ss))) =
      mset (concat (map snd ss)) + (if g \<in> fst ` set ss then {#r#} else {#})"
    if "distinct (map fst ss)" for g and ss :: "(jstring \<times> special_rule list) list"
    using that by (induction ss) (auto simp: image_iff)
  then show "concat (map snd secs) = xs \<Longrightarrow> ?thesis" using that by (auto simp: group_push_def)
qed

lemma mset_grouped: "list_all rule_ok rules \<Longrightarrow> mset (concat (map snd (foldl group_push [] rules))) = mset rules"
proof (induction rules rule: rev_induct)
  case (snoc r rules)
  then have "secs_ok (foldl group_push [] rules) rules" by (simp add: secs_grouped)
  then show ?case using snoc set_group_push [of "foldl group_push [] rules", OF _ refl] by (simp add: secs_ok_def rule_ok_def)
qed simp

lemma section_json:
  assumes "list_all rule_ok rules" and "distinct (map (\<lambda>r. (s_userGroup r, raw_key r)) rules)"
  shows "json_ok (JObj (nestRules rules))"
  using assms
proof (induction rules rule: rev_induct)
  case Nil
  then show ?case by (simp add: nestRules_def obj_build_def)
next
  case (snoc r rules)
  let ?m = "nestRules rules" and ?g = "s_userGroup r"
  have m: "json_ok (JObj ?m)" using snoc by simp
  have ok: "key_ok ?g" "key_ok (raw_key r)" "unit_str (s_description r)" "\<not> inherited ?g" "raw_key r \<noteq> lit ''__proto__''"
    using snoc.prems by (auto simp: rule_ok_def)
  have "json_ok (JObj (assign ?g (JObj []) ?m))"
    using m ok(1,4) not_inherited_proto by (simp add: assign_put json_ok_put del: json_ok.simps)
  then have m1: "json_ok (JObj (if prop_falsy ?g ?m then assign ?g (JObj []) ?m else ?m))" using m by simp
  have inner: "json_ok (JObj (assign (raw_key r) (JStr (s_description r)) inner))" if "json_ok (JObj inner)" for inner
    using json_ok_put [OF that ok(2), of "JStr (s_description r)"] ok(3,5) by (simp add: assign_put)
  let ?m1 = "if prop_falsy ?g ?m then assign ?g (JObj []) ?m else ?m"
  have step: "nest_step ?m r = ?m1 \<or> nest_step ?m r = ?m \<or>
      (\<exists>inner. map_of ?m1 ?g = Some (JObj inner) \<and>
         nest_step ?m r = obj_put ?g (JObj (assign (raw_key r) (JStr (s_description r)) inner)) ?m1)"
    by (auto simp: nest_step_def Let_def raw_key_def [symmetric] split: option.split jval.split)
  have "json_ok (JObj (nest_step ?m r))"
    using step
  proof (elim disjE exE conjE)
    fix inner' assume e: "map_of ?m1 ?g = Some (JObj inner')"
    assume "nest_step ?m r = obj_put ?g (JObj (assign (raw_key r) (JStr (s_description r)) inner')) ?m1"
    with json_ok_put [OF m1 ok(1) inner [OF json_ok_lookup [OF m1 e]]] show ?thesis by simp
  qed (use m m1 in simp_all)
  then show ?case by (simp add: nestRules_def)
qed

lemma pretty_object_hd: "\<exists>t. json_pretty (JObj ps) = 123 # t"
  by (simp add: json_pretty_def Let_def)

lemma read_back:
  assumes "json_ok (JObj ps)"
  shows "safeParseJson (json_pretty (JObj ps)) = JObj ps"
proof -
  have p: "json_parse (json_pretty (JObj ps)) = Some (JObj ps)" by (rule json_pp.dec_enc [OF assms])
  obtain t where t: "json_pretty (JObj ps) = 123 # t" using pretty_object_hd by blast
  then have "trim (json_pretty (JObj ps)) \<noteq> []" by (simp add: trim_eq_Nil_iff is_ws_def)
  with p t show ?thesis by (simp add: safeParseJson_def)
qed

text \<open>C25: The saved text holds exactly the rules the sections show: reading it again gives the rules section by section,
  none lost and none added, whenever no two rules of a user group have the same prefixed name.\<close>

theorem special_rules_saved:
  assumes "list_all rule_ok rules" and "distinct (map (\<lambda>r. (s_userGroup r, raw_key r)) rules)"
  shows "\<exists>secs loaded m. grouped rules = Some secs \<and>
      flattenRules (safeParseJson (serializeRules rules)) n = Some (loaded, m) \<and>
      map erase_id loaded = map erase_id (concat (map snd secs)) \<and>
      mset (map erase_id loaded) = mset (map erase_id rules)"
proof -
  let ?secs = "foldl group_push [] rules"
  have g: "grouped rules = Some ?secs" using assms(1) by (auto simp: grouped_def list_all_iff list_ex_iff rule_ok_def)
  have "serializeRules rules = json_pretty (JObj (nestRules rules))"
    by (auto simp: serializeRules_def json_pretty_def Let_def)
  then have read: "safeParseJson (serializeRules rules) = JObj (section_obj ?secs)"
    using read_back [OF section_json [OF assms]] nest_sections [OF assms] by simp
  obtain loaded m where l: "flatten_entries (section_obj ?secs) n = (loaded, m)" by force
  have "list_all (\<lambda>(g, rs). list_all (\<lambda>r. rule_ok r \<and> s_userGroup r = g) rs) ?secs"
    using secs_grouped [OF assms(1)] assms(1) by (auto simp: secs_ok_def list_all_iff)
  from flatten_section [OF this, of n] have e: "map erase_id loaded = map erase_id (concat (map snd ?secs))" by (simp add: l)
  have ms: "mset (map erase_id loaded) = mset (map erase_id rules)"
    unfolding e by (simp only: mset_map mset_grouped [OF assms(1)])
  have f: "flattenRules (safeParseJson (serializeRules rules)) n = Some (loaded, m)"
    by (simp add: read flattenRules_def entries_def l)
  show ?thesis by (intro exI conjI) (rule g, rule f, rule e, rule ms)
qed

definition sample_special :: "special_rule list" where
  "sample_special =
     [\<lparr>s_id = uid 0, s_userGroup = lit ''vip'', s_op = OpAdd, s_targetGroup = lit ''fast'', s_description = lit ''Fast lane''\<rparr>,
      \<lparr>s_id = uid 1, s_userGroup = lit ''free'', s_op = OpRemove, s_targetGroup = lit ''default'', s_description = lit ''remove''\<rparr>,
      \<lparr>s_id = uid 2, s_userGroup = lit ''vip'', s_op = OpAppend, s_targetGroup = lit ''beta'', s_description = []\<rparr>]"

theorem special_rules_saved_witness:
  "\<exists>secs loaded m. grouped sample_special = Some secs \<and>
      flattenRules (safeParseJson (serializeRules sample_special)) 3 = Some (loaded, m) \<and>
      map erase_id loaded = map erase_id (concat (map snd secs)) \<and>
      mset (map erase_id loaded) = mset (map erase_id sample_special)"
proof (rule special_rules_saved)
  show "list_all rule_ok sample_special" by code_simp
  show "distinct (map (\<lambda>r. (s_userGroup r, raw_key r)) sample_special)" by code_simp
qed

text \<open>A rule of a user group named like an inherited function is dropped from the text, and the sections cannot be built.\<close>

lemma inherited_group_dropped:
  "serializeRules [\<lparr>s_id = uid 0, s_userGroup = lit ''constructor'', s_op = OpAdd, s_targetGroup = lit ''a'', s_description = []\<rparr>] = lit ''{}''"
  "grouped [\<lparr>s_id = uid 0, s_userGroup = lit ''constructor'', s_op = OpAdd, s_targetGroup = lit ''a'', s_description = []\<rparr>] = None"
  by code_simp+

text \<open>An appended group whose name starts with a prefix is read back as another kind of rule.\<close>

lemma prefixed_append_changes:
  "map_option (map s_op \<circ> fst) (flattenRules (safeParseJson (serializeRules
      [\<lparr>s_id = uid 0, s_userGroup = lit ''vip'', s_op = OpAppend, s_targetGroup = lit ''-:x'', s_description = []\<rparr>])) 1)
   = Some [OpRemove]"
  by code_simp

section \<open>The invariant of the editor\<close>

interpretation special_ids: id_supply uid
  by unfold_locales (simp add: uid_def)

definition special_inv :: "special_editor \<Rightarrow> bool" where
  "special_inv st \<longleftrightarrow>
     distinct (map s_id (e_rules st)) \<and> set (map s_id (e_rules st)) \<subseteq> special_ids.issued (e_counter st) \<and>
     list_all (\<lambda>r. s_op r = OpRemove \<longrightarrow> s_description r = lit ''remove'') (e_rules st)"

lemma rule_of_simps [simp]: "s_id (rule_of g n e) = uid n" "s_op (rule_of g n e) = OpRemove \<longrightarrow> s_description (rule_of g n e) = lit ''remove''"
  by (simp_all add: rule_of_def case_prod_beta)

lemma flatten_fresh: "flatten_entries es n = (rules, m) \<Longrightarrow> special_ids.fresh_keys (map s_id rules) n m"
proof (induction es n arbitrary: rules m rule: flatten_entries.induct)
  case (2 g inner rest n)
  let ?es = "inner_entries inner"
  obtain rs m' where f: "flatten_entries rest (n + length ?es) = (rs, m')" by force
  have rs: "flatten_entries rest (n + length ?es) = (rs, m)"
      "rules = map (\<lambda>(i, e). rule_of g (n + i) e) (enumerate 0 ?es) @ rs"
    using "2.prems" by (simp_all add: f)
  have a: "map s_id (map (\<lambda>(i, e). rule_of g (n + i) e) (enumerate 0 ?es)) = map (\<lambda>(i, e). uid (n + i)) (enumerate 0 ?es)"
    by (simp add: case_prod_beta comp_def)
  have "special_ids.fresh_keys (map s_id rs) (n + length ?es) m" by (rule "2.IH" [OF refl rs(1)])
  then show ?case unfolding rs(2) map_append a by (rule special_ids.fresh_append [OF special_ids.fresh_block])
qed simp

lemma flatten_remove: "list_all (\<lambda>r. s_op r = OpRemove \<longrightarrow> s_description r = lit ''remove'') (fst (flatten_entries es n))"
  by (induction es n rule: flatten_entries.induct) (auto simp: list_all_iff case_prod_beta Let_def)

lemma special_inv_open: "open_special v n = Some st \<Longrightarrow> special_inv st"
proof -
  assume "open_special v n = Some st"
  then obtain es rules m where f: "flatten_entries es n = (rules, m)" "e_rules st = rules" "e_counter st = m"
    by (auto simp: open_special_def flattenRules_def)
  then show ?thesis
    using flatten_fresh [OF f(1)] special_ids.fresh_issued flatten_remove [of es n] unfolding special_inv_def special_ids.fresh_keys_def
    by (auto simp: special_ids.issued_def)
qed

lemma patch_rule_simps [simp]: "s_id (patch_rule p r) = s_id r"
  by (cases p) (auto simp: patch_rule_def)

lemma special_inv_update:
  assumes "special_inv st" and "special_event_ok st (SUpdate i p)"
  shows "special_inv (updateRule i p st)"
proof -
  have ids: "map s_id (map (\<lambda>r. if s_id r = i then patch_rule p r else r) (e_rules st)) = map s_id (e_rules st)" by simp
  have "s_op (patch_rule p r) = OpRemove \<longrightarrow> s_description (patch_rule p r) = lit ''remove''"
    if "r \<in> set (e_rules st)" "s_id r = i" for r
    using assms that by (cases p) (auto simp: patch_rule_def special_event_ok_def list_all_iff special_inv_def)
  then have "list_all (\<lambda>r. s_op r = OpRemove \<longrightarrow> s_description r = lit ''remove'')
      (map (\<lambda>r. if s_id r = i then patch_rule p r else r) (e_rules st))"
    using assms(1) by (auto simp: list_all_iff special_inv_def)
  moreover have "e_rules (updateRule i p st) = map (\<lambda>r. if s_id r = i then patch_rule p r else r) (e_rules st)"
      "e_counter (updateRule i p st) = e_counter st"
    by (simp_all add: updateRule_def emitChange_def)
  ultimately show ?thesis using assms(1) unfolding special_inv_def by (simp only: ids)
qed

lemma special_inv_filter: "special_inv st \<Longrightarrow> special_inv (emitChange (filter P (e_rules st)) st)"
  by (auto simp: special_inv_def emitChange_def list_all_iff distinct_map_filter)

lemma special_inv_add: "special_inv st \<Longrightarrow> special_inv (addRuleToGroup g st)"
  using special_ids.issued_mono [of "e_counter st" "e_counter st + 1"] special_ids.not_issued [of "e_counter st"]
  by (auto simp: special_inv_def addRuleToGroup_def emitChange_def new_rule_def special_ids.issued_def)

lemma special_inv_reach: "special_reachable st \<Longrightarrow> special_inv st"
proof (induction rule: special_reachable.induct)
  case (init v n st)
  then show ?case by (rule special_inv_open)
next
  case (step st ev)
  then show ?case
  proof (cases ev)
    case SAddGroup
    with step special_inv_add [of st "trim (e_newGroup st)"] show ?thesis
      by (simp add: addNewGroup_def addRuleToGroup_def Let_def) (simp add: special_inv_def)
  qed (simp_all add: special_inv_update removeRule_def removeGroup_def special_inv_filter special_inv_add, simp add: special_inv_def)
qed

end
