(* ===== verification/Channel_Drawer.thy ===== *)
theory Channel_Drawer
  imports Channel_Utils Model_Mapping
begin

text \<open>
  The drawer that creates and edits a channel,
  \<^verbatim>\<open>features/channels/components/drawers/channel-mutate-drawer.tsx\<close>: the values it derives from the form and
  the loaded data, its effects, the handlers of the model list and of the key, and the submit handler with its two
  confirmation dialogs as a continuation that waits for the answer. The hook of
  \<^verbatim>\<open>hooks/use-hidden-click-unlock.ts\<close> is part of the state.

  The component stays mounted; \<^verbatim>\<open>open\<close> and \<^verbatim>\<open>currentRow\<close> come from the provider
  (\<^verbatim>\<open>channels-dialogs.tsx\<close>). Answers of the server arrive as events. Dialogs and the drawer are modal.
  Not modelled: the layout, the timer of the warning about a base URL that ends with \<^verbatim>\<open>/v1\<close>, the format of
  times, and the dialogs that have components of their own.
\<close>

section \<open>Values derived from the form and the loaded data\<close>

record guardrail =
  g_invalidJson :: bool
  g_entries :: "(jstring \<times> jstring) list"
  g_missingSourceModels :: "jstring list"
  g_exposedTargetModels :: "jstring list"

definition createEmptyModelMappingGuardrail :: guardrail where
  "createEmptyModelMappingGuardrail =
     \<lparr>g_invalidJson = False, g_entries = [], g_missingSourceModels = [], g_exposedTargetModels = []\<rparr>"

definition formatModelNames :: "jstring list \<Rightarrow> jstring" where
  "formatModelNames models = join (lit '', '') (map (\<lambda>m. [34] @ m @ [34]) models)"

definition MODEL_MAPPING_PREVIEW_FALLBACK :: "(jstring \<times> jstring) list" where
  "MODEL_MAPPING_PREVIEW_FALLBACK = [(lit ''client-model'', lit ''upstream-model'')]"

definition readAdvancedSettingsPreference :: "jstring option \<Rightarrow> bool" where
  "readAdvancedSettingsPreference stored \<longleftrightarrow> stored = Some (lit ''true'')"

definition hasAdvancedSettingsValues :: "obj \<Rightarrow> bool" where
  "hasAdvancedSettingsValues values \<longleftrightarrow>
     list_ex (\<lambda>k. otrim (get values k) \<noteq> [])
       [''model_mapping'', ''param_override'', ''header_override'', ''status_code_mapping'', ''tag'', ''remark'',
        ''proxy'', ''system_prompt'', ''upstream_model_update_ignored_models''] \<or>
     list_ex (\<lambda>k. truthy (get values k))
       [''priority'', ''weight'', ''force_format'', ''thinking_to_content'', ''pass_through_body_enabled'',
        ''system_prompt_override'', ''claude_beta_query'', ''upstream_model_update_check_enabled'',
        ''upstream_model_update_auto_sync_enabled'']"

definition parseSettingsRecord :: "jstring \<Rightarrow> obj" where
  "parseSettingsRecord settings =
     (if trim settings = [] then []
      else case json_object settings of Some ps \<Rightarrow> ps | None \<Rightarrow> [])"

definition mapping_pair :: "jstring \<times> jval \<Rightarrow> jstring \<times> jstring" where
  "mapping_pair e = (trim (fst e), trim (if nullish (snd e) then [] else str_of (snd e)))"

definition modelMappingGuardrail :: "jstring \<Rightarrow> jstring list \<Rightarrow> guardrail" where
  "modelMappingGuardrail mapping models =
     (if trim mapping = [] then createEmptyModelMappingGuardrail
      else case json_object mapping of
        None \<Rightarrow> createEmptyModelMappingGuardrail\<lparr>g_invalidJson := True\<rparr>
      | Some parsed \<Rightarrow>
          (let entries = filter (\<lambda>(source, target). source \<noteq> [] \<and> target \<noteq> []) (map mapping_pair parsed) in
           \<lparr>g_invalidJson = False, g_entries = entries,
            g_missingSourceModels = uniq (filter (\<lambda>m. m \<notin> set models) (map fst entries)),
            g_exposedTargetModels = uniq (filter (\<lambda>m. m \<in> set models) (map snd entries))\<rparr>))"

definition mappingPreviewPairs :: "guardrail \<Rightarrow> (jstring \<times> jstring) list" where
  "mappingPreviewPairs g = (if g_entries g \<noteq> [] then take 3 (g_entries g) else MODEL_MAPPING_PREVIEW_FALLBACK)"

definition remainingMappingCount :: "guardrail \<Rightarrow> nat" where
  "remainingMappingCount g = (if 3 < length (g_entries g) then length (g_entries g) - 3 else 0)"

definition detectedModels :: "jstring \<Rightarrow> jstring list" where
  "detectedModels settings =
     (case get (parseSettingsRecord settings) ''upstream_model_update_last_detected_models'' of
        JArr vs \<Rightarrow> uniq (filter (\<lambda>m. m \<noteq> []) (map (\<lambda>v. trim (str_of (jor v (JStr [])))) vs))
      | _ \<Rightarrow> [])"

definition upstreamDetectedModelsPreview :: "jstring \<Rightarrow> jstring list" where
  "upstreamDetectedModelsPreview settings = take 8 (detectedModels settings)"

definition upstreamDetectedModelsOmittedCount :: "jstring \<Rightarrow> nat" where
  "upstreamDetectedModelsOmittedCount settings =
     length (detectedModels settings) - length (upstreamDetectedModelsPreview settings)"

definition basicModels :: "jval \<Rightarrow> jstring list \<Rightarrow> jstring list" where
  "basicModels ty models =
     (if models = [] then []
      else if ty = JNum (Fin 1) then filter (\<lambda>m. starts_with m (lit ''gpt-'') \<or> starts_with m (lit ''text-'')) models
      else models)"

definition groupOptions :: "jstring list option \<Rightarrow> jstring list \<Rightarrow> jstring list" where
  "groupOptions groups current = (case groups of None \<Rightarrow> [] | Some gs \<Rightarrow> uniq (gs @ current))"

definition modelOptions :: "jstring list \<Rightarrow> jstring list \<Rightarrow> jstring list" where
  "modelOptions models current = uniq (models @ current)"

definition channelTypeOptions :: "jsnum \<Rightarrow> (jstring \<times> jstring) list" where
  "channelTypeOptions ty =
     map (\<lambda>(v, l). (nat_str v, lit l)) CHANNEL_TYPE_OPTIONS @
     (if list_ex (\<lambda>(v, _). jeq (Fin (of_nat v)) ty) CHANNEL_TYPE_OPTIONS then []
      else [(num_str ty, lit ''#'' @ num_str ty)])"

definition currentTypeLabel :: "jsnum \<Rightarrow> jstring" where
  "currentTypeLabel ty =
     (case List.find (\<lambda>(v, _). jeq (Fin (of_nat v)) ty) CHANNEL_TYPE_OPTIONS of
        Some (_, l) \<Rightarrow> if l \<noteq> [] then lit l else lit ''#'' @ num_str ty
      | None \<Rightarrow> lit ''#'' @ num_str ty)"

section \<open>The state\<close>

datatype notice =
    KeysFirst | NoDuplicates | RemovedDuplicates int nat nat | KeyUnlocked | KeyFailed jstring
  | CredentialRefreshed | RefreshFailed jstring | TypeNotFetchable | ApiKeyFirst | NoRelatedModels | FilledRelated nat
  | NoModels | FilledModels nat | ClearedModels | NothingToCopy | AddedFromGroup nat jstring | GroupItemsInvalid
  | KeyFieldRequired | InvalidCodes "jstring list" | MappingInvalid string | UploadFirst | UploadUnreadable jstring
  | UploadParsed nat | Saved bool | SaveFailed | DoubaoUnlocked

text \<open>A submission: what was submitted, where it waits, and the stored values its checks compared with. The answers of the
  user are recorded with the submission they belong to.\<close>

datatype wait_stage = AwaitRisk | AwaitMissing "jstring list" | Sending

record submission =
  sub_id :: nat
  sub_data :: obj
  sub_stage :: wait_stage
  sub_checks :: drawer

datatype user_answer = Confirmed "jstring list" | Missing missing_action "jstring list"

text \<open>A request that was sent, with the form as submitted and as sent.\<close>

record sent =
  sent_id :: nat
  sent_data :: obj
  sent_final :: obj
  sent_drawer :: drawer
  sent_request :: "mutation option"

record channel_drawer =
  d_open :: bool
  d_row :: "jval option"
  d_data :: "obj option"
  d_form :: obj
  d_advanced :: bool
  d_pref :: "jstring option"
  d_initialModels :: "jstring list"
  d_initialMapping :: jstring
  d_initialStatus :: jstring
  d_models :: "jstring list"
  d_key :: "jstring option"
  d_keyLoading :: bool
  d_keyFetches :: "jval list"
  d_refreshing :: bool
  d_refreshed :: "jval list"
  d_fetchOpen :: bool
  d_codexOpen :: bool
  d_paramOpen :: bool
  d_riskOpen :: bool
  d_riskItems :: "jstring list"
  d_riskResolve :: "nat option"
  d_missingOpen :: bool
  d_missingList :: "jstring list"
  d_missingResolve :: "nat option"
  d_subs :: "submission list"
  d_next :: nat
  d_sent :: "sent list"
  d_answers :: "(nat \<times> user_answer) list"
  d_clipboard :: jstring
  d_clicks :: nat
  d_unlocked :: bool
  d_notes :: "notice list"

abbreviation tell :: "notice \<Rightarrow> channel_drawer \<Rightarrow> channel_drawer" where
  "tell n st \<equiv> st\<lparr>d_notes := n # d_notes st\<rparr>"

definition editing :: "channel_drawer \<Rightarrow> bool" where
  "editing st \<longleftrightarrow> d_row st \<noteq> None"

definition multiKey :: "channel_drawer \<Rightarrow> bool" where
  "multiKey st \<longleftrightarrow>
     editing st \<and> (case d_data st of Some ch \<Rightarrow> jprop (lit ''is_multi_key'') (get ch ''channel_info'') = JBool True | None \<Rightarrow> False)"

definition isBatchMode :: "channel_drawer \<Rightarrow> bool" where
  "isBatchMode st \<longleftrightarrow> get (d_form st) ''multi_key_mode'' \<in> {jstr_lit ''batch'', jstr_lit ''multi_to_single''}"

definition currentModelsArray :: "channel_drawer \<Rightarrow> jstring list" where
  "currentModelsArray st = parseModelsString (text_field (d_form st) ''models'')"

definition allModelsList :: "channel_drawer \<Rightarrow> jstring list" where
  "allModelsList st = filter (\<lambda>m. m \<noteq> []) (d_models st)"

definition set_field :: "string \<Rightarrow> jval \<Rightarrow> channel_drawer \<Rightarrow> channel_drawer" where
  "set_field k v st = st\<lparr>d_form := obj_put (lit k) v (d_form st)\<rparr>"

section \<open>Effects\<close>

text \<open>A dependency list is compared before and after an event.\<close>

definition key_effect :: "channel_drawer \<Rightarrow> channel_drawer \<Rightarrow> channel_drawer" where
  "key_effect old st =
     (if d_open st = d_open old \<and> d_row st = d_row old then st
      else if \<not> d_open st then st\<lparr>d_key := None, d_keyLoading := False\<rparr>
      else if (case d_row st of Some i \<Rightarrow> truthy i | None \<Rightarrow> False) then st\<lparr>d_key := None\<rparr>
      else st)"

definition unlock_effect :: "channel_drawer \<Rightarrow> channel_drawer \<Rightarrow> channel_drawer" where
  "unlock_effect old st = (if d_open st = d_open old \<or> d_open st then st else st\<lparr>d_clicks := 0, d_unlocked := False\<rparr>)"

definition text_or :: "jval \<Rightarrow> jstring" where
  "text_or v = (case jor v (JStr []) of JStr s \<Rightarrow> s | _ \<Rightarrow> [])"

definition load_form :: "channel_drawer \<Rightarrow> channel_drawer" where
  "load_form st =
     (if editing st then
        (case d_data st of
           None \<Rightarrow> st
         | Some ch \<Rightarrow>
             (let defaults = transformChannelToFormDefaults ch in
              st\<lparr>d_form := defaults,
                 d_advanced := (readAdvancedSettingsPreference (d_pref st) \<or> hasAdvancedSettingsValues defaults),
                 d_initialModels := parseModelsString (text_or (get ch ''models'')),
                 d_initialMapping := text_or (get ch ''model_mapping''),
                 d_initialStatus := text_or (get ch ''status_code_mapping'')\<rparr>))
      else st\<lparr>d_form := CHANNEL_FORM_DEFAULT_VALUES, d_advanced := False, d_initialModels := [], d_initialMapping := [],
              d_initialStatus := []\<rparr>)"

definition load_effect :: "channel_drawer \<Rightarrow> channel_drawer \<Rightarrow> channel_drawer" where
  "load_effect old st = (if editing st = editing old \<and> d_data st = d_data old then st else load_form st)"

text \<open>The last effect runs with the type the drawer was rendered with, which the load effect of the same turn may already
  have reset in the form; the new type then has its own turn.\<close>

definition run_type :: "jval \<Rightarrow> channel_drawer \<Rightarrow> channel_drawer" where
  "run_type ty st =
     (if editing st then st
      else if ty = JNum (Fin 45) then
        (if truthy (get (d_form st) ''base_url'') then st
         else set_field ''base_url'' (jstr_lit ''https://ark.cn-beijing.volces.com'') st)
      else if ty = JNum (Fin 18) then
        (if truthy (get (d_form st) ''other'') then st else set_field ''other'' (jstr_lit ''v2.1'') st)
      else st)"

definition form_type :: "channel_drawer \<Rightarrow> jval" where
  "form_type st = get (d_form st) ''type''"

definition type_effect :: "channel_drawer \<Rightarrow> channel_drawer \<Rightarrow> channel_drawer \<Rightarrow> channel_drawer" where
  "type_effect old rendered st =
     (let s1 = (if form_type rendered = form_type old \<and> editing rendered = editing old then st
                else run_type (form_type rendered) st) in
      if form_type s1 = form_type rendered then s1 else run_type (form_type s1) s1)"

definition effects :: "channel_drawer \<Rightarrow> channel_drawer \<Rightarrow> channel_drawer" where
  "effects old st = type_effect old st (load_effect old (unlock_effect old (key_effect old st)))"

section \<open>The key\<close>

definition handleDeduplicateKeys :: "channel_drawer \<Rightarrow> channel_drawer" where
  "handleDeduplicateKeys st =
     (let currentKey = text_field (d_form st) ''key'' in
      if trim currentKey = [] then tell KeysFirst st
      else let r = deduplicateKeys currentKey in
        if removedCount r = 0 then tell NoDuplicates st
        else tell (RemovedDuplicates (removedCount r) (beforeCount r) (afterCount r))
          (set_field ''key'' (JStr (deduplicatedText r)) st))"

text \<open>\<open>fetchChannelKey\<close>, the call the verification protects: it starts for the channel of the drawer and its answer
  arrives later. \<open>None\<close> in the answer is a failure with a message.\<close>

definition fetchChannelKey :: "channel_drawer \<Rightarrow> channel_drawer" where
  "fetchChannelKey st =
     (case d_row st of
        Some i \<Rightarrow> if truthy i then st\<lparr>d_keyLoading := True, d_keyFetches := d_keyFetches st @ [i]\<rparr> else st
      | None \<Rightarrow> st)"

definition keyAnswered :: "nat \<Rightarrow> jstring + jstring \<Rightarrow> channel_drawer \<Rightarrow> channel_drawer" where
  "keyAnswered n answer st =
     (if n < length (d_keyFetches st) then
        (let s = st\<lparr>d_keyFetches := take n (d_keyFetches st) @ drop (Suc n) (d_keyFetches st), d_keyLoading := False\<rparr> in
         case answer of
           Inl message \<Rightarrow> tell (KeyFailed message) s
         | Inr key \<Rightarrow> tell KeyUnlocked (s\<lparr>d_key := Some key\<rparr>))
      else st)"

definition copyKey :: "channel_drawer \<Rightarrow> channel_drawer" where
  "copyKey st = (case d_key st of Some (c # s) \<Rightarrow> st\<lparr>d_clipboard := c # s\<rparr> | _ \<Rightarrow> st)"

definition refreshStarted :: "channel_drawer \<Rightarrow> channel_drawer" where
  "refreshStarted st = (if (case d_row st of Some i \<Rightarrow> truthy i | None \<Rightarrow> False) then st\<lparr>d_refreshing := True\<rparr> else st)"

definition refreshAnswered :: "jval \<Rightarrow> jstring + unit \<Rightarrow> channel_drawer \<Rightarrow> channel_drawer" where
  "refreshAnswered i answer st =
     (case answer of
        Inl message \<Rightarrow> tell (RefreshFailed message) (st\<lparr>d_refreshing := False\<rparr>)
      | Inr _ \<Rightarrow> tell CredentialRefreshed (st\<lparr>d_refreshing := False, d_refreshed := i # d_refreshed st\<rparr>))"

text \<open>Uploaded key files, as names and texts.\<close>

fun parse_files :: "(jstring \<times> jstring) list \<Rightarrow> jstring + jval list" where
  "parse_files [] = Inr []"
| "parse_files ((name, txt) # files) =
     (case json_parse txt of
        None \<Rightarrow> Inl name
      | Some v \<Rightarrow> (case parse_files files of Inl e \<Rightarrow> Inl e | Inr vs \<Rightarrow> Inr (v # vs)))"

definition uploadKeys :: "(jstring \<times> jstring) list \<Rightarrow> channel_drawer \<Rightarrow> channel_drawer" where
  "uploadKeys files st =
     (case parse_files files of
        Inl name \<Rightarrow> tell (UploadUnreadable name) st
      | Inr [] \<Rightarrow> tell UploadFirst st
      | Inr (k # ks) \<Rightarrow>
          tell (UploadParsed (length (k # ks)))
            (set_field ''key'' (JStr (if isBatchMode st then json_text (JArr (k # ks)) else json_text k)) st))"

section \<open>The list of models\<close>

definition updateModels :: "jstring list \<Rightarrow> bool \<Rightarrow> channel_drawer \<Rightarrow> channel_drawer" where
  "updateModels newModels mrg st =
     set_field ''models''
       (JStr (if mrg then formatModelsArray (currentModelsArray st @ newModels) else formatModelsArray newModels)) st"

definition fetchable :: "jval \<Rightarrow> bool" where
  "fetchable ty \<longleftrightarrow> ty \<in> set (map (\<lambda>n. JNum (Fin (of_nat n))) MODEL_FETCHABLE_TYPES)"

definition handleFetchModels :: "channel_drawer \<Rightarrow> channel_drawer" where
  "handleFetchModels st =
     (if \<not> fetchable (get (d_form st) ''type'') then tell TypeNotFetchable st
      else if \<not> editing st \<and> otrim (get (d_form st) ''key'') = [] then tell ApiKeyFirst st
      else st\<lparr>d_fetchOpen := True\<rparr>)"

text \<open>The request of the creation mode and what the dialog gets back.\<close>

definition createModeRequest :: "channel_drawer \<Rightarrow> obj" where
  "createModeRequest st =
     obj_lit [(''type'', get (d_form st) ''type''), (''key'', get (d_form st) ''key''),
              (''base_url'', jor (get (d_form st) ''base_url'') (JStr []))]"

definition createModeFetcher :: "(obj \<Rightarrow> bool \<times> jstring list option \<times> jstring) \<Rightarrow> channel_drawer \<Rightarrow> jstring + jstring list" where
  "createModeFetcher server st =
     (case server (createModeRequest st) of
        (True, Some models, _) \<Rightarrow> Inr models
      | (_, _, message) \<Rightarrow> Inl (if message = [] then lit ''No models fetched from upstream'' else message))"

definition handleFillRelatedModels :: "channel_drawer \<Rightarrow> channel_drawer" where
  "handleFillRelatedModels st =
     (let basic = basicModels (get (d_form st) ''type'') (allModelsList st) in
      if basic = [] then tell NoRelatedModels st
      else tell (FilledRelated (length basic)) (updateModels basic False st))"

definition handleFillAllModels :: "channel_drawer \<Rightarrow> channel_drawer" where
  "handleFillAllModels st =
     (if allModelsList st = [] then tell NoModels st
      else tell (FilledModels (length (allModelsList st))) (updateModels (allModelsList st) False st))"

definition handleClearModels :: "channel_drawer \<Rightarrow> channel_drawer" where
  "handleClearModels st = tell ClearedModels (set_field ''models'' (JStr []) st)"

definition handleCopyModels :: "channel_drawer \<Rightarrow> channel_drawer" where
  "handleCopyModels st =
     (let models = text_field (d_form st) ''models'' in
      if trim models = [] then tell NothingToCopy st else st\<lparr>d_clipboard := models\<rparr>)"

text \<open>The items of a preset group, a list or the JSON text of one. Items are strings; others stringify when joined.\<close>

definition handleAddPrefillGroup :: "jstring \<Rightarrow> jval \<Rightarrow> channel_drawer \<Rightarrow> channel_drawer" where
  "handleAddPrefillGroup name group_items st =
     (case (case group_items of JArr vs \<Rightarrow> Some (JArr vs) | v \<Rightarrow> json_parse (str_of v)) of
        Some (JArr vs) \<Rightarrow>
          (if list_all is_string vs
           then tell (AddedFromGroup (length vs) name) (updateModels (map str_of vs) True st)
           else tell (AddedFromGroup (length vs) name)
             (set_field ''models'' (JStr (join [44] (map (\<lambda>v. if nullish v then [] else str_of v) (uniq (map JStr (currentModelsArray st) @ vs))))) st))
      | _ \<Rightarrow> tell GroupItemsInvalid st)"

definition handleModelsChange :: "jstring list \<Rightarrow> channel_drawer \<Rightarrow> channel_drawer" where
  "handleModelsChange selected st = set_field ''models'' (JStr (join [44] selected)) st"

definition guardrail_of :: "channel_drawer \<Rightarrow> guardrail" where
  "guardrail_of st = modelMappingGuardrail (text_field (d_form st) ''model_mapping'') (currentModelsArray st)"

definition removeMappedTargets :: "channel_drawer \<Rightarrow> channel_drawer" where
  "removeMappedTargets st =
     updateModels (filter (\<lambda>m. m \<notin> set (g_exposedTargetModels (guardrail_of st))) (currentModelsArray st)) False st"

definition addMissingModels :: "channel_drawer \<Rightarrow> channel_drawer" where
  "addMissingModels st = updateModels (currentModelsArray st @ g_missingSourceModels (guardrail_of st)) False st"

definition modelsSelected :: "jstring list \<Rightarrow> channel_drawer \<Rightarrow> channel_drawer" where
  "modelsSelected models st = set_field ''models'' (JStr (formatModelsArray models)) st"

definition formatHeaderOverride :: "channel_drawer \<Rightarrow> channel_drawer" where
  "formatHeaderOverride st =
     (let s = text_field (d_form st) ''header_override'' in
      case json_parse (if s = [] then lit ''{}'' else s) of
        Some v \<Rightarrow> set_field ''header_override'' (JStr (json_pretty v)) st
      | None \<Rightarrow> st)"

definition changeType :: "jstring \<Rightarrow> channel_drawer \<Rightarrow> channel_drawer" where
  "changeType value st =
     (let nextType = js_Number value in
      if is_integer nextType \<and> jlt (Fin 0) nextType then set_field ''type'' (JNum nextType) st else st)"

section \<open>Submitting\<close>

text \<open>What the checks and the request read.\<close>

definition checks :: "channel_drawer \<Rightarrow> drawer" where
  "checks st =
     \<lparr>isEditing = editing st, currentRow_id = d_row st, isMultiKey = multiKey st, initialModels = d_initialModels st,
      initialModelMapping = d_initialMapping st, initialStatusCodeMapping = d_initialStatus st\<rparr>"

definition waiting_sub :: "nat \<Rightarrow> channel_drawer \<Rightarrow> submission option" where
  "waiting_sub i st = List.find (\<lambda>s. sub_id s = i) (d_subs st)"

definition drop_sub :: "nat \<Rightarrow> channel_drawer \<Rightarrow> channel_drawer" where
  "drop_sub i st = st\<lparr>d_subs := filter (\<lambda>s. sub_id s \<noteq> i) (d_subs st)\<rparr>"

definition put_sub :: "submission \<Rightarrow> channel_drawer \<Rightarrow> channel_drawer" where
  "put_sub s st = st\<lparr>d_subs := map (\<lambda>x. if sub_id x = sub_id s then s else x) (d_subs st)\<rparr>"

definition answered :: "nat \<Rightarrow> user_answer \<Rightarrow> channel_drawer \<Rightarrow> channel_drawer" where
  "answered i a st = st\<lparr>d_answers := (i, a) # d_answers st\<rparr>"

text \<open>\<open>channelMutation.mutateAsync(data)\<close>: building the request may throw, which the mutation reports as an error.\<close>

definition sent_checks :: "drawer \<Rightarrow> drawer \<Rightarrow> drawer" where
  "sent_checks d now =
     now\<lparr>initialModels := initialModels d, initialModelMapping := initialModelMapping d,
         initialStatusCodeMapping := initialStatusCodeMapping d\<rparr>"

definition send_request :: "submission \<Rightarrow> obj \<Rightarrow> channel_drawer \<Rightarrow> channel_drawer" where
  "send_request s fd st =
     (let req = mutation_request (checks st) fd;
          st1 = st\<lparr>d_sent := \<lparr>sent_id = sub_id s, sent_data = sub_data s, sent_final = fd,
                      sent_drawer = sent_checks (sub_checks s) (checks st), sent_request = req\<rparr> # d_sent st\<rparr> in
      if req = None then tell SaveFailed (drop_sub (sub_id s) st1) else put_sub (s\<lparr>sub_stage := Sending\<rparr>) st1)"

text \<open>The part of the handler after the status codes.\<close>

definition check_models :: "submission \<Rightarrow> channel_drawer \<Rightarrow> channel_drawer" where
  "check_models s0 st =
     (let s = s0\<lparr>sub_checks := (checks st)\<lparr>initialStatusCodeMapping := initialStatusCodeMapping (sub_checks s0)\<rparr>\<rparr>;
          fd = sub_data s; mapping = text_field fd ''model_mapping'' in
      if trim mapping = [] then send_request s fd st
      else case validateModelMappingJson mapping of
        Some e \<Rightarrow> tell (MappingInvalid e) (drop_sub (sub_id s) st)
      | None \<Rightarrow>
          (let models = parseModelsString (text_field fd ''models''); missing = findMissingModelsInMapping mapping models in
           if missing \<noteq> [] \<and> hasModelConfigChanged models mapping (d_initialModels st) (d_initialMapping st)
           then put_sub (s\<lparr>sub_stage := AwaitMissing missing\<rparr>)
             (st\<lparr>d_missingList := missing, d_missingOpen := True, d_missingResolve := Some (sub_id s)\<rparr>)
           else send_request s fd st))"

definition submit :: "obj \<Rightarrow> channel_drawer \<Rightarrow> channel_drawer" where
  "submit data st =
     (if \<not> editing st \<and> otrim (get data ''key'') = [] then tell KeyFieldRequired st
      else
        let s = \<lparr>sub_id = d_next st, sub_data = data, sub_stage = AwaitRisk, sub_checks = checks st\<rparr>;
            st1 = st\<lparr>d_subs := s # d_subs st, d_next := d_next st + 1\<rparr>;
            mapping = text_field data ''status_code_mapping'' in
        if trim mapping = [] then check_models s st1
        else let invalid = collectInvalidStatusCodeEntries mapping in
          if invalid \<noteq> [] then tell (InvalidCodes invalid) (drop_sub (sub_id s) st1)
          else let riskyRedirects = collectNewDisallowedStatusCodeRedirects (d_initialStatus st) mapping in
            if riskyRedirects \<noteq> []
            then st1\<lparr>d_riskResolve := Some (sub_id s), d_riskItems := riskyRedirects, d_riskOpen := True\<rparr>
            else check_models s st1)"

definition handleStatusCodeRiskAction :: "bool \<Rightarrow> channel_drawer \<Rightarrow> channel_drawer" where
  "handleStatusCodeRiskAction confirmed st =
     (let st1 = st\<lparr>d_riskOpen := False, d_riskItems := []\<rparr> in
      case d_riskResolve st of
        None \<Rightarrow> st1
      | Some i \<Rightarrow>
          (let st2 = st1\<lparr>d_riskResolve := None\<rparr> in
           case waiting_sub i st2 of
             None \<Rightarrow> st2
           | Some s \<Rightarrow> if confirmed then check_models s (answered i (Confirmed (d_riskItems st)) st2) else drop_sub i st2))"

definition resume_missing :: "missing_action \<Rightarrow> submission \<Rightarrow> jstring list \<Rightarrow> channel_drawer \<Rightarrow> channel_drawer" where
  "resume_missing action s missing st =
     (let st1 = answered (sub_id s) (Missing action missing) st in
      case action of
        Cancel \<Rightarrow> drop_sub (sub_id s) st1
      | Submit \<Rightarrow> send_request s (sub_data s) st1
      | Add \<Rightarrow>
          (let updated = uniq (parseModelsString (text_field (sub_data s) ''models'') @ missing);
               v = JStr (formatModelsArray updated) in
           send_request s (obj_put (lit ''models'') v (sub_data s)) (set_field ''models'' v st1)))"

definition handleMissingModelsAction :: "missing_action \<Rightarrow> channel_drawer \<Rightarrow> channel_drawer" where
  "handleMissingModelsAction action st =
     (let st1 = st\<lparr>d_missingOpen := False\<rparr> in
      case d_missingResolve st of
        None \<Rightarrow> st1
      | Some i \<Rightarrow>
          (let st2 = st1\<lparr>d_missingResolve := None\<rparr> in
           case waiting_sub i st2 of
             None \<Rightarrow> st2
           | Some s \<Rightarrow> (case sub_stage s of AwaitMissing missing \<Rightarrow> resume_missing action s missing st2 | _ \<Rightarrow> st2)))"

text \<open>The provider closes whatever dialog is open: its row goes back to nothing.\<close>

definition close_all :: "channel_drawer \<Rightarrow> channel_drawer" where
  "close_all st = st\<lparr>d_open := False, d_row := None, d_data := None\<rparr>"

definition handleSuccess :: "channel_drawer \<Rightarrow> channel_drawer" where
  "handleSuccess st = close_all st"

definition mutationAnswered :: "nat \<Rightarrow> bool \<Rightarrow> channel_drawer \<Rightarrow> channel_drawer" where
  "mutationAnswered i success st =
     (if list_ex (\<lambda>s. sub_id s = i \<and> sub_stage s = Sending) (d_subs st)
      then (if success then handleSuccess (tell (Saved (editing st)) (drop_sub i st)) else tell SaveFailed (drop_sub i st))
      else st)"

definition isSubmitting :: "channel_drawer \<Rightarrow> bool" where
  "isSubmitting st \<longleftrightarrow> list_ex (\<lambda>s. sub_stage s = Sending) (d_subs st)"

text \<open>Closing the sheet by hand resets the form.\<close>

definition handleOpenChange :: "bool \<Rightarrow> channel_drawer \<Rightarrow> channel_drawer" where
  "handleOpenChange v st =
     (if v then st
      else (close_all st)\<lparr>d_form := CHANNEL_FORM_DEFAULT_VALUES, d_advanced := False\<rparr>)"

definition handleAdvancedSettingsOpenChange :: "bool \<Rightarrow> channel_drawer \<Rightarrow> channel_drawer" where
  "handleAdvancedSettingsOpenChange nextOpen st =
     st\<lparr>d_advanced := nextOpen, d_pref := Some (if nextOpen then lit ''true'' else lit ''false'')\<rparr>"

text \<open>Ten clicks on a label unlock the address field of type 45.\<close>

definition handleClick :: "channel_drawer \<Rightarrow> channel_drawer" where
  "handleClick st =
     (if \<not> type_in [45] (d_form st) \<or> d_unlocked st then st
      else if 10 \<le> d_clicks st + 1 then tell DoubaoUnlocked (st\<lparr>d_clicks := 0, d_unlocked := True\<rparr>)
      else st\<lparr>d_clicks := d_clicks st + 1\<rparr>)"

section \<open>Events\<close>

datatype drawer_event =
    OpenCreate | OpenUpdate jval "obj option" | ChannelLoaded obj | ModelsLoaded "jstring list" | CloseSheet
  | SetField string jval | ChangeType jstring | Advanced bool | Click
  | Deduplicate | RevealKey | KeyAnswer nat "jstring + jstring" | CopyKey | RefreshCredential | RefreshAnswer jval "jstring + unit"
  | UploadKeys "(jstring \<times> jstring) list" | KeyGenerated jstring
  | FetchModels | FetchClosed | FillRelated | FillAll | ClearModels | CopyModels | AddPrefill jstring jval | ChooseModels "jstring list"
  | RemoveTargets | AddMissing | ModelsSelected "jstring list" | FormatHeaders
  | ParamOpen bool | ParamSaved jstring | CodexOpen bool
  | SubmitForm | RiskAnswer bool | MissingAnswer missing_action | MutationAnswer nat bool

text \<open>The channel a drawer is opened for comes with the data the query cache holds for it, if any.\<close>

fun drawer_handle :: "drawer_event \<Rightarrow> channel_drawer \<Rightarrow> channel_drawer" where
  "drawer_handle OpenCreate st = st\<lparr>d_open := True, d_row := None, d_data := None\<rparr>"
| "drawer_handle (OpenUpdate i cached) st = st\<lparr>d_open := True, d_row := Some i, d_data := cached\<rparr>"
| "drawer_handle (ChannelLoaded ch) st = (if editing st then st\<lparr>d_data := Some ch\<rparr> else st)"
| "drawer_handle (ModelsLoaded ms) st = st\<lparr>d_models := ms\<rparr>"
| "drawer_handle CloseSheet st = handleOpenChange False st"
| "drawer_handle (SetField k v) st = set_field k v st"
| "drawer_handle (ChangeType s) st = changeType s st"
| "drawer_handle (Advanced b) st = handleAdvancedSettingsOpenChange b st"
| "drawer_handle Click st = handleClick st"
| "drawer_handle Deduplicate st = handleDeduplicateKeys st"
| "drawer_handle RevealKey st = fetchChannelKey st"
| "drawer_handle (KeyAnswer n a) st = keyAnswered n a st"
| "drawer_handle CopyKey st = copyKey st"
| "drawer_handle RefreshCredential st = refreshStarted st"
| "drawer_handle (RefreshAnswer i a) st = refreshAnswered i a st"
| "drawer_handle (UploadKeys fs) st = uploadKeys fs st"
| "drawer_handle (KeyGenerated key) st = set_field ''key'' (JStr key) st"
| "drawer_handle FetchModels st = handleFetchModels st"
| "drawer_handle FetchClosed st = st\<lparr>d_fetchOpen := False\<rparr>"
| "drawer_handle FillRelated st = handleFillRelatedModels st"
| "drawer_handle FillAll st = handleFillAllModels st"
| "drawer_handle ClearModels st = handleClearModels st"
| "drawer_handle CopyModels st = handleCopyModels st"
| "drawer_handle (AddPrefill name items) st = handleAddPrefillGroup name items st"
| "drawer_handle (ChooseModels ms) st = handleModelsChange ms st"
| "drawer_handle RemoveTargets st = removeMappedTargets st"
| "drawer_handle AddMissing st = addMissingModels st"
| "drawer_handle (ModelsSelected ms) st = modelsSelected ms st"
| "drawer_handle FormatHeaders st = formatHeaderOverride st"
| "drawer_handle (ParamOpen b) st = st\<lparr>d_paramOpen := b\<rparr>"
| "drawer_handle (ParamSaved s) st = set_field ''param_override'' (JStr s) st"
| "drawer_handle (CodexOpen b) st = st\<lparr>d_codexOpen := b\<rparr>"
| "drawer_handle SubmitForm st = submit (d_form st) st"
| "drawer_handle (RiskAnswer b) st = handleStatusCodeRiskAction b st"
| "drawer_handle (MissingAnswer a) st = handleMissingModelsAction a st"
| "drawer_handle (MutationAnswer i b) st = mutationAnswered i b st"

definition drawer_step :: "drawer_event \<Rightarrow> channel_drawer \<Rightarrow> channel_drawer" where
  "drawer_step ev st = effects st (drawer_handle ev st)"

text \<open>
  When an event can happen. A confirmation is modal: while one is open only it is answered, and answers of the server and
  the loading of data arrive. The form is submitted by a button that is disabled while a request runs.
\<close>

definition prompting :: "channel_drawer \<Rightarrow> bool" where
  "prompting st \<longleftrightarrow> d_riskOpen st \<or> d_missingOpen st"

definition server_event :: "drawer_event \<Rightarrow> bool" where
  "server_event ev \<longleftrightarrow>
     (case ev of ChannelLoaded _ \<Rightarrow> True | ModelsLoaded _ \<Rightarrow> True | KeyAnswer _ _ \<Rightarrow> True | RefreshAnswer _ _ \<Rightarrow> True | MutationAnswer _ _ \<Rightarrow> True
      | _ \<Rightarrow> False)"

definition drawer_event_ok :: "channel_drawer \<Rightarrow> drawer_event \<Rightarrow> bool" where
  "drawer_event_ok st ev \<longleftrightarrow>
     (case ev of
        RiskAnswer _ \<Rightarrow> d_riskOpen st
      | MissingAnswer _ \<Rightarrow> d_missingOpen st
      | SubmitForm \<Rightarrow> d_open st \<and> \<not> prompting st \<and> \<not> isSubmitting st
      | OpenCreate \<Rightarrow> \<not> d_open st \<and> \<not> prompting st
      | OpenUpdate _ _ \<Rightarrow> \<not> d_open st \<and> \<not> prompting st
      | _ \<Rightarrow> server_event ev \<or> d_open st \<and> \<not> prompting st)"

definition initial_drawer :: channel_drawer where
  "initial_drawer =
     \<lparr>d_open = False, d_row = None, d_data = None, d_form = CHANNEL_FORM_DEFAULT_VALUES, d_advanced = False, d_pref = None,
      d_initialModels = [], d_initialMapping = [], d_initialStatus = [], d_models = [], d_key = None, d_keyLoading = False,
      d_keyFetches = [], d_refreshing = False, d_refreshed = [], d_fetchOpen = False, d_codexOpen = False, d_paramOpen = False,
      d_riskOpen = False, d_riskItems = [], d_riskResolve = None, d_missingOpen = False, d_missingList = [], d_missingResolve = None,
      d_subs = [], d_next = 0, d_sent = [], d_answers = [], d_clipboard = [], d_clicks = 0, d_unlocked = False, d_notes = []\<rparr>"

inductive drawer_reachable :: "channel_drawer \<Rightarrow> bool" where
  start: "drawer_reachable initial_drawer"
| step: "drawer_reachable st \<Longrightarrow> drawer_event_ok st ev \<Longrightarrow> drawer_reachable (drawer_step ev st)"

end
