(* ===== verification/Channel_Drawer_Props.thy ===== *)
theory Channel_Drawer_Props
  imports Channel_Drawer
begin

text \<open>
  Properties of the channel drawer: every request was checked and follows from the answers the user gave, every
  submission that waits can be answered, and what happens to the form when a drawer closes by itself.
\<close>

section \<open>The part of the state a submission depends on\<close>

text \<open>The answers of the user, as the arguments of the synchronous handler.\<close>

definition confirmed_by :: "(nat \<times> user_answer) list \<Rightarrow> nat \<Rightarrow> jstring list \<Rightarrow> bool" where
  "confirmed_by ans i new \<longleftrightarrow> (i, Confirmed new) \<in> set ans"

definition chosen_by :: "(nat \<times> user_answer) list \<Rightarrow> nat \<Rightarrow> jstring list \<Rightarrow> missing_action" where
  "chosen_by ans i m =
     (if (i, Missing Add m) \<in> set ans then Add else if (i, Missing Submit m) \<in> set ans then Submit else Cancel)"

definition good_sent :: "(nat \<times> user_answer) list \<Rightarrow> sent \<Rightarrow> bool" where
  "good_sent ans e \<longleftrightarrow>
     onSubmit (confirmed_by ans (sent_id e)) (chosen_by ans (sent_id e)) (sent_drawer e) (sent_data e)
     = Sent (sent_final e) (sent_request e)"

text \<open>What is known of a submission that waits.\<close>

definition key_given :: "bool \<Rightarrow> obj \<Rightarrow> bool" where
  "key_given ed fd \<longleftrightarrow> ed \<or> otrim (get fd ''key'') \<noteq> []"

definition risk_waits :: "jstring list \<Rightarrow> submission \<Rightarrow> bool" where
  "risk_waits items s \<longleftrightarrow>
     (let mapping = text_field (sub_data s) ''status_code_mapping'' in
      trim mapping \<noteq> [] \<and> collectInvalidStatusCodeEntries mapping = [] \<and>
      items = collectNewDisallowedStatusCodeRedirects (initialStatusCodeMapping (sub_checks s)) mapping)"

definition missing_waits :: "(nat \<times> user_answer) list \<Rightarrow> jstring list \<Rightarrow> submission \<Rightarrow> bool" where
  "missing_waits ans m s \<longleftrightarrow>
     (let fd = sub_data s; mapping = text_field fd ''model_mapping''; models = parseModelsString (text_field fd ''models'') in
      status_gate (confirmed_by ans (sub_id s)) (sub_checks s) (text_field fd ''status_code_mapping'') = None \<and>
      trim mapping \<noteq> [] \<and> validateModelMappingJson mapping = None \<and> m = findMissingModelsInMapping mapping models \<and> m \<noteq> [] \<and>
      hasModelConfigChanged models mapping (initialModels (sub_checks s)) (initialModelMapping (sub_checks s)) \<and>
      (\<forall>a x. (sub_id s, Missing a x) \<notin> set ans))"

record core =
  k_subs :: "submission list"
  k_next :: nat
  k_sent :: "sent list"
  k_answers :: "(nat \<times> user_answer) list"
  k_riskOpen :: bool
  k_riskItems :: "jstring list"
  k_riskResolve :: "nat option"
  k_missingOpen :: bool
  k_missingResolve :: "nat option"
  k_row :: "jval option"

definition core_of :: "channel_drawer \<Rightarrow> core" where
  "core_of st =
     \<lparr>k_subs = d_subs st, k_next = d_next st, k_sent = d_sent st, k_answers = d_answers st, k_riskOpen = d_riskOpen st,
      k_riskItems = d_riskItems st, k_riskResolve = d_riskResolve st, k_missingOpen = d_missingOpen st,
      k_missingResolve = d_missingResolve st, k_row = d_row st\<rparr>"

definition waits_ok :: "core \<Rightarrow> bool" where
  "waits_ok k \<longleftrightarrow>
     (case k_subs k of
        [] \<Rightarrow> \<not> k_riskOpen k \<and> k_riskResolve k = None \<and> \<not> k_missingOpen k \<and> k_missingResolve k = None
      | [s] \<Rightarrow>
          sub_id s < k_next k \<and>
          (case sub_stage s of
             AwaitRisk \<Rightarrow>
               k_riskOpen k \<and> k_riskResolve k = Some (sub_id s) \<and> \<not> k_missingOpen k \<and> k_missingResolve k = None \<and>
               isEditing (sub_checks s) = (k_row k \<noteq> None) \<and> key_given (k_row k \<noteq> None) (sub_data s) \<and> risk_waits (k_riskItems k) s \<and>
               sub_id s \<notin> fst ` set (k_answers k) \<and> sub_id s \<notin> sent_id ` set (k_sent k)
           | AwaitMissing m \<Rightarrow>
               k_missingOpen k \<and> k_missingResolve k = Some (sub_id s) \<and> \<not> k_riskOpen k \<and> k_riskResolve k = None \<and>
               isEditing (sub_checks s) = (k_row k \<noteq> None) \<and> key_given (k_row k \<noteq> None) (sub_data s) \<and>
               missing_waits (k_answers k) m s \<and> sub_id s \<notin> sent_id ` set (k_sent k)
           | Sending \<Rightarrow> \<not> k_riskOpen k \<and> k_riskResolve k = None \<and> \<not> k_missingOpen k \<and> k_missingResolve k = None)
      | _ \<Rightarrow> False)"

definition sends_ok :: "core \<Rightarrow> bool" where
  "sends_ok k \<longleftrightarrow>
     list_all (\<lambda>e. sent_id e < k_next k \<and> good_sent (k_answers k) e) (k_sent k) \<and> distinct (map sent_id (k_sent k)) \<and>
     list_all (\<lambda>(i, _). i < k_next k) (k_answers k)"

lemma good_sent_other: "sent_id e \<noteq> i \<Longrightarrow> good_sent ((i, a) # ans) e \<longleftrightarrow> good_sent ans e"
proof -
  assume n: "sent_id e \<noteq> i"
  then have "confirmed_by ((i, a) # ans) (sent_id e) = confirmed_by ans (sent_id e)"
      "chosen_by ((i, a) # ans) (sent_id e) = chosen_by ans (sent_id e)"
    by (auto simp: confirmed_by_def chosen_by_def fun_eq_iff)
  then show ?thesis by (simp add: good_sent_def)
qed

section \<open>Sending\<close>

text \<open>A gate passed with the answers on record lets the synchronous handler send the same request.\<close>

lemma sent_good:
  assumes "key_given ed fd" and "isEditing d = ed"
    and "status_gate (confirmed_by ans i) d (text_field fd ''status_code_mapping'') = None"
    and "model_gate (chosen_by ans i) d fd = Inr fd'" and "req = mutation_request d fd'"
  shows "onSubmit (confirmed_by ans i) (chosen_by ans i) d fd = Sent fd' req"
  using assms by (auto simp: onSubmit_def key_given_def)

lemma sent_sel:
  "initialModels (sent_checks d now) = initialModels d" "initialModelMapping (sent_checks d now) = initialModelMapping d"
  "initialStatusCodeMapping (sent_checks d now) = initialStatusCodeMapping d" "isEditing (sent_checks d now) = isEditing now"
  "currentRow_id (sent_checks d now) = currentRow_id now" "isMultiKey (sent_checks d now) = isMultiKey now"
  by (simp_all add: sent_checks_def)

lemma gate_cong:
  "status_gate c (sent_checks d now) s = status_gate c d s"
  "model_gate m (sent_checks d now) fd = model_gate m d fd"
  unfolding status_gate_def model_gate_def sent_sel by (rule refl)+

lemma status_gate_cong:
  assumes "initialStatusCodeMapping d = initialStatusCodeMapping d'"
  shows "status_gate c d s = status_gate c d' s"
  unfolding status_gate_def assms ..

lemma request_cong: "mutation_request (sent_checks d now) fd = mutation_request now fd"
  unfolding mutation_request_def sent_sel by (rule refl)

abbreviation drawer_inv :: "channel_drawer \<Rightarrow> bool" where
  "drawer_inv st \<equiv> waits_ok (core_of st) \<and> sends_ok (core_of st)"

definition quiet :: "channel_drawer \<Rightarrow> bool" where
  "quiet st \<longleftrightarrow> \<not> d_riskOpen st \<and> d_riskResolve st = None \<and> \<not> d_missingOpen st \<and> d_missingResolve st = None"

text \<open>A submission whose turn it is: the only one, with nothing open, not sent yet, without an answer about missing models.\<close>

definition running_sub :: "submission \<Rightarrow> channel_drawer \<Rightarrow> bool" where
  "running_sub s st \<longleftrightarrow>
     (\<exists>x. d_subs st = [x] \<and> sub_id x = sub_id s) \<and> sub_id s < d_next st \<and> quiet st \<and> sends_ok (core_of st) \<and>
     sub_id s \<notin> sent_id ` set (d_sent st) \<and> key_given (editing st) (sub_data s) \<and>
     status_gate (confirmed_by (d_answers st) (sub_id s)) (sub_checks s) (text_field (sub_data s) ''status_code_mapping'') = None"

lemma core_sel [simp]:
  "k_subs (core_of st) = d_subs st" "k_next (core_of st) = d_next st" "k_sent (core_of st) = d_sent st"
  "k_answers (core_of st) = d_answers st" "k_riskOpen (core_of st) = d_riskOpen st" "k_riskItems (core_of st) = d_riskItems st"
  "k_riskResolve (core_of st) = d_riskResolve st" "k_missingOpen (core_of st) = d_missingOpen st"
  "k_missingResolve (core_of st) = d_missingResolve st" "k_row (core_of st) = d_row st"
  by (simp_all add: core_of_def)

lemma core_tell [simp]: "core_of (tell n st) = core_of st"
  by (simp add: core_of_def)

lemma core_field [simp]: "core_of (set_field k v st) = core_of st"
  by (simp add: core_of_def set_field_def)

lemma empty_inv: "d_subs st = [] \<Longrightarrow> quiet st \<Longrightarrow> sends_ok (core_of st) \<Longrightarrow> drawer_inv st"
  by (simp add: waits_ok_def quiet_def)

lemma drop_last:
  assumes "\<exists>x. d_subs st = [x] \<and> sub_id x = i" and "quiet st" and "sends_ok (core_of st)"
  shows "drawer_inv (drop_sub i st)"
  by (rule empty_inv) (use assms in \<open>auto simp: drop_sub_def quiet_def sends_ok_def\<close>)

lemma inv_request:
  assumes "running_sub s st" and "model_gate (chosen_by (d_answers st) (sub_id s)) (sub_checks s) (sub_data s) = Inr fd"
  shows "drawer_inv (send_request s fd st)"
proof -
  let ?d = "sent_checks (sub_checks s) (checks st)" and ?req = "mutation_request (checks st) fd"
  let ?e = "\<lparr>sent_id = sub_id s, sent_data = sub_data s, sent_final = fd, sent_drawer = ?d, sent_request = ?req\<rparr>"
  let ?st = "st\<lparr>d_sent := ?e # d_sent st\<rparr>"
  obtain x where x: "d_subs st = [x]" "sub_id x = sub_id s" using assms(1) by (auto simp: running_sub_def)
  have "isEditing ?d = editing st" by (simp add: sent_checks_def checks_def)
  then have "good_sent (d_answers st) ?e"
    using assms sent_good [of "editing st" "sub_data s" ?d "d_answers st" "sub_id s" fd ?req]
    by (simp add: good_sent_def running_sub_def gate_cong request_cong)
  then have log: "sends_ok (core_of ?st)" using assms(1) by (auto simp: running_sub_def sends_ok_def)
  have q: "quiet ?st" using assms(1) by (simp add: running_sub_def quiet_def)
  show ?thesis
  proof (cases ?req)
    case None
    have "drawer_inv (drop_sub (sub_id s) ?st)" by (rule drop_last [OF _ q log]) (use x in simp)
    then show ?thesis by (simp add: send_request_def Let_def None)
  next
    case (Some r)
    have "drawer_inv (put_sub (s\<lparr>sub_stage := Sending\<rparr>) ?st)"
      using log q assms(1) x by (simp add: waits_ok_def sends_ok_def put_sub_def quiet_def running_sub_def)
    then show ?thesis by (simp add: send_request_def Let_def Some)
  qed
qed

lemma inv_check:
  assumes "running_sub s st" and "\<forall>a x. (sub_id s, Missing a x) \<notin> set (d_answers st)"
  shows "drawer_inv (check_models s st)"
proof -
  let ?s = "s\<lparr>sub_checks := (checks st)\<lparr>initialStatusCodeMapping := initialStatusCodeMapping (sub_checks s)\<rparr>\<rparr>"
  let ?mm = "text_field (sub_data s) ''model_mapping''" and ?ms = "parseModelsString (text_field (sub_data s) ''models'')"
  have gate: "status_gate (confirmed_by (d_answers st) (sub_id s)) (sub_checks ?s) (text_field (sub_data s) ''status_code_mapping'') = None"
    using assms(1) status_gate_cong [of "sub_checks ?s" "sub_checks s"] by (simp add: running_sub_def)
  then have run: "running_sub ?s st" using assms(1) by (simp add: running_sub_def)
  obtain x where x: "d_subs st = [x]" "sub_id x = sub_id s" using assms(1) by (auto simp: running_sub_def)
  show ?thesis
  proof (cases "trim ?mm = []")
    case True
    then have "model_gate (chosen_by (d_answers st) (sub_id ?s)) (sub_checks ?s) (sub_data ?s) = Inr (sub_data s)"
      by (simp add: model_gate_def)
    from inv_request [OF run this] True show ?thesis by (simp add: check_models_def Let_def)
  next
    case f: False
    show ?thesis
    proof (cases "validateModelMappingJson ?mm")
      case (Some e)
      have "drawer_inv (drop_sub (sub_id s) st)"
        by (rule drop_last) (use assms(1) x in \<open>simp_all add: running_sub_def\<close>)
      with f Some show ?thesis by (simp add: check_models_def Let_def)
    next
      case None
      let ?missing = "findMissingModelsInMapping ?mm ?ms"
      show ?thesis
      proof (cases "?missing \<noteq> [] \<and> hasModelConfigChanged ?ms ?mm (d_initialModels st) (d_initialMapping st)")
        case True
        let ?st = "put_sub (?s\<lparr>sub_stage := AwaitMissing ?missing\<rparr>)
             (st\<lparr>d_missingList := ?missing, d_missingOpen := True, d_missingResolve := Some (sub_id s)\<rparr>)"
        have "missing_waits (d_answers st) ?missing (?s\<lparr>sub_stage := AwaitMissing ?missing\<rparr>)"
          using gate f None True assms(2) by (simp add: missing_waits_def checks_def)
        then have "drawer_inv ?st"
          using assms(1) x by (simp add: waits_ok_def sends_ok_def put_sub_def running_sub_def quiet_def checks_def editing_def)
        moreover have "check_models s st = ?st" using f None True by (simp add: check_models_def Let_def)
        ultimately show ?thesis by (simp only:)
      next
        case False
        then have "model_gate (chosen_by (d_answers st) (sub_id ?s)) (sub_checks ?s) (sub_data ?s) = Inr (sub_data s)"
          using f None by (auto simp: model_gate_def Let_def checks_def)
        from inv_request [OF run this] f None False show ?thesis by (auto simp: check_models_def Let_def)
      qed
    qed
  qed
qed

lemma log_next: "sends_ok (core_of st) \<Longrightarrow> sends_ok (core_of (st\<lparr>d_subs := subs, d_next := Suc (d_next st)\<rparr>))"
  by (auto simp: sends_ok_def list_all_iff)

lemma inv_submit:
  assumes "drawer_inv st" and "\<not> d_riskOpen st" and "\<not> d_missingOpen st" and "\<not> isSubmitting st"
  shows "drawer_inv (submit data st)"
proof (cases "\<not> editing st \<and> otrim (get data ''key'') = []")
  case True
  then show ?thesis using assms(1) by (simp add: submit_def)
next
  case key: False
  then have key': "(\<not> editing st \<and> otrim (get data ''key'') = []) = False" by blast
  have none: "d_subs st = []"
  proof (cases "d_subs st")
    case (Cons x xs)
    then have "xs = []" using assms(1) by (auto simp: waits_ok_def split: list.splits)
    with Cons assms show ?thesis by (cases "sub_stage x") (auto simp: waits_ok_def isSubmitting_def)
  qed simp
  let ?s = "\<lparr>sub_id = d_next st, sub_data = data, sub_stage = AwaitRisk, sub_checks = checks st\<rparr>"
  let ?st = "st\<lparr>d_subs := ?s # d_subs st, d_next := d_next st + 1\<rparr>"
  let ?sc = "text_field data ''status_code_mapping''"
  have q: "quiet ?st" using assms(1) by (simp add: waits_ok_def none quiet_def)
  have log: "sends_ok (core_of ?st)" using assms(1) log_next [of st] by simp
  have fresh: "d_next st \<notin> fst ` set (d_answers st)" "d_next st \<notin> sent_id ` set (d_sent st)"
    using assms(1) by (auto simp: sends_ok_def list_all_iff)
  have given: "key_given (editing st) data" using key by (auto simp: key_given_def)
  have run: "running_sub ?s ?st" if "status_gate (confirmed_by (d_answers st) (d_next st)) (checks st) ?sc = None"
    using that q log fresh given none by (simp add: running_sub_def editing_def)
  have noans: "\<forall>a x. (sub_id ?s, Missing a x) \<notin> set (d_answers ?st)" using fresh(1) by (force simp: image_iff)
  show ?thesis
  proof (cases "trim ?sc = []")
    case True
    then have "drawer_inv (check_models ?s ?st)" by (intro inv_check [OF run noans]) (simp add: status_gate_def)
    with True show ?thesis unfolding submit_def key' by (simp add: Let_def)
  next
    case ne: False
    show ?thesis
    proof (cases "collectInvalidStatusCodeEntries ?sc = []")
      case False
      have "drawer_inv (drop_sub (d_next st) ?st)" by (rule drop_last [OF _ q log]) (simp add: none)
      with ne False show ?thesis unfolding submit_def key' by (simp add: Let_def)
    next
      case valid: True
      let ?risky = "collectNewDisallowedStatusCodeRedirects (d_initialStatus st) ?sc"
      show ?thesis
      proof (cases "?risky = []")
        case True
        then have "drawer_inv (check_models ?s ?st)"
          by (intro inv_check [OF run noans]) (simp add: status_gate_def valid checks_def)
        with ne valid True show ?thesis unfolding submit_def key' by (simp add: Let_def)
      next
        case False
        have "risk_waits ?risky ?s" using ne valid by (simp add: risk_waits_def checks_def)
        then have "drawer_inv (?st\<lparr>d_riskResolve := Some (d_next st), d_riskItems := ?risky, d_riskOpen := True\<rparr>)"
          using log q given fresh none by (simp add: waits_ok_def sends_ok_def quiet_def checks_def editing_def)
        with ne valid False show ?thesis unfolding submit_def key' by (simp add: Let_def)
      qed
    qed
  qed
qed

lemma log_answered:
  assumes "sends_ok (core_of st)" and "i < d_next st" and "i \<notin> sent_id ` set (d_sent st)"
  shows "sends_ok (core_of (answered i a st))"
proof -
  have "good_sent ((i, a) # d_answers st) e" if "e \<in> set (d_sent st)" for e
    using that assms(1,3) good_sent_other [of e i a] by (auto simp: sends_ok_def list_all_iff)
  then show ?thesis using assms(1,2) by (auto simp: sends_ok_def list_all_iff answered_def)
qed

lemma core_answered [simp]:
  "d_subs (answered i a st) = d_subs st" "d_next (answered i a st) = d_next st" "d_sent (answered i a st) = d_sent st"
  "d_answers (answered i a st) = (i, a) # d_answers st" "quiet (answered i a st) = quiet st" "editing (answered i a st) = editing st"
  "d_row (answered i a st) = d_row st"
  by (simp_all add: answered_def quiet_def editing_def)

lemma editing_upd:
  "editing (st\<lparr>d_riskOpen := a, d_riskItems := b, d_riskResolve := c\<rparr>) = editing st"
  "editing (st\<lparr>d_missingOpen := a, d_missingResolve := c\<rparr>) = editing st"
  by (simp_all add: editing_def)

lemma inv_risk:
  assumes "drawer_inv st" and "d_riskOpen st"
  shows "drawer_inv (handleStatusCodeRiskAction c st)"
proof -
  obtain s where s: "d_subs st = [s]" "sub_stage s = AwaitRisk"
    using assms by (auto simp: waits_ok_def split: list.splits wait_stage.splits)
  then have w: "sub_id s < d_next st" "d_riskResolve st = Some (sub_id s)" "\<not> d_missingOpen st" "d_missingResolve st = None"
      "key_given (editing st) (sub_data s)" "risk_waits (d_riskItems st) s" "sub_id s \<notin> fst ` set (d_answers st)"
      "sub_id s \<notin> sent_id ` set (d_sent st)"
    using assms by (auto simp: waits_ok_def editing_def)
  let ?st = "st\<lparr>d_riskOpen := False, d_riskItems := [], d_riskResolve := None\<rparr>"
  let ?a = "Confirmed (d_riskItems st)"
  have q: "quiet ?st" using w by (simp add: quiet_def)
  have log: "sends_ok (core_of ?st)" using assms(1) by (simp add: sends_ok_def)
  have f: "waiting_sub (sub_id s) ?st = Some s" by (simp add: waiting_sub_def s(1))
  have "drawer_inv (check_models s (answered (sub_id s) ?a ?st))"
  proof (rule inv_check)
    have "status_gate (confirmed_by ((sub_id s, ?a) # d_answers st) (sub_id s)) (sub_checks s)
        (text_field (sub_data s) ''status_code_mapping'') = None"
      using w(6) by (simp add: status_gate_def risk_waits_def confirmed_by_def Let_def)
    then show "running_sub s (answered (sub_id s) ?a ?st)"
      using s w q log_answered [OF log, of "sub_id s" ?a] by (simp add: running_sub_def editing_upd)
    show "\<forall>a x. (sub_id s, Missing a x) \<notin> set (d_answers (answered (sub_id s) ?a ?st))"
      using w(7) by (force simp: image_iff)
  qed
  moreover have "drawer_inv (drop_sub (sub_id s) ?st)" by (rule drop_last [OF _ q log]) (simp add: s(1))
  ultimately show ?thesis using w(2) f by (simp add: handleStatusCodeRiskAction_def Let_def)
qed

lemma inv_missing:
  assumes "drawer_inv st" and "d_missingOpen st"
  shows "drawer_inv (handleMissingModelsAction c st)"
proof -
  obtain s m where s: "d_subs st = [s]" "sub_stage s = AwaitMissing m"
    using assms by (auto simp: waits_ok_def split: list.splits wait_stage.splits)
  then have w: "sub_id s < d_next st" "d_missingResolve st = Some (sub_id s)" "\<not> d_riskOpen st" "d_riskResolve st = None"
      "key_given (editing st) (sub_data s)" "missing_waits (d_answers st) m s" "sub_id s \<notin> sent_id ` set (d_sent st)"
    using assms by (auto simp: waits_ok_def editing_def)
  let ?st = "st\<lparr>d_missingOpen := False, d_missingResolve := None\<rparr>"
  let ?sa = "answered (sub_id s) (Missing c m) ?st"
  let ?mm = "text_field (sub_data s) ''model_mapping''" and ?ms = "parseModelsString (text_field (sub_data s) ''models'')"
  have q: "quiet ?sa" using w by (simp add: quiet_def answered_def)
  have log: "sends_ok (core_of ?sa)"
    by (rule log_answered) (use assms(1) w in \<open>simp_all add: sends_ok_def\<close>)
  have conf: "confirmed_by ((sub_id s, Missing c m) # d_answers st) (sub_id s) = confirmed_by (d_answers st) (sub_id s)"
    by (auto simp: confirmed_by_def)
  have passed: "status_gate (confirmed_by (d_answers st) (sub_id s)) (sub_checks s)
      (text_field (sub_data s) ''status_code_mapping'') = None"
    using w(6) by (simp add: missing_waits_def Let_def)
  have run: "running_sub s ?sa"
    using s w(1,5,7) q log passed by (simp add: running_sub_def conf editing_upd)
  have chosen: "chosen_by (d_answers ?sa) (sub_id s) m = c"
    using w(6) by (cases c) (auto simp: chosen_by_def missing_waits_def Let_def)
  have gate: "model_gate (chosen_by (d_answers ?sa) (sub_id s)) (sub_checks s) (sub_data s) =
      (case c of Cancel \<Rightarrow> Inl (MissingCancelled m) | Submit \<Rightarrow> Inr (sub_data s)
       | Add \<Rightarrow> Inr (obj_put (lit ''models'') (JStr (formatModelsArray (uniq (?ms @ m)))) (sub_data s)))"
    using w(6) chosen by (auto simp: model_gate_def missing_waits_def Let_def split: missing_action.splits)
  have field: "running_sub s (set_field k v ?sa)" for k v
    using run by (simp add: running_sub_def set_field_def quiet_def editing_def sends_ok_def)
  have "drawer_inv (resume_missing c s m ?st)"
  proof (cases c)
    case Cancel
    have "drawer_inv (drop_sub (sub_id s) ?sa)" by (rule drop_last [OF _ q log]) (simp add: s(1))
    with Cancel show ?thesis by (simp add: resume_missing_def)
  next
    case Submit
    with inv_request [OF run, of "sub_data s"] gate show ?thesis by (simp add: resume_missing_def)
  next
    case Add
    let ?v = "JStr (formatModelsArray (uniq (?ms @ m)))"
    have "drawer_inv (send_request s (obj_put (lit ''models'') ?v (sub_data s)) (set_field ''models'' ?v ?sa))"
      by (rule inv_request [OF field]) (use gate Add in \<open>simp add: set_field_def\<close>)
    with Add show ?thesis by (simp add: resume_missing_def Let_def)
  qed
  moreover have "waiting_sub (sub_id s) ?st = Some s" by (simp add: waiting_sub_def s(1))
  ultimately show ?thesis using w(2) s(2) by (simp add: handleMissingModelsAction_def Let_def)
qed

section \<open>Every event keeps the invariant\<close>

lemma core_key_effect [simp]: "core_of (key_effect old st) = core_of st"
  by (simp add: key_effect_def core_of_def split: option.splits)

lemma core_unlock_effect [simp]: "core_of (unlock_effect old st) = core_of st"
  by (simp add: unlock_effect_def core_of_def)

lemma core_load_effect [simp]: "core_of (load_effect old st) = core_of st"
  by (simp add: load_effect_def load_form_def core_of_def Let_def split: option.splits)

lemma core_run_type [simp]: "core_of (run_type ty st) = core_of st"
  by (simp add: run_type_def)

lemma core_effects [simp]: "core_of (effects old st) = core_of st"
  by (simp add: effects_def type_effect_def Let_def)

lemma core_models [simp]: "core_of (updateModels ms b st) = core_of st"
  by (simp add: updateModels_def)

lemmas core_handlers =
  changeType_def handleAdvancedSettingsOpenChange_def handleClick_def handleDeduplicateKeys_def fetchChannelKey_def
  keyAnswered_def copyKey_def refreshStarted_def refreshAnswered_def uploadKeys_def handleFetchModels_def
  handleFillRelatedModels_def handleFillAllModels_def handleClearModels_def handleCopyModels_def handleAddPrefillGroup_def
  handleModelsChange_def removeMappedTargets_def addMissingModels_def modelsSelected_def formatHeaderOverride_def

text \<open>The events of a submission, and those that change the channel of the drawer.\<close>

definition submission_event :: "drawer_event \<Rightarrow> bool" where
  "submission_event ev \<longleftrightarrow>
     (case ev of SubmitForm \<Rightarrow> True | RiskAnswer _ \<Rightarrow> True | MissingAnswer _ \<Rightarrow> True | MutationAnswer _ _ \<Rightarrow> True | _ \<Rightarrow> False)"

definition row_event :: "drawer_event \<Rightarrow> bool" where
  "row_event ev \<longleftrightarrow> (case ev of OpenCreate \<Rightarrow> True | OpenUpdate _ _ \<Rightarrow> True | CloseSheet \<Rightarrow> True | _ \<Rightarrow> False)"

lemma core_upd [simp]:
  "core_of (st\<lparr>d_data := x1\<rparr>) = core_of st" "core_of (st\<lparr>d_models := x2\<rparr>) = core_of st"
  "core_of (st\<lparr>d_advanced := x3\<rparr>) = core_of st" "core_of (st\<lparr>d_pref := x4\<rparr>) = core_of st"
  "core_of (st\<lparr>d_key := x5\<rparr>) = core_of st" "core_of (st\<lparr>d_keyLoading := x6\<rparr>) = core_of st"
  "core_of (st\<lparr>d_keyFetches := x7\<rparr>) = core_of st" "core_of (st\<lparr>d_refreshing := x8\<rparr>) = core_of st"
  "core_of (st\<lparr>d_refreshed := x9\<rparr>) = core_of st" "core_of (st\<lparr>d_fetchOpen := y1\<rparr>) = core_of st"
  "core_of (st\<lparr>d_codexOpen := y2\<rparr>) = core_of st" "core_of (st\<lparr>d_paramOpen := y3\<rparr>) = core_of st"
  "core_of (st\<lparr>d_clipboard := y4\<rparr>) = core_of st" "core_of (st\<lparr>d_clicks := y5\<rparr>) = core_of st"
  "core_of (st\<lparr>d_unlocked := y6\<rparr>) = core_of st" "core_of (st\<lparr>d_notes := y7\<rparr>) = core_of st"
  "core_of (st\<lparr>d_open := y8\<rparr>) = core_of st" "core_of (st\<lparr>d_form := y9\<rparr>) = core_of st"
  "core_of (st\<lparr>d_missingList := z1\<rparr>) = core_of st"
  by (simp_all add: core_of_def)

lemma core_handle:
  assumes "\<not> submission_event ev" and "\<not> row_event ev"
  shows "core_of (drawer_handle ev st) = core_of st"
  using assms
  by (cases ev) (simp_all add: submission_event_def row_event_def core_handlers Let_def split: option.splits list.splits
      sum.splits jval.splits)

lemma inv_row: "drawer_inv st \<Longrightarrow> \<not> prompting st \<Longrightarrow> drawer_inv (st\<lparr>d_row := r\<rparr>)"
  by (cases "d_subs st") (auto simp: waits_ok_def sends_ok_def prompting_def split: list.splits wait_stage.splits)

lemma inv_row_event:
  assumes "drawer_inv st" and "\<not> prompting st" and "row_event ev"
  shows "drawer_inv (drawer_handle ev st)"
proof -
  have "\<exists>r. core_of (drawer_handle ev st) = core_of (st\<lparr>d_row := r\<rparr>)"
    using assms(3) by (cases ev) (auto simp: row_event_def handleOpenChange_def close_all_def core_of_def)
  then show ?thesis using inv_row [OF assms(1,2)] by auto
qed

lemma inv_mutation:
  assumes "drawer_inv st"
  shows "drawer_inv (mutationAnswered i ok st)"
proof (cases "list_ex (\<lambda>s. sub_id s = i \<and> sub_stage s = Sending) (d_subs st)")
  case True
  then obtain s where s: "d_subs st = [s]" "sub_id s = i" "sub_stage s = Sending"
    using assms by (cases "d_subs st"; cases "tl (d_subs st)") (auto simp: waits_ok_def)
  then have q: "quiet st" and log: "sends_ok (core_of st)" using assms by (simp_all add: waits_ok_def quiet_def)
  have e: "d_subs (drop_sub i st) = []" "quiet (drop_sub i st)" "sends_ok (core_of (drop_sub i st))"
    using q log s by (simp_all add: drop_sub_def quiet_def sends_ok_def)
  have d: "drawer_inv (drop_sub i st)" by (rule empty_inv [OF e])
  have "core_of (handleSuccess (tell n (drop_sub i st))) = core_of ((drop_sub i st)\<lparr>d_row := None\<rparr>)" for n
    by (simp add: handleSuccess_def close_all_def core_of_def)
  moreover have "\<not> prompting (drop_sub i st)" using e(2) by (simp add: prompting_def quiet_def)
  ultimately show ?thesis using True d inv_row [OF d] by (simp add: mutationAnswered_def)
next
  case False
  then show ?thesis using assms by (simp add: mutationAnswered_def)
qed

theorem drawer_inv_step:
  assumes "drawer_inv st" and "drawer_event_ok st ev"
  shows "drawer_inv (drawer_step ev st)"
proof -
  consider "row_event ev" | "submission_event ev" | "\<not> submission_event ev" "\<not> row_event ev" by blast
  then have "drawer_inv (drawer_handle ev st)"
  proof cases
    case 1
    moreover have "\<not> prompting st" using 1 assms(2) by (cases ev) (simp_all add: row_event_def drawer_event_ok_def server_event_def)
    ultimately show ?thesis using inv_row_event assms(1) by blast
  next
    case 2
    then show ?thesis
      using assms inv_submit inv_risk inv_missing inv_mutation
      by (cases ev) (simp_all add: submission_event_def drawer_event_ok_def prompting_def)
  next
    case 3
    then show ?thesis using assms(1) by (simp add: core_handle)
  qed
  then show ?thesis by (simp add: drawer_step_def)
qed

lemma drawer_inv_reach: "drawer_reachable st \<Longrightarrow> drawer_inv st"
proof (induction rule: drawer_reachable.induct)
  case start
  show ?case by (simp add: initial_drawer_def core_of_def waits_ok_def sends_ok_def)
qed (rule drawer_inv_step)

text \<open>Several events, and when each of them can happen.\<close>

definition drawer_run :: "drawer_event list \<Rightarrow> channel_drawer \<Rightarrow> channel_drawer" where
  "drawer_run evs st = fold drawer_step evs st"

fun drawer_run_ok :: "channel_drawer \<Rightarrow> drawer_event list \<Rightarrow> bool" where
  "drawer_run_ok st [] = True"
| "drawer_run_ok st (ev # evs) = (drawer_event_ok st ev \<and> drawer_run_ok (drawer_step ev st) evs)"

lemma reachable_run: "drawer_reachable st \<Longrightarrow> drawer_run_ok st evs \<Longrightarrow> drawer_reachable (drawer_run evs st)"
  by (induction evs arbitrary: st) (auto simp: drawer_run_def intro: drawer_reachable.step)

section \<open>What was sent\<close>

text \<open>C19: The submit handler, which stops at a dialog and goes on when the user answers, refines the handler that gets the
  answers as arguments: in every reachable state of the drawer, whatever happened between, each request that was sent is
  the one that handler sends for the submitted form, under the answers the user really gave for that submission, and no
  submission was sent twice.\<close>

theorem sent_requests_checked:
  assumes "drawer_reachable st"
  shows "distinct (map sent_id (d_sent st)) \<and>
    (\<forall>e \<in> set (d_sent st).
       onSubmit (confirmed_by (d_answers st) (sent_id e)) (chosen_by (d_answers st) (sent_id e)) (sent_drawer e) (sent_data e)
       = Sent (sent_final e) (sent_request e))"
  using drawer_inv_reach [OF assms] by (auto simp: sends_ok_def list_all_iff good_sent_def)

definition drawer_sample :: "drawer_event list" where
  "drawer_sample =
     [OpenCreate, SetField ''key'' (jstr_lit ''sk-1''), SetField ''models'' (jstr_lit ''o1''),
      SetField ''status_code_mapping'' (jstr_lit ''{\"504\":200}''), SetField ''model_mapping'' (jstr_lit ''{\"o3\":\"o1\"}''),
      SubmitForm, RiskAnswer True, MissingAnswer Add]"

lemma sample_ok: "drawer_run_ok initial_drawer drawer_sample"
  by code_simp

lemma sample_sent: "map sent_id (d_sent (drawer_run drawer_sample initial_drawer)) = [0]"
  by code_simp

theorem sent_requests_checked_witness:
  "\<exists>e \<in> set (d_sent (drawer_run drawer_sample initial_drawer)). sent_id e = 0 \<and>
     onSubmit (confirmed_by (d_answers (drawer_run drawer_sample initial_drawer)) 0)
       (chosen_by (d_answers (drawer_run drawer_sample initial_drawer)) 0) (sent_drawer e) (sent_data e)
     = Sent (sent_final e) (sent_request e)"
proof -
  obtain e where "d_sent (drawer_run drawer_sample initial_drawer) = [e]" "sent_id e = 0" using sample_sent by auto
  then show ?thesis
    using sent_requests_checked [OF reachable_run [OF drawer_reachable.start sample_ok]] by simp
qed

text \<open>C20: A submission never gets stuck: there is at most one, and whatever it waits for, an answer that can be given in
  this state (of the open dialog, or of the server) ends it.\<close>

theorem submission_ends:
  assumes "drawer_reachable st"
  shows "length (d_subs st) \<le> 1 \<and>
    (d_subs st \<noteq> [] \<longrightarrow>
      (\<exists>ev \<in> {RiskAnswer False, MissingAnswer Cancel, MutationAnswer (sub_id (hd (d_subs st))) False}.
        drawer_event_ok st ev \<and> d_subs (drawer_step ev st) = []))"
proof (cases "d_subs st")
  case (Cons s ss)
  have inv: "drawer_inv st" using drawer_inv_reach [OF assms] .
  then have e: "d_subs st = [s]" using Cons by (cases ss) (auto simp: waits_ok_def)
  have d: "d_subs (drawer_step ev st) = d_subs (drawer_handle ev st)" for ev
    by (metis core_effects core_sel(1) drawer_step_def)
  show ?thesis
  proof (cases "sub_stage s")
    case AwaitRisk
    then have "d_riskOpen st" "d_riskResolve st = Some (sub_id s)" using inv e by (auto simp: waits_ok_def)
    then have "drawer_event_ok st (RiskAnswer False)" "d_subs (drawer_step (RiskAnswer False) st) = []"
      by (simp_all add: d drawer_event_ok_def handleStatusCodeRiskAction_def waiting_sub_def drop_sub_def e)
    with e show ?thesis by auto
  next
    case (AwaitMissing m)
    then have "d_missingOpen st" "d_missingResolve st = Some (sub_id s)" using inv e by (auto simp: waits_ok_def)
    then have "drawer_event_ok st (MissingAnswer Cancel)" "d_subs (drawer_step (MissingAnswer Cancel) st) = []"
      by (simp_all add: d drawer_event_ok_def handleMissingModelsAction_def waiting_sub_def drop_sub_def e AwaitMissing
          resume_missing_def)
    with e show ?thesis by auto
  next
    case Sending
    have "drawer_event_ok st (MutationAnswer (sub_id s) False)"
      by (simp add: drawer_event_ok_def server_event_def)
    moreover have "d_subs (drawer_step (MutationAnswer (sub_id s) False) st) = []"
      by (simp add: d mutationAnswered_def drop_sub_def e Sending)
    ultimately show ?thesis using e by auto
  qed
qed simp

theorem submission_ends_witness:
  "length (d_subs (drawer_run (take 6 drawer_sample) initial_drawer)) = 1 \<and>
   (\<exists>ev. d_subs (drawer_step ev (drawer_run (take 6 drawer_sample) initial_drawer)) = [])"
proof -
  let ?st = "drawer_run (take 6 drawer_sample) initial_drawer"
  have ok: "drawer_run_ok initial_drawer (take 6 drawer_sample)" by code_simp
  have "d_subs ?st \<noteq> []" by code_simp
  with submission_ends [OF reachable_run [OF drawer_reachable.start ok]] show ?thesis
    by (cases "d_subs ?st") auto
qed

section \<open>The form when the drawer closes by itself\<close>

lemma run_type_sel [simp]:
  "d_row (run_type ty st) = d_row st" "d_data (run_type ty st) = d_data st" "d_open (run_type ty st) = d_open st"
  "editing (run_type ty st) = editing st"
  by (simp_all add: run_type_def set_field_def editing_def)

lemma effects_form_same:
  assumes "form_type st = form_type old" and "editing st = editing old" and "d_data st = d_data old"
  shows "d_form (effects old st) = d_form st"
proof -
  let ?s = "unlock_effect old (key_effect old st)"
  have s: "d_form ?s = d_form st" "d_data ?s = d_data st" "d_row ?s = d_row st"
    by (simp_all add: unlock_effect_def key_effect_def split: option.splits)
  then have "load_effect old ?s = ?s" using assms by (simp add: load_effect_def editing_def)
  then show ?thesis using s assms by (simp add: effects_def type_effect_def form_type_def)
qed

text \<open>The state of a drawer that creates a channel holds no loaded channel.\<close>

lemma effects_data: "d_row (effects old st) = d_row st" "d_data (effects old st) = d_data st"
  by (simp_all add: effects_def type_effect_def load_effect_def load_form_def unlock_effect_def key_effect_def Let_def
      split: option.splits)

lemma data_frame:
  "d_row (set_field k v st) = d_row st" "d_data (set_field k v st) = d_data st"
  "d_row (drop_sub i st) = d_row st" "d_data (drop_sub i st) = d_data st"
  "d_row (put_sub s st) = d_row st" "d_data (put_sub s st) = d_data st"
  "d_row (answered i a st) = d_row st" "d_data (answered i a st) = d_data st"
  "d_row (updateModels ms b st) = d_row st" "d_data (updateModels ms b st) = d_data st"
  by (simp_all add: set_field_def drop_sub_def put_sub_def answered_def updateModels_def)

lemma data_send:
  "d_row (send_request s fd st) = d_row st" "d_data (send_request s fd st) = d_data st"
  "d_row (check_models s st) = d_row st" "d_data (check_models s st) = d_data st"
  by (simp_all add: send_request_def check_models_def Let_def data_frame split: option.splits)

lemma data_submission:
  "d_row (submit d st) = d_row st" "d_data (submit d st) = d_data st"
  "d_row (handleStatusCodeRiskAction c st) = d_row st" "d_data (handleStatusCodeRiskAction c st) = d_data st"
  "d_row (handleMissingModelsAction a st) = d_row st" "d_data (handleMissingModelsAction a st) = d_data st"
  by (simp_all add: submit_def handleStatusCodeRiskAction_def handleMissingModelsAction_def resume_missing_def Let_def data_frame
      data_send split: option.splits wait_stage.splits missing_action.splits)

lemma create_no_data_step:
  assumes "d_row st = None \<longrightarrow> d_data st = None"
  shows "d_row (drawer_step ev st) = None \<longrightarrow> d_data (drawer_step ev st) = None"
  using assms unfolding drawer_step_def effects_data
  by (cases ev) (simp_all add: core_handlers data_frame data_submission handleOpenChange_def close_all_def mutationAnswered_def
      handleSuccess_def editing_def Let_def split: option.splits list.splits sum.splits jval.splits)

lemma create_no_data: "drawer_reachable st \<Longrightarrow> d_row st = None \<longrightarrow> d_data st = None"
proof (induction rule: drawer_reachable.induct)
  case start
  show ?case by (simp add: initial_drawer_def)
qed (rule create_no_data_step)

text \<open>C21: After a channel was created the drawer closes by itself, and the next time it opens to create a channel the form,
  the key included, is the one of the channel just created; closing the drawer by hand resets the form.\<close>

theorem create_form_kept:
  assumes "drawer_reachable st" and "\<not> editing st" and "s \<in> set (d_subs st)" and "sub_stage s = Sending"
  shows "d_form (drawer_step OpenCreate (drawer_step (MutationAnswer (sub_id s) True) st)) = d_form st \<and>
    d_form (drawer_step OpenCreate (drawer_step CloseSheet st)) = CHANNEL_FORM_DEFAULT_VALUES"
proof -
  have row: "d_row st = None" using assms(2) by (simp add: editing_def)
  then have data: "d_data st = None" using create_no_data [OF assms(1)] by simp
  have step: "d_form (drawer_step ev x) = d_form (drawer_handle ev x)"
    if "d_form (drawer_handle ev x) = d_form x" "d_row x = None" "d_data x = None" "d_row (drawer_handle ev x) = None"
      "d_data (drawer_handle ev x) = None" for ev x
    using that effects_form_same [of "drawer_handle ev x" x] by (simp add: drawer_step_def form_type_def editing_def)
  have sel: "d_row (drawer_step ev x) = d_row (drawer_handle ev x)" "d_data (drawer_step ev x) = d_data (drawer_handle ev x)" for ev x
    by (simp_all add: drawer_step_def effects_data)
  have run: "list_ex (\<lambda>x. sub_id x = sub_id s \<and> sub_stage x = Sending) (d_subs st)"
    using assms(3,4) by (auto simp: list_ex_iff)
  let ?m = "MutationAnswer (sub_id s) True"
  have m: "drawer_handle ?m st = handleSuccess (tell (Saved False) (drop_sub (sub_id s) st))"
    using run assms(2) by (simp add: mutationAnswered_def)
  have "d_form (drawer_step ?m st) = d_form st"
    by (subst step) (simp_all add: m handleSuccess_def close_all_def row data drop_sub_def del: drawer_handle.simps)
  moreover have "d_row (drawer_step ?m st) = None" "d_data (drawer_step ?m st) = None"
    by (simp_all add: sel m handleSuccess_def close_all_def del: drawer_handle.simps)
  ultimately have a: "d_form (drawer_step OpenCreate (drawer_step ?m st)) = d_form st" by (subst step) simp_all
  let ?h = "drawer_handle CloseSheet st"
  have h: "d_form ?h = CHANNEL_FORM_DEFAULT_VALUES" "d_row ?h = None" "d_data ?h = None"
    by (simp_all add: handleOpenChange_def close_all_def)
  have ty: "get CHANNEL_FORM_DEFAULT_VALUES ''type'' = JNum (Fin 1)" by code_simp
  let ?u = "unlock_effect st (key_effect st ?h)"
  have u: "d_form ?u = d_form ?h" "d_data ?u = d_data ?h" "d_row ?u = d_row ?h"
    by (simp_all add: unlock_effect_def key_effect_def split: option.splits)
  then have "load_effect st ?u = ?u" using h row data by (simp add: load_effect_def editing_def)
  then have "d_form (drawer_step CloseSheet st) = CHANNEL_FORM_DEFAULT_VALUES"
    using h u ty by (simp add: drawer_step_def effects_def type_effect_def form_type_def run_type_def Let_def del: drawer_handle.simps)
  moreover have "d_row (drawer_step CloseSheet st) = None" "d_data (drawer_step CloseSheet st) = None" by (simp_all only: sel h)
  ultimately have "d_form (drawer_step OpenCreate (drawer_step CloseSheet st)) = CHANNEL_FORM_DEFAULT_VALUES" by (subst step) simp_all
  with a show ?thesis ..
qed

theorem create_form_kept_witness:
  "get (d_form (drawer_run (drawer_sample @ [MutationAnswer 0 True, OpenCreate]) initial_drawer)) ''key'' = jstr_lit ''sk-1''"
proof -
  let ?st = "drawer_run drawer_sample initial_drawer"
  have r: "drawer_reachable ?st" by (rule reachable_run [OF drawer_reachable.start sample_ok])
  have e: "\<not> editing ?st" by code_simp
  have "map (\<lambda>s. (sub_id s, sub_stage s = Sending)) (d_subs ?st) = [(0, True)]" by code_simp
  then obtain s where s: "d_subs ?st = [s]" "sub_id s = 0" "sub_stage s = Sending" by auto
  have k: "get (d_form ?st) ''key'' = jstr_lit ''sk-1''" by code_simp
  have "d_form (drawer_step OpenCreate (drawer_step (MutationAnswer 0 True) ?st)) = d_form ?st"
    using create_form_kept [OF r e, of s] s by simp
  then show ?thesis using k by (simp add: drawer_run_def)
qed

text \<open>An update that succeeds closes the drawer with the type of the edited channel still in the form; the effect of the type
  then runs with that type after the form was reset, so the next channel is created from a form of type 1 with the
  address of type 45.\<close>

lemma stale_type_address:
  assumes "editing st" and "d_data st \<noteq> None" and "form_type st = JNum (Fin 45)" and "s \<in> set (d_subs st)" and "sub_stage s = Sending"
  shows "d_form (drawer_step (MutationAnswer (sub_id s) True) st) =
    obj_put (lit ''base_url'') (jstr_lit ''https://ark.cn-beijing.volces.com'') CHANNEL_FORM_DEFAULT_VALUES"
proof -
  have run: "list_ex (\<lambda>x. sub_id x = sub_id s \<and> sub_stage x = Sending) (d_subs st)"
    using assms(4,5) by (auto simp: list_ex_iff)
  let ?h = "drawer_handle (MutationAnswer (sub_id s) True) st"
  have h: "d_row ?h = None" "d_data ?h = None" "form_type ?h = JNum (Fin 45)"
    using run assms(3) by (simp_all add: mutationAnswered_def handleSuccess_def close_all_def form_type_def drop_sub_def)
  let ?u = "unlock_effect st (key_effect st ?h)"
  have u: "d_row ?u = None" "d_data ?u = None"
    using h by (simp_all add: unlock_effect_def key_effect_def split: option.splits del: drawer_handle.simps)
  then have "load_effect st ?u = load_form ?u" using assms(1) by (simp add: load_effect_def editing_def)
  moreover have "d_form (load_form ?u) = CHANNEL_FORM_DEFAULT_VALUES" "d_row (load_form ?u) = None"
    using u by (simp_all add: load_form_def editing_def del: drawer_handle.simps)
  moreover have "\<not> truthy (get CHANNEL_FORM_DEFAULT_VALUES ''base_url'')"
    "get (obj_put (lit ''base_url'') (jstr_lit ''https://ark.cn-beijing.volces.com'') CHANNEL_FORM_DEFAULT_VALUES) ''type'' = JNum (Fin 1)"
    by code_simp+
  ultimately show ?thesis
    using h assms(1) by (simp add: drawer_step_def effects_def type_effect_def run_type_def Let_def editing_def set_field_def
        form_type_def del: drawer_handle.simps list.map)
qed

section \<open>Answers that arrive late\<close>

text \<open>The key that a call fetched for one channel is shown in the drawer of the channel that is open when it arrives.\<close>

lemma d_key_parts [simp]:
  "d_key (run_type ty st) = d_key st" "d_key (load_effect old st) = d_key st" "d_key (unlock_effect old st) = d_key st"
  by (simp_all add: run_type_def set_field_def load_effect_def load_form_def unlock_effect_def Let_def split: option.splits)

lemma d_key_effects: "d_open st = d_open old \<Longrightarrow> d_row st = d_row old \<Longrightarrow> d_key (effects old st) = d_key st"
  by (simp add: effects_def type_effect_def key_effect_def Let_def)

lemma late_key_shown:
  assumes "n < length (d_keyFetches st)" and "d_row st = Some j"
  shows "d_key (drawer_step (KeyAnswer n (Inr key)) st) = Some key \<and> d_row (drawer_step (KeyAnswer n (Inr key)) st) = Some j"
proof -
  have "d_row (keyAnswered n (Inr key) st) = d_row st" "d_open (keyAnswered n (Inr key) st) = d_open st"
      "d_key (keyAnswered n (Inr key) st) = Some key"
    using assms(1) by (simp_all add: keyAnswered_def Let_def)
  with assms(2) show ?thesis by (simp add: drawer_step_def effects_data d_key_effects)
qed

lemma key_of_other_channel:
  "let st = drawer_run [OpenUpdate (JNum (Fin 1)) None, RevealKey, CloseSheet, OpenUpdate (JNum (Fin 2)) None,
     KeyAnswer 0 (Inr (lit ''sk-of-1''))] initial_drawer
   in d_row st = Some (JNum (Fin 2)) \<and> d_key st = Some (lit ''sk-of-1'')"
  by code_simp

text \<open>The success of a request closes whatever drawer is open.\<close>

lemma late_success_closes:
  assumes "s \<in> set (d_subs st)" and "sub_stage s = Sending"
  shows "d_row (drawer_step (MutationAnswer (sub_id s) True) st) = None"
proof -
  have "list_ex (\<lambda>x. sub_id x = sub_id s \<and> sub_stage x = Sending) (d_subs st)" using assms by (auto simp: list_ex_iff)
  then show ?thesis by (simp add: drawer_step_def effects_data mutationAnswered_def handleSuccess_def close_all_def)
qed

section \<open>The guardrail and the check of the submit handler\<close>

text \<open>The sources the drawer warns about while the form is edited are exactly the models the submit handler asks about,
  in the same order, for every mapping whose targets are texts that are not blank.\<close>

lemma guardrail_agrees:
  assumes "json_object mapping = Some parsed" and "trim mapping \<noteq> []"
    and "\<forall>(_, v) \<in> set parsed. \<exists>s. v = JStr s \<and> trim s \<noteq> []"
  shows "g_missingSourceModels (modelMappingGuardrail mapping (parseModelsString models)) =
    findMissingModelsInMapping mapping (parseModelsString models)"
proof -
  have t: "trim ` set (parseModelsString models) = set (parseModelsString models)"
    using parse_models_name [of _ models] by (force simp: model_name_def trim_trimmed)
  have "filter (\<lambda>(source, target). source \<noteq> [] \<and> target \<noteq> []) (map mapping_pair parsed) =
      filter (\<lambda>(source, _). source \<noteq> []) (map mapping_pair parsed)"
    using assms(3) by (intro filter_cong) (fastforce simp: mapping_pair_def nullish_def)+
  moreover have "map fst (filter (\<lambda>(source, _). source \<noteq> []) (map mapping_pair ps)) = filter (\<lambda>k. k \<noteq> []) (map (\<lambda>(k, _). trim k) ps)" for ps
    by (induction ps) (auto simp: mapping_pair_def)
  ultimately show ?thesis
    using assms(1,2) t by (simp add: modelMappingGuardrail_def missing_filter mapping_sources_def Let_def)
qed

lemma guardrail_agrees_witness:
  "g_missingSourceModels (modelMappingGuardrail (lit ''{\"gpt-4\":\"gpt-4o\",\"o1\":\"o3\"}'') (parseModelsString (lit ''o1''))) = [lit ''gpt-4'']"
proof -
  let ?m = "lit ''{\"gpt-4\":\"gpt-4o\",\"o1\":\"o3\"}''"
  have o: "json_object ?m = Some [(lit ''gpt-4'', jstr_lit ''gpt-4o''), (lit ''o1'', jstr_lit ''o3'')]" by code_simp
  have n: "trim ?m \<noteq> []" "trim (lit ''gpt-4o'') \<noteq> []" "trim (lit ''o3'') \<noteq> []" by code_simp+
  have f: "findMissingModelsInMapping ?m (parseModelsString (lit ''o1'')) = [lit ''gpt-4'']" by code_simp
  have "\<forall>(_, v) \<in> set [(lit ''gpt-4'', jstr_lit ''gpt-4o''), (lit ''o1'', jstr_lit ''o3'')]. \<exists>s. v = JStr s \<and> trim s \<noteq> []"
    using n(2,3) by (simp del: list.map)
  from guardrail_agrees [OF o n(1) this, of "lit ''o1''"] f show ?thesis by (simp only:)
qed

text \<open>A blank target: the submit handler asks about a model the drawer does not warn about.\<close>

lemma guardrail_blank_target:
  "let mapping = lit ''{\"gpt-4\":\" \"}'' in
   g_missingSourceModels (modelMappingGuardrail mapping []) = [] \<and> findMissingModelsInMapping mapping [] = [lit ''gpt-4''] \<and>
   validateModelMappingJson mapping = None"
  by code_simp

end
