(* ===== verification/Model_Pricing.thy ===== *)
theory Model_Pricing
  imports JSON_Maps JS_Regex Billing_Expr
begin

text \<open>
  The visual editor of model prices: \<^verbatim>\<open>features/system-settings/models/pricing-format.ts\<close> (prices as text),
  \<^verbatim>\<open>model-pricing-sheet.tsx\<close> (the form of one model, in prices) and \<^verbatim>\<open>model-ratio-visual-editor.tsx\<close>
  (the table of the models and the ten settings, in ratios, that hold their prices as JSON maps).

  The tenfold copies of the source, one per setting, are one function of a key. Settings are modelled where they
  hold objects; \<open>None\<close> is any other JSON value or an exception. \<open>native k\<close> is the text of the function every object
  inherits under the name \<open>k\<close>, \<open>cmp\<close> is \<^verbatim>\<open>localeCompare\<close>. Labels are left untranslated.
  The narrow layout shows the same form in a sheet with a state of its own; here the form is the one of the page.
\<close>

section \<open>Prices as text\<close>

definition DISPLAY_DECIMALS :: nat where
  "DISPLAY_DECIMALS = 12"

definition SNAP_DECIMALS :: nat where
  "SNAP_DECIMALS = 8"

definition SNAP_EPSILON :: jsnum where
  "SNAP_EPSILON = dbl (1 / 10 ^ 12)"

definition NUMBER_EPSILON :: jsnum where
  "NUMBER_EPSILON = Fin (1 / 2 ^ 52)"

definition finite_or_none :: "jsnum \<Rightarrow> jsnum option" where
  "finite_or_none num = (if is_finite num then Some num else None)"

definition toNumberOrNull :: "jstring \<Rightarrow> jsnum option" where
  "toNumberOrNull value = (if value = [] then None else finite_or_none (js_Number value))"

definition roundToDecimals :: "jsnum \<Rightarrow> nat \<Rightarrow> jsnum" where
  "roundToDecimals value decimals =
     (let factor = Fin (10 ^ decimals) in jdiv (jround (jmul value factor)) factor)"

definition jmax :: "jsnum \<Rightarrow> jsnum \<Rightarrow> jsnum" where
  "jmax a b = (if jlt a b then b else a)"

definition snap_tolerance :: "jsnum \<Rightarrow> jsnum" where
  "snap_tolerance value = jmax SNAP_EPSILON (jmul (jmul (jabs value) NUMBER_EPSILON) (Fin 8))"

text \<open>The loop over the numbers of decimals, the next ones in the list.\<close>

fun snap_loop :: "jsnum \<Rightarrow> jsnum \<Rightarrow> nat list \<Rightarrow> jsnum" where
  "snap_loop tolerance value [] = value"
| "snap_loop tolerance value (decimals # rest) =
     (let rounded = roundToDecimals value decimals in
      if jle (jabs (jsub value rounded)) tolerance then rounded else snap_loop tolerance value rest)"

definition snapFloatDrift :: "jsnum \<Rightarrow> jsnum" where
  "snapFloatDrift value = snap_loop (snap_tolerance value) value [0..<Suc SNAP_DECIMALS]"

definition formatPricingNumber :: "jsnum \<Rightarrow> jstring" where
  "formatPricingNumber value =
     (case finite_or_none value of
        None \<Rightarrow> []
      | Some num \<Rightarrow> num_str (parseFloat (toFixed DISPLAY_DECIMALS (snapFloatDrift num))))"

section \<open>The prices of one model\<close>

datatype pricing_mode = PerToken | PerRequest | TieredExpr

datatype lane = Completion | Cache | CreateCache | ImageLane | AudioInput | AudioOutput

text \<open>The order of \<^verbatim>\<open>laneConfigs\<close>.\<close>

definition laneConfigs :: "lane list" where
  "laneConfigs = [Completion, Cache, CreateCache, ImageLane, AudioInput, AudioOutput]"

text \<open>The ratio fields of a model, by lane (\<^verbatim>\<open>ratioFieldByLane\<close>).\<close>

record model_data =
  md_name :: jstring
  md_mode :: pricing_mode
  md_price :: jstring
  md_ratio :: jstring
  md_lane :: "lane \<Rightarrow> jstring"
  md_expr :: "jstring option"
  md_rules :: "jstring option"

record pricing_form =
  f_name :: jstring
  f_price :: jstring
  f_ratio :: jstring
  f_lane :: "lane \<Rightarrow> jstring"

definition empty_form :: pricing_form where
  "empty_form = \<lparr>f_name = [], f_price = [], f_ratio = [], f_lane = (\<lambda>_. [])\<rparr>"

text \<open>\<^verbatim>\<open>/^(\d+(\.\d*)?|\.\d*)?$/\<close>\<close>

definition numericDraftRegex :: re where
  "numericDraftRegex =
     cat [Bol, opt (Alt (Seq (many1 (Cls is_digit)) (opt (Seq (chr 46) (Star (Cls is_digit)))))
                        (Seq (chr 46) (Star (Cls is_digit)))), Eol]"

definition ratioToBasePrice :: "jstring \<Rightarrow> jstring" where
  "ratioToBasePrice ratio =
     (case toNumberOrNull ratio of None \<Rightarrow> [] | Some num \<Rightarrow> formatPricingNumber (jmul num (Fin 2)))"

definition deriveLanePrice :: "jstring \<Rightarrow> jstring \<Rightarrow> jstring" where
  "deriveLanePrice ratio denominator =
     (case (toNumberOrNull ratio, toNumberOrNull denominator) of
        (Some r, Some d) \<Rightarrow> formatPricingNumber (jmul r d)
      | _ \<Rightarrow> [])"

record lane_state =
  l_prompt :: jstring
  l_prices :: "lane \<Rightarrow> jstring"
  l_enabled :: "lane \<Rightarrow> bool"

definition lane_price :: "model_data \<Rightarrow> jstring \<Rightarrow> lane \<Rightarrow> jstring" where
  "lane_price data promptPrice lane =
     deriveLanePrice (md_lane data lane)
       (if lane = AudioOutput then deriveLanePrice (md_lane data AudioInput) promptPrice else promptPrice)"

definition createInitialLaneState :: "model_data option \<Rightarrow> lane_state" where
  "createInitialLaneState data =
     (case data of
        None \<Rightarrow> \<lparr>l_prompt = [], l_prices = (\<lambda>_. []), l_enabled = (\<lambda>_. False)\<rparr>
      | Some d \<Rightarrow>
          (let promptPrice = ratioToBasePrice (md_ratio d) in
           \<lparr>l_prompt = promptPrice, l_prices = lane_price d promptPrice, l_enabled = (\<lambda>lane. md_lane d lane \<noteq> [])\<rparr>))"

section \<open>The form of one model\<close>

record panel =
  p_edit :: "model_data option"
  p_mode :: pricing_mode
  p_prompt :: jstring
  p_prices :: "lane \<Rightarrow> jstring"
  p_enabled :: "lane \<Rightarrow> bool"
  p_expr :: jstring
  p_rules :: jstring
  p_form :: pricing_form

definition text_of :: "jstring option \<Rightarrow> jstring" where
  "text_of v = (case v of Some s \<Rightarrow> s | None \<Rightarrow> [])"

definition load_panel :: "model_data option \<Rightarrow> panel" where
  "load_panel editData =
     (let ls = createInitialLaneState editData in
      \<lparr>p_edit = editData,
       p_mode = (case editData of None \<Rightarrow> PerToken
                 | Some d \<Rightarrow> if md_mode d = TieredExpr then TieredExpr else if md_price d \<noteq> [] then PerRequest else PerToken),
       p_prompt = l_prompt ls, p_prices = l_prices ls, p_enabled = l_enabled ls,
       p_expr = (case editData of None \<Rightarrow> [] | Some d \<Rightarrow> text_of (md_expr d)),
       p_rules = (case editData of None \<Rightarrow> [] | Some d \<Rightarrow> text_of (md_rules d)),
       p_form = (case editData of None \<Rightarrow> empty_form
                 | Some d \<Rightarrow> \<lparr>f_name = md_name d, f_price = md_price d, f_ratio = md_ratio d, f_lane = md_lane d\<rparr>)\<rparr>)"

definition set_lane :: "lane \<Rightarrow> jstring \<Rightarrow> panel \<Rightarrow> panel" where
  "set_lane lane value p = p\<lparr>p_form := (p_form p)\<lparr>f_lane := (f_lane (p_form p))(lane := value)\<rparr>\<rparr>"

definition deriveLaneRatio :: "lane \<Rightarrow> jstring \<Rightarrow> jstring \<Rightarrow> (lane \<Rightarrow> jstring) \<Rightarrow> jstring" where
  "deriveLaneRatio lane price promptPrice prices =
     (case toNumberOrNull price of
        None \<Rightarrow> []
      | Some priceNumber \<Rightarrow>
          (case toNumberOrNull (if lane = AudioOutput then prices AudioInput else promptPrice) of
             None \<Rightarrow> []
           | Some base \<Rightarrow> if base = Fin 0 then [] else formatPricingNumber (jdiv priceNumber base)))"

definition lane_ratio :: "jstring \<Rightarrow> (lane \<Rightarrow> jstring) \<Rightarrow> (lane \<Rightarrow> bool) \<Rightarrow> lane \<Rightarrow> jstring" where
  "lane_ratio promptPrice prices enabled lane =
     (if enabled lane then deriveLaneRatio lane (prices lane) promptPrice prices else [])"

definition syncLaneRatios :: "jstring \<Rightarrow> (lane \<Rightarrow> jstring) \<Rightarrow> (lane \<Rightarrow> bool) \<Rightarrow> panel \<Rightarrow> panel" where
  "syncLaneRatios promptPrice prices enabled p =
     foldl (\<lambda>q lane. set_lane lane (lane_ratio promptPrice prices enabled lane) q)
       (p\<lparr>p_form := (p_form p)\<lparr>f_ratio := (case toNumberOrNull promptPrice of
            None \<Rightarrow> [] | Some inputPrice \<Rightarrow> formatPricingNumber (jdiv inputPrice (Fin 2)))\<rparr>\<rparr>)
       laneConfigs"

definition handlePromptPriceChange :: "jstring \<Rightarrow> panel \<Rightarrow> panel" where
  "handlePromptPriceChange value p =
     (if \<not> re_test numericDraftRegex value then p
      else syncLaneRatios value (p_prices p) (p_enabled p) (p\<lparr>p_prompt := value\<rparr>))"

definition handleLanePriceChange :: "lane \<Rightarrow> jstring \<Rightarrow> panel \<Rightarrow> panel" where
  "handleLanePriceChange lane value p =
     (if \<not> re_test numericDraftRegex value then p
      else
        let nextLanePrices = (p_prices p)(lane := value);
            p1 = p\<lparr>p_prices := nextLanePrices\<rparr>;
            p2 = (if p_enabled p lane then set_lane lane (deriveLaneRatio lane value (p_prompt p) nextLanePrices) p1 else p1) in
        if lane = AudioInput \<and> p_enabled p AudioOutput
        then set_lane AudioOutput (deriveLaneRatio AudioOutput (nextLanePrices AudioOutput) (p_prompt p) nextLanePrices) p2
        else p2)"

definition handleLaneToggle :: "lane \<Rightarrow> bool \<Rightarrow> panel \<Rightarrow> panel" where
  "handleLaneToggle lane checked p =
     (if checked then
        set_lane lane (deriveLaneRatio lane (p_prices p lane) (p_prompt p) (p_prices p)) (p\<lparr>p_enabled := (p_enabled p)(lane := True)\<rparr>)
      else
        let p1 = set_lane lane [] (p\<lparr>p_enabled := (p_enabled p)(lane := False), p_prices := (p_prices p)(lane := [])\<rparr>) in
        if lane = AudioInput
        then set_lane AudioOutput []
          (p1\<lparr>p_enabled := (p_enabled p1)(AudioOutput := False), p_prices := (p_prices p1)(AudioOutput := [])\<rparr>)
        else p1)"

definition handleModeChange :: "pricing_mode \<Rightarrow> panel \<Rightarrow> panel" where
  "handleModeChange nextMode p =
     p\<lparr>p_mode := nextMode,
       p_expr := (if nextMode = TieredExpr \<and> p_expr p = [] then lit ''tier(\"base\", p * 0 + c * 0)'' else p_expr p)\<rparr>"

definition type_name :: "jstring \<Rightarrow> panel \<Rightarrow> panel" where
  "type_name s p = p\<lparr>p_form := (p_form p)\<lparr>f_name := s\<rparr>\<rparr>"

definition type_price :: "jstring \<Rightarrow> panel \<Rightarrow> panel" where
  "type_price s p = (if re_test numericDraftRegex s then p\<lparr>p_form := (p_form p)\<lparr>f_price := s\<rparr>\<rparr> else p)"

text \<open>\<^verbatim>\<open>warnings\<close>, as what the three texts say.\<close>

datatype warning = BothSettings | InputPriceRequired | AudioInputRequired

definition lacks_input_price :: "panel \<Rightarrow> bool" where
  "lacks_input_price p \<longleftrightarrow>
     p_mode p = PerToken \<and> toNumberOrNull (p_prompt p) = None \<and> list_ex (\<lambda>lane. p_enabled p lane \<and> p_prices p lane \<noteq> []) laneConfigs"

definition lacks_audio_input :: "panel \<Rightarrow> bool" where
  "lacks_audio_input p \<longleftrightarrow> p_mode p = PerToken \<and> p_enabled p AudioOutput \<and> p_prices p AudioInput = []"

definition has_ratios :: "model_data \<Rightarrow> bool" where
  "has_ratios d \<longleftrightarrow> md_ratio d \<noteq> [] \<or> list_ex (\<lambda>lane. md_lane d lane \<noteq> []) laneConfigs"

definition warnings :: "panel \<Rightarrow> warning list" where
  "warnings p =
     (if case p_edit p of Some d \<Rightarrow> md_price d \<noteq> [] \<and> has_ratios d | None \<Rightarrow> False then [BothSettings] else []) @
     (if lacks_input_price p then [InputPriceRequired] else []) @
     (if lacks_audio_input p then [AudioInputRequired] else [])"

datatype pricing_submit = NameRequired | NeedsInputPrice | NeedsAudioInput | SavePricing model_data

definition submitted :: "panel \<Rightarrow> model_data" where
  "submitted p =
     (let f = p_form p; tiered = p_mode p = TieredExpr in
      \<lparr>md_name = trim (f_name f), md_mode = p_mode p, md_price = f_price f, md_ratio = f_ratio f, md_lane = f_lane f,
       md_expr = (if tiered then Some (p_expr p) else None), md_rules = (if tiered then Some (p_rules p) else None)\<rparr>)"

definition handleSubmit :: "panel \<Rightarrow> pricing_submit" where
  "handleSubmit p =
     (if f_name (p_form p) = [] then NameRequired
      else if lacks_input_price p then NeedsInputPrice
      else if lacks_audio_input p then NeedsAudioInput
      else SavePricing (submitted p))"

definition preview_value :: "bool \<Rightarrow> jstring \<Rightarrow> jstring" where
  "preview_value shown price = (if shown \<and> price \<noteq> [] then lit ''$'' @ price else lit ''Empty'')"

definition buildPreviewRows :: "panel \<Rightarrow> (string \<times> jstring) list" where
  "buildPreviewRows p =
     (case p_mode p of
        TieredExpr \<Rightarrow>
          (let effectiveExpr = combineBillingExpr (p_expr p) (p_rules p) in
           [(''mode'', lit ''tiered_expr''), (''expr'', if effectiveExpr \<noteq> [] then effectiveExpr else lit ''Empty'')])
      | PerRequest \<Rightarrow> [(''price'', if f_price (p_form p) \<noteq> [] then f_price (p_form p) else lit ''Empty'')]
      | PerToken \<Rightarrow>
          (''inputPrice'', preview_value True (p_prompt p)) #
          map (\<lambda>(key, lane). (key, preview_value (p_enabled p lane) (p_prices p lane)))
            [(''completion'', Completion), (''cache'', Cache), (''createCache'', CreateCache), (''image'', ImageLane),
             (''audio'', AudioInput), (''audioCompletion'', AudioOutput)])"

section \<open>The settings\<close>

datatype pricing_key = ModelPrice | ModelRatio | LaneRatio lane | BillingMode | BillingExpr

definition pricing_keys :: "pricing_key list" where
  "pricing_keys = [ModelPrice, ModelRatio] @ map LaneRatio [Cache, CreateCache, Completion, ImageLane, AudioInput, AudioOutput] @
     [BillingMode, BillingExpr]"

type_synonym pricing_texts = "pricing_key \<Rightarrow> jstring"

definition all_objects :: "pricing_texts \<Rightarrow> bool" where
  "all_objects texts \<longleftrightarrow> list_all (\<lambda>k. parse_map (texts k) \<noteq> None) pricing_keys"

definition map_at :: "pricing_texts \<Rightarrow> pricing_key \<Rightarrow> obj" where
  "map_at texts k = the (parse_map (texts k))"

definition all_texts :: "(pricing_key \<Rightarrow> obj) \<Rightarrow> pricing_texts" where
  "all_texts maps k = json_pretty (JObj (maps k))"

definition handleDelete :: "jstring \<Rightarrow> pricing_texts \<Rightarrow> pricing_texts option" where
  "handleDelete name texts =
     (if all_objects texts then Some (all_texts (\<lambda>k. obj_del name (map_at texts k))) else None)"

definition setIfPresent :: "jstring \<Rightarrow> jstring \<Rightarrow> obj \<Rightarrow> obj" where
  "setIfPresent name value target =
     (if value = [] then target
      else let parsed = parseFloat value in if is_finite parsed then assign name (JNum parsed) target else target)"

definition combined_expr :: "model_data \<Rightarrow> jstring" where
  "combined_expr data = combineBillingExpr (text_of (md_expr data)) (text_of (md_rules data))"

text \<open>What is written for a model under one key, after the old entry was deleted.\<close>

definition write_key :: "model_data \<Rightarrow> jstring \<Rightarrow> pricing_key \<Rightarrow> obj \<Rightarrow> obj" where
  "write_key data name k m =
     (let tiered = md_mode data = TieredExpr; fixed = md_price data \<noteq> [] in
      case k of
        ModelPrice \<Rightarrow> if tiered \<or> fixed then setIfPresent name (md_price data) m else m
      | ModelRatio \<Rightarrow> if tiered \<or> \<not> fixed then setIfPresent name (md_ratio data) m else m
      | LaneRatio lane \<Rightarrow> if tiered \<or> \<not> fixed then setIfPresent name (md_lane data lane) m else m
      | BillingMode \<Rightarrow> if tiered \<and> combined_expr data \<noteq> [] then assign name (jstr_lit ''tiered_expr'') m else m
      | BillingExpr \<Rightarrow> if tiered \<and> combined_expr data \<noteq> [] then assign name (JStr (combined_expr data)) m else m)"

definition write_target :: "model_data \<Rightarrow> (pricing_key \<Rightarrow> obj) \<Rightarrow> jstring \<Rightarrow> pricing_key \<Rightarrow> obj" where
  "write_target data maps name k = write_key data name k (obj_del name (maps k))"

definition persistPricingData :: "model_data \<Rightarrow> jstring list \<Rightarrow> pricing_texts \<Rightarrow> pricing_texts option" where
  "persistPricingData data targetNames texts =
     (if all_objects texts then Some (all_texts (foldl (write_target data) (map_at texts) targetNames)) else None)"

section \<open>The table\<close>

record model_row = model_data +
  hasConflict :: bool

text \<open>\<^verbatim>\<open>map[name]?.toString() || ''\<close>\<close>

definition entry_text :: "(jstring \<Rightarrow> jstring) \<Rightarrow> jstring \<Rightarrow> obj \<Rightarrow> jstring" where
  "entry_text native name m =
     (case map_of m name of
        Some v \<Rightarrow> if nullish v then [] else str_of v
      | None \<Rightarrow> if inherited name then native name else [])"

text \<open>The expression of a model, split. Only texts can be split.\<close>

definition expr_parts :: "jval \<Rightarrow> (jstring \<times> jstring) option" where
  "expr_parts v =
     (case jor v (JStr []) of
        JStr s \<Rightarrow> (case splitBillingExprAndRequestRules s of Ret (e, rules) \<Rightarrow> Some (e, rules) | Throw \<Rightarrow> None)
      | _ \<Rightarrow> None)"

definition model_row_of :: "(jstring \<Rightarrow> jstring) \<Rightarrow> pricing_texts \<Rightarrow> jstring \<Rightarrow> model_row option" where
  "model_row_of native texts name =
     (let field = (\<lambda>k. entry_text native name (map_at texts k));
          price = field ModelPrice; ratio = field ModelRatio; lanes = (\<lambda>lane. field (LaneRatio lane)) in
      if map_of (map_at texts BillingMode) name = Some (jstr_lit ''tiered_expr'') then
        (if map_of (map_at texts BillingExpr) name = None \<and> inherited name then None
         else map_option (\<lambda>(e, rules).
           \<lparr>md_name = name, md_mode = TieredExpr, md_price = price, md_ratio = ratio, md_lane = lanes,
            md_expr = Some e, md_rules = Some rules, hasConflict = False\<rparr>)
           (expr_parts (obj_get name (map_at texts BillingExpr))))
      else Some
        \<lparr>md_name = name, md_mode = (if price \<noteq> [] then PerRequest else PerToken), md_price = price, md_ratio = ratio,
         md_lane = lanes, md_expr = None, md_rules = None,
         hasConflict = (price \<noteq> [] \<and> (ratio \<noteq> [] \<or> list_ex (\<lambda>lane. lanes lane \<noteq> []) laneConfigs))\<rparr>)"

definition modelNames :: "pricing_texts \<Rightarrow> jstring list" where
  "modelNames texts = uniq (concat (map (\<lambda>k. map fst (map_at texts k)) pricing_keys))"

definition models :: "(jstring \<Rightarrow> jstring) \<Rightarrow> (jstring \<Rightarrow> jstring \<Rightarrow> int) \<Rightarrow> pricing_texts \<Rightarrow> model_row list option" where
  "models native cmp texts =
     (if \<not> all_objects texts then None
      else let rows = map (model_row_of native texts) (modelNames texts) in
        if None \<in> set rows then None
        else Some (js_sort (\<lambda>a b. cmp (md_name a) (md_name b)) (map the rows)))"

definition modeCounts :: "model_row list \<Rightarrow> pricing_mode \<Rightarrow> nat" where
  "modeCounts rows mode = length (filter (\<lambda>r. md_mode r = mode) rows)"

definition filterBySelectedValues :: "jstring \<Rightarrow> jstring list \<Rightarrow> bool" where
  "filterBySelectedValues rowValue filterValue \<longleftrightarrow> filterValue = [] \<or> rowValue \<in> set filterValue"

definition getModeLabel :: "pricing_mode \<Rightarrow> string" where
  "getModeLabel mode = (case mode of PerRequest \<Rightarrow> ''Per-request'' | TieredExpr \<Rightarrow> ''Expression'' | PerToken \<Rightarrow> ''Per-token'')"

definition getModeVariant :: "pricing_mode \<Rightarrow> string" where
  "getModeVariant mode = (case mode of PerRequest \<Rightarrow> ''warning'' | TieredExpr \<Rightarrow> ''info'' | PerToken \<Rightarrow> ''success'')"

definition getModeBadgeVariant :: "pricing_mode \<Rightarrow> string" where
  "getModeBadgeVariant mode = (case mode of PerRequest \<Rightarrow> ''secondary'' | TieredExpr \<Rightarrow> ''default'' | PerToken \<Rightarrow> ''outline'')"

definition ratioToPrice :: "jstring \<Rightarrow> jstring option \<Rightarrow> jstring" where
  "ratioToPrice ratio denominator =
     (case (toNumberOrNull ratio, if text_of denominator \<noteq> [] then toNumberOrNull (text_of denominator) else Some (Fin 2)) of
        (Some r, Some d) \<Rightarrow> formatPricingNumber (jmul r d)
      | _ \<Rightarrow> [])"

text \<open>The summary of a row; the separator is a middle dot.\<close>

definition getExpressionSummary :: "model_row \<Rightarrow> jstring" where
  "getExpressionSummary row =
     (let tierCount = length (exec_all (str (lit ''tier('')) None (text_of (md_expr row))) in
      if 0 < tierCount then lit ''Tiered pricing '' @ [183, 32] @ nat_str tierCount @ lit '' tiers'' else lit ''Expression pricing'')"

definition getPriceSummary :: "model_row \<Rightarrow> jstring" where
  "getPriceSummary row =
     (case md_mode row of
        TieredExpr \<Rightarrow> getExpressionSummary row
      | PerRequest \<Rightarrow> if md_price row \<noteq> [] then lit ''$'' @ md_price row @ lit '' / request'' else lit ''Unset price''
      | PerToken \<Rightarrow>
          (let inputPrice = ratioToPrice (md_ratio row) None;
               extraCount = length (filter (\<lambda>lane. md_lane row lane \<noteq> []) laneConfigs) in
           if inputPrice = [] then lit ''Unset price''
           else lit ''Input $'' @ inputPrice @
             (if 0 < extraCount then [32, 183, 32] @ nat_str extraCount @ lit '' extras'' else [])))"

definition getPriceDetail :: "model_row \<Rightarrow> jstring" where
  "getPriceDetail row =
     (case md_mode row of
        TieredExpr \<Rightarrow> if text_of (md_rules row) \<noteq> [] then lit ''Includes request rules'' else lit ''Expression based''
      | PerRequest \<Rightarrow> lit ''Fixed request price''
      | PerToken \<Rightarrow>
          (let inputPrice = ratioToPrice (md_ratio row) None;
               details = concat (map (\<lambda>(label, lane). if md_lane row lane = [] then []
                   else [lit label @ lit '' $'' @ ratioToPrice (md_lane row lane) (Some inputPrice)])
                 [(''Output'', Completion), (''Cache'', Cache), (''Cache write'', CreateCache)]) in
           if inputPrice = [] then lit ''No base input price''
           else if details \<noteq> [] then join [32, 183, 32] details else lit ''Base input price only''))"

section \<open>The editor\<close>

record pricing_editor =
  t_texts :: pricing_texts
  t_edit :: "model_data option"
  t_editorOpen :: bool
  t_sheetOpen :: bool
  t_filter :: jstring
  t_panel :: panel

text \<open>The form is loaded again when \<^verbatim>\<open>editData\<close> is another object (every edit makes a new one) and when it appears.\<close>

definition show_panel :: "bool \<Rightarrow> model_data option \<Rightarrow> pricing_editor \<Rightarrow> pricing_editor" where
  "show_panel mobile editData st =
     st\<lparr>t_edit := editData, t_editorOpen := True, t_sheetOpen := (mobile \<or> t_sheetOpen st),
        t_panel := (if t_editorOpen st \<and> t_edit st = None \<and> editData = None then t_panel st else load_panel editData)\<rparr>"

definition handleEdit :: "bool \<Rightarrow> model_row \<Rightarrow> pricing_editor \<Rightarrow> pricing_editor" where
  "handleEdit mobile row st =
     show_panel mobile (Some
       \<lparr>md_name = md_name row,
        md_mode = (if md_mode row = TieredExpr then TieredExpr else if md_price row \<noteq> [] then PerRequest else PerToken),
        md_price = md_price row, md_ratio = md_ratio row, md_lane = md_lane row, md_expr = md_expr row, md_rules = md_rules row\<rparr>) st"

definition handleAdd :: "bool \<Rightarrow> pricing_editor \<Rightarrow> pricing_editor" where
  "handleAdd mobile st = show_panel mobile None st"

definition handleCancel :: "pricing_editor \<Rightarrow> pricing_editor" where
  "handleCancel st = st\<lparr>t_edit := None, t_editorOpen := False, t_sheetOpen := False\<rparr>"

definition handleGlobalFilterChange :: "jstring \<Rightarrow> pricing_editor \<Rightarrow> pricing_editor" where
  "handleGlobalFilterChange next st =
     (if next \<noteq> t_filter st then handleCancel (st\<lparr>t_filter := next\<rparr>) else st)"

definition handleSavePricing :: "model_data \<Rightarrow> pricing_editor \<Rightarrow> pricing_editor option" where
  "handleSavePricing data st =
     map_option (\<lambda>texts. st\<lparr>t_texts := texts, t_edit := Some data, t_editorOpen := True\<rparr>)
       (persistPricingData data [md_name data] (t_texts st))"

text \<open>A valid form is saved, reset and cancelled, in this order.\<close>

definition submit_panel :: "pricing_editor \<Rightarrow> pricing_editor option" where
  "submit_panel st =
     (case handleSubmit (t_panel st) of
        SavePricing data \<Rightarrow> map_option handleCancel (handleSavePricing data st)
      | _ \<Rightarrow> Some st)"

definition handleBatchCopy :: "jstring list \<Rightarrow> pricing_editor \<Rightarrow> pricing_editor option" where
  "handleBatchCopy targetNames st =
     (case t_edit st of
        None \<Rightarrow> Some st
      | Some editData \<Rightarrow>
          if targetNames = [] then Some st
          else map_option (\<lambda>texts. st\<lparr>t_texts := texts\<rparr>) (persistPricingData editData targetNames (t_texts st)))"

datatype panel_event =
    TypeName jstring | TypePrice jstring | PromptPrice jstring | LanePrice lane jstring | LaneToggle lane bool
  | ModeChange pricing_mode | ExprChange jstring | RulesChange jstring

fun panel_handle :: "panel_event \<Rightarrow> panel \<Rightarrow> panel" where
  "panel_handle (TypeName s) p = type_name s p"
| "panel_handle (TypePrice s) p = type_price s p"
| "panel_handle (PromptPrice s) p = handlePromptPriceChange s p"
| "panel_handle (LanePrice lane s) p = handleLanePriceChange lane s p"
| "panel_handle (LaneToggle lane b) p = handleLaneToggle lane b p"
| "panel_handle (ModeChange m) p = handleModeChange m p"
| "panel_handle (ExprChange s) p = p\<lparr>p_expr := s\<rparr>"
| "panel_handle (RulesChange s) p = p\<lparr>p_rules := s\<rparr>"

text \<open>Fields that are disabled take no input: the name of an existing model, the price of a lane that is off, and the lane of
  audio output without an audio input price.\<close>

definition lane_blocked :: "lane \<Rightarrow> panel \<Rightarrow> bool" where
  "lane_blocked lane p \<longleftrightarrow> lane = AudioOutput \<and> (\<not> p_enabled p AudioInput \<or> p_prices p AudioInput = [])"

definition panel_event_ok :: "panel \<Rightarrow> panel_event \<Rightarrow> bool" where
  "panel_event_ok p ev \<longleftrightarrow>
     (case ev of
        TypeName _ \<Rightarrow> p_edit p = None
      | LanePrice lane _ \<Rightarrow> p_enabled p lane \<and> \<not> lane_blocked lane p
      | LaneToggle lane _ \<Rightarrow> \<not> lane_blocked lane p
      | _ \<Rightarrow> True)"

datatype table_event =
    EditRow model_row | AddModel | CancelEdit | GlobalFilter jstring | DeleteModel jstring | BatchCopy "jstring list"
  | InPanel panel_event | SubmitPanel | TextsChanged pricing_texts

fun table_handle :: "bool \<Rightarrow> table_event \<Rightarrow> pricing_editor \<Rightarrow> pricing_editor option" where
  "table_handle mobile (EditRow row) st = Some (handleEdit mobile row st)"
| "table_handle mobile AddModel st = Some (handleAdd mobile st)"
| "table_handle mobile CancelEdit st = Some (handleCancel st)"
| "table_handle mobile (GlobalFilter s) st = Some (handleGlobalFilterChange s st)"
| "table_handle mobile (DeleteModel name) st = map_option (\<lambda>texts. st\<lparr>t_texts := texts\<rparr>) (handleDelete name (t_texts st))"
| "table_handle mobile (BatchCopy names) st = handleBatchCopy names st"
| "table_handle mobile (InPanel ev) st = Some (st\<lparr>t_panel := panel_handle ev (t_panel st)\<rparr>)"
| "table_handle mobile SubmitPanel st = submit_panel st"
| "table_handle mobile (TextsChanged texts) st = Some (st\<lparr>t_texts := texts\<rparr>)"

definition table_event_ok :: "pricing_editor \<Rightarrow> table_event \<Rightarrow> bool" where
  "table_event_ok st ev \<longleftrightarrow>
     (case ev of
        InPanel e \<Rightarrow> t_editorOpen st \<and> panel_event_ok (t_panel st) e
      | SubmitPanel \<Rightarrow> t_editorOpen st
      | _ \<Rightarrow> True)"

end
