(* ===== verification/Model_Pricing_Props.thy ===== *)
theory Model_Pricing_Props
  imports Model_Pricing
begin

text \<open>
  Properties of the model price editor: what a save writes under the ten settings and what it leaves alone, which of the two
  kinds of price wins, and how the ratios of the form follow the prices shown.
\<close>

section \<open>What a save writes\<close>

text \<open>The number a field stands for, and the value of a model under each key.\<close>

definition num_value :: "jstring \<Rightarrow> jval option" where
  "num_value s = (if s = [] then None else let x = parseFloat s in if is_finite x then Some (JNum x) else None)"

definition saved_value :: "model_data \<Rightarrow> pricing_key \<Rightarrow> jval option" where
  "saved_value data k =
     (let tiered = md_mode data = TieredExpr; fixed = md_price data \<noteq> []; combined = combined_expr data in
      case k of
        ModelPrice \<Rightarrow> num_value (md_price data)
      | ModelRatio \<Rightarrow> if tiered \<or> \<not> fixed then num_value (md_ratio data) else None
      | LaneRatio lane \<Rightarrow> if tiered \<or> \<not> fixed then num_value (md_lane data lane) else None
      | BillingMode \<Rightarrow> if tiered \<and> combined \<noteq> [] then Some (jstr_lit ''tiered_expr'') else None
      | BillingExpr \<Rightarrow> if tiered \<and> combined \<noteq> [] then Some (JStr combined) else None)"

definition texts_ok :: "pricing_texts \<Rightarrow> bool" where
  "texts_ok texts \<longleftrightarrow> list_all (\<lambda>k. map_text_ok (texts k)) pricing_keys"

definition num_ok :: "jstring \<Rightarrow> bool" where
  "num_ok s \<longleftrightarrow> (case num_value s of Some v \<Rightarrow> json_ok v | None \<Rightarrow> True)"

definition data_ok :: "model_data \<Rightarrow> bool" where
  "data_ok d \<longleftrightarrow>
     num_ok (md_price d) \<and> num_ok (md_ratio d) \<and> list_all (\<lambda>lane. num_ok (md_lane d lane)) laneConfigs \<and> unit_str (combined_expr d)"

definition name_ok :: "jstring \<Rightarrow> bool" where
  "name_ok n \<longleftrightarrow> key_ok n \<and> n \<noteq> lit ''__proto__''"

lemma all_lanes: "lane \<in> set laneConfigs"
  by (cases lane) (simp_all add: laneConfigs_def)

lemma all_keys: "k \<in> set pricing_keys"
proof (cases k)
  case (LaneRatio lane)
  then show ?thesis by (cases lane) (simp_all add: pricing_keys_def)
qed (simp_all add: pricing_keys_def)

lemma texts_okD: "texts_ok texts \<Longrightarrow> map_text_ok (texts k)"
  using all_keys [of k] by (auto simp: texts_ok_def list_all_iff)

lemma texts_okI: "(\<And>k. map_text_ok (texts k)) \<Longrightarrow> texts_ok texts"
  by (simp add: texts_ok_def list_all_iff)

lemma data_ok_lane: "data_ok d \<Longrightarrow> num_ok (md_lane d lane)"
  using all_lanes [of lane] by (auto simp: data_ok_def list_all_iff)

lemma num_okD: "num_ok s \<Longrightarrow> num_value s = Some v \<Longrightarrow> json_ok v"
  by (simp add: num_ok_def)

lemma tiered_text: "unit_str (lit ''tiered_expr'')"
  by code_simp

lemma saved_ok:
  assumes "data_ok d" and "saved_value d k = Some v"
  shows "json_ok v"
proof (cases k)
  case (LaneRatio lane)
  then show ?thesis using assms num_okD [OF data_ok_lane [OF assms(1)]] by (simp add: saved_value_def Let_def split: if_splits)
qed (use assms num_okD tiered_text in \<open>auto simp: saved_value_def data_ok_def Let_def simp del: list.map split: if_splits\<close>)

text \<open>An object with plain keys, as the settings hold them.\<close>

definition plain_obj :: "obj \<Rightarrow> bool" where
  "plain_obj m \<longleftrightarrow> json_ok (JObj m) \<and> list_all (\<lambda>(k, _). index_key k = None) m"

lemma plain_obj_del: "plain_obj m \<Longrightarrow> plain_obj (obj_del n m)"
  using json_ok_del [of m n] plain_del [of m n] by (simp add: plain_obj_def del: json_ok.simps)

lemma plain_obj_put: "plain_obj m \<Longrightarrow> key_ok n \<Longrightarrow> json_ok v \<Longrightarrow> plain_obj (obj_put n v m)"
  using json_ok_put [of m n v] plain_put [of m n v] by (simp add: plain_obj_def key_ok_def del: json_ok.simps)

lemma plain_obj_written: "plain_obj m \<Longrightarrow> map_text_ok (json_pretty (JObj m)) \<and> map_value (json_pretty (JObj m)) = map_of m"
  using map_text_written [of m] by (simp add: plain_obj_def del: json_ok.simps)

lemma map_at_ok:
  assumes "texts_ok texts"
  shows "all_objects texts" and "plain_obj (map_at texts k)" and "map_of (map_at texts k) = map_value (texts k)"
proof -
  have "parse_map (texts k) \<noteq> None" for k using texts_okD [OF assms, of k] by (auto elim: map_text_okE)
  then show "all_objects texts" by (simp add: all_objects_def list_all_iff)
  obtain m where m: "parse_map (texts k) = Some m" "json_ok (JObj m)" "list_all (\<lambda>(k, _). index_key k = None) m"
    using texts_okD [OF assms, of k] by (rule map_text_okE)
  then show "plain_obj (map_at texts k)" "map_of (map_at texts k) = map_value (texts k)"
    by (simp_all add: map_at_def plain_obj_def map_value_def fun_eq_iff del: json_ok.simps)
qed

lemma setIfPresent_value:
  assumes "name_ok n" and "map_of m n = None"
  shows "setIfPresent n s m = (case num_value s of Some v \<Rightarrow> obj_put n v m | None \<Rightarrow> m)"
  using assms by (simp add: setIfPresent_def num_value_def name_ok_def assign_put Let_def)

lemma write_key_value:
  assumes "name_ok n" and "map_of m n = None"
  shows "write_key d n k m = (case saved_value d k of Some v \<Rightarrow> obj_put n v m | None \<Rightarrow> m)"
  using assms setIfPresent_value [OF assms] assign_put [of n]
  by (cases k) (auto simp: write_key_def saved_value_def name_ok_def Let_def num_value_def)

lemma write_target_value:
  assumes "name_ok n" and "data_ok d" and "plain_obj (maps k)"
  shows "plain_obj (write_target d maps n k)" and "map_of (write_target d maps n k) = (map_of (maps k))(n := saved_value d k)"
proof -
  have p: "plain_obj (obj_del n (maps k))" by (rule plain_obj_del [OF assms(3)])
  have w: "write_target d maps n k = (case saved_value d k of Some v \<Rightarrow> obj_put n v (obj_del n (maps k)) | None \<Rightarrow> obj_del n (maps k))"
    unfolding write_target_def by (rule write_key_value [OF assms(1)]) simp
  show "plain_obj (write_target d maps n k)"
    using p plain_obj_put [OF p] saved_ok [OF assms(2), of k] assms(1) by (auto simp: w name_ok_def split: option.splits)
  show "map_of (write_target d maps n k) = (map_of (maps k))(n := saved_value d k)"
    by (auto simp: w fun_eq_iff split: option.splits)
qed

lemma write_targets_value:
  assumes "list_all name_ok names" and "data_ok d" and "\<And>k. plain_obj (maps k)"
  shows "plain_obj (foldl (write_target d) maps names k) \<and>
    map_of (foldl (write_target d) maps names k) = (\<lambda>n. if n \<in> set names then saved_value d k else map_of (maps k) n)"
  using assms(1,3)
proof (induction names arbitrary: maps)
  case (Cons n names)
  have "\<And>k. plain_obj (write_target d maps n k)" using write_target_value(1) assms(2) Cons.prems by simp
  from Cons.IH [OF _ this] Cons.prems write_target_value(2) [of n d maps k] assms(2) show ?case by (auto simp: fun_eq_iff)
qed simp

text \<open>C26: Saving the prices of a model, for itself or for the models selected for a bulk copy, rewrites exactly these models:
  under every setting each of them has the value of the form (or no entry), and every other model keeps its entry.\<close>

theorem save_exact:
  assumes "texts_ok texts" and "data_ok data" and "list_all name_ok targetNames"
  shows "\<exists>texts'. persistPricingData data targetNames texts = Some texts' \<and> texts_ok texts' \<and>
    (\<forall>k n. map_value (texts' k) n = (if n \<in> set targetNames then saved_value data k else map_value (texts k) n))"
proof -
  let ?maps = "foldl (write_target data) (map_at texts) targetNames"
  have w: "plain_obj (?maps k)" "map_of (?maps k) = (\<lambda>n. if n \<in> set targetNames then saved_value data k else map_value (texts k) n)" for k
    using write_targets_value [OF assms(3,2), of "map_at texts" k] map_at_ok [OF assms(1)] by auto
  have "map_text_ok (all_texts ?maps k)" "map_value (all_texts ?maps k) = map_of (?maps k)" for k
    using plain_obj_written [OF w(1)] by (simp_all add: all_texts_def)
  then show ?thesis
    using map_at_ok(1) [OF assms(1)] w(2) texts_okI [of "all_texts ?maps"] by (auto simp: persistPricingData_def)
qed

definition sample_texts :: pricing_texts where
  "sample_texts k =
     (case k of
        ModelPrice \<Rightarrow> lit ''{\"dall\":0.5}''
      | ModelRatio \<Rightarrow> lit ''{\"gpt\":1.5}''
      | LaneRatio lane \<Rightarrow> if lane = Completion then lit ''{\"gpt\":4}'' else []
      | _ \<Rightarrow> [])"

definition sample_data :: model_data where
  "sample_data = \<lparr>md_name = lit ''gpt'', md_mode = PerToken, md_price = [], md_ratio = lit ''2'',
     md_lane = (\<lambda>lane. if lane = Cache then lit ''0.5'' else []), md_expr = None, md_rules = None\<rparr>"

lemma sample_texts_ok: "texts_ok sample_texts"
  by code_simp

theorem save_exact_witness:
  "\<exists>texts'. persistPricingData sample_data [lit ''gpt'', lit ''new''] sample_texts = Some texts' \<and>
     map_value (texts' ModelRatio) (lit ''new'') = Some (JNum (Fin 2)) \<and>
     map_value (texts' (LaneRatio Completion)) (lit ''gpt'') = None \<and>
     map_value (texts' ModelPrice) (lit ''dall'') = Some (JNum (Fin (1/2)))"
proof -
  have n: "list_all name_ok [lit ''gpt'', lit ''new'']" "data_ok sample_data" by code_simp+
  have v: "saved_value sample_data ModelRatio = Some (JNum (Fin 2))" "saved_value sample_data (LaneRatio Completion) = None"
      "map_value (sample_texts ModelPrice) (lit ''dall'') = Some (JNum (Fin (1/2)))" "lit ''dall'' \<noteq> lit ''gpt''" "lit ''dall'' \<noteq> lit ''new''"
    by code_simp+
  from save_exact [OF sample_texts_ok n(2,1)] obtain t where "persistPricingData sample_data [lit ''gpt'', lit ''new''] sample_texts = Some t"
    "\<forall>k n. map_value (t k) n = (if n \<in> set [lit ''gpt'', lit ''new''] then saved_value sample_data k else map_value (sample_texts k) n)" by blast
  with v show ?thesis by (simp del: list.map)
qed

text \<open>Deleting a model removes it under every setting and leaves the others.\<close>

lemma delete_exact:
  assumes "texts_ok texts"
  shows "\<exists>texts'. handleDelete name texts = Some texts' \<and> texts_ok texts' \<and>
    (\<forall>k n. map_value (texts' k) n = (if n = name then None else map_value (texts k) n))"
proof -
  let ?maps = "\<lambda>k. obj_del name (map_at texts k)"
  have w: "plain_obj (?maps k)" for k using plain_obj_del map_at_ok(2) [OF assms] by blast
  have "map_text_ok (all_texts ?maps k)" "map_value (all_texts ?maps k) = map_of (?maps k)" for k
    using plain_obj_written [OF w] by (simp_all add: all_texts_def)
  then show ?thesis
    using map_at_ok [OF assms] texts_okI [of "all_texts ?maps"] by (auto simp: handleDelete_def)
qed

section \<open>The row of a saved model\<close>

definition shown :: "jval option \<Rightarrow> jstring" where
  "shown v = (case v of Some x \<Rightarrow> str_of x | None \<Rightarrow> [])"

lemma entry_text_shown:
  "\<not> inherited n \<Longrightarrow> map_of m n = num_value s \<Longrightarrow> entry_text native n m = shown (num_value s)"
  by (auto simp: entry_text_def shown_def num_value_def nullish_def Let_def split: option.splits)

lemma model_row_saved:
  assumes "texts_ok texts" and "\<And>k. map_value (texts k) n = saved_value data k" and "md_mode data \<noteq> TieredExpr" and "\<not> inherited n"
  shows "\<exists>row. model_row_of native texts n = Some row \<and> \<not> hasConflict row \<and>
    md_mode row = (if shown (num_value (md_price data)) \<noteq> [] then PerRequest else PerToken)"
proof -
  let ?m = "\<lambda>k. map_at texts k"
  have v: "map_of (?m k) n = saved_value data k" for k using map_at_ok(3) [OF assms(1)] assms(2) by simp
  have e: "entry_text native n (?m k) = (case saved_value data k of Some x \<Rightarrow> if nullish x then [] else str_of x | None \<Rightarrow> [])" for k
    using v [of k] assms(4) by (simp add: entry_text_def split: option.splits)
  have p: "entry_text native n (?m ModelPrice) = shown (num_value (md_price data))"
    by (rule entry_text_shown [OF assms(4)]) (simp add: v saved_value_def)
  have r: "md_price data \<noteq> [] \<Longrightarrow> entry_text native n (?m k) = []" if "k = ModelRatio \<or> (\<exists>lane. k = LaneRatio lane)" for k
    using that assms(3) by (auto simp: e saved_value_def Let_def)
  have s: "shown (num_value (md_price data)) \<noteq> [] \<Longrightarrow> md_price data \<noteq> []" by (auto simp: num_value_def shown_def)
  have b: "map_of (?m BillingMode) n \<noteq> Some (jstr_lit ''tiered_expr'')" using assms(3) by (simp add: v saved_value_def)
  have r': "shown (num_value (md_price data)) \<noteq> [] \<Longrightarrow> entry_text native n (?m k) = []"
      if "k = ModelRatio \<or> (\<exists>lane. k = LaneRatio lane)" for k
    using r [OF that] s by blast
  show ?thesis
    using b r' [of ModelRatio] r' [of "LaneRatio lane" for lane]
    by (auto simp: model_row_of_def p Let_def list_ex_iff simp del: list.map)
qed

text \<open>C27: What is saved does not depend on the tab the form shows: when a model has a fixed price and the form is saved in the
  per-token mode, the fixed price is written again and the token prices just typed are lost.\<close>

theorem per_token_save_lost:
  assumes "texts_ok texts" and "handleSubmit p = SavePricing data" and "p_mode p = PerToken" and "data_ok data" and "name_ok (md_name data)"
    and "f_price (p_form p) \<noteq> []"
  shows "\<exists>texts'. persistPricingData data [md_name data] texts = Some texts' \<and>
    map_value (texts' ModelPrice) (md_name data) = num_value (f_price (p_form p)) \<and>
    map_value (texts' ModelRatio) (md_name data) = None \<and>
    (\<forall>lane. map_value (texts' (LaneRatio lane)) (md_name data) = None)"
proof -
  have d: "md_price data = f_price (p_form p)" "md_mode data = PerToken"
    using assms(2,3) by (auto simp: handleSubmit_def submitted_def Let_def split: if_splits)
  have n: "list_all name_ok [md_name data]" using assms(5) by simp
  obtain t where "persistPricingData data [md_name data] texts = Some t"
      "\<forall>k n. map_value (t k) n = (if n \<in> set [md_name data] then saved_value data k else map_value (texts k) n)"
    using save_exact [OF assms(1,4) n] by blast
  then show ?thesis using d assms(6) by (simp add: saved_value_def)
qed

lemma set_lane_sel [simp]:
  "p_prices (set_lane l s p) = p_prices p" "p_enabled (set_lane l s p) = p_enabled p" "p_prompt (set_lane l s p) = p_prompt p"
  "p_mode (set_lane l s p) = p_mode p" "p_edit (set_lane l s p) = p_edit p"
  "f_ratio (p_form (set_lane l s p)) = f_ratio (p_form p)" "f_lane (p_form (set_lane l s p)) = (f_lane (p_form p))(l := s)"
  by (simp_all add: set_lane_def)

lemma sync_sel [simp]:
  "p_prices (syncLaneRatios pp pr en p) = p_prices p" "p_enabled (syncLaneRatios pp pr en p) = p_enabled p"
  "p_prompt (syncLaneRatios pp pr en p) = p_prompt p"
  "f_ratio (p_form (syncLaneRatios pp pr en p)) =
     (case toNumberOrNull pp of None \<Rightarrow> [] | Some inputPrice \<Rightarrow> formatPricingNumber (jdiv inputPrice (Fin 2)))"
  "f_lane (p_form (syncLaneRatios pp pr en p)) = lane_ratio pp pr en"
proof -
  show "f_lane (p_form (syncLaneRatios pp pr en p)) = lane_ratio pp pr en"
  proof
    fix lane show "f_lane (p_form (syncLaneRatios pp pr en p)) lane = lane_ratio pp pr en lane"
      by (cases lane) (simp_all add: syncLaneRatios_def laneConfigs_def)
  qed
qed (simp_all add: syncLaneRatios_def laneConfigs_def)

definition fixed_row :: model_data where
  "fixed_row = \<lparr>md_name = lit ''dall'', md_mode = PerRequest, md_price = lit ''0.5'', md_ratio = [], md_lane = (\<lambda>_. []),
     md_expr = None, md_rules = None\<rparr>"

definition fixed_panel :: panel where
  "fixed_panel = handlePromptPriceChange (lit ''3'') (handleModeChange PerToken (load_panel (Some fixed_row)))"

lemma three: "toNumberOrNull (lit ''3'') = Some (Fin 3)" "re_test numericDraftRegex (lit ''3'')"
  by code_simp+

lemma half_of_three: "formatPricingNumber (jdiv (Fin 3) (Fin 2)) = lit ''1.5''"
proof -
  have "jdiv (Fin 3) (Fin 2) = Fin (3/2)" "formatPricingNumber (Fin (3/2)) = lit ''1.5''" by code_simp+
  then show ?thesis by simp
qed

lemma set_lane_form [simp]:
  "f_name (p_form (set_lane l s p)) = f_name (p_form p)" "f_price (p_form (set_lane l s p)) = f_price (p_form p)"
  by (simp_all add: set_lane_def)

lemma fixed_panel_sel:
  "p_mode fixed_panel = PerToken" "p_prompt fixed_panel = lit ''3''" "p_enabled fixed_panel = (\<lambda>_. False)"
  "f_name (p_form fixed_panel) = lit ''dall''" "f_price (p_form fixed_panel) = lit ''0.5''" "f_ratio (p_form fixed_panel) = lit ''1.5''"
  "f_lane (p_form fixed_panel) = (\<lambda>_. [])"
proof -
  have e: "p_enabled (load_panel (Some fixed_row)) = (\<lambda>_. False)"
    by (simp add: load_panel_def createInitialLaneState_def fixed_row_def Let_def del: list.map)
  show "p_mode fixed_panel = PerToken" "p_prompt fixed_panel = lit ''3''" "p_enabled fixed_panel = (\<lambda>_. False)"
    "f_name (p_form fixed_panel) = lit ''dall''" "f_price (p_form fixed_panel) = lit ''0.5''"
    using e three(2)
    by (simp_all add: fixed_panel_def handlePromptPriceChange_def syncLaneRatios_def laneConfigs_def handleModeChange_def
        load_panel_def fixed_row_def Let_def del: list.map)
  show "f_ratio (p_form fixed_panel) = lit ''1.5''" "f_lane (p_form fixed_panel) = (\<lambda>_. [])"
    using e by (simp_all add: fixed_panel_def handlePromptPriceChange_def three half_of_three handleModeChange_def lane_ratio_def
        fun_eq_iff del: list.map jdiv.simps)
qed

theorem per_token_save_lost_witness:
  "\<exists>data texts'. handleSubmit fixed_panel = SavePricing data \<and> md_ratio data = lit ''1.5'' \<and>
     persistPricingData data [lit ''dall''] sample_texts = Some texts' \<and>
     map_value (texts' ModelPrice) (lit ''dall'') = Some (JNum (Fin (1/2))) \<and> map_value (texts' ModelRatio) (lit ''dall'') = None"
proof -
  let ?d = "submitted fixed_panel"
  have d: "?d = \<lparr>md_name = lit ''dall'', md_mode = PerToken, md_price = lit ''0.5'', md_ratio = lit ''1.5'', md_lane = (\<lambda>_. []),
      md_expr = None, md_rules = None\<rparr>"
  proof -
    have "trim (lit ''dall'') = lit ''dall''" by code_simp
    then show ?thesis by (simp add: submitted_def fixed_panel_sel Let_def del: list.map)
  qed
  have s: "handleSubmit fixed_panel = SavePricing ?d"
    by (simp add: handleSubmit_def lacks_input_price_def lacks_audio_input_def fixed_panel_sel list_ex_iff)
  have ok: "num_ok (lit ''0.5'')" "num_ok (lit ''1.5'')" "name_ok (lit ''dall'')" "num_value (lit ''0.5'') = Some (JNum (Fin (1/2)))" "unit_str []"
    by code_simp+
  have "combined_expr ?d = []" "num_ok []" by (simp_all add: d combined_expr_def text_of_def combineBillingExpr_def num_ok_def num_value_def)
  then have "data_ok ?d" using ok(1,2,5) by (simp add: data_ok_def d list_all_iff del: list.map)
  from per_token_save_lost [OF sample_texts_ok s fixed_panel_sel(1) this] s ok(3,4) show ?thesis
    by (auto simp: d fixed_panel_sel simp del: list.map)
qed

section \<open>The ratios follow the prices\<close>

inductive panel_reachable :: "model_data option \<Rightarrow> panel \<Rightarrow> bool" for editData where
  load: "panel_reachable editData (load_panel editData)"
| step: "panel_reachable editData p \<Longrightarrow> panel_event_ok p ev \<Longrightarrow> panel_reachable editData (panel_handle ev p)"

text \<open>A lane that is off has no price and no ratio.\<close>

definition off_blank :: "panel \<Rightarrow> bool" where
  "off_blank p \<longleftrightarrow> (\<forall>lane. \<not> p_enabled p lane \<longrightarrow> p_prices p lane = [] \<and> f_lane (p_form p) lane = [])"

lemma off_blank_load: "off_blank (load_panel editData)"
  by (cases editData)
    (auto simp: off_blank_def load_panel_def createInitialLaneState_def empty_form_def lane_price_def deriveLanePrice_def
      toNumberOrNull_def Let_def)

lemma off_blank_step:
  assumes "off_blank p" and "panel_event_ok p ev"
  shows "off_blank (panel_handle ev p)"
proof (cases ev)
  case (LanePrice l s)
  then have "p_enabled p l" using assms(2) by (simp add: panel_event_ok_def)
  then have "\<not> p_enabled p lane \<Longrightarrow> p_prices (handleLanePriceChange l s p) lane = p_prices p lane \<and>
      f_lane (p_form (handleLanePriceChange l s p)) lane = f_lane (p_form p) lane" for lane
    by (auto simp: handleLanePriceChange_def Let_def)
  moreover have "p_enabled (handleLanePriceChange l s p) = p_enabled p" by (simp add: handleLanePriceChange_def Let_def)
  ultimately show ?thesis using assms(1) LanePrice by (simp add: off_blank_def)
next
  case (LaneToggle l b)
  show ?thesis
  proof (cases b)
    case True
    with LaneToggle assms(1) show ?thesis by (simp add: off_blank_def handleLaneToggle_def)
  next
    case False
    with LaneToggle assms(1) show ?thesis by (simp add: off_blank_def handleLaneToggle_def Let_def)
  qed
next
  case (PromptPrice s)
  then show ?thesis using assms(1) by (simp add: off_blank_def handlePromptPriceChange_def lane_ratio_def)
qed (use assms in \<open>simp_all add: off_blank_def type_name_def type_price_def handleModeChange_def\<close>)

lemma off_blank_reach: "panel_reachable editData p \<Longrightarrow> off_blank p"
  by (induction rule: panel_reachable.induct) (simp_all add: off_blank_load off_blank_step)

text \<open>C28: In every reachable state of the form, a lane that is switched off has no price and no ratio, so no save writes an
  entry for it, whatever was loaded and edited before.\<close>

theorem off_lane_omitted:
  assumes "panel_reachable editData p" and "handleSubmit p = SavePricing data" and "\<not> p_enabled p lane"
  shows "p_prices p lane = [] \<and> saved_value data (LaneRatio lane) = None"
proof -
  have "p_prices p lane = []" "f_lane (p_form p) lane = []" using off_blank_reach [OF assms(1)] assms(3) by (auto simp: off_blank_def)
  moreover have "md_lane data = f_lane (p_form p)"
    using assms(2) by (auto simp: handleSubmit_def submitted_def Let_def split: if_splits)
  ultimately show ?thesis by (simp add: saved_value_def num_value_def)
qed

definition cached_row :: model_data where
  "cached_row = fixed_row\<lparr>md_lane := (\<lambda>lane. if lane = Cache then lit ''0.5'' else [])\<rparr>"

definition sample_panel :: panel where
  "sample_panel = panel_handle (LaneToggle Cache False) (load_panel (Some cached_row))"

theorem off_lane_omitted_witness:
  "\<exists>data. handleSubmit sample_panel = SavePricing data \<and> md_price data = lit ''0.5'' \<and> saved_value data (LaneRatio Cache) = None"
proof -
  have r: "panel_reachable (Some cached_row) sample_panel"
    unfolding sample_panel_def
    by (rule panel_reachable.step [OF panel_reachable.load]) (simp add: panel_event_ok_def lane_blocked_def)
  have m: "p_mode sample_panel = PerRequest" "f_name (p_form sample_panel) = lit ''dall''" "f_price (p_form sample_panel) = lit ''0.5''"
      "\<not> p_enabled sample_panel Cache"
    by (simp_all add: sample_panel_def handleLaneToggle_def load_panel_def cached_row_def fixed_row_def Let_def del: list.map)
  have s: "handleSubmit sample_panel = SavePricing (submitted sample_panel)"
    by (simp add: handleSubmit_def lacks_input_price_def lacks_audio_input_def m)
  have "md_price (submitted sample_panel) = lit ''0.5''" by (simp add: submitted_def m Let_def del: list.map)
  with off_lane_omitted [OF r s m(4)] s show ?thesis by auto
qed

text \<open>The ratios that belong to the prices shown.\<close>

definition in_step :: "panel \<Rightarrow> bool" where
  "in_step p \<longleftrightarrow>
     f_ratio (p_form p) = (case toNumberOrNull (p_prompt p) of
        None \<Rightarrow> [] | Some inputPrice \<Rightarrow> formatPricingNumber (jdiv inputPrice (Fin 2))) \<and>
     f_lane (p_form p) = lane_ratio (p_prompt p) (p_prices p) (p_enabled p)"

lemma lane_ratio_price:
  "lane \<noteq> l \<Longrightarrow> \<not> (lane = AudioOutput \<and> l = AudioInput) \<Longrightarrow>
   lane_ratio pp (pr(l := s)) en lane = lane_ratio pp pr en lane"
  by (auto simp: lane_ratio_def deriveLaneRatio_def split: option.splits)

lemma in_step_price:
  assumes "in_step p"
  shows "in_step (handleLanePriceChange l s p)"
proof (cases "re_test numericDraftRegex s")
  case True
  have "f_lane (p_form (handleLanePriceChange l s p)) lane = lane_ratio (p_prompt p) ((p_prices p)(l := s)) (p_enabled p) lane" for lane
  proof (cases "lane = l \<or> (lane = AudioOutput \<and> l = AudioInput)")
    case False
    then show ?thesis
      using lane_ratio_price [of lane l] assms True by (auto simp: handleLanePriceChange_def in_step_def Let_def)
  next
    case same: True
    show ?thesis
    proof (cases "p_enabled p lane")
      case True
      with same \<open>re_test numericDraftRegex s\<close> show ?thesis
        by (auto simp: handleLanePriceChange_def lane_ratio_def Let_def)
    next
      case False
      have "f_lane (p_form p) lane = []" using assms False by (simp add: in_step_def lane_ratio_def)
      with same False show ?thesis by (auto simp: handleLanePriceChange_def lane_ratio_def Let_def)
    qed
  qed
  then show ?thesis using assms True by (auto simp: in_step_def handleLanePriceChange_def Let_def fun_eq_iff)
qed (use assms in \<open>simp add: handleLanePriceChange_def\<close>)

lemma in_step_toggle:
  assumes "in_step p"
  shows "in_step (handleLaneToggle l b p)"
proof -
  have "f_lane (p_form (handleLaneToggle l b p)) lane =
      lane_ratio (p_prompt p) (p_prices (handleLaneToggle l b p)) (p_enabled (handleLaneToggle l b p)) lane" for lane
    using assms by (auto simp: in_step_def handleLaneToggle_def lane_ratio_def deriveLaneRatio_def Let_def split: option.splits)
  moreover have "f_ratio (p_form (handleLaneToggle l b p)) = f_ratio (p_form p)" "p_prompt (handleLaneToggle l b p) = p_prompt p"
    by (simp_all add: handleLaneToggle_def Let_def)
  ultimately show ?thesis using assms by (auto simp: in_step_def fun_eq_iff)
qed

lemma in_step_handle:
  assumes "in_step p"
  shows "in_step (panel_handle ev p)"
proof (cases ev)
  case (PromptPrice s)
  then show ?thesis using assms by (simp add: handlePromptPriceChange_def in_step_def)
next
  case (LanePrice l s)
  then show ?thesis using in_step_price assms by simp
next
  case (LaneToggle l b)
  then show ?thesis using in_step_toggle assms by simp
qed (use assms in \<open>auto simp: in_step_def type_name_def type_price_def handleModeChange_def\<close>)

text \<open>C29: In the form of a new model the ratios to be saved are, in every reachable state, those of the prices shown: half of
  the input price, and for every lane that is on its price divided by the price it depends on.\<close>

theorem new_model_ratios:
  assumes "panel_reachable None p"
  shows "f_ratio (p_form p) = (case toNumberOrNull (p_prompt p) of
        None \<Rightarrow> [] | Some inputPrice \<Rightarrow> formatPricingNumber (jdiv inputPrice (Fin 2))) \<and>
     (\<forall>lane. f_lane (p_form p) lane =
        (if p_enabled p lane then deriveLaneRatio lane (p_prices p lane) (p_prompt p) (p_prices p) else []))"
proof -
  have "in_step (load_panel None)"
    by (simp add: in_step_def load_panel_def createInitialLaneState_def empty_form_def toNumberOrNull_def lane_ratio_def fun_eq_iff)
  with assms have "in_step p" by (induction rule: panel_reachable.induct) (simp_all add: in_step_handle)
  then show ?thesis by (simp add: in_step_def lane_ratio_def)
qed

theorem new_model_ratios_witness:
  "\<exists>p. panel_reachable None p \<and> p_prompt p = lit ''3'' \<and> p_prices p Completion = lit ''15'' \<and> f_lane (p_form p) Completion = lit ''5''"
proof -
  let ?p1 = "panel_handle (PromptPrice (lit ''3'')) (load_panel None)"
  let ?p2 = "panel_handle (LaneToggle Completion True) ?p1"
  let ?p3 = "panel_handle (LanePrice Completion (lit ''15'')) ?p2"
  have five: "toNumberOrNull (lit ''15'') = Some (Fin 15)" "re_test numericDraftRegex (lit ''15'')"
    "formatPricingNumber (jdiv (Fin 15) (Fin 3)) = lit ''5''" by code_simp+
  have "panel_reachable None ?p1" by (rule panel_reachable.step [OF panel_reachable.load]) (simp add: panel_event_ok_def)
  then have "panel_reachable None ?p2" by (rule panel_reachable.step) (simp add: panel_event_ok_def lane_blocked_def)
  then have r: "panel_reachable None ?p3"
    by (rule panel_reachable.step) (simp add: panel_event_ok_def lane_blocked_def handleLaneToggle_def)
  have v: "p_enabled ?p3 Completion" "p_prompt ?p3 = lit ''3''" "p_prices ?p3 Completion = lit ''15''"
    using three(2) five(2)
    by (simp_all add: handleLanePriceChange_def handleLaneToggle_def handlePromptPriceChange_def Let_def del: list.map)
  have "deriveLaneRatio Completion (lit ''15'') (lit ''3'') pr = lit ''5''" for pr
    unfolding deriveLaneRatio_def by (simp add: three(1) five(1,3) del: list.map jdiv.simps)
  with new_model_ratios [OF r] v have "f_lane (p_form ?p3) Completion = lit ''5''" by (simp del: panel_handle.simps list.map)
  with r v show ?thesis by blast
qed

section \<open>Rounding\<close>

text \<open>Removing the drift of a division changes a price by at most the tolerance.\<close>

lemma snap_loop_bound:
  "snap_loop tol v ds = v \<or> jle (jabs (jsub v (snap_loop tol v ds))) tol"
  by (induction ds) (auto simp: Let_def)

lemma snap_bound: "snapFloatDrift v = v \<or> jle (jabs (jsub v (snapFloatDrift v))) (snap_tolerance v)"
  unfolding snapFloatDrift_def by (rule snap_loop_bound)

text \<open>A ratio keeps twelve decimals, which is more error than the tolerance removes: a ratio of 2/7 is kept as
  0.285714285714, and with an input price of 7 the price comes back as 1.999999999998.\<close>

abbreviation near_two :: jsnum where
  "near_two \<equiv> Fin (562949953420749/281474976710656)"

lemma near_two_snap: "snapFloatDrift near_two = near_two"
  by code_simp

lemma near_two_text: "num_str (parseFloat (toFixed 12 near_two)) = lit ''1.999999999998''"
  by code_simp

lemma price_drifts: "deriveLanePrice (lit ''0.285714285714'') (lit ''7'') = lit ''1.999999999998''"
proof -
  have n: "toNumberOrNull (lit ''7'') = Some (Fin 7)"
      "toNumberOrNull (lit ''0.285714285714'') = Some (Fin (5146971002703991/18014398509481984))"
      "jmul (Fin (5146971002703991/18014398509481984)) (Fin 7) = near_two" by code_simp+
  have "formatPricingNumber near_two = lit ''1.999999999998''"
    unfolding formatPricingNumber_def finite_or_none_def is_finite_def DISPLAY_DECIMALS_def
    by (simp_all only: jsnum.case if_True option.case near_two_snap near_two_text)
  then show ?thesis unfolding deriveLanePrice_def n option.case prod.case .
qed

text \<open>With an input price of zero the other prices have no ratio and are dropped without a warning.\<close>

lemma zero_input_price:
  "let p = panel_handle (LanePrice Completion (lit ''15'')) (panel_handle (LaneToggle Completion True)
     (panel_handle (PromptPrice (lit ''0'')) (panel_handle (TypeName (lit ''m'')) (load_panel None)))) in
   handleSubmit p = SavePricing (submitted p) \<and> warnings p = [] \<and> saved_value (submitted p) (LaneRatio Completion) = None"
proof -
  have "let p = panel_handle (LanePrice Completion (lit ''15'')) (panel_handle (LaneToggle Completion True)
     (panel_handle (PromptPrice (lit ''0'')) (panel_handle (TypeName (lit ''m'')) (load_panel None)))) in
   f_name (p_form p) \<noteq> [] \<and> \<not> lacks_input_price p \<and> \<not> lacks_audio_input p \<and> warnings p = [] \<and>
   saved_value (submitted p) (LaneRatio Completion) = None"
    by code_simp
  then show ?thesis by (simp add: handleSubmit_def Let_def)
qed

text \<open>A model with a ratio for audio output and none for audio input cannot be saved, and the switch that would turn the
  ratio off is disabled.\<close>

lemma audio_output_trap:
  "let p = load_panel (Some (sample_data\<lparr>md_lane := (\<lambda>lane. if lane = AudioOutput then lit ''2'' else [])\<rparr>)) in
   handleSubmit p = NeedsAudioInput \<and> \<not> panel_event_ok p (LaneToggle AudioOutput False)"
proof -
  have "let p = load_panel (Some (sample_data\<lparr>md_lane := (\<lambda>lane. if lane = AudioOutput then lit ''2'' else [])\<rparr>)) in
   f_name (p_form p) \<noteq> [] \<and> \<not> lacks_input_price p \<and> lacks_audio_input p \<and> lane_blocked AudioOutput p"
    by code_simp
  then show ?thesis by (simp add: handleSubmit_def panel_event_ok_def Let_def)
qed

end
