(* ===== verification/Tiered_Editor.thy ===== *)
theory Tiered_Editor
  imports Tier_Expr
begin

text \<open>
  The editor of an expression price: \<^verbatim>\<open>features/system-settings/models/tiered-pricing-editor.tsx\<close>. It has a visual mode
  (tiers and request rules) and a mode for the expression as text, and keeps the two texts of its parent, the
  expression and the rules, in step with what it shows through effects.

  \<open>commit\<close> is one run of the four effects: they all read the state of the render before them, their updates are
  collected, and the component renders again with the result; \<open>settle_editor\<close> repeats this until nothing changes. The last two
  effects do nothing when their inputs are those of their last run, so their dependencies need not be kept; the first
  two run when the texts, or the name of the model, are not those \<open>seen\<close> by the last commit.
  \<open>Throw\<close> in a render or an effect takes the component down. Left out: the layout, the estimator, whose evaluation of an
  expression runs it as code, the hints in numbers of the locale, and the text of the prompt to copy.
\<close>

section \<open>Number fields\<close>

text \<open>The value a field shows is a number or a string.\<close>

definition formatNumberDraft :: "jval \<Rightarrow> jstring" where
  "formatNumberDraft v =
     (case v of
        JNum x \<Rightarrow> if is_finite x then num_str x else lit ''0''
      | _ \<Rightarrow> str_of v)"

definition parseNumberDraft :: "jstring \<Rightarrow> jsnum" where
  "parseNumberDraft s =
     (if trim s = [] then Fin 0 else let n = js_Number s in if is_finite n then n else Fin 0)"

definition isZeroDraft :: "jstring \<Rightarrow> bool" where
  "isZeroDraft s \<longleftrightarrow> trim s \<noteq> [] \<and> jeq (parseNumberDraft s) (Fin 0)"

record draft_field =
  draft :: jstring
  focused :: bool

definition draft_effect :: "jval \<Rightarrow> draft_field \<Rightarrow> draft_field" where
  "draft_effect v d = (if focused d then d else d\<lparr>draft := formatNumberDraft v\<rparr>)"

text \<open>The handlers also give the number reported to the form, or whether the text is selected.\<close>

definition draft_change :: "jstring \<Rightarrow> draft_field \<Rightarrow> draft_field \<times> jsnum" where
  "draft_change s d = (d\<lparr>draft := s\<rparr>, parseNumberDraft s)"

definition draft_focus :: "bool \<Rightarrow> draft_field \<Rightarrow> draft_field \<times> bool" where
  "draft_focus selectZeroOnFocus d = (d\<lparr>focused := True\<rparr>, selectZeroOnFocus \<and> isZeroDraft (draft d))"

definition draft_blur :: "draft_field \<Rightarrow> draft_field \<times> jsnum" where
  "draft_blur d = (let n = parseNumberDraft (draft d) in (d\<lparr>focused := False, draft := num_str n\<rparr>, n))"

section \<open>Tiers\<close>

text \<open>\<^verbatim>\<open>unitCostToPrice\<close> and \<^verbatim>\<open>priceToUnitCost\<close> are the same function.\<close>

definition priceToUnitCost :: "jval \<Rightarrow> jsnum" where
  "priceToUnitCost v = or_zero (num_of v)"

definition CACHE_PRICE_VARS :: "billing_var list" where
  "CACHE_PRICE_VARS = filter (\<lambda>v. billing_var.group v = Some (lit ''cache'')) BILLING_EXTRA_VARS"

definition MEDIA_PRICE_VARS :: "billing_var list" where
  "MEDIA_PRICE_VARS = filter (\<lambda>v. billing_var.group v = Some (lit ''media'')) BILLING_EXTRA_VARS"

definition CONDITION_INPUT_OPTIONS :: "(string \<times> string) list" where
  "CONDITION_INPUT_OPTIONS = [(''len'', ''Full input length''), (''p'', ''Billable input tokens''), (''c'', ''Billable output tokens'')]"

definition OPS :: "string list" where
  "OPS = [''<'', ''<='', ''>'', ''>='']"

datatype condition_event = VarChange string | OpChange string | ValueChange jsnum

definition own_fields :: "jval \<Rightarrow> obj" where
  "own_fields v = (case as_object v of Some kvs \<Rightarrow> kvs | None \<Rightarrow> [])"

fun condition_row :: "condition_event \<Rightarrow> jval \<Rightarrow> jval" where
  "condition_row (VarChange v) c = JObj (obj_put (lit ''var'') (jstr_lit v) (own_fields c))"
| "condition_row (OpChange p) c = JObj (obj_put (lit ''op'') (jstr_lit p) (own_fields c))"
| "condition_row (ValueChange x) c = JObj (obj_put (lit ''value'') (JNum x) (own_fields c))"

definition condition_row_ok :: "condition_event \<Rightarrow> bool" where
  "condition_row_ok ev =
     (case ev of VarChange v \<Rightarrow> v \<in> fst ` set CONDITION_INPUT_OPTIONS | OpChange p \<Rightarrow> p \<in> set OPS | ValueChange _ \<Rightarrow> True)"

datatype cache_mode = Generic | Timed

fun cache_mode_text :: "cache_mode \<Rightarrow> jval" where
  "cache_mode_text Generic = CACHE_MODE_GENERIC"
| "cache_mode_text Timed = CACHE_MODE_TIMED"

datatype tier_event =
    LabelChange jstring | ConditionChange nat condition_event | ConditionRemove nat
  | PriceChange jstring jsnum | CacheModeChange cache_mode

text \<open>A list without the item at an index.\<close>

definition without :: "nat \<Rightarrow> 'a list \<Rightarrow> 'a list" where
  "without i xs = take i xs @ drop (Suc i) xs"

definition set_conditions :: "jval list \<Rightarrow> obj \<Rightarrow> obj" where
  "set_conditions cs tier = obj_put (lit ''conditions'') (JArr cs) tier"

definition handleConditionChange :: "nat \<Rightarrow> condition_event \<Rightarrow> obj \<Rightarrow> obj" where
  "handleConditionChange i ev tier =
     (let conds = conditions_of tier in set_conditions (conds[i := condition_row ev (conds ! i)]) tier)"

definition handleConditionRemove :: "nat \<Rightarrow> obj \<Rightarrow> obj" where
  "handleConditionRemove i tier = set_conditions (without i (conditions_of tier)) tier"

definition handlePriceChange :: "jstring \<Rightarrow> jsnum \<Rightarrow> obj \<Rightarrow> obj" where
  "handlePriceChange fieldKey value tier = obj_put fieldKey (JNum (priceToUnitCost (JNum value))) tier"

definition handleCacheModeChange :: "cache_mode \<Rightarrow> obj \<Rightarrow> obj" where
  "handleCacheModeChange md tier =
     obj_put (lit ''cache_create_1h_unit_cost'')
       (if md = Timed then jcoalesce (get tier ''cache_create_1h_unit_cost'') (JNum (Fin 0)) else JNum (Fin 0))
       (obj_put (lit ''cache_mode'') (cache_mode_text md) tier)"

fun tier_handle :: "tier_event \<Rightarrow> obj \<Rightarrow> obj" where
  "tier_handle (LabelChange s) tier = obj_put (lit ''label'') (JStr s) tier"
| "tier_handle (ConditionChange i ev) tier = handleConditionChange i ev tier"
| "tier_handle (ConditionRemove i) tier = handleConditionRemove i tier"
| "tier_handle (PriceChange f x) tier = handlePriceChange f x tier"
| "tier_handle (CacheModeChange md) tier = handleCacheModeChange md tier"

text \<open>The price fields a tier shows: the price of the long cache only with time slices, the media prices only when they
  are unfolded.\<close>

definition shown_price_fields :: "bool \<Rightarrow> obj \<Rightarrow> jstring list" where
  "shown_price_fields mediaOpen tier =
     [lit ''input_unit_cost'', lit ''output_unit_cost''] @
     map (\<lambda>v. the (tierField v)) (filter (\<lambda>v. key v = lit ''cc1h'' \<longrightarrow> getTierCacheMode tier = CACHE_MODE_TIMED) CACHE_PRICE_VARS) @
     (if mediaOpen then map (\<lambda>v. the (tierField v)) MEDIA_PRICE_VARS else [])"

definition hasMediaPricing :: "obj \<Rightarrow> bool" where
  "hasMediaPricing tier \<longleftrightarrow>
     list_ex (\<lambda>v. jlt (Fin 0) (priceToUnitCost (jcoalesce (obj_get (the (tierField v)) tier) (JNum (Fin 0))))) MEDIA_PRICE_VARS"

definition tier_event_ok :: "obj \<Rightarrow> tier_event \<Rightarrow> bool" where
  "tier_event_ok tier ev =
     (case ev of
        ConditionChange i e \<Rightarrow> i < length (conditions_of tier) \<and> condition_row_ok e
      | ConditionRemove i \<Rightarrow> i < length (conditions_of tier)
      | PriceChange f x \<Rightarrow> f \<in> set (shown_price_fields True tier) \<and> is_finite x
      | _ \<Rightarrow> True)"

datatype config_event = TierEdit nat tier_event | AddTier | RemoveTier nat | AddCondition nat

definition handleTierChange :: "nat \<Rightarrow> obj \<Rightarrow> visual_config \<Rightarrow> visual_config" where
  "handleTierChange i tier tiers = tiers[i := normalizeVisualTier tier]"

definition new_condition :: "string \<Rightarrow> jval" where
  "new_condition v = JObj (obj_lit [(''var'', jstr_lit v), (''op'', jstr_lit ''<''), (''value'', JNum (Fin 200000))])"

definition handleAddTier :: "visual_config \<Rightarrow> visual_config" where
  "handleAddTier tiers =
     (let tiers = (if tiers \<noteq> [] \<and> conditions_of (last tiers) = []
                   then butlast tiers @ [normalizeVisualTier (set_conditions [new_condition ''len''] (last tiers))] else tiers) in
      tiers @ [normalizeVisualTier (obj_lit
        [(''label'', JStr (lit ''tier_'' @ nat_str (length tiers + 1))), (''conditions'', JArr []),
         (''input_unit_cost'', JNum (Fin 0)), (''output_unit_cost'', JNum (Fin 0))])])"

definition handleRemoveTier :: "nat \<Rightarrow> visual_config \<Rightarrow> visual_config" where
  "handleRemoveTier i config = (let tiers = without i config in if tiers \<noteq> [] then tiers else config)"

text \<open>\<open>None\<close>: the handler returns without a change.\<close>

definition handleAddCondition :: "nat \<Rightarrow> visual_config \<Rightarrow> visual_config option" where
  "handleAddCondition i config =
     (let tier = config ! i; conds = conditions_of tier in
      if 2 \<le> length conds then None
      else
        let usedVars = map (jprop (lit ''var'')) conds;
            nextVar = (if jstr_lit ''len'' \<in> set usedVars then ''c'' else ''len'') in
        Some (config[i := set_conditions (conds @ [new_condition nextVar]) tier]))"

fun config_handle :: "config_event \<Rightarrow> visual_config \<Rightarrow> visual_config option" where
  "config_handle (TierEdit i ev) config = Some (handleTierChange i (tier_handle ev (config ! i)) config)"
| "config_handle AddTier config = Some (handleAddTier config)"
| "config_handle (RemoveTier i) config = Some (handleRemoveTier i config)"
| "config_handle (AddCondition i) config = handleAddCondition i config"

definition config_event_ok :: "visual_config \<Rightarrow> config_event \<Rightarrow> bool" where
  "config_event_ok config ev =
     (case ev of
        TierEdit i e \<Rightarrow> i < length config \<and> tier_event_ok (config ! i) e
      | AddTier \<Rightarrow> True
      | RemoveTier i \<Rightarrow> i < length config \<and> 1 < length config
      | AddCondition i \<Rightarrow> i < length config \<and> length (conditions_of (config ! i)) < 2)"

section \<open>Request rules\<close>

datatype rule_row_event =
    SourceChange jstring | ModeSelect jstring | TimeFuncChange jstring | TimezoneChange jstring
  | RangeStartChange jsnum | RangeEndChange jsnum | TimeValueChange jsnum | PathChange jstring | TextChange jstring

definition SOURCE_PARAM :: jstring where "SOURCE_PARAM = lit ''param''"
definition SOURCE_HEADER :: jstring where "SOURCE_HEADER = lit ''header''"
definition SOURCE_TIME :: jstring where "SOURCE_TIME = lit ''time''"

fun is_time :: "request_condition \<Rightarrow> bool" where
  "is_time (TimeCondition f tz md v s e) = True"
| "is_time (ParamHeaderCondition src path md v) = False"

fun source_of :: "request_condition \<Rightarrow> jstring" where
  "source_of (TimeCondition f tz md v s e) = SOURCE_TIME"
| "source_of (ParamHeaderCondition src path md v) = (if src = SHeader then SOURCE_HEADER else SOURCE_PARAM)"

fun set_mode :: "jstring \<Rightarrow> request_condition \<Rightarrow> request_condition" where
  "set_mode md (TimeCondition f tz _ v s e) = TimeCondition f tz md v s e"
| "set_mode md (ParamHeaderCondition src path _ v) = ParamHeaderCondition src path md v"

definition handleSourceChange :: "jstring \<Rightarrow> request_condition \<Rightarrow> request_condition" where
  "handleSourceChange src c =
     (if src = SOURCE_TIME then createEmptyTimeCondition
      else if src = SOURCE_HEADER \<or> src = SOURCE_PARAM then
        ParamHeaderCondition (if src = SOURCE_HEADER then SHeader else SParam) (c_path createEmptyCondition)
          (c_mode createEmptyCondition) (c_value createEmptyCondition)
      else c)"

fun time_row :: "rule_row_event \<Rightarrow> request_condition \<Rightarrow> request_condition" where
  "time_row (TimeFuncChange f') (TimeCondition f tz md v s e) = TimeCondition f' tz md v s e"
| "time_row (TimezoneChange tz') (TimeCondition f tz md v s e) = TimeCondition f tz' md v s e"
| "time_row (RangeStartChange x) (TimeCondition f tz md v s e) = TimeCondition f tz md v (num_str x) e"
| "time_row (RangeEndChange x) (TimeCondition f tz md v s e) = TimeCondition f tz md v s (num_str x)"
| "time_row (TimeValueChange x) (TimeCondition f tz md v s e) = TimeCondition f tz md (num_str x) s e"
| "time_row _ c = c"

fun rule_row :: "rule_row_event \<Rightarrow> request_condition \<Rightarrow> request_condition" where
  "rule_row (SourceChange src) c = handleSourceChange src c"
| "rule_row (ModeSelect md) c = set_mode md c"
| "rule_row (PathChange p) (ParamHeaderCondition src path md v) = ParamHeaderCondition src p md v"
| "rule_row (TextChange t) (ParamHeaderCondition src path md v) = ParamHeaderCondition src path md t"
| "rule_row ev c = time_row ev c"

definition rule_row_ok :: "request_condition \<Rightarrow> rule_row_event \<Rightarrow> bool" where
  "rule_row_ok c ev =
     (case ev of
        SourceChange src \<Rightarrow> src \<in> {SOURCE_PARAM, SOURCE_HEADER, SOURCE_TIME}
      | ModeSelect md \<Rightarrow> md \<in> fst ` set (getRequestRuleMatchOptions (source_of c))
      | TimeFuncChange f \<Rightarrow> is_time c \<and> f \<in> set (map lit TIME_FUNCS)
      | TimezoneChange _ \<Rightarrow> is_time c
      | RangeStartChange _ \<Rightarrow> is_time c \<and> c_mode c = MATCH_RANGE
      | RangeEndChange _ \<Rightarrow> is_time c \<and> c_mode c = MATCH_RANGE
      | TimeValueChange _ \<Rightarrow> is_time c \<and> c_mode c \<noteq> MATCH_RANGE
      | PathChange _ \<Rightarrow> \<not> is_time c
      | TextChange _ \<Rightarrow> \<not> is_time c \<and> c_mode c \<noteq> MATCH_EXISTS)"

datatype rule_group_event = RowEdit nat rule_row_event | AddRow bool | RemoveRow nat | MultiplierChange jsnum

fun rule_group_handle :: "rule_group_event \<Rightarrow> rule_group \<Rightarrow> rule_group" where
  "rule_group_handle (RowEdit i ev) g = g\<lparr>conditions := (conditions g)[i := rule_row ev (conditions g ! i)]\<rparr>"
| "rule_group_handle (AddRow timeMode) g =
     g\<lparr>conditions := conditions g @ [if timeMode then createEmptyTimeCondition else createEmptyCondition]\<rparr>"
| "rule_group_handle (RemoveRow i) g = g\<lparr>conditions := without i (conditions g)\<rparr>"
| "rule_group_handle (MultiplierChange x) g = g\<lparr>multiplier := num_str x\<rparr>"

definition rule_group_event_ok :: "rule_group \<Rightarrow> rule_group_event \<Rightarrow> bool" where
  "rule_group_event_ok g ev =
     (case ev of
        RowEdit i e \<Rightarrow> i < length (conditions g) \<and> rule_row_ok (conditions g ! i) e
      | RemoveRow i \<Rightarrow> i < length (conditions g)
      | _ \<Rightarrow> True)"

datatype rules_event = GroupEdit nat rule_group_event | AddGroup | RemoveGroup nat

fun rules_handle :: "rules_event \<Rightarrow> rule_group list \<Rightarrow> rule_group list" where
  "rules_handle (GroupEdit i ev) gs = gs[i := rule_group_handle ev (gs ! i)]"
| "rules_handle AddGroup gs = gs @ [createEmptyRuleGroup]"
| "rules_handle (RemoveGroup i) gs = without i gs"

definition rules_event_ok :: "rule_group list \<Rightarrow> rules_event \<Rightarrow> bool" where
  "rules_event_ok gs ev =
     (case ev of
        GroupEdit i e \<Rightarrow> i < length gs \<and> rule_group_event_ok (gs ! i) e
      | AddGroup \<Rightarrow> True
      | RemoveGroup i \<Rightarrow> i < length gs)"

section \<open>The editor and its effects\<close>

datatype editor_mode = Visual | Raw

text \<open>\<open>e_model\<close>, \<open>e_expr\<close> and \<open>e_rules\<close> are the properties, of which the parent holds the last two as its state.\<close>

record tiered_editor =
  e_model :: jstring
  e_expr :: jstring
  e_rules :: jstring
  e_mode :: editor_mode
  e_config :: "visual_config option"
  e_raw :: jstring
  e_groups :: "rule_group list"
  e_init :: bool

definition props_of :: "tiered_editor \<Rightarrow> jstring \<times> jstring \<times> jstring" where
  "props_of ed = (e_model ed, e_expr ed, e_rules ed)"

definition read_groups :: "jstring \<Rightarrow> rule_group list thrown" where
  "read_groups r =
     (case tryParseRequestRuleExpr r of Throw \<Rightarrow> Throw | Ret None \<Rightarrow> Ret [] | Ret (Some gs) \<Rightarrow> Ret gs)"

definition mount_editor :: "jstring \<Rightarrow> jstring \<Rightarrow> jstring \<Rightarrow> tiered_editor thrown" where
  "mount_editor name expr rules =
     (case read_groups rules of
        Throw \<Rightarrow> Throw
      | Ret gs \<Rightarrow> Ret
          \<lparr>e_model = name, e_expr = expr, e_rules = rules, e_mode = Visual, e_config = tryParseVisualConfig expr,
           e_raw = combineBillingExpr expr rules, e_groups = gs, e_init = False\<rparr>)"

definition canUseVisualRules :: "tiered_editor \<Rightarrow> bool thrown" where
  "canUseVisualRules ed =
     (if e_rules ed = [] then Ret True
      else case tryParseRequestRuleExpr (e_rules ed) of Throw \<Rightarrow> Throw | Ret g \<Rightarrow> Ret (g \<noteq> None))"

definition effectiveExpr :: "tiered_editor \<Rightarrow> jstring thrown" where
  "effectiveExpr ed =
     (case e_mode ed of
        Visual \<Rightarrow> Ret (generateExprFromVisualConfig (e_config ed))
      | Raw \<Rightarrow> (case splitBillingExprAndRequestRules (e_raw ed) of Throw \<Rightarrow> Throw | Ret (e, rules) \<Rightarrow> Ret e))"

text \<open>What the render computes, of which the effects use the expression.\<close>

definition render_editor :: "tiered_editor \<Rightarrow> jstring thrown" where
  "render_editor ed = (case canUseVisualRules ed of Throw \<Rightarrow> Throw | Ret _ \<Rightarrow> effectiveExpr ed)"

text \<open>The first effect, with the groups read from the rules.\<close>

definition init_with :: "rule_group list \<Rightarrow> tiered_editor \<Rightarrow> tiered_editor" where
  "init_with gs ed =
     (let ed1 = (case tryParseVisualConfig (e_expr ed) of
            Some cfg \<Rightarrow> ed\<lparr>e_config := Some cfg, e_mode := Visual\<rparr>
          | None \<Rightarrow> if e_expr ed \<noteq> [] then ed\<lparr>e_config := None, e_mode := Raw\<rparr>
                    else ed\<lparr>e_config := Some createDefaultVisualConfig\<rparr>) in
      ed1\<lparr>e_raw := combineBillingExpr (e_expr ed) (e_rules ed), e_groups := gs, e_init := True\<rparr>)"

definition init_effect :: "(jstring \<times> jstring \<times> jstring) option \<Rightarrow> tiered_editor \<Rightarrow> tiered_editor thrown" where
  "init_effect seen ed =
     (if e_init ed \<or> map_option snd seen = Some (snd (props_of ed)) then Ret ed
      else case read_groups (e_rules ed) of Throw \<Rightarrow> Throw | Ret gs \<Rightarrow> Ret (init_with gs ed))"

text \<open>The other effects: the state \<open>ed\<close> of the render, the updates so far \<open>st\<close>.\<close>

definition model_effect :: "(jstring \<times> jstring \<times> jstring) option \<Rightarrow> tiered_editor \<Rightarrow> tiered_editor \<Rightarrow> tiered_editor" where
  "model_effect seen ed st = (if map_option fst seen = Some (e_model ed) then st else st\<lparr>e_init := False\<rparr>)"

definition expr_effect :: "jstring \<Rightarrow> tiered_editor \<Rightarrow> tiered_editor \<Rightarrow> tiered_editor" where
  "expr_effect effective ed st = (if effective \<noteq> e_expr ed then st\<lparr>e_expr := effective\<rparr> else st)"

definition rules_effect :: "tiered_editor \<Rightarrow> tiered_editor \<Rightarrow> tiered_editor" where
  "rules_effect ed st =
     (if e_mode ed \<noteq> Visual then st
      else let ruleExpr = buildRequestRuleExpr (e_groups ed) in
        if ruleExpr \<noteq> e_rules ed then st\<lparr>e_rules := ruleExpr\<rparr> else st)"

definition commit :: "(jstring \<times> jstring \<times> jstring) option \<Rightarrow> tiered_editor \<Rightarrow> tiered_editor thrown" where
  "commit seen ed =
     (case render_editor ed of
        Throw \<Rightarrow> Throw
      | Ret effective \<Rightarrow>
          (case init_effect seen ed of
             Throw \<Rightarrow> Throw
           | Ret st \<Rightarrow> Ret (rules_effect ed (expr_effect effective ed (model_effect seen ed st)))))"

partial_function (option) settle_editor ::
  "(jstring \<times> jstring \<times> jstring) option \<Rightarrow> tiered_editor \<Rightarrow> tiered_editor thrown option" where
  "settle_editor seen ed =
     (case commit seen ed of
        Throw \<Rightarrow> Some Throw
      | Ret ed' \<Rightarrow> if ed' = ed then Some (Ret ed) else settle_editor (Some (props_of ed)) ed')"

declare settle_editor.simps [code]

section \<open>The handlers of the editor\<close>

record expr_template =
  ps_key :: string
  ps_label :: string
  ps_expr :: jstring
  ps_rules :: "rule_group list"

datatype editor_event =
    ConfigEdit config_event | RulesEdit rules_event | RawEdit jstring | ModeSwitch editor_mode | ApplyPreset expr_template
  | LoadModel jstring jstring jstring

definition handleVisualChange :: "visual_config \<Rightarrow> tiered_editor \<Rightarrow> tiered_editor" where
  "handleVisualChange cfg ed = ed\<lparr>e_config := Some cfg\<rparr>"

definition handleRuleGroupsChange :: "rule_group list \<Rightarrow> tiered_editor \<Rightarrow> tiered_editor" where
  "handleRuleGroupsChange gs ed = ed\<lparr>e_groups := gs\<rparr>"

text \<open>An exception in a handler ends it after the updates made so far.\<close>

definition handleRawChange :: "jstring \<Rightarrow> tiered_editor \<Rightarrow> tiered_editor" where
  "handleRawChange s ed =
     (let ed1 = ed\<lparr>e_raw := s\<rparr> in
      case splitBillingExprAndRequestRules s of Throw \<Rightarrow> ed1 | Ret (_, ruleStr) \<Rightarrow> ed1\<lparr>e_rules := ruleStr\<rparr>)"

definition to_visual :: "tiered_editor \<Rightarrow> tiered_editor" where
  "to_visual ed =
     (case splitBillingExprAndRequestRules (e_raw ed) of
        Throw \<Rightarrow> ed
      | Ret (billingExpr, ruleStr) \<Rightarrow>
          (let ed1 = ed\<lparr>e_config := Some (case tryParseVisualConfig billingExpr of Some cfg \<Rightarrow> cfg | None \<Rightarrow> createDefaultVisualConfig)\<rparr> in
           case read_groups ruleStr of
             Throw \<Rightarrow> ed1
           | Ret gs \<Rightarrow> ed1\<lparr>e_groups := gs, e_rules := ruleStr, e_mode := Visual\<rparr>))"

definition or_text :: "jstring \<Rightarrow> jstring \<Rightarrow> jstring" where
  "or_text a b = (if a \<noteq> [] then a else b)"

definition to_raw :: "tiered_editor \<Rightarrow> tiered_editor" where
  "to_raw ed =
     (let expr = generateExprFromVisualConfig (e_config ed); ruleExpr = buildRequestRuleExpr (e_groups ed) in
      ed\<lparr>e_raw := or_text (combineBillingExpr expr ruleExpr) expr, e_mode := Raw\<rparr>)"

definition applyPreset :: "expr_template \<Rightarrow> tiered_editor \<Rightarrow> tiered_editor" where
  "applyPreset ps ed =
     (let ruleExpr = buildRequestRuleExpr (ps_rules ps);
          ed1 = ed\<lparr>e_raw := or_text (combineBillingExpr (ps_expr ps) ruleExpr) (ps_expr ps)\<rparr>;
          ed2 = (case tryParseVisualConfig (ps_expr ps) of
              Some cfg \<Rightarrow> ed1\<lparr>e_config := Some cfg, e_mode := Visual\<rparr>
            | None \<Rightarrow> ed1\<lparr>e_mode := Raw, e_config := None\<rparr>) in
      ed2\<lparr>e_groups := ps_rules ps, e_rules := ruleExpr\<rparr>)"

fun editor_handle :: "editor_event \<Rightarrow> tiered_editor \<Rightarrow> tiered_editor" where
  "editor_handle (ConfigEdit ev) ed =
     (case config_handle ev (normalizeVisualConfig (e_config ed)) of None \<Rightarrow> ed | Some cfg \<Rightarrow> handleVisualChange cfg ed)"
| "editor_handle (RulesEdit ev) ed = handleRuleGroupsChange (rules_handle ev (e_groups ed)) ed"
| "editor_handle (RawEdit s) ed = handleRawChange s ed"
| "editor_handle (ModeSwitch md) ed = (case md of Visual \<Rightarrow> to_visual ed | Raw \<Rightarrow> to_raw ed)"
| "editor_handle (ApplyPreset ps) ed = applyPreset ps ed"
| "editor_handle (LoadModel name expr rules) ed = ed\<lparr>e_model := name, e_expr := expr, e_rules := rules\<rparr>"

text \<open>The visual mode shows the rules only when it can read them; a select reports only another value.\<close>

definition editor_event_ok :: "tiered_editor \<Rightarrow> editor_event \<Rightarrow> bool" where
  "editor_event_ok ed ev =
     (case ev of
        ConfigEdit e \<Rightarrow> e_mode ed = Visual \<and> config_event_ok (normalizeVisualConfig (e_config ed)) e
      | RulesEdit e \<Rightarrow> e_mode ed = Visual \<and> canUseVisualRules ed = Ret True \<and> rules_event_ok (e_groups ed) e
      | RawEdit _ \<Rightarrow> e_mode ed = Raw
      | ModeSwitch md \<Rightarrow> e_mode ed \<noteq> md
      | _ \<Rightarrow> True)"

text \<open>A handler and the renders after it, for a state in which nothing was left to do.\<close>

definition editor_step :: "editor_event \<Rightarrow> tiered_editor \<Rightarrow> tiered_editor thrown option" where
  "editor_step ev ed = settle_editor (Some (props_of ed)) (editor_handle ev ed)"

definition open_editor :: "jstring \<Rightarrow> jstring \<Rightarrow> jstring \<Rightarrow> tiered_editor thrown option" where
  "open_editor name expr rules =
     (case mount_editor name expr rules of Throw \<Rightarrow> Some Throw | Ret ed \<Rightarrow> settle_editor None ed)"

inductive editor_reachable :: "tiered_editor \<Rightarrow> bool" where
  opened: "open_editor name expr rules = Some (Ret ed) \<Longrightarrow> editor_reachable ed"
| stepped: "editor_reachable ed \<Longrightarrow> editor_event_ok ed ev \<Longrightarrow> editor_step ev ed = Some (Ret ed') \<Longrightarrow> editor_reachable ed'"

section \<open>The templates\<close>

definition template :: "string \<Rightarrow> string \<Rightarrow> jstring \<Rightarrow> rule_group list \<Rightarrow> expr_template" where
  "template k l e rules = \<lparr>ps_key = k, ps_label = l, ps_expr = e, ps_rules = rules\<rparr>"

definition FIXED_PRESETS :: "expr_template list" where
  \<open>FIXED_PRESETS =
    [template ''flat'' ''Flat''
       (lit ''tier("base", p * 2 + c * 4)'')
       [],
     template ''claude-opus'' ''Claude Opus 4.6''
       (lit ''tier("base", p * 5 + c * 25 + cr * 0.5 + cc * 6.25 + cc1h * 10)'')
       [],
     template ''gpt-5.4'' ''GPT-5.4''
       (lit ''len <= 272000 ? tier("standard", p * 2.5 + c * 15 + cr * 0.25) : '' @
        lit ''tier("long_context", p * 5 + c * 22.5 + cr * 0.5)'')
       []]\<close>

definition TIERED_PRESETS :: "expr_template list" where
  \<open>TIERED_PRESETS =
    [template ''claude-sonnet'' ''Claude Sonnet 4.5''
       (lit ''len <= 200000 ? tier("standard", p * 3 + c * 15 + cr * 0.3 + cc * 3.75 + cc1h * 6) : '' @
        lit ''tier("long_context", p * 6 + c * 22.5 + cr * 0.6 + cc * 7.5 + cc1h * 12)'')
       [],
     template ''qwen3-max'' ''Qwen3 Max''
       (lit ''len <= 32000 ? tier("short", p * 1.2 + c * 6 + cr * 0.24 + cc * 1.5) : '' @
        lit ''len <= 128000 ? tier("mid", p * 2.4 + c * 12 + cr * 0.48 + cc * 3) : '' @
        lit ''tier("long", p * 3 + c * 15 + cr * 0.6 + cc * 3.75)'')
       [],
     template ''glm-4.5-air'' ''GLM-4.5 Air''
       (lit ''len < 32000 && c < 200 ? tier("short_output", p * 0.8 + c * 2 + cr * 0.16) : '' @
        lit ''len < 32000 && c >= 200 ? tier("long_output", p * 0.8 + c * 6 + cr * 0.16) : '' @
        lit ''tier("mid_context", p * 1.2 + c * 8 + cr * 0.24)'')
       [],
     template ''doubao-seed-1.8'' ''Doubao Seed 1.8''
       (lit ''len <= 32000 && c <= 200 ? tier("discount", p * 0.8 + c * 2 + cr * 0.16 + cc * 0.17) : '' @
        lit ''len <= 32000 ? tier("short", p * 0.8 + c * 8 + cr * 0.16 + cc * 0.17) : '' @
        lit ''len <= 128000 ? tier("mid", p * 1.2 + c * 16 + cr * 0.16 + cc * 0.17) : '' @
        lit ''tier("long", p * 2.4 + c * 24 + cr * 0.16 + cc * 0.17)'')
       []]\<close>

definition MULTIMODAL_PRESETS :: "expr_template list" where
  \<open>MULTIMODAL_PRESETS =
    [template ''gpt-image-1-mini'' ''GPT Image 1 Mini''
       (lit ''tier("base", p * 2 + c * 8 + img * 2.5)'')
       [],
     template ''gemini-2.5-flash'' ''Gemini 2.5 Flash''
       (lit ''tier("base", p * 0.3 + c * 2.5 + cr * 0.03 + ai * 1.0)'')
       [],
     template ''gemini-3-pro-image'' ''Gemini 3 Pro Image''
       (lit ''tier("base", p * 2 + c * 12 + img_o * 120)'')
       [],
     template ''qwen3-omni-flash'' ''Qwen3 Omni Flash''
       (lit ''tier("base", p * 0.43 + c * 3.06 + img * 0.78 + ai * 3.81 + ao * 15.11)'')
       []]\<close>

definition RULE_PRESETS :: "expr_template list" where
  \<open>RULE_PRESETS =
    [template ''claude-opus-fast'' ''Claude Opus 4.6 Fast''
       (lit ''tier("base", p * 5 + c * 25 + cr * 0.5 + cc * 6.25 + cc1h * 10)'')
       [\<lparr>conditions = [ParamHeaderCondition SHeader (lit ''anthropic-beta'') MATCH_CONTAINS (lit ''fast-mode-2026-02-01'')], multiplier = lit ''6''\<rparr>],
     template ''gpt-5.4-tiers'' ''GPT-5.4 Priority/Flex''
       (lit ''len <= 272000 ? tier("standard", p * 2.5 + c * 15 + cr * 0.25) : '' @
        lit ''tier("long_context", p * 5 + c * 22.5 + cr * 0.5)'')
       [\<lparr>conditions = [ParamHeaderCondition SParam (lit ''service_tier'') MATCH_EQ (lit ''priority'')], multiplier = lit ''2''\<rparr>,
        \<lparr>conditions = [ParamHeaderCondition SParam (lit ''service_tier'') MATCH_EQ (lit ''flex'')], multiplier = lit ''0.5''\<rparr>]]\<close>

definition TIME_PRESETS :: "expr_template list" where
  \<open>TIME_PRESETS =
    [template ''night-discount'' ''Night discount (50%)''
       (lit ''tier("base", p * 3 + c * 15)'')
       [\<lparr>conditions = [TimeCondition (lit ''hour'') (lit ''Asia/Shanghai'') MATCH_RANGE ([]) (lit ''21'') (lit ''6'')], multiplier = lit ''0.5''\<rparr>],
     template ''weekend-discount'' ''Weekend discount (80%)''
       (lit ''tier("base", p * 3 + c * 15)'')
       [\<lparr>conditions = [TimeCondition (lit ''weekday'') (lit ''Asia/Shanghai'') MATCH_EQ (lit ''0'') ([]) ([])], multiplier = lit ''0.8''\<rparr>,
        \<lparr>conditions = [TimeCondition (lit ''weekday'') (lit ''Asia/Shanghai'') MATCH_EQ (lit ''6'') ([]) ([])], multiplier = lit ''0.8''\<rparr>]]\<close>

definition PRESET_GROUPS :: "(string \<times> expr_template list) list" where
  "PRESET_GROUPS =
     [(''Fixed price'', FIXED_PRESETS),
      (''Tiered'', TIERED_PRESETS),
      (''Multimodal'', MULTIMODAL_PRESETS),
      (''Request rule'', RULE_PRESETS),
      (''Time-based'', TIME_PRESETS)]"

definition visible_presets :: "bool \<Rightarrow> (string \<times> expr_template list) list" where
  "visible_presets expanded = (if expanded then PRESET_GROUPS else take 2 PRESET_GROUPS)"

end
