(* ===== verification/Tiered_Editor_Props.thy ===== *)
theory Tiered_Editor_Props
  imports Tiered_Editor Billing_Expr_Props
begin

text \<open>
  Properties of the editor of expression prices: its effects come to rest, with the expression of its parent the one
  it shows and, in the visual mode, the rules those of its cards; what
  opening an expression keeps, and what it loses.
\<close>

section \<open>The effects come to rest\<close>

text \<open>At rest the parent holds the expression that is shown and, in the visual mode, the rules that are shown.\<close>

definition at_rest :: "tiered_editor \<Rightarrow> bool" where
  "at_rest ed \<longleftrightarrow>
     render_editor ed = Ret (e_expr ed) \<and> (e_mode ed = Visual \<longrightarrow> e_rules ed = buildRequestRuleExpr (e_groups ed))"

text \<open>The state with the texts of what it shows.\<close>

definition synced :: "jstring \<Rightarrow> tiered_editor \<Rightarrow> tiered_editor" where
  "synced effective ed =
     ed\<lparr>e_expr := effective, e_rules := (if e_mode ed = Visual then buildRequestRuleExpr (e_groups ed) else e_rules ed)\<rparr>"

abbreviation named :: "(jstring \<times> jstring \<times> jstring) option \<Rightarrow> tiered_editor \<Rightarrow> bool" where
  "named seen ed \<equiv> map_option fst seen = Some (e_model ed)"

lemma effects_sync:
  "rules_effect ed (expr_effect f ed st) =
     st\<lparr>e_expr := (if f \<noteq> e_expr ed then f else e_expr st),
        e_rules := (if e_mode ed = Visual \<and> buildRequestRuleExpr (e_groups ed) \<noteq> e_rules ed
                    then buildRequestRuleExpr (e_groups ed) else e_rules st)\<rparr>"
  by (simp add: rules_effect_def expr_effect_def Let_def)

lemma synced_self: "rules_effect ed (expr_effect f ed ed) = synced f ed"
  unfolding effects_sync synced_def by (intro tiered_editor.equality) auto

lemma commit_still:
  "named seen ed \<Longrightarrow> init_effect seen ed = Ret ed \<Longrightarrow>
   commit seen ed = (case render_editor ed of Throw \<Rightarrow> Throw | Ret f \<Rightarrow> Ret (synced f ed))"
  by (simp add: commit_def model_effect_def synced_self split: thrown.split)

lemma init_done: "e_init ed \<Longrightarrow> init_effect seen ed = Ret ed"
  by (simp add: init_effect_def)

lemma synced_simps [simp]:
  "e_init (synced f ed) = e_init ed" "e_model (synced f ed) = e_model ed" "e_mode (synced f ed) = e_mode ed"
  "e_expr (synced f ed) = f" "e_config (synced f ed) = e_config ed" "e_groups (synced f ed) = e_groups ed"
  "e_raw (synced f ed) = e_raw ed" "effectiveExpr (synced f ed) = effectiveExpr ed" "synced g (synced f ed) = synced g ed"
  by (cases "e_mode ed"; simp add: synced_def effectiveExpr_def)+

lemma rules_synced: "e_mode ed = Visual \<Longrightarrow> e_rules (synced f ed) = buildRequestRuleExpr (e_groups ed)"
  by (simp add: synced_def)

lemma render_effective: "render_editor ed = Ret f \<Longrightarrow> effectiveExpr ed = Ret f"
  by (simp add: render_editor_def split: thrown.splits)

lemma named_props [simp]: "named (Some (props_of ed)) ed"
  by (simp add: props_of_def)

lemma synced_at_rest: "at_rest ed \<Longrightarrow> synced (e_expr ed) ed = ed"
  by (auto simp: at_rest_def synced_def)

lemma settle_rest: "at_rest ed \<Longrightarrow> init_effect seen ed = Ret ed \<Longrightarrow> named seen ed \<Longrightarrow> settle_editor seen ed = Some (Ret ed)"
  by (subst settle_editor.simps) (simp add: commit_still synced_at_rest, simp add: at_rest_def synced_at_rest)

text \<open>\<open>rests r\<close>: the result of a run that ends, at rest unless an exception took the component down.\<close>

definition rests :: "tiered_editor thrown option \<Rightarrow> bool" where
  "rests r \<longleftrightarrow> (case r of None \<Rightarrow> False | Some Throw \<Rightarrow> True | Some (Ret ed) \<Rightarrow> at_rest ed)"

lemma init_result:
  "init_effect seen ed = Ret st \<Longrightarrow> e_model st = e_model ed \<and> e_expr st = e_expr ed \<and> e_rules st = e_rules ed \<and> (st = ed \<or> e_init st)"
  by (auto simp: init_effect_def init_with_def Let_def split: if_splits thrown.splits option.splits)

lemma commit_fixed:
  assumes "commit seen ed = Ret ed"
  shows "at_rest ed"
proof -
  from assms obtain f st where f: "render_editor ed = Ret f" and st: "init_effect seen ed = Ret st"
    and e: "rules_effect ed (expr_effect f ed (model_effect seen ed st)) = ed"
    by (auto simp: commit_def split: thrown.splits)
  have "e_expr ed = f" using arg_cong [OF e, of e_expr] by (simp add: effects_sync split: if_splits)
  moreover have "e_rules ed = buildRequestRuleExpr (e_groups ed)" if "e_mode ed = Visual"
    using arg_cong [OF e, of e_rules] that by (auto simp: effects_sync split: if_splits)
  ultimately show ?thesis using f by (simp add: at_rest_def)
qed

lemma rests_step:
  assumes "\<And>ed'. commit seen ed = Ret ed' \<Longrightarrow> ed' \<noteq> ed \<Longrightarrow> rests (settle_editor (Some (props_of ed)) ed')"
  shows "rests (settle_editor seen ed)"
proof (cases "commit seen ed")
  case Throw
  then show ?thesis by (subst settle_editor.simps) (simp add: rests_def)
next
  case (Ret ed')
  then show ?thesis using assms [OF Ret] commit_fixed [of seen ed] by (subst settle_editor.simps) (auto simp: rests_def)
qed

lemma rests_synced:
  assumes "named seen ed" and "init_effect seen ed = Ret ed"
    and "\<And>f. render_editor ed = Ret f \<Longrightarrow> synced f ed \<noteq> ed \<Longrightarrow> rests (settle_editor (Some (props_of ed)) (synced f ed))"
  shows "rests (settle_editor seen ed)"
proof (rule rests_step)
  fix ed' assume c: "commit seen ed = Ret ed'" and n: "ed' \<noteq> ed"
  from c obtain f where f: "render_editor ed = Ret f" and e: "ed' = synced f ed"
    unfolding commit_still [OF assms(1,2)] by (cases "render_editor ed") simp_all
  show "rests (settle_editor (Some (props_of ed)) ed')" unfolding e by (rule assms(3) [OF f]) (use n e in blast)
qed

lemma rests_initialised:
  assumes "e_init ed" and "named seen ed"
  shows "rests (settle_editor seen ed)"
proof (rule rests_synced [OF assms(2) init_done [OF assms(1)]])
  fix f assume f: "render_editor ed = Ret f"
  show "rests (settle_editor (Some (props_of ed)) (synced f ed))"
  proof (rule rests_synced)
    fix g assume g: "render_editor (synced f ed) = Ret g" and n: "synced g (synced f ed) \<noteq> synced f ed"
    have "g = f" using render_effective [OF g] render_effective [OF f] by (simp only: synced_simps thrown.inject)
    with n show "rests (settle_editor (Some (props_of (synced f ed))) (synced g (synced f ed)))" by (simp only: synced_simps simp_thms)
  qed (simp_all only: init_done synced_simps assms(1), simp add: props_of_def)
qed

lemma init_runs:
  "\<not> e_init ed \<Longrightarrow> map_option snd seen \<noteq> Some (snd (props_of ed)) \<Longrightarrow>
   init_effect seen ed = (case read_groups (e_rules ed) of Throw \<Rightarrow> Throw | Ret gs \<Rightarrow> Ret (init_with gs ed))"
  unfolding init_effect_def by (simp only: simp_thms if_False)

lemma init_with_simps [simp]:
  "e_init (init_with gs ed)" "e_model (init_with gs ed) = e_model ed" "e_expr (init_with gs ed) = e_expr ed"
  "e_rules (init_with gs ed) = e_rules ed" "e_groups (init_with gs ed) = gs"
  "e_raw (init_with gs ed) = combineBillingExpr (e_expr ed) (e_rules ed)"
  by (simp_all add: init_with_def Let_def split: option.split)

text \<open>A run whose first commit initialises the editor, if it can.\<close>

lemma rests_init:
  assumes "named seen ed" and "map_option snd seen \<noteq> Some (snd (props_of ed))"
  shows "rests (settle_editor seen ed)"
proof (cases "e_init ed")
  case False
  show ?thesis
  proof (rule rests_step)
    fix ed' assume c: "commit seen ed = Ret ed'"
    then obtain st where st: "init_effect seen ed = Ret st" by (auto simp: commit_def split: thrown.splits)
    then have "e_init st" unfolding init_runs [OF False assms(2)] by (auto split: thrown.splits)
    then have "e_init ed' \<and> e_model ed' = e_model ed"
      using c st init_result [OF st] assms(1) by (auto simp: commit_def model_effect_def effects_sync split: thrown.splits)
    then show "rests (settle_editor (Some (props_of ed)) ed')"
      by (intro rests_initialised) (auto simp: props_of_def)
  qed
qed (use assms in \<open>simp add: rests_initialised\<close>)

lemma rests_named:
  assumes "named seen ed"
  shows "rests (settle_editor seen ed)"
proof (cases "e_init ed \<or> map_option snd seen \<noteq> Some (snd (props_of ed))")
  case False
  show ?thesis
  proof (rule rests_synced [OF assms])
    fix f assume "synced f ed \<noteq> ed"
    then have "snd (props_of (synced f ed)) \<noteq> snd (props_of ed)"
      by (auto simp: props_of_def synced_def intro!: tiered_editor.equality split: if_splits)
    then show "rests (settle_editor (Some (props_of ed)) (synced f ed))"
      by (intro rests_init) (auto simp: props_of_def)
  qed (use False in \<open>simp add: init_effect_def\<close>)
qed (use assms rests_initialised rests_init in blast)

lemma settles_rest: "rests (settle_editor seen ed)"
proof (rule rests_step)
  fix ed' assume c: "commit seen ed = Ret ed'"
  then obtain st where st: "init_effect seen ed = Ret st" by (auto simp: commit_def split: thrown.splits)
  have "e_model ed' = e_model ed"
    using c st init_result [OF st] by (auto simp: commit_def model_effect_def effects_sync split: thrown.splits)
  then show "rests (settle_editor (Some (props_of ed)) ed')" by (intro rests_named) (simp add: props_of_def)
qed

text \<open>C30: After any change, in any state, the effects of the editor come to rest: unless an exception takes the component down,
  the loop of renders and effects ends, the expression the parent holds is the one the editor shows, and in the visual mode
  the request rules the parent holds are those of the rule cards. In the text mode nothing is claimed about the rules.\<close>

theorem editor_settles:
  "\<exists>r. settle_editor seen ed = Some r \<and>
     (case r of
        Throw \<Rightarrow> True
      | Ret ed' \<Rightarrow> effectiveExpr ed' = Ret (e_expr ed') \<and>
          (case e_mode ed' of Visual \<Rightarrow> e_rules ed' = buildRequestRuleExpr (e_groups ed') | Raw \<Rightarrow> True))"
  using settles_rest [of seen ed]
  by (auto simp: rests_def at_rest_def split: option.splits thrown.splits editor_mode.split dest!: render_effective)

section \<open>Opening an expression\<close>

text \<open>Every commit on the way can be skipped.\<close>

lemma settle_commit:
  assumes "commit seen ed = Ret ed'"
  shows "settle_editor seen ed = settle_editor (Some (props_of ed)) ed'"
proof (cases "ed' = ed")
  case True
  have "init_effect (Some (props_of ed)) ed = Ret ed" by (simp add: init_effect_def)
  from settle_rest [OF commit_fixed this named_props] assms True
  have "settle_editor (Some (props_of ed)) ed = Some (Ret ed)" by simp
  then show ?thesis using assms True by (subst settle_editor.simps) simp
qed (use assms in \<open>subst settle_editor.simps, simp\<close>)

lemma settle_fixed: "commit seen ed = Ret ed \<Longrightarrow> settle_editor seen ed = Some (Ret ed)"
  by (subst settle_editor.simps) simp

text \<open>\<open>reads r gs\<close>: the text is the printed form of the rules it is read as.\<close>

definition reads_as :: "jstring \<Rightarrow> rule_group list \<Rightarrow> bool" where
  "reads_as r gs \<longleftrightarrow> tryParseRequestRuleExpr r = Ret (Some gs) \<and> buildRequestRuleExpr gs = r"

lemma reads_built: "\<forall>g \<in> set gs. ok_group g \<Longrightarrow> reads_as (buildRequestRuleExpr gs) gs"
  by (simp add: reads_as_def rules_reparsed)

lemma reads_none: "reads_as [] []"
  using reads_built [of "[]"] by (simp add: buildRequestRuleExpr_def)

lemma read_groups_of [simp]: "reads_as r gs \<Longrightarrow> read_groups r = Ret gs"
  by (simp add: reads_as_def read_groups_def)

lemma render_reads: "reads_as (e_rules ed) gs \<Longrightarrow> render_editor ed = effectiveExpr ed"
  by (auto simp: render_editor_def canUseVisualRules_def reads_as_def)

lemma commit_reads:
  assumes "reads_as (e_rules ed) gs" and "effectiveExpr ed = Ret f"
  shows "commit seen ed = Ret (rules_effect ed (expr_effect f ed (model_effect seen ed
    (if e_init ed \<or> map_option snd seen = Some (snd (props_of ed)) then ed else init_with gs ed))))"
  unfolding commit_def render_reads [OF assms(1)] assms(2) init_effect_def
  by (cases "e_init ed \<or> map_option snd seen = Some (snd (props_of ed))")
     (simp_all only: simp_thms if_True if_False read_groups_of [OF assms(1)] thrown.case)

lemma settle_initialised:
  assumes "e_init ed" and "named seen ed" and "reads_as (e_rules ed) gs" and "effectiveExpr ed = Ret f"
    and "reads_as (e_rules (synced f ed)) hs"
  shows "settle_editor seen ed = Some (Ret (synced f ed))"
proof -
  have "commit seen ed = Ret (synced f ed)"
    using commit_still [OF assms(2) init_done [OF assms(1)]] render_reads [OF assms(3)] assms(4) by simp
  then have "settle_editor seen ed = settle_editor (Some (props_of ed)) (synced f ed)" by (rule settle_commit)
  also have "\<dots> = Some (Ret (synced f ed))"
  proof (rule settle_rest)
    show "at_rest (synced f ed)"
      using render_reads [OF assms(5)] assms(4) by (simp add: at_rest_def rules_synced)
  qed (use assms(1) in \<open>simp_all add: init_done props_of_def\<close>)
  finally show ?thesis .
qed

text \<open>\<open>canonical_expr e cfg\<close>: the text is the printed form of the tiers it is read as.\<close>

definition canonical_expr :: "jstring \<Rightarrow> visual_config \<Rightarrow> bool" where
  "canonical_expr e cfg \<longleftrightarrow> tryParseVisualConfig e = Some cfg \<and> generateExprFromVisualConfig (Some cfg) = e"

definition shown_editor :: "jstring \<Rightarrow> jstring \<Rightarrow> jstring \<Rightarrow> visual_config \<Rightarrow> rule_group list \<Rightarrow> bool \<Rightarrow> tiered_editor" where
  "shown_editor name e r cfg gs i =
     \<lparr>e_model = name, e_expr = e, e_rules = r, e_mode = Visual, e_config = Some cfg, e_raw = combineBillingExpr e r,
      e_groups = gs, e_init = i\<rparr>"

lemma shown_simps [simp]:
  "e_model (shown_editor name e r cfg gs i) = name" "e_expr (shown_editor name e r cfg gs i) = e"
  "e_rules (shown_editor name e r cfg gs i) = r" "e_mode (shown_editor name e r cfg gs i) = Visual"
  "e_config (shown_editor name e r cfg gs i) = Some cfg" "e_groups (shown_editor name e r cfg gs i) = gs"
  "e_raw (shown_editor name e r cfg gs i) = combineBillingExpr e r" "e_init (shown_editor name e r cfg gs i) = i"
  by (simp_all add: shown_editor_def)

lemma init_canonical:
  "canonical_expr (e_expr ed) cfg \<Longrightarrow>
   init_with gs ed = shown_editor (e_model ed) (e_expr ed) (e_rules ed) cfg gs True"
  by (auto simp: init_with_def canonical_expr_def shown_editor_def Let_def intro!: tiered_editor.equality)

lemma open_canonical:
  assumes "canonical_expr e cfg" and "reads_as r gs"
  shows "open_editor name e r = Some (Ret (shown_editor name e r cfg gs False))"
proof -
  let ?ed = "shown_editor name e r cfg gs False"
  have m: "mount_editor name e r = Ret ?ed"
    using assms by (simp add: mount_editor_def canonical_expr_def shown_editor_def)
  have c: "canonical_expr (e_expr ?ed) cfg" and r: "reads_as (e_rules ?ed) gs" using assms by simp_all
  have f: "effectiveExpr ?ed = Ret e" using assms(1) by (simp add: effectiveExpr_def canonical_expr_def)
  have "commit None ?ed = Ret ?ed"
    unfolding commit_reads [OF r f] init_canonical [OF c] using assms
    by (simp add: model_effect_def effects_sync reads_as_def shown_editor_def)
  then show ?thesis by (simp add: open_editor_def m settle_fixed)
qed

text \<open>C35: What the visual editor saved opens unchanged: for the expression of a single tier without conditions, with a label that
  is not empty and holds no quote and with prices whose decimal text has only digits and a point and reads as the same number,
  and for printable request rules (as in the round trip of rules, so no comparison of a body parameter), opening the two texts leaves both as they are and shows one tier with the
  same label and prices and the same rules.\<close>

theorem opening_keeps_texts:
  assumes "get t ''label'' = JStr l" and "l \<noteq> []" and "34 \<notin> set l" and "buildConditionStr (conditions_of t) = []"
    and "list_all (\<lambda>f. price_ok (cost t f)) price_fields" and "\<forall>g \<in> set gs. ok_group g"
  shows "\<exists>u ed. open_editor name (generateExprFromVisualConfig (Some [t])) (buildRequestRuleExpr gs) = Some (Ret ed) \<and>
    e_expr ed = generateExprFromVisualConfig (Some [t]) \<and> e_rules ed = buildRequestRuleExpr gs \<and> e_mode ed = Visual \<and>
    e_groups ed = gs \<and> e_config ed = Some [u] \<and> get u ''label'' = JStr l \<and> conditions_of u = [] \<and>
    map (\<lambda>f. obj_get f u) price_fields = map (\<lambda>f. JNum (cost t f)) price_fields"
proof -
  obtain u where u: "tryParseVisualConfig (generateExprFromVisualConfig (Some [t])) = Some [u]" "get u ''label'' = JStr l"
    "conditions_of u = []" "map (\<lambda>f. obj_get f u) price_fields = map (\<lambda>f. JNum (cost t f)) price_fields"
    "generateExprFromVisualConfig (Some [u]) = generateExprFromVisualConfig (Some [t])"
    using single_tier_reopened [OF assms(1-5)] by blast
  then have "canonical_expr (generateExprFromVisualConfig (Some [t])) [u]" by (simp only: canonical_expr_def)
  from open_canonical [OF this reads_built [OF assms(6)]] u(2-4) show ?thesis
    by (intro exI [of _ u] exI [of _ "shown_editor name (generateExprFromVisualConfig (Some [t])) (buildRequestRuleExpr gs) [u] gs False"])
       (simp only: shown_simps simp_thms)
qed

section \<open>What opening loses\<close>

definition zero_expr :: jstring where
  "zero_expr = lit ''p * 0 + c * 0''"

definition raw_editor :: "jstring \<Rightarrow> jstring \<Rightarrow> jstring \<Rightarrow> jstring \<Rightarrow> rule_group list \<Rightarrow> bool \<Rightarrow> tiered_editor" where
  "raw_editor name e r raw gs i =
     \<lparr>e_model = name, e_expr = e, e_rules = r, e_mode = Raw, e_config = None, e_raw = raw, e_groups = gs, e_init = i\<rparr>"

lemma raw_simps [simp]:
  "e_model (raw_editor name e r raw gs i) = name" "e_expr (raw_editor name e r raw gs i) = e"
  "e_rules (raw_editor name e r raw gs i) = r" "e_mode (raw_editor name e r raw gs i) = Raw"
  "e_raw (raw_editor name e r raw gs i) = raw" "e_groups (raw_editor name e r raw gs i) = gs"
  "e_init (raw_editor name e r raw gs i) = i"
  by (simp_all add: raw_editor_def)

text \<open>The text left after a match has no new characters, so a text without the letter t holds no tier.\<close>

lemma star_set:
  assumes "\<And>st st'. st' \<in> set (f st) \<Longrightarrow> set (fst (snd st')) \<subseteq> set (fst (snd st))"
  shows "st' \<in> set (star_iter f n st) \<Longrightarrow> set (fst (snd st')) \<subseteq> set (fst (snd st))"
proof (induction n arbitrary: st)
  case (Suc n)
  then consider "st' = st" | y where "y \<in> set (f st)" "st' \<in> set (star_iter f n y)" by auto
  then show ?case using Suc.IH assms by cases blast+
qed simp

lemma mt_set: "st' \<in> set (mt r st) \<Longrightarrow> set (fst (snd st')) \<subseteq> set (fst (snd st))"
proof (induction r arbitrary: st st')
  case (Cls p)
  obtain pv s k where st: "st = (pv, s, k)" by (cases st)
  show ?case using Cls unfolding st by (cases s) (auto split: if_splits)
next
  case (Seq a b)
  then obtain y where "y \<in> set (mt a st)" "st' \<in> set (mt b y)" by auto
  then show ?case using Seq.IH(1) [of y st] Seq.IH(2) [of st' y] by (rule_tac subset_trans)
next
  case (Alt a b)
  then consider "st' \<in> set (mt a st)" | "st' \<in> set (mt b st)" by auto
  then show ?case by cases (rule Alt.IH(1), assumption, rule Alt.IH(2), assumption)
next
  case (Star r)
  have "st' \<in> set (star_iter (mt r) (length (fst (snd st))) st)" using Star.prems by simp
  then show ?case by (rule star_set [rotated]) (rule Star.IH)
next
  case (Grp n r)
  then obtain y where y: "y \<in> set (mt r st)" "st' = close_group n (fst (snd st)) y" by auto
  obtain pv s k where "y = (pv, s, k)" by (cases y)
  then have "fst (snd st') = fst (snd y)" using y(2) by simp
  then show ?case using Grp.IH y(1) by simp
next
  case (Ref n)
  obtain pv s k where st: "st = (pv, s, k)" by (cases st)
  show ?case using Ref unfolding st by (auto split: option.splits if_splits dest: in_set_dropD)
qed (simp_all split: if_splits)

lemma absent_char:
  assumes "c \<notin> set (fst (snd st))"
  shows "mt (Seq a (Seq (str (c # w)) b)) st = []"
proof -
  have "mt (Seq (str (c # w)) b) y = []" if "y \<in> set (mt a st)" for y
  proof -
    obtain pv s k where y: "y = (pv, s, k)" by (cases y)
    have "c \<notin> set s" using mt_set [OF that] assms y by auto
    then show ?thesis unfolding y by (intro seq_str_fail) (cases s; auto simp: starts_with_def)
  qed
  then show ?thesis by simp
qed

lemma find_none: "(\<And>pv t. set t \<subseteq> set s \<Longrightarrow> mt r (pv, t, []) = []) \<Longrightarrow> find_first r pv s = None"
proof (induction s arbitrary: pv)
  case (Cons c s)
  have "find_first r (Some c) s = None" by (rule Cons.IH) (rule Cons.prems, auto)
  then show ?case using Cons.prems [of "c # s" pv] by (subst find_first.simps) simp
qed (subst find_first.simps, simp)

lemma no_tier:
  assumes "116 \<notin> set s"
  shows "find_first singleRe pv s = None" and "exec_all tierRe pv s = []"
proof -
  have l: "lit ''tier(\"'' = 116 # lit ''ier(\"''" by simp
  have *: "\<exists>a b. singleRe = Seq a (Seq (str (116 # lit ''ier(\"'')) b)" "\<exists>a b. tierRe = Seq a (Seq (str (116 # lit ''ier(\"'')) b)"
    unfolding singleRe_def tierRe_def tier_open_def l by auto
  then have "mt singleRe (pv, t, []) = []" "mt tierRe (pv, t, []) = []" if "set t \<subseteq> set s" for pv t
  proof -
    have a: "mt (Seq a (Seq (str (116 # w)) b)) (pv, t, []) = []" for a w b using that assms by (intro absent_char) auto
    obtain a b a' b' where r: "singleRe = Seq a (Seq (str (116 # lit ''ier(\"'')) b)"
      "tierRe = Seq a' (Seq (str (116 # lit ''ier(\"'')) b')" using * by blast
    show "mt singleRe (pv, t, []) = []" "mt tierRe (pv, t, []) = []" unfolding r by (rule a)+
  qed
  then have "find_first singleRe pv s = None" "find_first tierRe pv s = None" by (auto intro!: find_none)
  then show "find_first singleRe pv s = None" "exec_all tierRe pv s = []" by (simp_all add: exec_all.simps [of tierRe pv s])
qed

lemma raw_updates [simp]:
  "raw_editor name e r raw gs i\<lparr>e_expr := x\<rparr> = raw_editor name x r raw gs i"
  "raw_editor name e r raw gs i\<lparr>e_rules := x\<rparr> = raw_editor name e x raw gs i"
  "raw_editor name e r raw gs i\<lparr>e_init := j\<rparr> = raw_editor name e r raw gs j"
  by (simp_all add: raw_editor_def)

lemma zero_not_visual: "tryParseVisualConfig zero_expr = None"
proof -
  have v: "strip_version zero_expr = zero_expr" by code_simp
  have t: "116 \<notin> set zero_expr" by code_simp
  show ?thesis unfolding tryParseVisualConfig_def v Let_def re_match_def no_tier [OF t] by simp
qed

lemma zero_ne [simp]: "zero_expr \<noteq> []"
  by (simp add: zero_expr_def)

lemma split_zero:
  assumes "\<forall>g \<in> set gs. ok_group g"
  shows "splitBillingExprAndRequestRules (combineBillingExpr zero_expr (buildRequestRuleExpr gs)) =
    Ret (zero_expr, buildRequestRuleExpr gs)"
proof (cases "gs = []")
  case True
  have "splitBillingExprAndRequestRules (combineBillingExpr zero_expr []) = Ret (zero_expr, [])" by code_simp
  then show ?thesis using True by (simp add: buildRequestRuleExpr_def)
next
  case False
  have "trimmed zero_expr" "balanced zero_expr" "\<not> hasFullOuterParens zero_expr"
    "is_rule (lit ''('' @ zero_expr @ lit '')'') = Ret False" by code_simp+
  then show ?thesis using combined_split [OF zero_ne _ _ _ _ False assms] by blast
qed

lemma init_raw:
  "tryParseVisualConfig (e_expr ed) = None \<Longrightarrow> e_expr ed \<noteq> [] \<Longrightarrow>
   init_with gs ed = raw_editor (e_model ed) (e_expr ed) (e_rules ed) (combineBillingExpr (e_expr ed) (e_rules ed)) gs True"
  by (auto simp: init_with_def raw_editor_def Let_def intro!: tiered_editor.equality)

lemma raw_effective: "e_mode ed = Raw \<Longrightarrow> splitBillingExprAndRequestRules (e_raw ed) = Ret (e, r) \<Longrightarrow> effectiveExpr ed = Ret e"
  by (simp add: effectiveExpr_def)

text \<open>C33: An expression the visual editor cannot read is lost when it is opened: the effect that should initialise the editor once
  runs again after the first render_editor, by then on the expression of the empty visual editor, so the editor comes to rest with the
  text \<^verbatim>\<open>p * 0 + c * 0\<close>, which is also what its parent holds and saves; the request rules are kept.\<close>

theorem opening_replaces_expression:
  assumes "e \<noteq> []" and "e \<noteq> zero_expr" and "tryParseVisualConfig e = None" and "\<forall>g \<in> set gs. ok_group g"
    and "splitBillingExprAndRequestRules (combineBillingExpr e (buildRequestRuleExpr gs)) = Ret (e1, r1)"
  shows "\<exists>ed. open_editor name e (buildRequestRuleExpr gs) = Some (Ret ed) \<and> e_mode ed = Raw \<and>
    e_raw ed = combineBillingExpr zero_expr (buildRequestRuleExpr gs) \<and> e_expr ed = zero_expr \<and> e_rules ed = buildRequestRuleExpr gs"
proof -
  let ?r = "buildRequestRuleExpr gs"
  let ?ed = "\<lparr>e_model = name, e_expr = e, e_rules = ?r, e_mode = Visual, e_config = None, e_raw = combineBillingExpr e ?r,
    e_groups = gs, e_init = False\<rparr>"
  let ?ed1 = "raw_editor name zero_expr ?r (combineBillingExpr e ?r) gs False"
  let ?ed2 = "raw_editor name e1 ?r (combineBillingExpr zero_expr ?r) gs True"
  note rd = reads_built [OF assms(4)]
  have m: "mount_editor name e ?r = Ret ?ed" using rd assms(3) by (simp add: mount_editor_def)
  have f0: "effectiveExpr ?ed = Ret zero_expr" by (simp add: effectiveExpr_def generateExprFromVisualConfig_def zero_expr_def)
  have i0: "init_with gs ?ed = raw_editor name e ?r (combineBillingExpr e ?r) gs True"
    using assms(1,3) by (subst init_raw) simp_all
  have "commit None ?ed = Ret ?ed1"
    by (subst commit_reads [OF _ f0, of gs])
       (use rd assms(2) in \<open>simp_all add: i0 model_effect_def effects_sync\<close>)
  then have 1: "settle_editor None ?ed = settle_editor (Some (name, e, ?r)) ?ed1" by (simp only: settle_commit) (simp add: props_of_def)
  have f1: "effectiveExpr ?ed1 = Ret e1" using assms(5) by (intro raw_effective) simp_all
  have i1: "init_with gs ?ed1 = raw_editor name zero_expr ?r (combineBillingExpr zero_expr ?r) gs True"
    using zero_not_visual by (subst init_raw) simp_all
  have "commit (Some (name, e, ?r)) ?ed1 = Ret ?ed2"
    by (subst commit_reads [OF _ f1, of gs])
       (use rd assms(2) in \<open>simp_all add: i1 model_effect_def effects_sync props_of_def\<close>)
  then have 2: "settle_editor (Some (name, e, ?r)) ?ed1 = settle_editor (Some (name, zero_expr, ?r)) ?ed2"
    by (simp only: settle_commit) (simp add: props_of_def)
  have s: "synced zero_expr ?ed2 = raw_editor name zero_expr ?r (combineBillingExpr zero_expr ?r) gs True"
    by (simp add: synced_def)
  have "settle_editor (Some (name, zero_expr, ?r)) ?ed2 = Some (Ret (synced zero_expr ?ed2))"
    by (rule settle_initialised [where gs = gs and hs = gs])
       (use rd split_zero [OF assms(4)] in \<open>simp_all only: s raw_simps raw_effective, simp_all\<close>)
  then show ?thesis using m 1 2 unfolding s by (simp add: open_editor_def)
qed

lemma shown_updates [simp]:
  "shown_editor name e r cfg gs i\<lparr>e_init := j\<rparr> = shown_editor name e r cfg gs j"
  by (simp add: shown_editor_def)

text \<open>The editor shows canonical texts: the second initialisation, on the texts as they are by then.\<close>

lemma reinit:
  assumes "\<not> e_init ed" and "named seen ed" and "map_option snd seen \<noteq> Some (snd (props_of ed))"
    and "canonical_expr (e_expr ed) cfg" and "reads_as (e_rules ed) gs" and "effectiveExpr ed = Ret f"
    and "e_mode ed = Visual \<Longrightarrow> reads_as (buildRequestRuleExpr (e_groups ed)) hs"
  shows "settle_editor seen ed = Some (Ret (shown_editor (e_model ed) (e_expr ed) (e_rules ed) cfg gs True))"
proof -
  let ?s = "shown_editor (e_model ed) (e_expr ed) (e_rules ed) cfg gs True"
  let ?ed = "rules_effect ed (expr_effect f ed ?s)"
  have "commit seen ed = Ret ?ed"
    unfolding commit_reads [OF assms(5,6)] using assms(1-3) by (simp only: simp_thms if_False init_canonical [OF assms(4)] model_effect_def if_True shown_simps)
  then have 1: "settle_editor seen ed = settle_editor (Some (props_of ed)) ?ed" by (rule settle_commit)
  have e: "effectiveExpr ?ed = Ret (e_expr ed)"
    using assms(4) by (simp add: effectiveExpr_def effects_sync canonical_expr_def)
  have s: "synced (e_expr ed) ?ed = ?s"
    using assms(5) by (simp add: synced_def effects_sync reads_as_def shown_editor_def)
  have "reads_as (e_rules ?ed) gs \<or> reads_as (e_rules ?ed) hs"
    using assms(5,7) by (cases "e_mode ed") (simp_all add: effects_sync)
  then obtain ks where k: "reads_as (e_rules ?ed) ks" by blast
  have "settle_editor (Some (props_of ed)) ?ed = Some (Ret (synced (e_expr ed) ?ed))"
    by (rule settle_initialised [OF _ _ k e, where hs = gs])
       (use assms(5) in \<open>simp_all only: s, simp_all add: effects_sync props_of_def\<close>)
  then show ?thesis using 1 s by simp
qed

lemma open_unread_rules:
  assumes "canonical_expr e cfg" and "tryParseRequestRuleExpr r = Ret None"
  shows "open_editor name e r = Some (Ret (shown_editor name e [] cfg [] True))"
proof -
  let ?ed = "shown_editor name e r cfg [] False" and ?ed1 = "shown_editor name e r cfg [] False\<lparr>e_rules := []\<rparr>"
  have r: "r \<noteq> []" using assms(2) reads_none by (auto simp: reads_as_def)
  have rg: "read_groups r = Ret []" using assms(2) by (simp add: read_groups_def)
  have m: "mount_editor name e r = Ret ?ed"
    using assms rg by (simp add: mount_editor_def canonical_expr_def shown_editor_def)
  have b: "buildRequestRuleExpr [] = []" by (simp add: buildRequestRuleExpr_def)
  have f: "effectiveExpr ?ed = Ret e" "effectiveExpr ?ed1 = Ret e" using assms(1) by (simp_all add: effectiveExpr_def canonical_expr_def)
  have rd: "render_editor ?ed = Ret e" using f(1) assms(2) r by (simp add: render_editor_def canUseVisualRules_def)
  have i: "init_with [] ?ed = shown_editor name e r cfg [] True" using assms(1) by (subst init_canonical) simp_all
  have "init_effect None ?ed = Ret (shown_editor name e r cfg [] True)" by (simp add: init_effect_def rg i)
  then have "commit None ?ed = Ret ?ed1"
    using r by (simp add: commit_def rd model_effect_def rules_effect_def expr_effect_def b)
  then have 1: "settle_editor None ?ed = settle_editor (Some (name, e, r)) ?ed1" by (simp only: settle_commit) (simp add: props_of_def)
  have "settle_editor (Some (name, e, r)) ?ed1 = Some (Ret (shown_editor (e_model ?ed1) (e_expr ?ed1) (e_rules ?ed1) cfg [] True))"
    by (rule reinit [OF _ _ _ _ _ f(2), where hs = "[]"])
       (use assms(1) r reads_none b in \<open>simp_all add: props_of_def\<close>)
  then show ?thesis using 1 m by (simp add: open_editor_def)
qed

text \<open>C34: A request rule the parser cannot read is lost as soon as its model is opened: a rule that compares a body parameter with
  a number is printed in a form that is never read back, so opening a canonical expression with that rule empties the rules the
  parent holds and shows none.\<close>

theorem comparison_rule_lost:
  assumes "canonical_expr e cfg" and "path \<noteq> []" and "plain path" and "numlit v" and "numlit m"
    and "md \<in> {MATCH_GT, MATCH_GTE, MATCH_LT, MATCH_LTE}"
  shows "\<exists>ed. open_editor name e (buildRequestRuleExpr
      [\<lparr>conditions = [ParamHeaderCondition SParam path md v], multiplier = m\<rparr>]) = Some (Ret ed) \<and>
    e_mode ed = Visual \<and> e_expr ed = e \<and> e_rules ed = [] \<and> e_groups ed = []"
  using open_unread_rules [OF assms(1) param_comparison_unread [OF assms(2-6)]]
  by (intro exI [of _ "shown_editor name e [] cfg [] True"]) simp

section \<open>Showing another model\<close>

lemma rests_reachable: "editor_reachable ed \<Longrightarrow> at_rest ed"
proof (induction rule: editor_reachable.induct)
  case (opened name expr rules ed)
  then obtain ed0 where "settle_editor None ed0 = Some (Ret ed)" by (auto simp: open_editor_def split: thrown.splits)
  then show ?case using settles_rest [of None ed0] by (simp add: rests_def)
next
  case (stepped ed ev ed')
  then show ?case using settles_rest [of "Some (props_of ed)" "editor_handle ev ed"] by (simp add: editor_step_def rests_def)
qed

text \<open>The commit after the properties of another model arrived: the texts are those of the state again.\<close>

lemma old_texts_again:
  assumes "effectiveExpr ed = Ret e" and "e_mode ed = Visual" and "buildRequestRuleExpr (e_groups ed) = r"
    and "reads_as (e_rules ed) gs" and "\<not> named seen ed"
  shows "\<exists>ed1. commit seen ed = Ret ed1 \<and> e_model ed1 = e_model ed \<and> e_expr ed1 = e \<and> e_rules ed1 = r \<and> \<not> e_init ed1 \<and>
    ed1 = (if e_init ed \<or> map_option snd seen = Some (snd (props_of ed)) then ed else init_with gs ed)\<lparr>e_init := False, e_expr := e, e_rules := r\<rparr>"
proof -
  let ?st = "if e_init ed \<or> map_option snd seen = Some (snd (props_of ed)) then ed else init_with gs ed"
  have "e_expr ?st = e_expr ed \<and> e_rules ?st = e_rules ed \<and> e_model ?st = e_model ed" by simp
  then have "rules_effect ed (expr_effect e ed (model_effect seen ed ?st)) = ?st\<lparr>e_init := False, e_expr := e, e_rules := r\<rparr>"
    using assms(2,3,5) by (intro tiered_editor.equality) (auto simp: effects_sync model_effect_def)
  then show ?thesis using commit_reads [OF assms(4,1), of seen] by simp
qed

text \<open>Choosing another model while the editor is shown gives it the expression of the model before: the editor keeps its own
  state, and its effects write that state over the texts that arrive, so with another name and other texts that the visual editor
  can read the editor comes to rest with the old expression and the old rules under the new name.\<close>

lemma next_model_gets_old_texts:
  assumes "editor_reachable ed" and "e_mode ed = Visual" and "canonical_expr (e_expr ed) cfg" and "\<forall>g \<in> set (e_groups ed). ok_group g"
    and "name \<noteq> e_model ed" and "tryParseVisualConfig expr \<noteq> None" and "\<forall>g \<in> set gs. ok_group g"
  shows "\<exists>ed'. editor_step (LoadModel name expr (buildRequestRuleExpr gs)) ed = Some (Ret ed') \<and>
    e_model ed' = name \<and> e_expr ed' = e_expr ed \<and> e_rules ed' = e_rules ed"
proof -
  let ?rB = "buildRequestRuleExpr gs" and ?e = "e_expr ed" and ?r = "e_rules ed" and ?seen = "Some (props_of ed)"
  let ?ed = "ed\<lparr>e_model := name, e_expr := expr, e_rules := ?rB\<rparr>"
  have rest: "at_rest ed" by (rule rests_reachable [OF assms(1)])
  then have r: "?r = buildRequestRuleExpr (e_groups ed)" and f: "effectiveExpr ed = Ret ?e"
    using assms(2) render_effective by (auto simp: at_rest_def)
  have rA: "reads_as ?r (e_groups ed)" unfolding r by (rule reads_built [OF assms(4)])
  note rB = reads_built [OF assms(7)]
  have fB: "effectiveExpr ?ed = Ret ?e" using f assms(2) by (simp add: effectiveExpr_def)
  let ?st = "if e_init ed \<or> (?e, ?r) = (expr, ?rB) then ?ed else init_with gs ?ed"
  obtain ed1 where c: "commit ?seen ?ed = Ret ed1" and t: "e_model ed1 = name" "e_expr ed1 = ?e" "e_rules ed1 = ?r" "\<not> e_init ed1"
    and ed1: "ed1 = ?st\<lparr>e_init := False, e_expr := ?e, e_rules := ?r\<rparr>"
    using old_texts_again [of ?ed ?e ?r gs ?seen] fB assms(2,5) r rB by (auto simp: props_of_def)
  have s: "editor_step (LoadModel name expr ?rB) ed = settle_editor (Some (props_of ?ed)) ed1"
    by (simp add: editor_step_def settle_commit [OF c])
  show ?thesis
  proof (cases "(?e, ?r) = (expr, ?rB)")
    case True
    have m: "e_mode ed1 = Visual" "e_config ed1 = e_config ed" "e_groups ed1 = e_groups ed"
      using True assms(2) by (simp_all add: ed1)
    have "render_editor ed1 = effectiveExpr ed1" using rA t(3) by (intro render_reads) simp
    then have "at_rest ed1" using f m assms(2) r t by (simp add: at_rest_def effectiveExpr_def)
    moreover have "init_effect (Some (props_of ?ed)) ed1 = Ret ed1" using True t by (simp add: init_effect_def props_of_def)
    ultimately have "settle_editor (Some (props_of ?ed)) ed1 = Some (Ret ed1)" using t by (intro settle_rest) (simp_all add: props_of_def)
    then show ?thesis using s t by simp
  next
    case False
    have v: "e_mode ed1 = Visual" and g: "\<exists>hs. reads_as (buildRequestRuleExpr (e_groups ed1)) hs"
      using assms(2,6) r rA rB False by (auto simp: ed1 init_with_def Let_def split: option.split)
    have "effectiveExpr ed1 = Ret (generateExprFromVisualConfig (e_config ed1))" using v by (simp add: effectiveExpr_def)
    then have "settle_editor (Some (props_of ?ed)) ed1 = Some (Ret (shown_editor (e_model ed1) (e_expr ed1) (e_rules ed1) cfg (e_groups ed) True))"
      using g False assms(3) rA t by (elim exE) (rule reinit, auto simp: props_of_def)
    then show ?thesis using s t by simp
  qed
qed

section \<open>Switching between the modes\<close>

lemma rest_step:
  assumes "at_rest (editor_handle ev ed)" and "props_of (editor_handle ev ed) = props_of ed"
  shows "editor_step ev ed = Some (Ret (editor_handle ev ed))"
  unfolding editor_step_def using assms by (intro settle_rest) (auto simp: init_effect_def props_of_def)

lemma shown_expr:
  assumes "at_rest ed" and "e_mode ed = Visual"
  shows "generateExprFromVisualConfig (e_config ed) = e_expr ed"
proof -
  have "effectiveExpr ed = Ret (e_expr ed)" using assms(1) by (intro render_effective) (simp add: at_rest_def)
  then show ?thesis using assms(2) by (simp add: effectiveExpr_def)
qed

lemma combine_ne: "base \<noteq> [] \<Longrightarrow> trimmed base \<Longrightarrow> combineBillingExpr base rules \<noteq> []"
  by (simp add: combineBillingExpr_def trim_trimmed Let_def)

text \<open>Looking at an expression as text and going back changes nothing: from a canonical expression that is trimmed, balanced,
  not wrapped in parentheses and not a rule, with at least one rule and printable rules only, switching to the text mode shows the combined text and keeps both texts of the parent, and switching back shows the same tiers
  and the same rules.\<close>

lemma text_mode_and_back:
  assumes "editor_reachable ed" and "e_mode ed = Visual" and "canonical_expr (e_expr ed) cfg"
    and "e_groups ed \<noteq> []" and "\<forall>g \<in> set (e_groups ed). ok_group g"
    and "trimmed (e_expr ed)" and "balanced (e_expr ed)" and "\<not> hasFullOuterParens (e_expr ed)"
    and "is_rule (lit ''('' @ e_expr ed @ lit '')'') = Ret False"
  shows "\<exists>ed1 ed2. editor_step (ModeSwitch Raw) ed = Some (Ret ed1) \<and> editor_step (ModeSwitch Visual) ed1 = Some (Ret ed2) \<and>
    e_raw ed1 = combineBillingExpr (e_expr ed) (e_rules ed) \<and> props_of ed1 = props_of ed \<and> props_of ed2 = props_of ed \<and>
    e_mode ed2 = Visual \<and> e_config ed2 = Some cfg \<and> e_groups ed2 = e_groups ed"
proof -
  let ?e = "e_expr ed" and ?r = "e_rules ed" and ?gs = "e_groups ed"
  let ?ed1 = "editor_handle (ModeSwitch Raw) ed"
  let ?ed2 = "editor_handle (ModeSwitch Visual) ?ed1"
  have rest: "at_rest ed" by (rule rests_reachable [OF assms(1)])
  then have r: "?r = buildRequestRuleExpr ?gs" and e: "generateExprFromVisualConfig (e_config ed) = ?e"
    using assms(2) shown_expr by (auto simp: at_rest_def)
  have rd: "reads_as ?r ?gs" unfolding r by (rule reads_built [OF assms(5)])
  have ne: "?e \<noteq> []" using assms(3) by (auto simp: canonical_expr_def tryParseVisualConfig_def)
  have sp: "splitBillingExprAndRequestRules (combineBillingExpr ?e ?r) = Ret (?e, ?r)"
    unfolding r by (rule combined_split) (use assms ne in auto)
  have ed1: "?ed1 = ed\<lparr>e_raw := combineBillingExpr ?e ?r, e_mode := Raw\<rparr>"
    using combine_ne [OF ne assms(6)] by (simp add: to_raw_def e r [symmetric] or_text_def)
  have "at_rest ?ed1"
    unfolding ed1 at_rest_def by (subst render_reads [of _ ?gs]) (simp_all add: rd sp effectiveExpr_def)
  then have 1: "editor_step (ModeSwitch Raw) ed = Some (Ret ?ed1)" by (rule rest_step) (simp only: ed1, simp add: props_of_def)
  have ed2: "?ed2 = ?ed1\<lparr>e_config := Some cfg, e_groups := ?gs, e_rules := ?r, e_mode := Visual\<rparr>"
    using assms(3) rd unfolding ed1 by (simp add: to_visual_def sp canonical_expr_def)
  have "at_rest (?ed1\<lparr>e_config := Some cfg, e_groups := ?gs, e_rules := ?r, e_mode := Visual\<rparr>)"
    unfolding ed1 at_rest_def
    by (subst render_reads [of _ ?gs]) (use rd assms(3) r in \<open>simp_all add: effectiveExpr_def canonical_expr_def\<close>)
  then have "at_rest ?ed2" by (simp only: ed2)
  then have 2: "editor_step (ModeSwitch Visual) ?ed1 = Some (Ret ?ed2)" by (rule rest_step) (simp only: ed2, simp only: ed1, simp add: props_of_def)
  show ?thesis using 1 2 by (intro exI [of _ ?ed1] exI [of _ ?ed2]) (simp only: ed2, simp only: ed1, simp add: props_of_def)
qed

text \<open>Switching to the text mode with rules the parser cannot split off again: the text as a whole becomes the expression of the
  parent, and the rules it holds stay.\<close>

lemma text_mode_takes_combined:
  assumes "at_rest ed" and "e_mode ed = Visual" and "e_init ed" and "tryParseRequestRuleExpr (e_rules ed) \<noteq> Throw"
    and c: "c = combineBillingExpr (e_expr ed) (e_rules ed)" and "c \<noteq> []" and "splitBillingExprAndRequestRules c = Ret (c, [])"
  shows "editor_step (ModeSwitch Raw) ed = Some (Ret (ed\<lparr>e_raw := c, e_mode := Raw, e_expr := c\<rparr>))"
proof -
  let ?ed1 = "ed\<lparr>e_raw := c, e_mode := Raw\<rparr>" and ?ed2 = "ed\<lparr>e_raw := c, e_mode := Raw, e_expr := c\<rparr>"
  have r: "e_rules ed = buildRequestRuleExpr (e_groups ed)" using assms(1,2) by (simp add: at_rest_def)
  have h: "editor_handle (ModeSwitch Raw) ed = ?ed1"
    using assms(6) shown_expr [OF assms(1,2)] unfolding c by (simp add: to_raw_def r [symmetric] or_text_def)
  have e: "render_editor ?ed1 = Ret c" "render_editor ?ed2 = Ret c"
    using assms(4,7) by (auto simp: render_editor_def canUseVisualRules_def effectiveExpr_def split: thrown.splits)
  have i: "init_effect seen ?ed1 = Ret ?ed1" "init_effect seen ?ed2 = Ret ?ed2" for seen using assms(3) by (simp_all add: init_done)
  have "commit (Some (props_of ed)) ?ed1 = Ret ?ed2"
    using commit_still [OF _ i(1), of "Some (props_of ed)"] by (simp add: e(1) props_of_def synced_def)
  then have "settle_editor (Some (props_of ed)) ?ed1 = settle_editor (Some (props_of ?ed1)) ?ed2" by (rule settle_commit)
  also have "\<dots> = Some (Ret ?ed2)" by (rule settle_rest [OF _ i(2)]) (simp_all add: at_rest_def e(2) props_of_def)
  finally show ?thesis unfolding editor_step_def h .
qed

text \<open>The first edit in the text mode after opening, if the visual editor can read it, leaves the text mode.\<close>

lemma first_edit_leaves_text_mode:
  assumes "canonical_expr e cfg" and "reads_as r gs" and "splitBillingExprAndRequestRules s = Ret (e', r)"
    and "canonical_expr e' cfg'" and "e' \<noteq> e"
  shows "editor_step (RawEdit s) (shown_editor name e r cfg gs False\<lparr>e_raw := raw, e_mode := Raw\<rparr>) =
    Some (Ret (shown_editor name e' r cfg' gs True))"
proof -
  let ?ed = "shown_editor name e r cfg gs False\<lparr>e_raw := raw, e_mode := Raw\<rparr>"
  let ?typed = "shown_editor name e r cfg gs False\<lparr>e_raw := s, e_mode := Raw\<rparr>"
  let ?ed1 = "?typed\<lparr>e_expr := e'\<rparr>"
  have h: "handleRawChange s ?ed = ?typed" by (simp add: handleRawChange_def assms(3) shown_editor_def)
  have f: "effectiveExpr ?typed = Ret e'" "effectiveExpr ?ed1 = Ret e'" using assms(3) by (simp_all add: effectiveExpr_def)
  have "commit (Some (name, e, r)) ?typed = Ret ?ed1"
    by (subst commit_reads [OF _ f(1), of gs])
       (use assms(2,5) in \<open>simp_all add: model_effect_def rules_effect_def expr_effect_def props_of_def shown_editor_def\<close>)
  then have "settle_editor (Some (name, e, r)) ?typed = settle_editor (Some (name, e, r)) ?ed1" by (simp only: settle_commit) (simp add: props_of_def)
  also have "\<dots> = Some (Ret (shown_editor (e_model ?ed1) (e_expr ?ed1) (e_rules ?ed1) cfg' gs True))"
    by (rule reinit [OF _ _ _ _ _ f(2), where hs = gs]) (use assms in \<open>simp_all add: props_of_def\<close>)
  finally have "settle_editor (Some (name, e, r)) ?typed = Some (Ret (shown_editor name e' r cfg' gs True))" by simp
  moreover have "props_of ?ed = (name, e, r)" by (simp add: props_of_def)
  ultimately show ?thesis by (simp only: editor_step_def editor_handle.simps h)
qed

text \<open>Switching to the visual mode replaces a text it cannot read by the default tier.\<close>

lemma visual_mode_discards_text:
  assumes "splitBillingExprAndRequestRules (e_raw ed) = Ret (e, r)" and "tryParseVisualConfig e = None" and "reads_as r gs"
  shows "editor_handle (ModeSwitch Visual) ed =
    ed\<lparr>e_config := Some createDefaultVisualConfig, e_groups := gs, e_rules := r, e_mode := Visual\<rparr>"
  using assms by (simp add: to_visual_def)

lemma default_expr: \<open>generateExprFromVisualConfig (Some createDefaultVisualConfig) = lit ''tier("base", p * 0 + c * 0)''\<close>
  by code_simp

lemma preset_rules: "list_all (\<lambda>(_, ps). list_all (\<lambda>p. list_all ok_group (ps_rules p)) ps) PRESET_GROUPS"
  by code_simp

section \<open>Examples\<close>

lemma sample_canonical:
  "\<exists>u. canonical_expr (generateExprFromVisualConfig (Some [sample_tier])) [u]"
proof -
  have "get sample_tier ''label'' = JStr (lit ''base'')" "lit ''base'' \<noteq> []" "34 \<notin> set (lit ''base'')"
    "buildConditionStr (conditions_of sample_tier) = []" "list_all (\<lambda>f. price_ok (cost sample_tier f)) price_fields" by code_simp+
  from single_tier_reopened [OF this] show ?thesis by (auto simp: canonical_expr_def)
qed

theorem opening_keeps_texts_witness:
  "\<exists>u ed. open_editor (lit ''m'') (generateExprFromVisualConfig (Some [sample_tier])) (buildRequestRuleExpr [sample_group]) = Some (Ret ed) \<and>
    e_expr ed = generateExprFromVisualConfig (Some [sample_tier]) \<and> e_rules ed = buildRequestRuleExpr [sample_group] \<and>
    e_mode ed = Visual \<and> e_groups ed = [sample_group] \<and> e_config ed = Some [u] \<and> get u ''label'' = JStr (lit ''base'') \<and>
    conditions_of u = [] \<and> map (\<lambda>f. obj_get f u) price_fields = map (\<lambda>f. JNum (cost sample_tier f)) price_fields"
proof (rule opening_keeps_texts)
  show "get sample_tier ''label'' = JStr (lit ''base'')" by code_simp
  show "lit ''base'' \<noteq> []" by code_simp
  show "34 \<notin> set (lit ''base'')" by code_simp
  show "buildConditionStr (conditions_of sample_tier) = []" by code_simp
  show "list_all (\<lambda>f. price_ok (cost sample_tier f)) price_fields" by code_simp
  show "\<forall>g \<in> set [sample_group]. ok_group g" by (simp add: sample_group_ok)
qed

definition max_expr :: jstring where
  "max_expr = lit ''max(p * 2, 5)''"

lemma max_not_visual: "tryParseVisualConfig max_expr = None"
proof -
  have v: "strip_version max_expr = max_expr" by code_simp
  have t: "116 \<notin> set max_expr" by code_simp
  show ?thesis unfolding tryParseVisualConfig_def v Let_def re_match_def no_tier [OF t] by simp
qed

theorem opening_replaces_expression_witness:
  "\<exists>ed. open_editor (lit ''m'') max_expr (buildRequestRuleExpr []) = Some (Ret ed) \<and> e_mode ed = Raw \<and>
    e_raw ed = combineBillingExpr zero_expr (buildRequestRuleExpr []) \<and> e_expr ed = zero_expr \<and> e_rules ed = buildRequestRuleExpr []"
proof (rule opening_replaces_expression)
  show "max_expr \<noteq> []" "max_expr \<noteq> zero_expr" by code_simp+
  show "splitBillingExprAndRequestRules (combineBillingExpr max_expr (buildRequestRuleExpr [])) = Ret (max_expr, [])" by code_simp
qed (simp_all add: max_not_visual)

theorem comparison_rule_lost_witness:
  "\<exists>ed. open_editor (lit ''m'') (generateExprFromVisualConfig (Some [sample_tier])) (buildRequestRuleExpr
      [\<lparr>conditions = [ParamHeaderCondition SParam (lit ''max_tokens'') MATCH_GT (lit ''1000'')], multiplier = lit ''1.5''\<rparr>]) = Some (Ret ed) \<and>
    e_mode ed = Visual \<and> e_expr ed = generateExprFromVisualConfig (Some [sample_tier]) \<and> e_rules ed = [] \<and> e_groups ed = []"
proof -
  obtain u where u: "canonical_expr (generateExprFromVisualConfig (Some [sample_tier])) [u]" using sample_canonical by blast
  have "lit ''max_tokens'' \<noteq> []" "plain (lit ''max_tokens'')" "numlit (lit ''1000'')" "numlit (lit ''1.5'')" by code_simp+
  then show ?thesis by (rule comparison_rule_lost [OF u]) simp
qed

definition sample_text :: jstring where
  "sample_text = generateExprFromVisualConfig (Some [sample_tier])"

lemma sample_shape:
  "trimmed sample_text" "balanced sample_text" "\<not> hasFullOuterParens sample_text"
  "is_rule (lit ''('' @ sample_text @ lit '')'') = Ret False"
  by code_simp+

lemma sample_opened:
  obtains u where "canonical_expr sample_text [u]"
    and "editor_reachable (shown_editor (lit ''m'') sample_text (buildRequestRuleExpr [sample_group]) [u] [sample_group] False)"
proof -
  obtain u where u: "canonical_expr sample_text [u]" using sample_canonical unfolding sample_text_def by blast
  have "reads_as (buildRequestRuleExpr [sample_group]) [sample_group]" by (rule reads_built) (simp add: sample_group_ok)
  then have "editor_reachable (shown_editor (lit ''m'') sample_text (buildRequestRuleExpr [sample_group]) [u] [sample_group] False)"
    by (rule editor_reachable.opened [OF open_canonical [OF u]])
  with u that show thesis by blast
qed

lemma text_mode_and_back_witness:
  "\<exists>ed cfg ed1 ed2. editor_reachable ed \<and> editor_step (ModeSwitch Raw) ed = Some (Ret ed1) \<and>
    editor_step (ModeSwitch Visual) ed1 = Some (Ret ed2) \<and> e_raw ed1 = combineBillingExpr (e_expr ed) (e_rules ed) \<and>
    props_of ed1 = props_of ed \<and> props_of ed2 = props_of ed \<and> e_config ed2 = Some cfg \<and> e_groups ed2 = e_groups ed"
proof -
  obtain u where u: "canonical_expr sample_text [u]"
    and r: "editor_reachable (shown_editor (lit ''m'') sample_text (buildRequestRuleExpr [sample_group]) [u] [sample_group] False)"
    by (rule sample_opened)
  let ?ed = "shown_editor (lit ''m'') sample_text (buildRequestRuleExpr [sample_group]) [u] [sample_group] False"
  have "\<exists>ed1 ed2. editor_step (ModeSwitch Raw) ?ed = Some (Ret ed1) \<and> editor_step (ModeSwitch Visual) ed1 = Some (Ret ed2) \<and>
    e_raw ed1 = combineBillingExpr (e_expr ?ed) (e_rules ?ed) \<and> props_of ed1 = props_of ?ed \<and> props_of ed2 = props_of ?ed \<and>
    e_mode ed2 = Visual \<and> e_config ed2 = Some [u] \<and> e_groups ed2 = e_groups ?ed"
    by (rule text_mode_and_back [OF r]) (use u sample_shape sample_group_ok in \<open>simp_all only: shown_simps, simp_all\<close>)
  with r show ?thesis by blast
qed

end
