(* ===== verification/Tiered_Sheet.thy ===== *)
theory Tiered_Sheet
  imports Tiered_Editor_Props Model_Pricing
begin

text \<open>
  The form of one model (\<open>Model_Pricing\<close>) with the editor of its expression in it (\<open>Tiered_Editor\<close>), as
  \<^verbatim>\<open>features/system-settings/models/model-pricing-sheet.tsx\<close> puts them together: the form holds the two texts as its state
  and passes them, with the name of the model, to the editor, whose effects write them. The tab with the editor exists only
  while the mode is the expression, and the editor has no key, so it stays when other data is loaded.
\<close>

record pricing_sheet =
  s_panel :: panel
  s_editor :: "tiered_editor option"

definition with_editor :: "panel \<Rightarrow> tiered_editor \<Rightarrow> pricing_sheet" where
  "with_editor p ed = \<lparr>s_panel = p\<lparr>p_expr := e_expr ed, p_rules := e_rules ed\<rparr>, s_editor = Some ed\<rparr>"

definition editor_result :: "panel \<Rightarrow> tiered_editor thrown option \<Rightarrow> pricing_sheet thrown option" where
  "editor_result p r =
     (case r of None \<Rightarrow> None | Some Throw \<Rightarrow> Some Throw | Some (Ret ed) \<Rightarrow> Some (Ret (with_editor p ed)))"

text \<open>The form renders the tab: the editor appears, gets the texts of the form, or goes.\<close>

definition render_sheet :: "panel \<Rightarrow> tiered_editor option \<Rightarrow> pricing_sheet thrown option" where
  "render_sheet p ed =
     (if p_mode p \<noteq> TieredExpr then Some (Ret \<lparr>s_panel = p, s_editor = None\<rparr>)
      else editor_result p
        (case ed of
           None \<Rightarrow> open_editor (f_name (p_form p)) (p_expr p) (p_rules p)
         | Some ed \<Rightarrow> editor_step (LoadModel (f_name (p_form p)) (p_expr p) (p_rules p)) ed))"

datatype sheet_event = LoadData "model_data option" | InForm panel_event | InEditor editor_event

fun sheet_handle :: "sheet_event \<Rightarrow> pricing_sheet \<Rightarrow> pricing_sheet thrown option" where
  "sheet_handle (LoadData d) s = render_sheet (load_panel d) (s_editor s)"
| "sheet_handle (InForm ev) s = render_sheet (panel_handle ev (s_panel s)) (s_editor s)"
| "sheet_handle (InEditor ev) s =
     (case s_editor s of
        None \<Rightarrow> Some (Ret s)
      | Some ed \<Rightarrow> editor_result (s_panel s) (editor_step ev ed))"

definition sheet_event_ok :: "pricing_sheet \<Rightarrow> sheet_event \<Rightarrow> bool" where
  "sheet_event_ok s ev =
     (case ev of
        LoadData _ \<Rightarrow> True
      | InForm e \<Rightarrow> panel_event_ok (s_panel s) e \<and> (case e of ExprChange _ \<Rightarrow> False | RulesChange _ \<Rightarrow> False | _ \<Rightarrow> True)
      | InEditor e \<Rightarrow> (case s_editor s of None \<Rightarrow> False | Some ed \<Rightarrow> editor_event_ok ed e \<and> (case e of LoadModel _ _ _ \<Rightarrow> False | _ \<Rightarrow> True)))"

inductive sheet_reachable :: "pricing_sheet \<Rightarrow> bool" where
  loaded: "render_sheet (load_panel d) None = Some (Ret s) \<Longrightarrow> sheet_reachable s"
| handled: "sheet_reachable s \<Longrightarrow> sheet_event_ok s ev \<Longrightarrow> sheet_handle ev s = Some (Ret s') \<Longrightarrow> sheet_reachable s'"

section \<open>What is saved is what is shown\<close>

definition sheet_ok :: "pricing_sheet \<Rightarrow> bool" where
  "sheet_ok s \<longleftrightarrow>
     (case s_editor s of
        None \<Rightarrow> p_mode (s_panel s) \<noteq> TieredExpr
      | Some ed \<Rightarrow> p_mode (s_panel s) = TieredExpr \<and> editor_reachable ed \<and>
          p_expr (s_panel s) = e_expr ed \<and> p_rules (s_panel s) = e_rules ed)"

lemma editor_result_ok:
  assumes "editor_result p r = Some (Ret s)" and "p_mode p = TieredExpr" and "\<And>ed. r = Some (Ret ed) \<Longrightarrow> editor_reachable ed"
  shows "sheet_ok s"
  using assms by (auto simp: editor_result_def with_editor_def sheet_ok_def split: option.splits thrown.splits)

lemma loaded_reachable:
  "editor_reachable ed \<Longrightarrow> editor_step (LoadModel name expr rules) ed = Some (Ret ed') \<Longrightarrow> editor_reachable ed'"
  by (rule editor_reachable.stepped) (simp_all add: editor_event_ok_def)

lemma render_sheet_ok:
  assumes "render_sheet p ed = Some (Ret s)" and "\<And>e. ed = Some e \<Longrightarrow> editor_reachable e"
  shows "sheet_ok s"
proof (cases "p_mode p = TieredExpr")
  case True
  let ?r = "case ed of None \<Rightarrow> open_editor (f_name (p_form p)) (p_expr p) (p_rules p)
    | Some ed \<Rightarrow> editor_step (LoadModel (f_name (p_form p)) (p_expr p) (p_rules p)) ed"
  have "editor_result p ?r = Some (Ret s)" using assms(1) True by (simp add: render_sheet_def)
  then show ?thesis
  proof (rule editor_result_ok [OF _ True])
    fix e assume "?r = Some (Ret e)"
    then show "editor_reachable e"
      using assms(2) by (auto split: option.splits intro: editor_reachable.opened loaded_reachable)
  qed
qed (use assms(1) in \<open>auto simp: render_sheet_def sheet_ok_def\<close>)

lemma sheet_reachable_ok: "sheet_reachable s \<Longrightarrow> sheet_ok s"
proof (induction rule: sheet_reachable.induct)
  case (loaded d s)
  then show ?case by (rule render_sheet_ok) simp
next
  case (handled s ev s')
  have e: "editor_reachable ed" if "s_editor s = Some ed" for ed using handled.IH that by (simp add: sheet_ok_def)
  show ?case
  proof (cases ev)
    case (InEditor e')
    with handled obtain ed where ed: "s_editor s = Some ed" "editor_event_ok ed e'"
      by (auto simp: sheet_event_ok_def split: option.splits)
    with InEditor handled have r: "editor_result (s_panel s) (editor_step e' ed) = Some (Ret s')" by simp
    then show ?thesis
      by (rule editor_result_ok) (use handled.IH e [OF ed(1)] ed editor_reachable.stepped in \<open>auto simp: sheet_ok_def\<close>)
  qed (use handled.hyps render_sheet_ok e in \<open>auto\<close>)
qed

text \<open>C31: What is saved is what the editor shows. In every reachable state of the form with its editor in it: in the visual mode a
  save writes the expression printed from the tiers shown and the request rules printed from the rule cards; in the text mode
  it writes the expression part of the text shown, as the parser splits it from the request rules. Of the rules written in the
  text mode nothing is claimed: \<open>text_mode_writes_rules_twice\<close> shows what becomes of rules the parser cannot read.\<close>

theorem saved_is_shown:
  assumes "sheet_reachable s" and "s_editor s = Some ed" and "handleSubmit (s_panel s) = SavePricing d"
  shows "md_mode d = TieredExpr \<and>
    (case e_mode ed of
       Visual \<Rightarrow> md_expr d = Some (generateExprFromVisualConfig (e_config ed)) \<and>
         md_rules d = Some (buildRequestRuleExpr (e_groups ed))
     | Raw \<Rightarrow> (\<exists>expr rules. splitBillingExprAndRequestRules (e_raw ed) = Ret (expr, rules) \<and> md_expr d = Some expr))"
proof -
  have ok: "sheet_ok s" by (rule sheet_reachable_ok [OF assms(1)])
  then have r: "at_rest ed" using assms(2) rests_reachable by (simp add: sheet_ok_def)
  then have e: "effectiveExpr ed = Ret (e_expr ed)" by (intro render_effective) (simp add: at_rest_def)
  have d: "md_mode d = TieredExpr" "md_expr d = Some (e_expr ed)" "md_rules d = Some (e_rules ed)"
    using ok assms(2,3) by (auto simp: sheet_ok_def handleSubmit_def submitted_def Let_def split: if_splits)
  show ?thesis
  proof (cases "e_mode ed")
    case Visual
    with d e r show ?thesis by (simp add: effectiveExpr_def at_rest_def)
  next
    case Raw
    with d e show ?thesis by (auto simp: effectiveExpr_def split: thrown.splits)
  qed
qed

text \<open>A save in the text mode writes rules twice that the parser cannot read: switching to the text mode gives the parent the
  combined text as its expression, and the rules it holds stay.\<close>

lemma text_mode_writes_rules_twice:
  assumes "sheet_ok s" and "s_editor s = Some ed" and "e_mode ed = Visual" and "e_init ed" and "f_name (p_form (s_panel s)) \<noteq> []"
    and "tryParseRequestRuleExpr (e_rules ed) \<noteq> Throw" and "combineBillingExpr (e_expr ed) (e_rules ed) \<noteq> []"
    and "splitBillingExprAndRequestRules (combineBillingExpr (e_expr ed) (e_rules ed)) = Ret (combineBillingExpr (e_expr ed) (e_rules ed), [])"
  shows "\<exists>s' d. sheet_handle (InEditor (ModeSwitch Raw)) s = Some (Ret s') \<and> handleSubmit (s_panel s') = SavePricing d \<and>
    md_expr d = Some (combineBillingExpr (e_expr ed) (e_rules ed)) \<and> md_rules d = Some (e_rules ed)"
proof -
  let ?c = "combineBillingExpr (e_expr ed) (e_rules ed)"
  let ?ed = "ed\<lparr>e_raw := ?c, e_mode := Raw, e_expr := ?c\<rparr>"
  let ?s = "with_editor (s_panel s) ?ed"
  have ok: "p_mode (s_panel s) = TieredExpr" "editor_reachable ed" using assms(1,2) by (simp_all add: sheet_ok_def)
  have "editor_step (ModeSwitch Raw) ed = Some (Ret ?ed)"
    using assms(3-) rests_reachable [OF ok(2)] by (intro text_mode_takes_combined) simp_all
  then have "sheet_handle (InEditor (ModeSwitch Raw)) s = Some (Ret ?s)" by (simp add: assms(2) editor_result_def)
  moreover have "handleSubmit (s_panel ?s) = SavePricing (submitted (s_panel ?s))"
    using ok(1) assms(5)
    by (simp add: handleSubmit_def with_editor_def lacks_input_price_def lacks_audio_input_def submitted_def Let_def)
  ultimately show ?thesis using ok(1)
    by (intro exI [of _ ?s] exI [of _ "submitted (s_panel ?s)"]) (simp add: submitted_def with_editor_def Let_def)
qed

lemma unread_rule_not_split:
  "let r = buildRequestRuleExpr
      [\<lparr>conditions = [ParamHeaderCondition SParam (lit ''max_tokens'') MATCH_GT (lit ''1000'')], multiplier = lit ''1.5''\<rparr>] in
    tryParseRequestRuleExpr r = Ret None \<and>
    splitBillingExprAndRequestRules (combineBillingExpr sample_text r) = Ret (combineBillingExpr sample_text r, [])"
  by code_simp


section \<open>Examples\<close>

definition tiered_model :: "string \<Rightarrow> jstring \<Rightarrow> jstring \<Rightarrow> model_data" where
  "tiered_model name expr rules =
     \<lparr>md_name = lit name, md_mode = TieredExpr, md_price = [], md_ratio = [], md_lane = (\<lambda>_. []),
      md_expr = Some expr, md_rules = Some rules\<rparr>"

lemma tiered_model_simps [simp]:
  "md_name (tiered_model name expr rules) = lit name" "md_mode (tiered_model name expr rules) = TieredExpr"
  "md_expr (tiered_model name expr rules) = Some expr" "md_rules (tiered_model name expr rules) = Some rules"
  by (simp_all add: tiered_model_def)

lemma tiered_loaded:
  "p_mode (load_panel (Some (tiered_model name expr rules))) = TieredExpr"
  "f_name (p_form (load_panel (Some (tiered_model name expr rules)))) = lit name"
  "p_expr (load_panel (Some (tiered_model name expr rules))) = expr"
  "p_rules (load_panel (Some (tiered_model name expr rules))) = rules"
  by (simp_all add: load_panel_def text_of_def Let_def)

lemma sample_sheet:
  obtains s ed cfg where "sheet_reachable s" and "s_editor s = Some ed" and "e_mode ed = Visual" and "canonical_expr (e_expr ed) cfg"
    and "e_groups ed = [sample_group]" and "e_model ed = lit ''m''" and "e_expr ed = sample_text"
    and "handleSubmit (s_panel s) = SavePricing (submitted (s_panel s))"
proof -
  let ?r = "buildRequestRuleExpr [sample_group]"
  let ?p = "load_panel (Some (tiered_model ''m'' sample_text ?r))"
  obtain u where u: "canonical_expr sample_text [u]" using sample_canonical unfolding sample_text_def by blast
  have "reads_as ?r [sample_group]" by (rule reads_built) (simp add: sample_group_ok)
  note op = open_canonical [OF u this, of "lit ''m''"]
  let ?ed = "shown_editor (lit ''m'') sample_text ?r [u] [sample_group] False"
  have "render_sheet ?p None = Some (Ret (with_editor ?p ?ed))"
    unfolding render_sheet_def by (simp only: tiered_loaded option.case op) (simp add: editor_result_def)
  then have "sheet_reachable (with_editor ?p ?ed)" by (rule sheet_reachable.loaded)
  moreover have "handleSubmit (s_panel (with_editor ?p ?ed)) = SavePricing (submitted (s_panel (with_editor ?p ?ed)))"
    using tiered_loaded [of "''m''" sample_text ?r] by (simp add: handleSubmit_def with_editor_def lacks_input_price_def lacks_audio_input_def)
  ultimately show thesis using u by (intro that [of "with_editor ?p ?ed" ?ed "[u]"]) (simp_all add: with_editor_def)
qed

theorem saved_is_shown_witness:
  "\<exists>s ed d. sheet_reachable s \<and> s_editor s = Some ed \<and> handleSubmit (s_panel s) = SavePricing d \<and> md_expr d = Some sample_text \<and>
    md_rules d = Some (buildRequestRuleExpr [sample_group])"
proof -
  obtain s ed cfg where s: "sheet_reachable s" "s_editor s = Some ed" "handleSubmit (s_panel s) = SavePricing (submitted (s_panel s))"
    and e: "e_mode ed = Visual" "e_groups ed = [sample_group]" "e_expr ed = sample_text" by (rule sample_sheet)
  have "at_rest ed" using sheet_reachable_ok [OF s(1)] s(2) rests_reachable by (simp add: sheet_ok_def)
  then have "generateExprFromVisualConfig (e_config ed) = sample_text" using shown_expr e(1,3) by simp
  with saved_is_shown [OF s] s e show ?thesis by auto
qed


end
