(* ===== verification/Upstream_Sync.thy ===== *)
theory Upstream_Sync
  imports Model_Pricing
begin

text \<open>
  Taking prices over from upstream channels: \<^verbatim>\<open>features/system-settings/models/upstream-ratio-sync.tsx\<close> (the component),
  \<^verbatim>\<open>upstream-ratio-sync-helpers.ts\<close> (the fields and their order) and the selections of
  \<^verbatim>\<open>upstream-ratio-sync-table.tsx\<close>. The ten settings are those of the price editor, with the same keys.

  The answers of the server are events: a request that writes one setting is stored, refused (an answer with
  \<^verbatim>\<open>success: false\<close>, for which the client shows a message and resolves as for any answer) or fails. Settings are modelled where they hold objects, names
  of fields and channels are own properties, and \<open>native k\<close> is the text of the function every object inherits under the name \<open>k\<close>.
  Left out: the search of the table, its counts and paging, and the layout.
\<close>

section \<open>Fields\<close>

record ratio_difference =
  rd_current :: jval
  rd_upstreams :: obj
  rd_confidence :: "(jstring \<times> bool) list"

type_synonym ratio_types = "(jstring \<times> ratio_difference) list"
type_synonym differences = "(jstring \<times> ratio_types) list"
type_synonym resolutions = "(jstring \<times> obj) list"

definition RATIO_SYNC_FIELDS :: "jstring list" where
  "RATIO_SYNC_FIELDS =
     map lit [''model_ratio'', ''completion_ratio'', ''cache_ratio'', ''create_cache_ratio'', ''image_ratio'', ''audio_ratio'',
              ''audio_completion_ratio'']"

definition SYNC_FIELD_ORDER :: "jstring list" where
  "SYNC_FIELD_ORDER = RATIO_SYNC_FIELDS @ map lit [''model_price'', ''billing_mode'', ''billing_expr'']"

definition NUMERIC_SYNC_FIELDS :: "jstring list" where
  "NUMERIC_SYNC_FIELDS = RATIO_SYNC_FIELDS @ [lit ''model_price'']"

definition RATIO_TYPE_OPTIONS :: "(string \<times> string) list" where
  "RATIO_TYPE_OPTIONS =
     [(''model_ratio'', ''Model ratio''), (''completion_ratio'', ''Completion ratio''), (''cache_ratio'', ''Cache ratio''),
      (''create_cache_ratio'', ''Create cache ratio''), (''image_ratio'', ''Image ratio''), (''audio_ratio'', ''Audio ratio''),
      (''audio_completion_ratio'', ''Audio completion ratio''), (''model_price'', ''Fixed price''), (''billing_expr'', ''Expression billing'')]"

definition getSyncFieldLabel :: "jstring \<Rightarrow> jstring" where
  "getSyncFieldLabel ratioType =
     (case map_of (map (\<lambda>(v, l). (lit v, lit l)) RATIO_TYPE_OPTIONS) ratioType of Some l \<Rightarrow> l | None \<Rightarrow> ratioType)"

definition getOrderedRatioTypes :: "ratio_types \<Rightarrow> jstring \<Rightarrow> jstring list" where
  "getOrderedRatioTypes ratioTypes flt =
     (let keys = map fst ratioTypes;
          ordered = filter (\<lambda>f. f \<in> set keys) SYNC_FIELD_ORDER @ filter (\<lambda>f. f \<notin> set SYNC_FIELD_ORDER) keys in
      if flt = [] \<or> flt = lit ''__all__'' then ordered else filter (\<lambda>f. f = flt) ordered)"

text \<open>\<^verbatim>\<open>ratioTypes[type]?.upstreams?.[source]\<close>\<close>

definition upstream_value :: "ratio_types \<Rightarrow> jstring \<Rightarrow> jstring \<Rightarrow> jval" where
  "upstream_value ratioTypes ratioType src =
     (case map_of ratioTypes ratioType of None \<Rightarrow> JUndef | Some d \<Rightarrow> obj_get src (rd_upstreams d))"

definition isSelectableUpstreamValue :: "jval \<Rightarrow> bool" where
  "isSelectableUpstreamValue v \<longleftrightarrow> \<not> nullish v \<and> v \<noteq> jstr_lit ''same''"

definition getPreferredSyncField :: "ratio_types \<Rightarrow> jstring \<Rightarrow> jstring \<Rightarrow> jstring" where
  "getPreferredSyncField ratioTypes ratioType sourceName =
     (if ratioType \<noteq> lit ''billing_expr'' \<and> isSelectableUpstreamValue (upstream_value ratioTypes (lit ''billing_expr'') sourceName)
      then lit ''billing_expr'' else ratioType)"

datatype billing_category = PriceCat | RatioCat | TieredCat

definition getBillingCategory :: "jstring \<Rightarrow> billing_category" where
  "getBillingCategory ratioType =
     (if ratioType = lit ''model_price'' then PriceCat
      else if ratioType = lit ''billing_mode'' \<or> ratioType = lit ''billing_expr'' then TieredCat
      else RatioCat)"

text \<open>The names of the fields are ASCII.\<close>

fun capitalize :: "jstring \<Rightarrow> jstring" where
  "capitalize [] = []"
| "capitalize (c # w) = (if 97 \<le> c \<and> c \<le> 122 then c - 32 else c) # w"

definition optionKeyBySyncField :: "jstring \<Rightarrow> jstring" where
  "optionKeyBySyncField ratioType =
     (if ratioType = lit ''billing_mode'' then lit ''billing_setting.billing_mode''
      else if ratioType = lit ''billing_expr'' then lit ''billing_setting.billing_expr''
      else concat (map capitalize (split1 95 ratioType)))"

fun option_name :: "pricing_key \<Rightarrow> string" where
  "option_name ModelPrice = ''ModelPrice''"
| "option_name ModelRatio = ''ModelRatio''"
| "option_name (LaneRatio lane) =
     (case lane of
        Completion \<Rightarrow> ''CompletionRatio'' | Cache \<Rightarrow> ''CacheRatio'' | CreateCache \<Rightarrow> ''CreateCacheRatio''
      | ImageLane \<Rightarrow> ''ImageRatio'' | AudioInput \<Rightarrow> ''AudioRatio'' | AudioOutput \<Rightarrow> ''AudioCompletionRatio'')"
| "option_name BillingMode = ''billing_setting.billing_mode''"
| "option_name BillingExpr = ''billing_setting.billing_expr''"

text \<open>The order in which the settings are written.\<close>

definition sync_keys :: "pricing_key list" where
  "sync_keys =
     ModelRatio # map LaneRatio [Completion, Cache, CreateCache, ImageLane, AudioInput, AudioOutput] @ [ModelPrice, BillingMode, BillingExpr]"

definition ratio_keys :: "pricing_key list" where
  "ratio_keys = ModelRatio # map LaneRatio [Completion, Cache, CreateCache, ImageLane, AudioInput, AudioOutput]"

text \<open>\<^verbatim>\<open>finalRatios[optionKey]\<close>: \<open>None\<close> when there is no such setting, and assigning to its entries throws.\<close>

definition key_of_field :: "jstring \<Rightarrow> pricing_key option" where
  "key_of_field ratioType = find (\<lambda>k. lit (option_name k) = optionKeyBySyncField ratioType) sync_keys"

definition parseJsonRecord :: "jstring \<Rightarrow> obj option" where
  "parseJsonRecord raw =
     (if raw = [] then Some []
      else case json_parse raw of None \<Rightarrow> Some [] | Some v \<Rightarrow> as_object v)"

section \<open>Choosing values\<close>

definition chosen_fields :: "resolutions \<Rightarrow> jstring \<Rightarrow> obj" where
  "chosen_fields res model = (case map_of res model of Some fs \<Rightarrow> fs | None \<Rightarrow> [])"

definition deleteResolutionField :: "resolutions \<Rightarrow> jstring \<Rightarrow> jstring \<Rightarrow> resolutions" where
  "deleteResolutionField res model ratioType =
     (case map_of res model of
        None \<Rightarrow> res
      | Some fs \<Rightarrow>
          (let r1 = obj_del ratioType fs;
               r2 = (if ratioType = lit ''billing_expr'' then obj_del (lit ''billing_mode'') r1 else r1);
               newModelRes = (if ratioType = lit ''billing_mode'' then obj_del (lit ''billing_expr'') r2 else r2) in
           if newModelRes = [] then obj_del model res else obj_put model newModelRes res))"

definition chosen_field :: "differences \<Rightarrow> jstring \<Rightarrow> jstring \<Rightarrow> jval \<Rightarrow> jstring \<Rightarrow> jstring \<times> jval" where
  "chosen_field dm model ratioType v sourceName =
     (let types = (case map_of dm model of Some m \<Rightarrow> m | None \<Rightarrow> []);
          preferredType = (if sourceName \<noteq> [] then getPreferredSyncField types ratioType sourceName else ratioType) in
      (preferredType, if preferredType = ratioType then v else jcoalesce (upstream_value types preferredType sourceName) v))"

definition clear_conflicts :: "billing_category \<Rightarrow> obj \<Rightarrow> obj" where
  "clear_conflicts category fs =
     filter (\<lambda>(rt, _). \<not> (category \<noteq> TieredCat \<and> getBillingCategory rt \<noteq> TieredCat \<and> getBillingCategory rt \<noteq> category)) fs"

text \<open>The fields that go with an expression or its mode, from the same source.\<close>

definition pair_fields :: "ratio_types \<Rightarrow> jstring \<Rightarrow> jstring \<Rightarrow> obj \<Rightarrow> obj" where
  "pair_fields types finalType sourceName fs =
     (let modeVal = upstream_value types (lit ''billing_mode'') sourceName;
          exprVal = upstream_value types (lit ''billing_expr'') sourceName;
          fs1 = (if isSelectableUpstreamValue modeVal then obj_put (lit ''billing_mode'') modeVal fs
                 else if finalType = lit ''billing_expr'' then obj_put (lit ''billing_mode'') (jstr_lit ''tiered_expr'') fs
                 else fs) in
      if isSelectableUpstreamValue exprVal then obj_put (lit ''billing_expr'') exprVal fs1 else fs1)"

definition handleSelectValue :: "differences \<Rightarrow> jstring \<Rightarrow> jstring \<Rightarrow> jval \<Rightarrow> jstring \<Rightarrow> resolutions \<Rightarrow> resolutions" where
  "handleSelectValue dm model ratioType v sourceName prev =
     (let (finalType, finalValue) = chosen_field dm model ratioType v sourceName;
          category = getBillingCategory finalType;
          fs = obj_put finalType finalValue (clear_conflicts category (chosen_fields prev model));
          newModelRes = (case map_of dm model of
              Some types \<Rightarrow> if category = TieredCat \<and> sourceName \<noteq> [] then pair_fields types finalType sourceName fs else fs
            | None \<Rightarrow> fs) in
      obj_put model newModelRes prev)"

text \<open>The selections of a whole column: the rows are those of the table, with the filter on the field.\<close>

definition bulk_choices :: "jstring \<Rightarrow> jstring \<Rightarrow> differences \<Rightarrow> (jstring \<times> jstring \<times> jval) list" where
  "bulk_choices flt upstream rows =
     concat (map (\<lambda>(model, types).
       map (\<lambda>f. (model, f, upstream_value types f upstream))
         (filter (\<lambda>f. getPreferredSyncField types f upstream = f \<and> isSelectableUpstreamValue (upstream_value types f upstream))
            (getOrderedRatioTypes types flt))) rows)"

definition handleBulkSelect :: "differences \<Rightarrow> jstring \<Rightarrow> jstring \<Rightarrow> differences \<Rightarrow> resolutions \<Rightarrow> resolutions" where
  "handleBulkSelect dm flt upstream rows prev =
     foldl (\<lambda>res (model, f, v). handleSelectValue dm model f v upstream res) prev (bulk_choices flt upstream rows)"

definition handleBulkUnselect :: "jstring \<Rightarrow> jstring \<Rightarrow> differences \<Rightarrow> resolutions \<Rightarrow> resolutions" where
  "handleBulkUnselect flt upstream rows prev =
     foldl (\<lambda>res (model, f). deleteResolutionField res model f) prev
       (concat (map (\<lambda>(model, types).
          map (\<lambda>f. (model, f)) (filter (\<lambda>f. upstream_value types f upstream \<noteq> JUndef) (getOrderedRatioTypes types flt))) rows))"

section \<open>Writing the settings\<close>

type_synonym ratio_maps = "pricing_key \<Rightarrow> obj"

definition parsedRatios :: "pricing_texts \<Rightarrow> ratio_maps option" where
  "parsedRatios texts =
     (if list_all (\<lambda>k. parseJsonRecord (texts k) \<noteq> None) sync_keys then Some (\<lambda>k. the (parseJsonRecord (texts k))) else None)"

definition hasPrice :: "obj \<Rightarrow> bool" where
  "hasPrice ratios \<longleftrightarrow> lit ''model_price'' \<in> fst ` set ratios"

definition hasRatio :: "obj \<Rightarrow> bool" where
  "hasRatio ratios \<longleftrightarrow> list_ex (\<lambda>f. f \<in> fst ` set ratios) RATIO_SYNC_FIELDS"

text \<open>The entries of a model that its selection removes.\<close>

definition drop_old :: "jstring \<Rightarrow> obj \<Rightarrow> ratio_maps \<Rightarrow> ratio_maps" where
  "drop_old model ratios maps k =
     (if hasPrice ratios \<and> k \<in> set ratio_keys \<or> hasRatio ratios \<and> k = ModelPrice then obj_del model (maps k) else maps k)"

definition write_field :: "jstring \<Rightarrow> jstring \<times> jval \<Rightarrow> ratio_maps option \<Rightarrow> ratio_maps option" where
  "write_field model = (\<lambda>(ratioType, v) maps.
     Option.bind maps (\<lambda>m. map_option (\<lambda>k.
       m(k := assign model (if ratioType \<in> set NUMERIC_SYNC_FIELDS then JNum (num_of v) else v) (m k))) (key_of_field ratioType)))"

definition sync_model :: "ratio_maps option \<Rightarrow> jstring \<times> obj \<Rightarrow> ratio_maps option" where
  "sync_model maps = (\<lambda>(model, ratios). foldl (\<lambda>m f. write_field model f m) (map_option (drop_old model ratios) maps) ratios)"

definition finalRatios :: "ratio_maps \<Rightarrow> resolutions \<Rightarrow> ratio_maps option" where
  "finalRatios currentRatios res = foldl sync_model (Some currentRatios) res"

definition sync_updates :: "ratio_maps \<Rightarrow> (pricing_key \<times> jstring) list" where
  "sync_updates maps = map (\<lambda>k. (k, json_pretty (JObj (maps k)))) sync_keys"

definition performSync :: "ratio_maps \<Rightarrow> resolutions \<Rightarrow> (pricing_key \<times> jstring) list option" where
  "performSync currentRatios res = map_option sync_updates (finalRatios currentRatios res)"

section \<open>Conflicts\<close>

record conflict_item =
  ci_channel :: jstring
  ci_model :: jstring
  ci_current :: jstring
  ci_newVal :: jstring

definition is_set :: "jstring \<Rightarrow> obj \<Rightarrow> bool" where
  "is_set model m \<longleftrightarrow> map_of m model \<noteq> None \<or> inherited model"

definition getLocalBillingCategory :: "jstring \<Rightarrow> ratio_maps \<Rightarrow> billing_category option" where
  "getLocalBillingCategory model maps =
     (if is_set model (maps ModelPrice) then Some PriceCat
      else if list_ex (\<lambda>k. is_set model (maps k)) ratio_keys then Some RatioCat else None)"

definition findSourceChannel :: "differences \<Rightarrow> jstring \<Rightarrow> jstring \<Rightarrow> jval \<Rightarrow> jstring" where
  "findSourceChannel dm model ratioType v =
     (case Option.bind (map_of dm model) (\<lambda>types. map_of types ratioType) of
        None \<Rightarrow> lit ''Unknown''
      | Some d \<Rightarrow> (case find (\<lambda>(_, w). w = v) (rd_upstreams d) of Some (name, _) \<Rightarrow> name | None \<Rightarrow> lit ''Unknown''))"

definition selected_category :: "obj \<Rightarrow> billing_category" where
  "selected_category ratios = (if hasPrice ratios then PriceCat else if hasRatio ratios then RatioCat else TieredCat)"

text \<open>\<^verbatim>\<open>map[model] ?? '-'\<close> in a template.\<close>

definition local_text :: "(jstring \<Rightarrow> jstring) \<Rightarrow> jstring \<Rightarrow> obj \<Rightarrow> jstring" where
  "local_text native model m =
     (case map_of m model of
        Some v \<Rightarrow> str_of (jcoalesce v (jstr_lit ''-''))
      | None \<Rightarrow> if inherited model then native model else lit ''-'')"

definition ratio_desc :: "jstring \<Rightarrow> jstring \<Rightarrow> jstring" where
  "ratio_desc m c = lit ''Model ratio: '' @ m @ [10] @ lit ''Completion ratio: '' @ c"

definition conflict_of :: "(jstring \<Rightarrow> jstring) \<Rightarrow> differences \<Rightarrow> ratio_maps \<Rightarrow> jstring \<times> obj \<Rightarrow> conflict_item option" where
  "conflict_of native dm maps = (\<lambda>(model, ratios).
     (case getLocalBillingCategory model maps of
        None \<Rightarrow> None
      | Some localCat \<Rightarrow>
          (let newCat = selected_category ratios; field = (\<lambda>f. str_of (jcoalesce (get ratios f) (jstr_lit ''-''))) in
           if newCat = TieredCat \<or> localCat = newCat then None
           else Some
             \<lparr>ci_channel = join (lit '', '') (uniq (map (\<lambda>(rt, v). findSourceChannel dm model rt v) ratios)),
              ci_model = model,
              ci_current = (if localCat = PriceCat
                then lit ''Fixed price: '' @ (case map_of (maps ModelPrice) model of Some v \<Rightarrow> str_of v | None \<Rightarrow> native model)
                else ratio_desc (local_text native model (maps ModelRatio)) (local_text native model (maps (LaneRatio Completion)))),
              ci_newVal = (if newCat = PriceCat then lit ''Fixed price: '' @ str_of (get ratios ''model_price'')
                else ratio_desc (field ''model_ratio'') (field ''completion_ratio''))\<rparr>)))"

definition conflicts_of :: "(jstring \<Rightarrow> jstring) \<Rightarrow> differences \<Rightarrow> ratio_maps \<Rightarrow> resolutions \<Rightarrow> conflict_item list" where
  "conflicts_of native dm maps res = List.map_filter (conflict_of native dm maps) res"

section \<open>Channels\<close>

record upstream_channel =
  uc_id :: int
  uc_name :: jstring
  uc_base_url :: jstring
  uc_type :: "int option"

record upstream_config =
  cfg_id :: int
  cfg_name :: jstring
  cfg_base_url :: jstring
  cfg_endpoint :: jstring

definition OFFICIAL_CHANNEL_ID :: int where "OFFICIAL_CHANNEL_ID = - 100"
definition MODELS_DEV_PRESET_ID :: int where "MODELS_DEV_PRESET_ID = - 101"
definition OPENROUTER_CHANNEL_TYPE :: int where "OPENROUTER_CHANNEL_TYPE = 20"
definition DEFAULT_ENDPOINT :: jstring where "DEFAULT_ENDPOINT = lit ''/api/pricing''"
definition OPENROUTER_ENDPOINT :: jstring where "OPENROUTER_ENDPOINT = lit ''openrouter''"
definition MODELS_DEV_PRESET_ENDPOINT :: jstring where "MODELS_DEV_PRESET_ENDPOINT = lit ''https://models.dev/api.json''"
definition OFFICIAL_CHANNEL_ENDPOINT :: jstring where
  "OFFICIAL_CHANNEL_ENDPOINT = lit ''/llm-metadata/api/newapi/ratio_config-v1-base.json''"

definition getDefaultEndpointForChannel :: "upstream_channel \<Rightarrow> jstring" where
  "getDefaultEndpointForChannel channel =
     (if uc_id channel = MODELS_DEV_PRESET_ID then MODELS_DEV_PRESET_ENDPOINT
      else if uc_id channel = OFFICIAL_CHANNEL_ID then OFFICIAL_CHANNEL_ENDPOINT
      else if uc_type channel = Some OPENROUTER_CHANNEL_TYPE then OPENROUTER_ENDPOINT
      else DEFAULT_ENDPOINT)"

type_synonym endpoints = "int \<Rightarrow> jstring option"

definition endpoint_set :: "endpoints \<Rightarrow> int \<Rightarrow> bool" where
  "endpoint_set es i \<longleftrightarrow> es i \<noteq> None \<and> es i \<noteq> Some []"

definition fill_endpoints :: "upstream_channel list \<Rightarrow> endpoints \<Rightarrow> endpoints" where
  "fill_endpoints channels es =
     foldl (\<lambda>next ch. if endpoint_set next (uc_id ch) then next
       else next(uc_id ch \<mapsto> getDefaultEndpointForChannel ch)) es channels"

definition upstream_requests :: "upstream_channel list \<Rightarrow> endpoints \<Rightarrow> int list \<Rightarrow> upstream_config list" where
  "upstream_requests channels es selectedIds =
     map (\<lambda>ch. \<lparr>cfg_id = uc_id ch, cfg_name = uc_name ch, cfg_base_url = uc_base_url ch,
                cfg_endpoint = (if endpoint_set es (uc_id ch) then the (es (uc_id ch)) else DEFAULT_ENDPOINT)\<rparr>)
       (filter (\<lambda>ch. uc_id ch \<in> set selectedIds) channels)"

section \<open>The component\<close>

text \<open>\<open>u_texts\<close> are the settings as the page has them, \<open>u_server\<close> those of the server; \<open>u_pending\<close> the writes of a running
  synchronisation, of which the first is on its way.\<close>

record sync_state =
  u_channelDialog :: bool
  u_conflictDialog :: bool
  u_selectedIds :: "int list"
  u_endpoints :: endpoints
  u_channels :: "upstream_channel list"
  u_differences :: differences
  u_resolutions :: resolutions
  u_conflicts :: "conflict_item list"
  u_confirmLoading :: bool
  u_fetching :: bool
  u_pending :: "(pricing_key \<times> jstring) list option"
  u_texts :: pricing_texts
  u_server :: pricing_texts

definition sync_init :: "pricing_texts \<Rightarrow> sync_state" where
  "sync_init texts =
     \<lparr>u_channelDialog = False, u_conflictDialog = False, u_selectedIds = [], u_endpoints = (\<lambda>_. None), u_channels = [],
      u_differences = [], u_resolutions = [], u_conflicts = [], u_confirmLoading = False, u_fetching = False,
      u_pending = None, u_texts = texts, u_server = texts\<rparr>"

definition isLoading :: "sync_state \<Rightarrow> bool" where
  "isLoading st \<longleftrightarrow> u_fetching st \<or> u_pending st \<noteq> None \<or> u_confirmLoading st"

definition handleConfirmChannelSelection :: "int list \<Rightarrow> sync_state \<Rightarrow> sync_state" where
  "handleConfirmChannelSelection selectedIds st =
     (if upstream_requests (u_channels st) (u_endpoints st) selectedIds = [] then st else st\<lparr>u_fetching := True\<rparr>)"

text \<open>The answer to a fetch: \<open>None\<close> when it failed or was refused.\<close>

definition fetch_answered :: "differences option \<Rightarrow> sync_state \<Rightarrow> sync_state" where
  "fetch_answered answer st =
     (case answer of
        None \<Rightarrow> st\<lparr>u_fetching := False\<rparr>
      | Some dm \<Rightarrow> st\<lparr>u_fetching := False, u_differences := dm, u_resolutions := []\<rparr>)"

definition remove_difference :: "jstring \<Rightarrow> differences \<Rightarrow> jstring \<Rightarrow> differences" where
  "remove_difference model dm ratioType =
     (case map_of dm model of
        None \<Rightarrow> dm
      | Some types \<Rightarrow>
          if map_of types ratioType = None then dm
          else let rest = obj_del ratioType types in if rest = [] then obj_del model dm else obj_put model rest dm)"

definition remove_synced :: "resolutions \<Rightarrow> differences \<Rightarrow> differences" where
  "remove_synced res dm = foldl (\<lambda>d (model, ratios). foldl (remove_difference model) d (map fst ratios)) dm res"

definition sync_succeeded :: "sync_state \<Rightarrow> sync_state" where
  "sync_succeeded st =
     st\<lparr>u_pending := None, u_differences := remove_synced (u_resolutions st) (u_differences st), u_resolutions := [],
        u_conflictDialog := (u_conflictDialog st \<and> \<not> u_confirmLoading st), u_confirmLoading := False\<rparr>"

text \<open>The next write, or the end when none is left.\<close>

definition continue_sync :: "(pricing_key \<times> jstring) list \<Rightarrow> sync_state \<Rightarrow> sync_state" where
  "continue_sync updates st = (if updates = [] then sync_succeeded st else st\<lparr>u_pending := Some updates\<rparr>)"

datatype update_answer = Stored | Refused | Failed

definition update_answered :: "update_answer \<Rightarrow> sync_state \<Rightarrow> sync_state" where
  "update_answered answer st =
     (case u_pending st of
        Some ((k, s) # rest) \<Rightarrow>
          (case answer of
             Stored \<Rightarrow> continue_sync rest (st\<lparr>u_server := (u_server st)(k := s)\<rparr>)
           | Refused \<Rightarrow> continue_sync rest st
           | Failed \<Rightarrow> st\<lparr>u_pending := None, u_confirmLoading := False\<rparr>)
      | _ \<Rightarrow> st)"

definition start_sync :: "sync_state \<Rightarrow> sync_state option" where
  "start_sync st =
     Option.bind (parsedRatios (u_texts st)) (\<lambda>maps.
       map_option (\<lambda>updates. continue_sync updates st) (performSync maps (u_resolutions st)))"

definition handleApplySync :: "(jstring \<Rightarrow> jstring) \<Rightarrow> sync_state \<Rightarrow> sync_state" where
  "handleApplySync native st =
     (case parsedRatios (u_texts st) of
        None \<Rightarrow> st
      | Some maps \<Rightarrow>
          (let conflicts = conflicts_of native (u_differences st) maps (u_resolutions st) in
           if conflicts \<noteq> [] then st\<lparr>u_conflicts := conflicts, u_conflictDialog := True\<rparr>
           else case start_sync st of None \<Rightarrow> st | Some st' \<Rightarrow> st'))"

definition handleConfirmConflict :: "sync_state \<Rightarrow> sync_state" where
  "handleConfirmConflict st =
     (case start_sync (st\<lparr>u_confirmLoading := True\<rparr>) of None \<Rightarrow> st | Some st' \<Rightarrow> st')"

datatype sync_event =
    OpenChannelDialog | CloseChannelDialog | ChannelsLoaded "upstream_channel list" | SelectChannels "int list"
  | EndpointChange int jstring | ConfirmChannels "int list" | FetchAnswer "differences option"
  | SelectValue jstring jstring jval jstring | UnselectValue jstring jstring
  | BulkSelect jstring jstring differences | BulkUnselect jstring jstring differences
  | ApplySync | ConfirmConflict | CloseConflict | UpdateAnswer update_answer | SettingsLoaded

fun sync_handle :: "(jstring \<Rightarrow> jstring) \<Rightarrow> sync_event \<Rightarrow> sync_state \<Rightarrow> sync_state" where
  "sync_handle native OpenChannelDialog st = st\<lparr>u_channelDialog := True\<rparr>"
| "sync_handle native CloseChannelDialog st = st\<lparr>u_channelDialog := False\<rparr>"
| "sync_handle native (ChannelsLoaded cs) st = st\<lparr>u_channels := cs, u_endpoints := fill_endpoints cs (u_endpoints st)\<rparr>"
| "sync_handle native (SelectChannels ids) st = st\<lparr>u_selectedIds := ids\<rparr>"
| "sync_handle native (EndpointChange i e) st = st\<lparr>u_endpoints := (u_endpoints st)(i \<mapsto> e)\<rparr>"
| "sync_handle native (ConfirmChannels ids) st =
     handleConfirmChannelSelection ids (st\<lparr>u_selectedIds := ids, u_channelDialog := False\<rparr>)"
| "sync_handle native (FetchAnswer a) st = fetch_answered a st"
| "sync_handle native (SelectValue m f v src) st =
     st\<lparr>u_resolutions := handleSelectValue (u_differences st) m f v src (u_resolutions st)\<rparr>"
| "sync_handle native (UnselectValue m f) st = st\<lparr>u_resolutions := deleteResolutionField (u_resolutions st) m f\<rparr>"
| "sync_handle native (BulkSelect flt up rows) st =
     st\<lparr>u_resolutions := handleBulkSelect (u_differences st) flt up rows (u_resolutions st)\<rparr>"
| "sync_handle native (BulkUnselect flt up rows) st = st\<lparr>u_resolutions := handleBulkUnselect flt up rows (u_resolutions st)\<rparr>"
| "sync_handle native ApplySync st = handleApplySync native st"
| "sync_handle native ConfirmConflict st = handleConfirmConflict st"
| "sync_handle native CloseConflict st = st\<lparr>u_conflictDialog := False\<rparr>"
| "sync_handle native (UpdateAnswer a) st = update_answered a st"
| "sync_handle native SettingsLoaded st = st\<lparr>u_texts := u_server st\<rparr>"

text \<open>The buttons and the table are disabled while something is loading; a value can be chosen where the table offers one.\<close>

definition sync_event_ok :: "sync_state \<Rightarrow> sync_event \<Rightarrow> bool" where
  "sync_event_ok st ev =
     (case ev of
        OpenChannelDialog \<Rightarrow> \<not> isLoading st
      | SelectValue m f v src \<Rightarrow> \<not> isLoading st \<and> isSelectableUpstreamValue v \<and>
          (case map_of (u_differences st) m of None \<Rightarrow> False | Some types \<Rightarrow> upstream_value types f src = v)
      | UnselectValue _ _ \<Rightarrow> \<not> isLoading st
      | BulkSelect _ _ rows \<Rightarrow> \<not> isLoading st \<and> set rows \<subseteq> set (u_differences st)
      | BulkUnselect _ _ rows \<Rightarrow> \<not> isLoading st \<and> set rows \<subseteq> set (u_differences st)
      | ApplySync \<Rightarrow> \<not> isLoading st \<and> u_resolutions st \<noteq> []
      | ConfirmConflict \<Rightarrow> u_conflictDialog st \<and> \<not> u_confirmLoading st
      | ConfirmChannels _ \<Rightarrow> u_channelDialog st
      | FetchAnswer _ \<Rightarrow> u_fetching st
      | UpdateAnswer _ \<Rightarrow> u_pending st \<noteq> None
      | _ \<Rightarrow> True)"

inductive sync_reachable :: "(jstring \<Rightarrow> jstring) \<Rightarrow> sync_state \<Rightarrow> bool" for native where
  started: "sync_reachable native (sync_init texts)"
| stepped: "sync_reachable native st \<Longrightarrow> sync_event_ok st ev \<Longrightarrow> sync_reachable native (sync_handle native ev st)"

end
