(* ===== verification/Upstream_Sync_Props.thy ===== *)
theory Upstream_Sync_Props
  imports Upstream_Sync Model_Pricing_Props
begin

text \<open>
  Properties of the synchronisation of prices: what can be selected together, what a synchronisation writes and leaves alone,
  and what remains of one that does not get through.
\<close>

section \<open>One kind of price for a model\<close>

text \<open>The fields chosen for a model that are not about an expression are all fixed prices or all ratios.\<close>

definition categories :: "obj \<Rightarrow> billing_category set" where
  "categories fs = getBillingCategory ` fst ` set fs"

definition one_category :: "obj \<Rightarrow> bool" where
  "one_category fs \<longleftrightarrow> PriceCat \<notin> categories fs \<or> RatioCat \<notin> categories fs"

definition choice_ok :: "obj \<Rightarrow> bool" where
  "choice_ok fs \<longleftrightarrow> fs \<noteq> [] \<and> distinct (map fst fs) \<and> one_category fs"

definition resolutions_ok :: "resolutions \<Rightarrow> bool" where
  "resolutions_ok res \<longleftrightarrow> distinct (map fst res) \<and> (\<forall>(m, fs) \<in> set res. choice_ok fs)"

lemma keys_put: "fst ` set (obj_put k v ps) = insert k (fst ` set ps)"
  using map_of_obj_put [of k v ps] by (metis dom_map_of_conv_image_fst dom_fun_upd option.distinct(1))

lemma set_put: "set (obj_put k v ps) \<subseteq> insert (k, v) (set ps)"
proof
  fix x assume "x \<in> set (obj_put k v ps)"
  then show "x \<in> insert (k, v) (set ps)"
    by (auto simp: obj_put_def set_insert_index split: option.splits if_splits)
qed

lemma keys_del: "fst ` set (obj_del k ps) = fst ` set ps - {k}"
  by (auto simp: obj_del_def)

lemma categories_put: "categories (obj_put k v fs) = insert (getBillingCategory k) (categories fs)"
  by (simp add: categories_def keys_put)

lemma categories_mono: "fst ` set a \<subseteq> fst ` set b \<Longrightarrow> categories a \<subseteq> categories b"
  by (simp add: categories_def image_mono)

lemma categories_clear: "c \<noteq> TieredCat \<Longrightarrow> categories (clear_conflicts c fs) \<subseteq> {c, TieredCat}"
  by (auto simp: categories_def clear_conflicts_def)

lemma one_category_subset: "fst ` set a \<subseteq> fst ` set b \<Longrightarrow> one_category b \<Longrightarrow> one_category a"
  using categories_mono [of a b] by (auto simp: one_category_def)

lemma one_category_tiered: "getBillingCategory k = TieredCat \<Longrightarrow> one_category fs \<Longrightarrow> one_category (obj_put k v fs)"
  by (auto simp: one_category_def categories_put)

lemma clear_subset: "fst ` set (clear_conflicts c fs) \<subseteq> fst ` set fs"
  by (auto simp: clear_conflicts_def)

lemma one_category_put:
  assumes "one_category fs" shows "one_category (obj_put k v (clear_conflicts (getBillingCategory k) fs))"
proof (cases "getBillingCategory k = TieredCat")
  case True
  with assms show ?thesis by (metis one_category_tiered one_category_subset clear_subset)
next
  case False
  with categories_clear [OF this, of fs] show ?thesis by (cases "getBillingCategory k") (auto simp: one_category_def categories_put)
qed

lemma tiered_fields: "getBillingCategory (lit ''billing_mode'') = TieredCat" "getBillingCategory (lit ''billing_expr'') = TieredCat"
  by code_simp+

lemma put_ne: "obj_put k v ps \<noteq> []"
  using keys_put [of k v ps] by auto

lemma choice_put: "distinct (map fst fs) \<Longrightarrow> one_category (obj_put k v fs) \<Longrightarrow> choice_ok (obj_put k v fs)"
  by (simp add: choice_ok_def put_ne distinct_obj_put)

lemma choice_tiered: "choice_ok fs \<Longrightarrow> getBillingCategory k = TieredCat \<Longrightarrow> choice_ok (obj_put k v fs)"
  by (intro choice_put one_category_tiered) (simp_all add: choice_ok_def)

lemma chosen_fields_ok: "resolutions_ok res \<Longrightarrow> distinct (map fst (chosen_fields res m)) \<and> one_category (chosen_fields res m)"
proof (cases "map_of res m")
  case None then show ?thesis by (simp add: chosen_fields_def one_category_def categories_def)
next
  case (Some fs)
  assume "resolutions_ok res"
  with map_of_SomeD [OF Some] have "choice_ok fs" by (auto simp: resolutions_ok_def)
  with Some show ?thesis by (simp add: chosen_fields_def choice_ok_def)
qed

lemma pair_fields_ok: "choice_ok fs \<Longrightarrow> choice_ok (pair_fields types t src fs)"
  by (simp add: pair_fields_def Let_def choice_tiered tiered_fields del: list.map)

lemma resolutions_put: "resolutions_ok res \<Longrightarrow> choice_ok fs \<Longrightarrow> resolutions_ok (obj_put m fs res)"
  using set_put [of m fs res] by (auto simp: resolutions_ok_def distinct_obj_put)

lemma select_ok: "resolutions_ok res \<Longrightarrow> resolutions_ok (handleSelectValue dm m f v src res)"
proof -
  assume r: "resolutions_ok res"
  obtain t x where c: "chosen_field dm m f v src = (t, x)" by force
  have "distinct (map fst (clear_conflicts (getBillingCategory t) (chosen_fields res m)))"
    using chosen_fields_ok [OF r, of m] by (simp add: clear_conflicts_def distinct_map_filter)
  then have "choice_ok (obj_put t x (clear_conflicts (getBillingCategory t) (chosen_fields res m)))"
    using chosen_fields_ok [OF r, of m] by (intro choice_put one_category_put) auto
  then show ?thesis using r pair_fields_ok
    by (auto simp: handleSelectValue_def c Let_def intro!: resolutions_put split: option.split)
qed

lemma resolutions_del: "resolutions_ok res \<Longrightarrow> resolutions_ok (obj_del m res)"
  by (auto simp: resolutions_ok_def obj_del_def distinct_map_filter)

lemma choice_del: "choice_ok fs \<Longrightarrow> obj_del k fs \<noteq> [] \<Longrightarrow> choice_ok (obj_del k fs)"
  using one_category_subset [of "obj_del k fs" fs] by (auto simp: choice_ok_def keys_del) (auto simp: obj_del_def distinct_map_filter)

lemma del_ne: "obj_del k fs \<noteq> [] \<Longrightarrow> fs \<noteq> []"
  by (auto simp: obj_del_def)

lemma unselect_ok: "resolutions_ok res \<Longrightarrow> resolutions_ok (deleteResolutionField res m f)"
proof -
  assume r: "resolutions_ok res"
  have "choice_ok fs" if "map_of res m = Some fs" for fs using r that by (auto simp: resolutions_ok_def dest!: map_of_SomeD)
  then show ?thesis using r
    by (auto simp: deleteResolutionField_def Let_def intro!: resolutions_put resolutions_del choice_del dest: del_ne split: option.split)
qed

lemma bulk_ok:
  "resolutions_ok res \<Longrightarrow> resolutions_ok (handleBulkSelect dm flt up rows res)"
  "resolutions_ok res \<Longrightarrow> resolutions_ok (handleBulkUnselect flt up rows res)"
proof -
  have "resolutions_ok res \<Longrightarrow> resolutions_ok (foldl (\<lambda>r (m, f, v). handleSelectValue dm m f v up r) res xs)" for res xs
    by (induction xs arbitrary: res) (auto simp: select_ok)
  then show "resolutions_ok res \<Longrightarrow> resolutions_ok (handleBulkSelect dm flt up rows res)" by (simp add: handleBulkSelect_def)
  have "resolutions_ok res \<Longrightarrow> resolutions_ok (foldl (\<lambda>r (m, f). deleteResolutionField r m f) res xs)" for res xs
    by (induction xs arbitrary: res) (auto simp: unselect_ok)
  then show "resolutions_ok res \<Longrightarrow> resolutions_ok (handleBulkUnselect flt up rows res)" by (simp add: handleBulkUnselect_def)
qed

lemma resolutions_ok_Nil: "resolutions_ok []"
  by (simp add: resolutions_ok_def)

lemma continue_ok: "resolutions_ok (u_resolutions st) \<Longrightarrow> resolutions_ok (u_resolutions (continue_sync us st))"
  by (simp add: continue_sync_def sync_succeeded_def resolutions_ok_Nil)

lemma start_ok: "start_sync st = Some st' \<Longrightarrow> resolutions_ok (u_resolutions st) \<Longrightarrow> resolutions_ok (u_resolutions st')"
  by (auto simp: start_sync_def continue_ok bind_eq_Some_conv)

lemma handle_ok: "resolutions_ok (u_resolutions st) \<Longrightarrow> resolutions_ok (u_resolutions (sync_handle native ev st))"
proof (cases ev)
  case ApplySync
  then show "resolutions_ok (u_resolutions st) \<Longrightarrow> ?thesis"
    by (auto simp: handleApplySync_def Let_def start_ok split: option.split)
next
  case ConfirmConflict
  then show "resolutions_ok (u_resolutions st) \<Longrightarrow> ?thesis"
    using start_ok [of "st\<lparr>u_confirmLoading := True\<rparr>"] by (auto simp: handleConfirmConflict_def split: option.split)
next
  case (UpdateAnswer a)
  then show "resolutions_ok (u_resolutions st) \<Longrightarrow> ?thesis"
    by (auto simp: update_answered_def continue_ok split: option.split list.split update_answer.split)
qed (auto simp: handleConfirmChannelSelection_def fetch_answered_def select_ok unselect_ok bulk_ok resolutions_ok_Nil split: option.split)

lemma reachable_ok: "sync_reachable native st \<Longrightarrow> resolutions_ok (u_resolutions st)"
  by (induction rule: sync_reachable.induct) (simp_all add: sync_init_def resolutions_ok_Nil handle_ok)

lemma price_not_ratio:
  assumes "one_category fs" shows "\<not> (hasPrice fs \<and> hasRatio fs)"
proof
  assume h: "hasPrice fs \<and> hasRatio fs"
  then obtain f where f: "f \<in> set RATIO_SYNC_FIELDS" "f \<in> fst ` set fs" unfolding hasRatio_def list_ex_iff by blast
  have r: "list_all (\<lambda>f. getBillingCategory f = RatioCat) RATIO_SYNC_FIELDS" by code_simp
  have p: "getBillingCategory (lit ''model_price'') = PriceCat" by code_simp
  have "RatioCat \<in> categories fs" unfolding categories_def using r f imageI [OF f(2), of getBillingCategory] by (simp only: list_all_iff)
  moreover have "PriceCat \<in> categories fs" unfolding categories_def using imageI [of "lit ''model_price''" "fst ` set fs" getBillingCategory] h
    by (simp only: p hasPrice_def)
  ultimately show False using assms by (simp add: one_category_def)
qed

definition sample_diffs :: differences where
  "sample_diffs =
     [(lit ''gpt'',
       [(lit ''model_ratio'', \<lparr>rd_current = JNull, rd_upstreams = [(lit ''up'', JNum (Fin 3))], rd_confidence = []\<rparr>),
        (lit ''model_price'', \<lparr>rd_current = JNull, rd_upstreams = [(lit ''up'', JNum (Fin 2))], rd_confidence = []\<rparr>)])]"

text \<open>A page on which first the ratio and then the fixed price of a model was chosen from the only channel, and the conflict with its
  present ratio is shown.\<close>

definition sample_sync_events :: "sync_event list" where
  "sample_sync_events =
     [ChannelsLoaded [\<lparr>uc_id = 1, uc_name = lit ''up'', uc_base_url = lit ''https://up'', uc_type = None\<rparr>], OpenChannelDialog,
      ConfirmChannels [1], FetchAnswer (Some sample_diffs), SelectValue (lit ''gpt'') (lit ''model_ratio'') (JNum (Fin 3)) (lit ''up''),
      SelectValue (lit ''gpt'') (lit ''model_price'') (JNum (Fin 2)) (lit ''up''), ApplySync]"

definition sample_sync :: sync_state where
  "sample_sync = foldl (\<lambda>s e. sync_handle (\<lambda>_. []) e s) (sync_init sample_texts) sample_sync_events"

fun events_ok :: "(jstring \<Rightarrow> jstring) \<Rightarrow> sync_state \<Rightarrow> sync_event list \<Rightarrow> bool" where
  "events_ok native st [] = True"
| "events_ok native st (e # es) = (sync_event_ok st e \<and> events_ok native (sync_handle native e st) es)"

lemma events_reachable:
  "sync_reachable native st \<Longrightarrow> events_ok native st es \<Longrightarrow> sync_reachable native (foldl (\<lambda>s e. sync_handle native e s) st es)"
  by (induction es arbitrary: st) (auto intro: sync_reachable.stepped)

lemma sample_reachable: "sync_reachable (\<lambda>_. []) sample_sync"
proof -
  have "events_ok (\<lambda>_. []) (sync_init sample_texts) sample_sync_events" by code_simp
  from events_reachable [OF sync_reachable.started this] show ?thesis by (simp add: sample_sync_def)
qed

lemma sample_sync_state:
  "u_resolutions sample_sync = [(lit ''gpt'', [(lit ''model_price'', JNum (Fin 2))])]"
  "u_conflictDialog sample_sync" "map ci_channel (u_conflicts sample_sync) = [lit ''up'']"
  by code_simp+

text \<open>C40: A fixed price and ratios are never selected together: in every reachable state of the page each model with a selection
  has at least one selected field, and not both a fixed price and a ratio.\<close>

theorem selections_exclusive:
  assumes "sync_reachable native st" and "(m, fs) \<in> set (u_resolutions st)"
  shows "fs \<noteq> [] \<and> \<not> (hasPrice fs \<and> hasRatio fs)"
  using reachable_ok [OF assms(1)] assms(2) price_not_ratio by (auto simp: resolutions_ok_def choice_ok_def)

theorem selections_exclusive_witness:
  "(lit ''gpt'', [(lit ''model_price'', JNum (Fin 2))]) \<in> set (u_resolutions sample_sync) \<and>
   \<not> (hasPrice [(lit ''model_price'', JNum (Fin 2))] \<and> hasRatio [(lit ''model_price'', JNum (Fin 2))])"
  using selections_exclusive [OF sample_reachable, of "lit ''gpt''" "[(lit ''model_price'', JNum (Fin 2))]"]
  by (simp add: sample_sync_state(1) del: list.map)

end
