(* ===== verification/Upstream_Sync_Save.thy ===== *)
theory Upstream_Sync_Save
  imports Upstream_Sync_Props
begin

text \<open>
  What a synchronisation of prices writes: the settings after it, entry by entry, when every write is stored, and what is left
  when a write is refused or fails.
\<close>

section \<open>Fields and settings\<close>

definition field_name :: "pricing_key \<Rightarrow> jstring" where
  "field_name k =
     lit (case k of
        ModelPrice \<Rightarrow> ''model_price'' | ModelRatio \<Rightarrow> ''model_ratio''
      | LaneRatio lane \<Rightarrow>
          (case lane of
             Completion \<Rightarrow> ''completion_ratio'' | Cache \<Rightarrow> ''cache_ratio'' | CreateCache \<Rightarrow> ''create_cache_ratio''
           | ImageLane \<Rightarrow> ''image_ratio'' | AudioInput \<Rightarrow> ''audio_ratio'' | AudioOutput \<Rightarrow> ''audio_completion_ratio'')
      | BillingMode \<Rightarrow> ''billing_mode'' | BillingExpr \<Rightarrow> ''billing_expr'')"

definition written_value :: "pricing_key \<Rightarrow> jval \<Rightarrow> jval" where
  "written_value k v = (if k = BillingMode \<or> k = BillingExpr then v else JNum (num_of v))"

text \<open>The entry of a model after its selection has been written.\<close>

definition synced_value :: "obj \<Rightarrow> pricing_key \<Rightarrow> jval option \<Rightarrow> jval option" where
  "synced_value ratios k old =
     (case map_of ratios (field_name k) of
        Some v \<Rightarrow> Some (written_value k v)
      | None \<Rightarrow> if hasPrice ratios \<and> k \<in> set ratio_keys \<or> hasRatio ratios \<and> k = ModelPrice then None else old)"

definition record_text_ok :: "jstring \<Rightarrow> bool" where
  "record_text_ok s \<longleftrightarrow> (case parseJsonRecord s of Some m \<Rightarrow> plain_obj m | None \<Rightarrow> False)"

definition record_value :: "jstring \<Rightarrow> jstring \<Rightarrow> jval option" where
  "record_value s n = Option.bind (parseJsonRecord s) (\<lambda>m. map_of m n)"

definition records_ok :: "pricing_texts \<Rightarrow> bool" where
  "records_ok texts \<longleftrightarrow> list_all (\<lambda>k. record_text_ok (texts k)) sync_keys"

text \<open>Fields of settings, each once, with values that JSON can hold.\<close>

definition fields_ok :: "obj \<Rightarrow> bool" where
  "fields_ok fs \<longleftrightarrow>
     distinct (map fst fs) \<and>
     list_all (\<lambda>(f, v). case key_of_field f of Some k \<Rightarrow> f = field_name k \<and> json_ok (written_value k v) | None \<Rightarrow> False) fs"

definition selection_ok :: "resolutions \<Rightarrow> bool" where
  "selection_ok res \<longleftrightarrow> distinct (map fst res) \<and> list_all (\<lambda>(m, fs). name_ok m \<and> fields_ok fs) res"

lemma sync_keys_all: "k \<in> set sync_keys"
proof (cases k)
  case (LaneRatio lane)
  then show ?thesis by (cases lane) (simp_all add: sync_keys_def)
qed (simp_all add: sync_keys_def)

lemma sync_keys_distinct: "distinct sync_keys"
  by (simp add: sync_keys_def)

lemma key_of_field_name: "key_of_field (field_name k) = Some k"
proof -
  have "list_all (\<lambda>k. key_of_field (field_name k) = Some k) sync_keys" by code_simp
  then show ?thesis using sync_keys_all [of k] by (simp add: list_all_iff)
qed

lemma field_name_eq: "field_name k = field_name k' \<longleftrightarrow> k = k'"
  by (metis key_of_field_name option.inject)

lemma numeric_field: "field_name k \<in> set NUMERIC_SYNC_FIELDS \<longleftrightarrow> k \<noteq> BillingMode \<and> k \<noteq> BillingExpr"
proof -
  have "list_all (\<lambda>k. field_name k \<in> set NUMERIC_SYNC_FIELDS \<longleftrightarrow> k \<noteq> BillingMode \<and> k \<noteq> BillingExpr) sync_keys" by code_simp
  then show ?thesis using sync_keys_all [of k] by (simp add: list_all_iff)
qed

lemma record_okD: "records_ok texts \<Longrightarrow> record_text_ok (texts k)"
  using sync_keys_all [of k] by (auto simp: records_ok_def list_all_iff)

lemma record_okE:
  assumes "record_text_ok s"
  obtains m where "parseJsonRecord s = Some m" "plain_obj m" "record_value s = map_of m"
  using assms by (auto simp: record_text_ok_def record_value_def fun_eq_iff split: option.splits)

lemma record_written:
  assumes "plain_obj m"
  shows "record_text_ok (json_pretty (JObj m))" and "record_value (json_pretty (JObj m)) = map_of m"
proof -
  have "json_parse (json_pretty (JObj m)) = Some (JObj m)"
    using assms json_pp.dec_enc [of "JObj m"] by (simp add: plain_obj_def del: json_ok.simps)
  moreover have "json_pretty (JObj m) \<noteq> []" by (simp add: json_pretty_def Let_def)
  ultimately have "parseJsonRecord (json_pretty (JObj m)) = Some m" by (simp add: parseJsonRecord_def as_object_def)
  then show "record_text_ok (json_pretty (JObj m))" "record_value (json_pretty (JObj m)) = map_of m"
    using assms by (auto simp: record_text_ok_def record_value_def fun_eq_iff)
qed

lemma malformed_text: "raw \<noteq> [] \<Longrightarrow> json_parse raw = None \<Longrightarrow> record_text_ok raw \<and> record_value raw n = None"
  by (simp add: record_text_ok_def record_value_def parseJsonRecord_def plain_obj_def obj_build_def)

section \<open>Writing the maps\<close>

lemma write_field_name:
  "m \<noteq> lit ''__proto__'' \<Longrightarrow>
   write_field m (field_name k, v) (Some maps) = Some (maps(k := obj_put m (written_value k v) (maps k)))"
  by (simp add: write_field_def key_of_field_name numeric_field written_value_def assign_put del: list.map)

definition maps_plain :: "ratio_maps \<Rightarrow> bool" where
  "maps_plain maps \<longleftrightarrow> list_all (\<lambda>k. plain_obj (maps k)) sync_keys"

lemma maps_plain_iff: "maps_plain maps \<longleftrightarrow> (\<forall>k. plain_obj (maps k))"
  using sync_keys_all by (auto simp: maps_plain_def list_all_iff)

lemma fields_ok_Cons:
  assumes "fields_ok ((f, v) # fs)"
  obtains k where "f = field_name k" "json_ok (written_value k v)" "fields_ok fs" "map_of fs (field_name k) = None"
  using assms by (auto simp: fields_ok_def map_of_eq_None_iff split: option.splits)

lemma write_fields:
  assumes "fields_ok fs" and "name_ok m" and "maps_plain maps"
  shows "\<exists>maps'. foldl (\<lambda>r f. write_field m f r) (Some maps) fs = Some maps' \<and> maps_plain maps' \<and>
    (\<forall>k. map_of (maps' k) = (map_of (maps k))(m :=
       case map_of fs (field_name k) of Some v \<Rightarrow> Some (written_value k v) | None \<Rightarrow> map_of (maps k) m))"
  using assms
proof (induction fs arbitrary: maps)
  case (Cons x fs)
  obtain f v where x: "x = (f, v)" by force
  from Cons.prems(1) obtain k where k: "f = field_name k" "json_ok (written_value k v)" "fields_ok fs" "map_of fs (field_name k) = None"
    unfolding x by (rule fields_ok_Cons)
  let ?maps = "maps(k := obj_put m (written_value k v) (maps k))"
  have n: "m \<noteq> lit ''__proto__''" "key_ok m" using Cons.prems(2) unfolding name_ok_def by simp_all
  have p: "maps_plain ?maps" using Cons.prems(3) plain_obj_put [OF _ n(2) k(2)] by (simp add: maps_plain_iff)
  from Cons.IH [OF k(3) Cons.prems(2) p] obtain maps' where
    w: "foldl (\<lambda>r f. write_field m f r) (Some ?maps) fs = Some maps'" "maps_plain maps'"
      "\<forall>k'. map_of (maps' k') = (map_of (?maps k'))(m :=
         case map_of fs (field_name k') of Some v \<Rightarrow> Some (written_value k' v) | None \<Rightarrow> map_of (?maps k') m)" by blast
  have "foldl (\<lambda>r f. write_field m f r) (Some maps) (x # fs) = Some maps'"
    using w(1) by (simp add: x k(1) write_field_name [OF n(1)])
  moreover have "map_of (maps' k') = (map_of (maps k'))(m :=
       case map_of (x # fs) (field_name k') of Some v \<Rightarrow> Some (written_value k' v) | None \<Rightarrow> map_of (maps k') m)" for k'
    using w(3) k(4) by (auto simp: x k(1) field_name_eq fun_eq_iff split: option.split)
  ultimately show ?case using w(2) by blast
qed (auto simp: fun_eq_iff)

lemma drop_plain: "maps_plain maps \<Longrightarrow> maps_plain (drop_old m fs maps)"
  by (simp add: maps_plain_iff drop_old_def plain_obj_del)

lemma sync_model_value:
  assumes "fields_ok fs" and "name_ok m" and "maps_plain maps"
  shows "\<exists>maps'. sync_model (Some maps) (m, fs) = Some maps' \<and> maps_plain maps' \<and>
    (\<forall>k. map_of (maps' k) = (map_of (maps k))(m := synced_value fs k (map_of (maps k) m)))"
proof -
  have "map_of (drop_old m fs maps k) = (map_of (maps k))(m :=
      if hasPrice fs \<and> k \<in> set ratio_keys \<or> hasRatio fs \<and> k = ModelPrice then None else map_of (maps k) m)" for k
    by (auto simp: drop_old_def fun_eq_iff)
  moreover obtain maps' where "foldl (\<lambda>r f. write_field m f r) (Some (drop_old m fs maps)) fs = Some maps'" "maps_plain maps'"
      "\<forall>k. map_of (maps' k) = (map_of (drop_old m fs maps k))(m :=
         case map_of fs (field_name k) of Some v \<Rightarrow> Some (written_value k v) | None \<Rightarrow> map_of (drop_old m fs maps k) m)"
    using write_fields [OF assms(1,2) drop_plain [OF assms(3)]] by blast
  ultimately show ?thesis by (auto simp: sync_model_def synced_value_def fun_eq_iff split: option.split)
qed

lemma selection_Cons:
  "selection_ok ((m, fs) # res) \<Longrightarrow> fields_ok fs \<and> name_ok m \<and> selection_ok res \<and> map_of res m = None"
  by (auto simp: selection_ok_def map_of_eq_None_iff)

lemma final_value:
  assumes "selection_ok res" and "maps_plain maps"
  shows "\<exists>maps'. finalRatios maps res = Some maps' \<and> maps_plain maps' \<and>
    (\<forall>k n. map_of (maps' k) n = (case map_of res n of None \<Rightarrow> map_of (maps k) n | Some fs \<Rightarrow> synced_value fs k (map_of (maps k) n)))"
  using assms unfolding finalRatios_def
proof (induction res arbitrary: maps)
  case (Cons x res)
  obtain m fs where x: "x = (m, fs)" by force
  have s: "fields_ok fs" "name_ok m" "selection_ok res" "map_of res m = None"
    using selection_Cons Cons.prems(1) unfolding x by blast+
  obtain maps1 where m1: "sync_model (Some maps) (m, fs) = Some maps1" "maps_plain maps1"
    "\<forall>k. map_of (maps1 k) = (map_of (maps k))(m := synced_value fs k (map_of (maps k) m))"
    using sync_model_value [OF s(1,2) Cons.prems(2)] by blast
  obtain maps' where m2: "foldl sync_model (Some maps1) res = Some maps'" "maps_plain maps'"
    "\<forall>k n. map_of (maps' k) n = (case map_of res n of None \<Rightarrow> map_of (maps1 k) n | Some fs \<Rightarrow> synced_value fs k (map_of (maps1 k) n))"
    using Cons.IH [OF s(3) m1(2)] by blast
  have "map_of (maps' k) n =
      (case map_of (x # res) n of None \<Rightarrow> map_of (maps k) n | Some fs \<Rightarrow> synced_value fs k (map_of (maps k) n))" for k n
    using m2(3) m1(3) s(4) by (auto simp: x split: option.split)
  with m1(1) m2(1,2) show ?case by (auto simp: x)
qed simp

section \<open>Running a synchronisation\<close>

definition answers :: "update_answer list \<Rightarrow> sync_state \<Rightarrow> sync_state" where
  "answers as st = foldl (\<lambda>s a. update_answered a s) st as"

fun stored_writes :: "update_answer list \<Rightarrow> (pricing_key \<times> jstring) list \<Rightarrow> pricing_texts \<Rightarrow> pricing_texts" where
  "stored_writes (a # as) ((k, s) # us) srv = stored_writes as us (if a = Stored then srv(k := s) else srv)"
| "stored_writes _ _ srv = srv"

lemma answered_step:
  "u_pending st = Some ((k, s) # us) \<Longrightarrow> a \<noteq> Failed \<Longrightarrow>
   update_answered a st = continue_sync us (st\<lparr>u_server := (if a = Stored then (u_server st)(k := s) else u_server st)\<rparr>)"
  by (cases a) (simp_all add: update_answered_def)

lemma answers_some:
  "u_pending st = Some us \<Longrightarrow> length as < length us \<Longrightarrow> Failed \<notin> set as \<Longrightarrow>
   answers as st = st\<lparr>u_server := stored_writes as us (u_server st), u_pending := Some (drop (length as) us)\<rparr>"
proof (induction as us "u_server st" arbitrary: st rule: stored_writes.induct)
  case (1 a as k s us)
  let ?st = "st\<lparr>u_server := (if a = Stored then (u_server st)(k := s) else u_server st), u_pending := Some us\<rparr>"
  have "us \<noteq> []" "a \<noteq> Failed" using "1.prems"(2,3) by auto
  then have "update_answered a st = ?st"
    using answered_step [OF "1.prems"(1) \<open>a \<noteq> Failed\<close>] by (simp add: continue_sync_def)
  moreover have "answers as ?st = ?st\<lparr>u_server := stored_writes as us (u_server ?st), u_pending := Some (drop (length as) us)\<rparr>"
    using "1.prems" by (intro "1.hyps") auto
  ultimately show ?case by (simp add: answers_def)
qed (auto simp: answers_def)

lemma answers_append: "answers (as @ bs) st = answers bs (answers as st)"
  by (simp add: answers_def)

lemma stored_writes_snoc:
  "length as < length us \<Longrightarrow>
   stored_writes (as @ [a]) us srv =
     (if a = Stored then (stored_writes as us srv)(fst (us ! length as) := snd (us ! length as)) else stored_writes as us srv)"
  by (induction as us srv rule: stored_writes.induct) (auto simp: neq_Nil_conv)

lemma answers_all:
  assumes "u_pending st = Some us" and "us \<noteq> []" and "length as = length us" and "Failed \<notin> set as"
  shows "answers as st = sync_succeeded (st\<lparr>u_server := stored_writes as us (u_server st)\<rparr>)"
proof -
  obtain bs a where as: "as = bs @ [a]" using assms(2,3) by (cases as rule: rev_cases) auto
  then have l: "length bs < length us" "Failed \<notin> set bs" "a \<noteq> Failed" using assms(3,4) by auto
  have d: "drop (length bs) us = [us ! length bs]" using assms(3) by (simp add: as id_take_nth_drop Cons_nth_drop_Suc [symmetric])
  obtain k s where ks: "us ! length bs = (k, s)" by force
  show ?thesis
    using answers_some [OF assms(1) l(1,2)] l(3)
    by (simp add: as answers_append d ks stored_writes_snoc [OF l(1)])
      (simp add: answers_def answered_step continue_sync_def sync_succeeded_def)
qed

lemma stored_value:
  "distinct (map fst us) \<Longrightarrow> length us = n \<Longrightarrow> (k, s) \<in> set us \<Longrightarrow> stored_writes (replicate n Stored) us srv k = s"
proof -
  have keep: "k \<notin> fst ` set us \<Longrightarrow> stored_writes as us srv k = srv k" for as us srv k
    by (induction as us srv rule: stored_writes.induct) auto
  show "distinct (map fst us) \<Longrightarrow> length us = n \<Longrightarrow> (k, s) \<in> set us \<Longrightarrow> stored_writes (replicate n Stored) us srv k = s"
  proof (induction us arbitrary: n srv)
    case (Cons u us)
    obtain k' s' where u: "u = (k', s')" by force
    obtain n' where n: "n = Suc n'" "length us = n'" using Cons.prems(2) by (cases n) auto
    show ?case
    proof (cases "(k, s) \<in> set us")
      case True then show ?thesis using Cons n by (simp add: u)
    next
      case False
      then have "k = k'" "s = s'" "k \<notin> fst ` set us" using Cons.prems by (auto simp: u)
      then show ?thesis by (simp add: u n keep)
    qed
  qed simp
qed

lemma parsed_ok:
  assumes "records_ok texts"
  obtains maps where "parsedRatios texts = Some maps" "maps_plain maps" "\<forall>k. map_of (maps k) = record_value (texts k)"
proof -
  have "parseJsonRecord (texts k) \<noteq> None" "plain_obj (the (parseJsonRecord (texts k)))"
    "map_of (the (parseJsonRecord (texts k))) = record_value (texts k)" for k
    using record_okD [OF assms, of k] by (auto elim: record_okE)
  then show thesis using that by (simp add: parsedRatios_def maps_plain_iff list_all_iff)
qed

definition synced_record :: "resolutions \<Rightarrow> pricing_texts \<Rightarrow> pricing_key \<Rightarrow> jstring \<Rightarrow> jval option" where
  "synced_record res texts k n =
     (case map_of res n of None \<Rightarrow> record_value (texts k) n | Some fs \<Rightarrow> synced_value fs k (record_value (texts k) n))"

text \<open>A synchronisation of settings that hold objects: the ten writes.\<close>

lemma started_sync:
  assumes "records_ok (u_texts st)" and "selection_ok (u_resolutions st)"
  obtains us where "start_sync st = Some (st\<lparr>u_pending := Some us\<rparr>)" "map fst us = sync_keys"
    "\<forall>(k, s) \<in> set us. record_value s = synced_record (u_resolutions st) (u_texts st) k"
proof -
  obtain maps where m: "parsedRatios (u_texts st) = Some maps" "maps_plain maps" "\<forall>k. map_of (maps k) = record_value (u_texts st k)"
    using parsed_ok [OF assms(1)] by blast
  obtain maps' where f: "finalRatios maps (u_resolutions st) = Some maps'" "maps_plain maps'"
    "\<forall>k n. map_of (maps' k) n = (case map_of (u_resolutions st) n of None \<Rightarrow> map_of (maps k) n | Some fs \<Rightarrow> synced_value fs k (map_of (maps k) n))"
    using final_value [OF assms(2) m(2)] by blast
  have v: "record_value (json_pretty (JObj (maps' k))) = synced_record (u_resolutions st) (u_texts st) k" for k
    using record_written(2) [of "maps' k"] f(2,3) m(3) by (auto simp: maps_plain_iff synced_record_def fun_eq_iff split: option.split)
  have "map fst (sync_updates maps') = sync_keys" by (simp add: sync_updates_def comp_def)
  moreover have "sync_updates maps' \<noteq> []" by (simp add: sync_updates_def sync_keys_def)
  ultimately show thesis
    using that [of "sync_updates maps'"] m(1) f(1) v
    by (auto simp: start_sync_def performSync_def continue_sync_def) (auto simp: sync_updates_def)
qed

text \<open>The two ways to start: the button, when nothing conflicts, and the dialog.\<close>

definition starts :: "(jstring \<Rightarrow> jstring) \<Rightarrow> sync_event \<Rightarrow> sync_state \<Rightarrow> bool" where
  "starts native ev st \<longleftrightarrow>
     ev = ConfirmConflict \<or>
     ev = ApplySync \<and> (case parsedRatios (u_texts st) of Some maps \<Rightarrow> conflicts_of native (u_differences st) maps (u_resolutions st) = [] | None \<Rightarrow> False)"

lemma starts_sync:
  assumes "starts native ev st" and "records_ok (u_texts st)" and "selection_ok (u_resolutions st)"
  obtains us b where "sync_handle native ev st = st\<lparr>u_confirmLoading := b, u_pending := Some us\<rparr>" "map fst us = sync_keys"
    "\<forall>(k, s) \<in> set us. record_value s = synced_record (u_resolutions st) (u_texts st) k"
proof (cases "ev = ConfirmConflict")
  case True
  let ?st = "st\<lparr>u_confirmLoading := True\<rparr>"
  obtain us where "start_sync ?st = Some (?st\<lparr>u_pending := Some us\<rparr>)" "map fst us = sync_keys"
    "\<forall>(k, s) \<in> set us. record_value s = synced_record (u_resolutions st) (u_texts st) k"
    using started_sync [of ?st] assms(2,3) by auto
  then show thesis using that [of us True] True by (simp add: handleConfirmConflict_def)
next
  case False
  obtain us where "start_sync st = Some (st\<lparr>u_pending := Some us\<rparr>)" "map fst us = sync_keys"
    "\<forall>(k, s) \<in> set us. record_value s = synced_record (u_resolutions st) (u_texts st) k"
    using started_sync [OF assms(2,3)] by blast
  then show thesis using that [of us "u_confirmLoading st"] False assms(1)
    by (auto simp: starts_def handleApplySync_def split: option.splits)
qed

text \<open>C37: A synchronisation that gets through changes what was selected and nothing else. From settings that hold objects, and a selection
  of known fields with values JSON can hold, either way of starting followed by ten stored writes ends with no selection left, and under
  every setting each model has: the selected value, where one was selected; no entry, where the selection replaces a ratio
  price by a fixed one or the reverse; the entry it had otherwise.\<close>

theorem sync_exact:
  assumes "starts native ev st" and "records_ok (u_texts st)" and "selection_ok (u_resolutions st)"
    and "st2 = answers (replicate 10 Stored) (sync_handle native ev st)"
  shows "u_pending st2 = None \<and> u_resolutions st2 = [] \<and>
    (\<forall>k n. record_value (u_server st2 k) n =
       (case map_of (u_resolutions st) n of
          None \<Rightarrow> record_value (u_texts st k) n
        | Some fs \<Rightarrow> synced_value fs k (record_value (u_texts st k) n)))"
proof -
  obtain us b where s: "sync_handle native ev st = st\<lparr>u_confirmLoading := b, u_pending := Some us\<rparr>" "map fst us = sync_keys"
    "\<forall>(k, s) \<in> set us. record_value s = synced_record (u_resolutions st) (u_texts st) k"
    using starts_sync [OF assms(1-3)] by blast
  have l: "length us = 10" "us \<noteq> []" using arg_cong [OF s(2), of length] by (auto simp: sync_keys_def)
  have st2: "st2 = sync_succeeded (st\<lparr>u_confirmLoading := b, u_pending := Some us,
      u_server := stored_writes (replicate 10 Stored) us (u_server st)\<rparr>)"
    unfolding assms(4) s(1) using l by (subst answers_all [of _ us]) simp_all
  have "record_value (u_server st2 k) n = synced_record (u_resolutions st) (u_texts st) k n" for k n
  proof -
    obtain s where ks: "(k, s) \<in> set us" using sync_keys_all [of k] unfolding s(2) [symmetric] by auto
    have "u_server st2 k = s"
      using stored_value [OF _ l(1) ks] s(2) sync_keys_distinct by (simp add: st2 sync_succeeded_def)
    then show ?thesis using s(3) ks by auto
  qed
  then show ?thesis by (simp add: st2 sync_succeeded_def synced_record_def)
qed

lemma sample_records_ok: "records_ok (u_texts sample_sync)"
  by code_simp

lemma sample_selection_ok: "selection_ok (u_resolutions sample_sync)"
  by code_simp

theorem sync_exact_witness:
  "\<exists>st2. st2 = answers (replicate 10 Stored) (sync_handle (\<lambda>_. []) ConfirmConflict sample_sync) \<and>
     record_value (u_server st2 ModelPrice) (lit ''gpt'') = Some (JNum (Fin 2)) \<and>
     record_value (u_server st2 ModelRatio) (lit ''gpt'') = None \<and>
     record_value (u_server st2 ModelPrice) (lit ''dall'') = Some (JNum (Fin (1/2)))"
proof -
  have v: "synced_value [(lit ''model_price'', JNum (Fin 2))] ModelPrice None = Some (JNum (Fin 2))"
    "synced_value [(lit ''model_price'', JNum (Fin 2))] ModelRatio (Some (JNum (Fin (3/2)))) = None"
    "record_value (u_texts sample_sync ModelPrice) (lit ''gpt'') = None"
    "record_value (u_texts sample_sync ModelRatio) (lit ''gpt'') = Some (JNum (Fin (3/2)))"
    "record_value (u_texts sample_sync ModelPrice) (lit ''dall'') = Some (JNum (Fin (1/2)))" "lit ''dall'' \<noteq> lit ''gpt''"
    by code_simp+
  have s: "starts (\<lambda>_. []) ConfirmConflict sample_sync" by (simp add: starts_def)
  from sync_exact [OF s sample_records_ok sample_selection_ok refl] show ?thesis
    by (simp add: sample_sync_state(1) v del: list.map)
qed

section \<open>When a write does not get through\<close>

lemma stored_take: "stored_writes (replicate n Stored) us srv = stored_writes (replicate n Stored) (take n us) srv"
proof (induction n arbitrary: us srv)
  case (Suc n) then show ?case by (cases us) auto
qed simp

lemma stored_keep: "k \<notin> fst ` set us \<Longrightarrow> stored_writes as us srv k = srv k"
  by (induction as us srv rule: stored_writes.induct) auto

lemma ratio_field: "k \<in> set ratio_keys \<Longrightarrow> field_name k \<in> set RATIO_SYNC_FIELDS"
proof -
  have "list_all (\<lambda>k. field_name k \<in> set RATIO_SYNC_FIELDS) ratio_keys" by code_simp
  then show "k \<in> set ratio_keys \<Longrightarrow> ?thesis" by (simp add: list_all_iff)
qed

lemma price_drops_ratio:
  assumes "hasPrice fs" and "\<not> hasRatio fs" and "k \<in> set ratio_keys"
  shows "synced_value fs k old = None"
proof -
  have "map_of fs (field_name k) = None"
    using assms(2) ratio_field [OF assms(3)] by (auto simp: hasRatio_def list_ex_iff map_of_eq_None_iff)
  then show ?thesis using assms(1,3) by (simp add: synced_value_def)
qed

text \<open>C38: A synchronisation that fails half way leaves a model without a price. When a model with a ratio price takes over a fixed
  one, its ratios are removed by the first seven writes and the fixed price is the eighth: if that one fails, the settings on the server
  hold neither for the model. The selection stays, so that it can be tried again.\<close>

theorem failed_sync_leaves_unpriced:
  assumes "sync_reachable native st" and "starts native ev st" and "records_ok (u_texts st)" and "selection_ok (u_resolutions st)"
    and "map_of (u_resolutions st) m = Some fs" and "hasPrice fs" and "record_value (u_server st ModelPrice) m = None"
    and "st2 = answers (replicate 7 Stored @ [Failed]) (sync_handle native ev st)"
  shows "(\<forall>k \<in> set (ModelPrice # ratio_keys). record_value (u_server st2 k) m = None) \<and>
    u_pending st2 = None \<and> u_resolutions st2 = u_resolutions st"
proof -
  obtain us b where s: "sync_handle native ev st = st\<lparr>u_confirmLoading := b, u_pending := Some us\<rparr>" "map fst us = sync_keys"
    "\<forall>(k, s) \<in> set us. record_value s = synced_record (u_resolutions st) (u_texts st) k"
    using starts_sync [OF assms(2-4)] by blast
  have l: "length us = 10" using arg_cong [OF s(2), of length] by (simp add: sync_keys_def)
  have t: "map fst (take 7 us) = ratio_keys" using s(2) by (simp add: take_map [symmetric] sync_keys_def ratio_keys_def)
  obtain k1 s1 us' where d: "drop 7 us = (k1, s1) # us'" using l by (cases "drop 7 us") auto
  let ?server = "stored_writes (replicate 7 Stored) (take 7 us) (u_server st)"
  have st2: "st2 = st\<lparr>u_confirmLoading := False, u_pending := None, u_server := ?server\<rparr>"
    unfolding assms(8) s(1) using l
    by (simp add: answers_append answers_some [of _ us] stored_take [symmetric])
      (simp add: answers_def update_answered_def d)
  have "(m, fs) \<in> set (u_resolutions st)" by (rule map_of_SomeD [OF assms(5)])
  then have r: "\<not> hasRatio fs"
    using reachable_ok [OF assms(1)] price_not_ratio [of fs] assms(6) by (auto simp: resolutions_ok_def choice_ok_def)
  have "record_value (u_server st2 k) m = None" if k: "k \<in> set ratio_keys" for k
  proof -
    obtain s where ks: "(k, s) \<in> set (take 7 us)" using k unfolding t [symmetric] by auto
    have "u_server st2 k = s"
      using stored_value [OF _ _ ks, of 7] l t by (simp add: st2 ratio_keys_def)
    moreover have "record_value s m = synced_value fs k (record_value (u_texts st k) m)"
      using s(3) in_set_takeD [OF ks] assms(5) by (auto simp: synced_record_def)
    ultimately show ?thesis using price_drops_ratio [OF assms(6) r k] by simp
  qed
  moreover have "u_server st2 ModelPrice = u_server st ModelPrice"
  proof -
    have "ModelPrice \<notin> fst ` set (take 7 us)" using arg_cong [OF t, of set] by (auto simp: ratio_keys_def)
    then show ?thesis by (simp add: st2 stored_keep)
  qed
  ultimately show ?thesis using assms(7) by (simp add: st2)
qed

theorem failed_sync_leaves_unpriced_witness:
  "\<exists>st2. st2 = answers (replicate 7 Stored @ [Failed]) (sync_handle (\<lambda>_. []) ConfirmConflict sample_sync) \<and>
     record_value (u_server sample_sync ModelRatio) (lit ''gpt'') = Some (JNum (Fin (3/2))) \<and>
     record_value (u_server st2 ModelRatio) (lit ''gpt'') = None \<and> record_value (u_server st2 ModelPrice) (lit ''gpt'') = None"
proof -
  let ?fs = "[(lit ''model_price'', JNum (Fin 2))]"
  have v: "map_of (u_resolutions sample_sync) (lit ''gpt'') = Some ?fs" "hasPrice ?fs"
    "record_value (u_server sample_sync ModelPrice) (lit ''gpt'') = None"
    "record_value (u_server sample_sync ModelRatio) (lit ''gpt'') = Some (JNum (Fin (3/2)))" by code_simp+
  have s: "starts (\<lambda>_. []) ConfirmConflict sample_sync" by (simp add: starts_def)
  from failed_sync_leaves_unpriced [OF sample_reachable s sample_records_ok sample_selection_ok v(1-3) refl] v(4) show ?thesis
    by (simp add: ratio_keys_def del: list.map)
qed

text \<open>C39: A synchronisation that is refused looks like one that was stored. Whatever mix of stored and refused answers a
  synchronisation gets, the page ends in the state that ten stored answers give (the differences removed, the selection cleared); only the
  settings of the server differ, and they are unchanged when every write was refused.\<close>

theorem refused_looks_stored:
  assumes "starts native ev st" and "records_ok (u_texts st)" and "selection_ok (u_resolutions st)"
    and "length as = 10" and "Failed \<notin> set as" and "st1 = sync_handle native ev st"
  shows "answers as st1 = (answers (replicate 10 Stored) st1)\<lparr>u_server := u_server (answers as st1)\<rparr> \<and>
    u_resolutions (answers as st1) = [] \<and> (Stored \<notin> set as \<longrightarrow> u_server (answers as st1) = u_server st)"
proof -
  obtain us b where s: "sync_handle native ev st = st\<lparr>u_confirmLoading := b, u_pending := Some us\<rparr>" "map fst us = sync_keys"
    using starts_sync [OF assms(1-3)] by blast
  have l: "length us = 10" "us \<noteq> []" using arg_cong [OF s(2), of length] by (auto simp: sync_keys_def)
  have a: "answers as st1 = sync_succeeded (st1\<lparr>u_server := stored_writes as us (u_server st)\<rparr>)"
    if "length as = 10" "Failed \<notin> set as" for as
    unfolding assms(6) s(1) using l that by (subst answers_all [of _ us]) simp_all
  have "Stored \<notin> set as \<Longrightarrow> stored_writes as us srv = srv" for srv
    by (induction as us srv rule: stored_writes.induct) auto
  then show ?thesis using a [OF assms(4,5)] a [of "replicate 10 Stored"] by (simp add: sync_succeeded_def)
qed

theorem refused_looks_stored_witness:
  "\<exists>st2. st2 = answers (replicate 10 Refused) (sync_handle (\<lambda>_. []) ConfirmConflict sample_sync) \<and>
     u_resolutions st2 = [] \<and> u_server st2 = u_server sample_sync \<and> u_resolutions sample_sync \<noteq> []"
proof -
  have s: "starts (\<lambda>_. []) ConfirmConflict sample_sync" by (simp add: starts_def)
  from refused_looks_stored [OF s sample_records_ok sample_selection_ok _ _ refl, of "replicate 10 Refused"] show ?thesis
    by (simp add: sample_sync_state(1))
qed

end
