(* ===== verification/Spec2Isabelle.thy ===== *)
theory Spec2Isabelle
  imports Http_Status_Code_Rules Playground_Session Billing_Expr_Props Channel_Utils Model_Mapping Secure_Verification Seed Notifications Tier_Expr Param_Override_Safety Group_Ratio_Props Group_Special Channel_Drawer_Props Model_Pricing_Props Tiered_Sheet Upstream_Sync_Save
begin

text \<open>
  A model of the web console of the gateway (\<^verbatim>\<open>src/web/default/src\<close>, TypeScript): the part of the repository in
  which administrators configure channels, prices and groups and users chat, and in which texts typed by people become
  JSON, expressions and requests. Paths below are relative to that directory.

  \<^bold>\<open>Values of the language.\<close> \<open>JS_Prelude\<close> holds strings as lists of UTF-16 code units with the string and array methods the
  code calls, stable sorting and lists without duplicates; \<open>JS_Number\<close> doubles as rationals rounded to 53 bits, with
  infinities and NaN (negative zero is not told from zero), number parsing and printing, \<open>toFixed\<close>; \<open>JS_Bits\<close> the
  operators on 32-bit integers; \<open>JS_Regex\<close> a backtracking matcher with the patterns of the source as data; \<open>JS_Json\<close>
  JSON values, objects with the property order of the language, the JSON parser and printer and the proof that reading
  what was printed gives the value back; \<open>JS_Object\<close> maps with computed names, including the names every object
  inherits; \<open>Id_Supply\<close> the locale of an id counter, interpreted for every editor that numbers its rows;
  \<open>JSON_Text\<close>, \<open>JSON_Maps\<close> reading and writing of settings kept as JSON text
  (\<^verbatim>\<open>features/system-settings/utils/json-parser.ts\<close>, \<^verbatim>\<open>models/utils.ts\<close>).

  \<^bold>\<open>Channels.\<close> \<open>Channel_Form\<close> models the defaults, the validation and the payloads of a channel
  (\<^verbatim>\<open>features/channels/lib/channel-form.ts\<close>), \<open>Channel_Utils\<close> labels, keys, attention flags and the aggregation by tag
  (\<^verbatim>\<open>lib/channel-utils.ts\<close>, \<^verbatim>\<open>multi-key-utils.ts\<close>, \<^verbatim>\<open>constants.ts\<close>), \<open>Model_Mapping\<close> the checks of a save
  and the submit handler with the answers of the user as arguments (\<^verbatim>\<open>lib/model-mapping-validation.ts\<close>,
  \<^verbatim>\<open>status-code-risk-guard.ts\<close>, \<^verbatim>\<open>upstream-update-utils.ts\<close>, \<^verbatim>\<open>hooks/use-channel-mutate-form.ts\<close>).
  \<open>Channel_Drawer\<close> is the drawer itself (\<^verbatim>\<open>components/drawers/channel-mutate-drawer.tsx\<close>): its state, its effects, its
  handlers and the submit handler as a continuation that waits for two dialogs and the server; \<open>Channel_Drawer_Props\<close>
  shows that it refines the handler of \<open>Model_Mapping\<close>, that it never gets stuck, and what its form keeps.
  \<open>Param_Override\<close>, \<open>_Editor\<close>, \<open>_Props\<close>, \<open>_Safety\<close> are the parameter override dialog
  (\<^verbatim>\<open>components/dialogs/param-override-editor-dialog.tsx\<close>): tables, parsers and builders, every handler, the round trip of
  rules, and the invariant of all reachable states. \<open>Http_Status_Code_Rules\<close> is \<^verbatim>\<open>lib/http-status-code-rules.ts\<close>.

  \<^bold>\<open>Prices.\<close> \<open>Billing_Expr\<close>, \<open>_Match\<close>, \<open>_Props\<close> model the billing expressions and request rules
  (\<^verbatim>\<open>features/pricing/lib/billing-expr.ts\<close>): the printers, the parsers by regular expressions, and their round trips;
  \<open>Tier_Expr\<close> the visual tiers (\<^verbatim>\<open>tier-expr.ts\<close>); \<open>Seed\<close> the seeded generator (\<^verbatim>\<open>seed.ts\<close>) against words of 32 bits.
  \<open>Model_Pricing\<close>, \<open>_Props\<close> are the editor of model prices (\<^verbatim>\<open>features/system-settings/models/pricing-format.ts\<close>,
  \<^verbatim>\<open>model-pricing-sheet.tsx\<close>, \<^verbatim>\<open>model-ratio-visual-editor.tsx\<close>): it uses the billing expressions for the models priced by
  one, and writes ten settings at once. \<open>Tiered_Editor\<close>, \<open>_Props\<close> are the editor of expression prices
  (\<^verbatim>\<open>tiered-pricing-editor.tsx\<close>): number drafts, tiers, request rules, templates, the visual and the text mode, and the effects
  that tell the parent; \<open>Tiered_Sheet\<close> puts it into the form of one model and shows that what is saved in the visual mode is what it shows,
  and what goes wrong with rules in the text mode and when the form moves on to the next model. \<open>Upstream_Sync\<close>, \<open>_Props\<close>, \<open>_Save\<close> take prices over from other channels
  (\<^verbatim>\<open>upstream-ratio-sync.tsx\<close>, \<^verbatim>\<open>-helpers.ts\<close>, \<^verbatim>\<open>-table.tsx\<close>): the selections, the conflicts, and the writes, which go to the same ten
  settings one after the other and may be refused or fail in between. \<open>Group_Ratio\<close>, \<open>_Props\<close> and \<open>Group_Special\<close> are the editors of group ratios
  and of special groups (\<^verbatim>\<open>group-ratio-visual-editor.tsx\<close>, \<^verbatim>\<open>group-special-usable-editor.tsx\<close>).

  \<^bold>\<open>Users.\<close> \<open>Playground_Messages\<close> and \<open>Playground_Session\<close> model the chat (\<^verbatim>\<open>features/playground\<close>): messages, the think
  tags, streaming, and the session as a step relation over the events of its sources. No message is left streaming as long as
  no request is sent during a stream; a suggestion clicked then opens a second source, and the message of the first is left
  behind. \<open>Secure_Verification\<close> and \<open>Passkey\<close>
  are the second factor in front of protected calls (\<^verbatim>\<open>features/auth/secure-verification\<close>, \<^verbatim>\<open>lib/secure-verification.ts\<close>,
  \<^verbatim>\<open>lib/passkey.ts\<close>), which the drawer uses before it shows a key: the call is tried first, and again after the verification when the server asks
  for one; \<open>Notifications\<close> the notification centre
  (\<^verbatim>\<open>stores/notification-store.ts\<close>, \<^verbatim>\<open>hooks/use-notifications.ts\<close>).

  \<^bold>\<open>How a component is modelled.\<close> A type or interface is a record or datatype, a function a function, a component a record of
  its states with one function per handler and effect; effects run after the event whose change they watch. What the
  user, the server or the browser does is an event; \<open>*_event_ok\<close> says when an event can happen (disabled buttons, modal
  dialogs), and an inductive \<open>*_reachable\<close> holds the states of all runs. Exceptions are \<open>None\<close> or a left value.

  \<^bold>\<open>Parameters.\<close> The clock, the comparison of the locale, the answers of the server, the text of a syntax error, the text of
  a built-in function and the file contents are arguments.

  \<^bold>\<open>Bounds and fuel.\<close> The JSON parser has fuel twice the length of the text plus two, and \<open>JS_Json\<close> shows it is enough; the
  star of a pattern runs at most once per character left; digits of a number are printed with fuel its value plus one.
  Loops over a fresh name are \<open>partial_function (option)\<close> and are shown to end, and so is the run of the effects of the expression
  editor, which repeats until no text changes.

  \<^bold>\<open>Not modelled.\<close> The server in Go and the desktop shell in Electron; generated code (the route tree), translations, styles
  and assets; the layout of the views and the libraries they call (table, form, query, router); charts and statistics with
  random data; the pages whose logic is a list of fields. Each component's text says what of its file is left out.
\<close>

end
